(* ===== verification/Wasman_Prelude.thy ===== *)
theory Wasman_Prelude
  imports Main "HOL-Library.Word" "HOL-Library.AList" "HOL-Library.Sublist"
begin

text \<open>
  Shared vocabulary of the development: bytes and machine words, Go strings as byte strings,
  fixed-size memory blocks, the in-place copy of a slice, Go maps as association lists, and the
  lemma collections that the component theories extend.
\<close>

unbundle bit_operations_syntax

section \<open>Types\<close>

type_synonym byte = "8 word"
type_synonym bytes = "8 word list"
type_synonym u32 = "32 word"
type_synonym u64 = "64 word"

text \<open>A Go \<open>int32\<close> is a 32-bit word read with \<^const>\<open>sint\<close>.\<close>

type_synonym i32 = "32 word"

text \<open>
  A Go map whose iteration order matters to the model is an association list with distinct keys;
  \<^const>\<open>AList.update\<close> is the indexed assignment and \<^const>\<open>map_of\<close> the lookup.
\<close>

type_synonym ('k, 'v) gomap = "('k \<times> 'v) list"

named_theorems store_simps \<open>equations that unfold a store operation\<close>
named_theorems mem_simps \<open>equations about linear memory\<close>
named_theorems block_simps \<open>equations about memory blocks\<close>

section \<open>Strings and bytes\<close>

definition byte_of_char :: "char \<Rightarrow> byte" where
  "byte_of_char c = word_of_nat (of_char c)"

definition char_of_byte :: "byte \<Rightarrow> char" where
  "char_of_byte b = char_of (unat b)"

text \<open>The Go conversions \<open>[]byte(s)\<close> and \<open>string(b)\<close>.\<close>

definition bytes_of_string :: "string \<Rightarrow> bytes" where
  "bytes_of_string s = map byte_of_char s"

definition string_of_bytes :: "bytes \<Rightarrow> string" where
  "string_of_bytes b = map char_of_byte b"

section \<open>Slices\<close>

text \<open>The slice expression \<open>xs[lo : lo + n]\<close> once its bounds are known to be right.\<close>

definition go_slice :: "nat \<Rightarrow> nat \<Rightarrow> 'a list \<Rightarrow> 'a list" where
  "go_slice lo n xs = take n (drop lo xs)"

text \<open>The built-in \<open>copy(dst, src)\<close>: the shorter of the two lengths is copied.\<close>

definition go_copy :: "'a list \<Rightarrow> 'a list \<Rightarrow> 'a list" where
  "go_copy dst src = take (length dst) src @ drop (length src) dst"

text \<open>\<open>copy(xs[i:i+len(ys)], ys)\<close> for a slice that is in range.\<close>

definition overwrite :: "'a list \<Rightarrow> nat \<Rightarrow> 'a list \<Rightarrow> 'a list" where
  "overwrite xs i ys = take i xs @ ys @ drop (i + length ys) xs"

section \<open>Lemmas on strings, slices and maps\<close>

lemma char_of_byte_of_char [simp]: "char_of_byte (byte_of_char c) = c"
proof -
  have "of_char c < (256::nat)" by simp
  then have "unat (word_of_nat (of_char c) :: byte) = of_char c"
    by (simp add: unat_of_nat)
  then show ?thesis by (simp add: char_of_byte_def byte_of_char_def)
qed

lemma byte_of_char_of_byte [simp]: "byte_of_char (char_of_byte b) = b"
proof -
  have "unat b < 256" using unsigned_less[of b] by simp
  then have "of_char (char_of (unat b)) = unat b" by simp
  then show ?thesis by (simp add: char_of_byte_def byte_of_char_def)
qed

lemma string_of_bytes_of_string [simp]: "string_of_bytes (bytes_of_string s) = s"
  by (simp add: string_of_bytes_def bytes_of_string_def comp_def)

lemma bytes_of_string_of_bytes [simp]: "bytes_of_string (string_of_bytes b) = b"
  by (simp add: string_of_bytes_def bytes_of_string_def comp_def)

lemma length_bytes_of_string [simp]: "length (bytes_of_string s) = length s"
  by (simp add: bytes_of_string_def)

lemma length_go_copy [simp]: "length (go_copy dst src) = length dst"
  by (simp add: go_copy_def)

lemma go_copy_same [simp]: "length src = length dst \<Longrightarrow> go_copy dst src = src"
  by (simp add: go_copy_def)

lemma length_overwrite [simp]:
  "i + length ys \<le> length xs \<Longrightarrow> length (overwrite xs i ys) = length xs"
  by (simp add: overwrite_def)

lemma nth_overwrite:
  assumes "i + length ys \<le> length xs" and "j < length xs"
  shows "overwrite xs i ys ! j = (if i \<le> j \<and> j < i + length ys then ys ! (j - i) else xs ! j)"
  using assms by (auto simp: overwrite_def nth_append min_def)

lemma length_go_slice [simp]: "length (go_slice lo n xs) = min n (length xs - lo)"
  by (simp add: go_slice_def)

lemma go_slice_overwrite_same:
  assumes "i + length ys \<le> length xs"
  shows "go_slice i (length ys) (overwrite xs i ys) = ys"
  using assms by (simp add: go_slice_def overwrite_def)

lemma map_of_foldr_update_set:
  "distinct (map fst ds) \<Longrightarrow>
   map_of (foldl (\<lambda>m kv. AList.update (fst kv) (snd kv) m) m0 ds) = map_of m0 ++ map_of ds"
proof (induction ds arbitrary: m0)
  case Nil
  then show ?case by simp
next
  case (Cons kv ds)
  have "map_of (foldl (\<lambda>m kv. AList.update (fst kv) (snd kv) m) m0 (kv # ds))
      = map_of (AList.update (fst kv) (snd kv) m0) ++ map_of ds"
    using Cons by simp
  also have "\<dots> = map_of m0 ++ map_of (kv # ds)"
  proof -
    have "map_of ds (fst kv) = None"
      using Cons.prems by (simp add: map_of_eq_None_iff)
    then show ?thesis
      by (auto simp: update_conv' map_add_def fun_eq_iff split: option.splits)
  qed
  finally show ?case .
qed

lemma distinct_foldl_update:
  "distinct (map fst m0) \<Longrightarrow>
   distinct (map fst (foldl (\<lambda>m kv. AList.update (fst kv) (snd kv) m) m0 ds))"
  by (induction ds arbitrary: m0) (auto simp: distinct_update)

end
