(* ===== verification/Go_Stdlib.thy ===== *)
theory Go_Stdlib
  imports Wasman_Prelude
begin

text \<open>
  What the source uses of Go's standard library: \<open>strconv\<close> (decimal printing and parsing of
  64-bit integers), \<open>strings\<close> (substring and suffix tests, lower case), \<open>hash/fnv\<close> (the 64-bit
  FNV-1a hash of a memory block), \<open>encoding/base64\<close> (how \<open>encoding/json\<close> writes a byte slice) and
  \<open>bytes.Reader\<close> (the download stream).
\<close>

section \<open>strconv\<close>

definition digit_char :: "nat \<Rightarrow> char" where
  "digit_char d = char_of (48 + d)"

definition char_digit :: "char \<Rightarrow> nat option" where
  "char_digit c = (let n = of_char c in if 48 \<le> n \<and> n \<le> 57 then Some (n - 48) else None)"

fun format_nat :: "nat \<Rightarrow> string" where
  "format_nat n = (if n < 10 then [digit_char n] else format_nat (n div 10) @ [digit_char (n mod 10)])"

declare format_nat.simps [simp del]

text \<open>\<open>strconv.FormatInt(i, 10)\<close>, \<open>strconv.Itoa\<close> and the verb \<open>%d\<close>.\<close>

definition FormatInt :: "int \<Rightarrow> string" where
  "FormatInt i = (if i < 0 then CHR ''-'' # format_nat (nat (- i)) else format_nat (nat i))"

fun parse_digits :: "nat \<Rightarrow> string \<Rightarrow> nat option" where
  "parse_digits acc [] = Some acc"
| "parse_digits acc (c # cs) =
     (case char_digit c of None \<Rightarrow> None | Some d \<Rightarrow> parse_digits (acc * 10 + d) cs)"

definition parse_nat :: "string \<Rightarrow> nat option" where
  "parse_nat s = (if s = [] then None else parse_digits 0 s)"

text \<open>
  \<open>strconv.ParseInt(s, 10, 64)\<close>: an optional sign, at least one digit, and a value in the range of
  \<open>int64\<close>; \<open>None\<close> is the syntax or range error.
\<close>

definition ParseInt64 :: "string \<Rightarrow> int option" where
  "ParseInt64 s =
     (let neg = (case s of [] \<Rightarrow> False | c # _ \<Rightarrow> c = CHR ''-'');
          body = (case s of [] \<Rightarrow> [] | c # cs \<Rightarrow> if c = CHR ''-'' \<or> c = CHR ''+'' then cs else s)
      in case parse_nat body of
           None \<Rightarrow> None
         | Some un \<Rightarrow>
             if \<not> neg \<and> un \<ge> 2 ^ 63 then None
             else if neg \<and> un > 2 ^ 63 then None
             else Some (if neg then - int un else int un))"

section \<open>strings\<close>

fun Contains :: "string \<Rightarrow> string \<Rightarrow> bool" where
  "Contains [] sub = (sub = [])"
| "Contains (c # cs) sub = (prefix sub (c # cs) \<or> Contains cs sub)"

definition HasSuffix :: "string \<Rightarrow> string \<Rightarrow> bool" where
  "HasSuffix s suf = suffix suf s"

definition lower_char :: "char \<Rightarrow> char" where
  "lower_char c = (let n = of_char c :: nat in if 65 \<le> n \<and> n \<le> 90 then char_of (n + 32) else c)"

definition ToLower :: "string \<Rightarrow> string" where
  "ToLower s = map lower_char s"

section \<open>hash/fnv\<close>

definition fnv_step :: "u64 \<Rightarrow> byte \<Rightarrow> u64" where
  "fnv_step h b = (h XOR ucast b) * 1099511628211"

text \<open>\<open>h.Reset(); h.Write(data); h.Sum64()\<close> for \<open>h = fnv.New64a()\<close>.\<close>

definition fnv64a :: "bytes \<Rightarrow> u64" where
  "fnv64a data = foldl fnv_step 14695981039346656037 data"

section \<open>encoding/base64\<close>

definition b64_char :: "nat \<Rightarrow> char" where
  "b64_char n = (if n < 26 then char_of (65 + n) else if n < 52 then char_of (71 + n)
     else if n < 62 then char_of (n - 4) else if n = 62 then CHR ''+'' else CHR ''/'')"

definition b64_val :: "char \<Rightarrow> nat option" where
  "b64_val ch = (let c = of_char ch in
     if 65 \<le> c \<and> c \<le> 90 then Some (c - 65)
     else if 97 \<le> c \<and> c \<le> 122 then Some (c - 71)
     else if 48 \<le> c \<and> c \<le> 57 then Some (c + 4)
     else if c = 43 then Some 62 else if c = 47 then Some 63 else None)"

fun b64_encode :: "bytes \<Rightarrow> string" where
  "b64_encode [] = []"
| "b64_encode [a] =
     [b64_char (unat a div 4), b64_char (unat a mod 4 * 16), CHR ''='', CHR ''='']"
| "b64_encode [a, b] =
     [b64_char (unat a div 4), b64_char (unat a mod 4 * 16 + unat b div 16),
      b64_char (unat b mod 16 * 4), CHR ''='']"
| "b64_encode (a # b # c # rest) =
     b64_char (unat a div 4) # b64_char (unat a mod 4 * 16 + unat b div 16)
     # b64_char (unat b mod 16 * 4 + unat c div 64) # b64_char (unat c mod 64) # b64_encode rest"

definition b64_byte1 :: "nat \<Rightarrow> nat \<Rightarrow> byte" where
  "b64_byte1 v1 v2 = word_of_nat (v1 * 4 + v2 div 16)"

definition b64_byte2 :: "nat \<Rightarrow> nat \<Rightarrow> byte" where
  "b64_byte2 v2 v3 = word_of_nat (v2 mod 16 * 16 + v3 div 4)"

definition b64_byte3 :: "nat \<Rightarrow> nat \<Rightarrow> byte" where
  "b64_byte3 v3 v4 = word_of_nat (v3 mod 4 * 64 + v4)"

fun b64_groups :: "string \<Rightarrow> bytes option" where
  "b64_groups [] = Some []"
| "b64_groups (c1 # c2 # c3 # c4 # rest) =
     (case (b64_val c1, b64_val c2) of
        (Some v1, Some v2) \<Rightarrow>
          (if c4 = CHR ''='' then
             (if rest \<noteq> [] then None
              else if c3 = CHR ''='' then Some [b64_byte1 v1 v2]
              else case b64_val c3 of None \<Rightarrow> None
                   | Some v3 \<Rightarrow> Some [b64_byte1 v1 v2, b64_byte2 v2 v3])
           else
             (case (b64_val c3, b64_val c4, b64_groups rest) of
                (Some v3, Some v4, Some bs) \<Rightarrow>
                  Some (b64_byte1 v1 v2 # b64_byte2 v2 v3 # b64_byte3 v3 v4 # bs)
              | _ \<Rightarrow> None))
      | _ \<Rightarrow> None)"
| "b64_groups _ = None"

text \<open>\<open>base64.StdEncoding.DecodeString\<close>: line breaks are skipped, padding is required.\<close>

definition b64_decode :: "string \<Rightarrow> bytes option" where
  "b64_decode s = b64_groups (filter (\<lambda>c. c \<noteq> CHR 0x0A \<and> c \<noteq> CHR 0x0D) s)"

section \<open>bytes.Reader\<close>

text \<open>
  \<open>(*bytes.Reader).Read(buf)\<close> on the unread rest of the data: at the end \<open>(0, io.EOF)\<close>, otherwise
  as many bytes as fit and no error. The result is the bytes read, the new rest and whether the
  error is \<open>io.EOF\<close>.
\<close>

definition reader_read :: "bytes \<Rightarrow> nat \<Rightarrow> bytes \<times> bytes \<times> bool" where
  "reader_read rest n = (if rest = [] then ([], [], True) else (take n rest, drop n rest, False))"

section \<open>Facts about strconv\<close>

lemma char_digit_digit_char [simp]: "d < 10 \<Longrightarrow> char_digit (digit_char d) = Some d"
  by (simp add: char_digit_def digit_char_def Let_def)

lemma format_nat_nonempty [simp]: "format_nat n \<noteq> []"
  by (subst format_nat.simps) simp

lemma parse_digits_append:
  "parse_digits acc (xs @ ys) =
     (case parse_digits acc xs of None \<Rightarrow> None | Some a \<Rightarrow> parse_digits a ys)"
  by (induction xs arbitrary: acc) (auto split: option.splits)

lemma parse_digits_format_nat: "parse_digits 0 (format_nat n) = Some n"
proof (induction n rule: format_nat.induct)
  case (1 n)
  show ?case
  proof (cases "n < 10")
    case True
    then show ?thesis by (simp add: format_nat.simps[of n])
  next
    case False
    with 1 have "parse_digits 0 (format_nat (n div 10)) = Some (n div 10)" by simp
    with False show ?thesis
      by (simp add: format_nat.simps[of n] parse_digits_append)
  qed
qed

lemma parse_nat_format_nat [simp]: "parse_nat (format_nat n) = Some n"
  by (simp add: parse_nat_def parse_digits_format_nat)

lemma format_nat_digits: "c \<in> set (format_nat n) \<Longrightarrow> \<exists>d<10. c = digit_char d"
proof (induction n rule: format_nat.induct)
  case (1 n)
  then show ?case
    by (subst (asm) (2) format_nat.simps)
       (auto split: if_splits intro: exI[of _ n] exI[of _ "n mod 10"])
qed

lemma digit_char_not_sign: "d < 10 \<Longrightarrow> digit_char d \<noteq> CHR ''-'' \<and> digit_char d \<noteq> CHR ''+''"
proof -
  assume d: "d < 10"
  have "of_char (digit_char d) = 48 + d" using d by (simp add: digit_char_def)
  then have "of_char (digit_char d) \<noteq> (45::nat)" "of_char (digit_char d) \<noteq> (43::nat)"
    by simp_all
  then show ?thesis by auto
qed

lemma ParseInt64_FormatInt:
  assumes "- (2 ^ 63) \<le> i" and "i < 2 ^ 63"
  shows "ParseInt64 (FormatInt i) = Some i"
proof (cases "i < 0")
  case True
  then have "nat (- i) \<le> 2 ^ 63" using assms by simp
  with True show ?thesis by (simp add: ParseInt64_def FormatInt_def)
next
  case False
  obtain c cs where c: "format_nat (nat i) = c # cs"
    by (cases "format_nat (nat i)") auto
  then have "c \<noteq> CHR ''-'' \<and> c \<noteq> CHR ''+''"
    using format_nat_digits[of c "nat i"] digit_char_not_sign by auto
  moreover have "nat i < 2 ^ 63" using assms False by simp
  ultimately show ?thesis
    using False c parse_nat_format_nat[of "nat i"] by (simp add: ParseInt64_def FormatInt_def)
qed

section \<open>Facts about strings\<close>

lemma Contains_iff_sublist: "Contains s sub \<longleftrightarrow> sublist sub s"
  by (induction s) (auto simp: sublist_Cons_right)

lemma Contains_append: "Contains (xs @ sub @ ys) sub"
  by (simp add: Contains_iff_sublist)

lemma Contains_sublist_trans: "Contains s t \<Longrightarrow> Contains t u \<Longrightarrow> Contains s u"
  by (auto simp: Contains_iff_sublist intro: sublist_order.order.trans)

section \<open>Facts about base64\<close>

lemma b64_val_b64_char [simp]: "n < 64 \<Longrightarrow> b64_val (b64_char n) = Some n"
  by (auto simp: b64_val_def b64_char_def Let_def)

lemma b64_char_plain:
  assumes "n < 64"
  shows "b64_char n \<noteq> CHR ''=''" "b64_char n \<noteq> CHR 0x0A" "b64_char n \<noteq> CHR 0x0D"
proof -
  have "b64_val CHR ''='' = None" "b64_val CHR 0x0A = None" "b64_val CHR 0x0D = None"
    by (simp_all add: b64_val_def Let_def)
  then show "b64_char n \<noteq> CHR ''=''" "b64_char n \<noteq> CHR 0x0A" "b64_char n \<noteq> CHR 0x0D"
    using b64_val_b64_char[OF assms] by auto
qed

lemma unat_byte_less: "unat (b::byte) < 256"
  using unsigned_less[of b] by simp

lemma b64_sextets:
  fixes a b c :: byte
  shows "unat a div 4 < 64" "unat a mod 4 * 16 < 64" "unat a mod 4 * 16 + unat b div 16 < 64"
    "unat b mod 16 * 4 < 64" "unat b mod 16 * 4 + unat c div 64 < 64" "unat c mod 64 < 64"
  using unat_byte_less[of a] unat_byte_less[of b] unat_byte_less[of c] by auto

lemma b64_bytes:
  fixes a b c :: byte
  shows "b64_byte1 (unat a div 4) (unat a mod 4 * 16 + unat b div 16) = a"
    "b64_byte1 (unat a div 4) (unat a mod 4 * 16) = a"
    "b64_byte2 (unat a mod 4 * 16 + unat b div 16) (unat b mod 16 * 4 + unat c div 64) = b"
    "b64_byte2 (unat a mod 4 * 16 + unat b div 16) (unat b mod 16 * 4) = b"
    "b64_byte3 (unat b mod 16 * 4 + unat c div 64) (unat c mod 64) = c"
proof -
  have b: "unat b div 16 < 16" and c: "unat c div 64 < 4"
    using unat_byte_less[of b] unat_byte_less[of c] by auto
  have "unat a div 4 * 4 + (unat a mod 4 * 16 + unat b div 16) div 16 = unat a"
    using b by simp
  then show "b64_byte1 (unat a div 4) (unat a mod 4 * 16 + unat b div 16) = a"
    by (simp add: b64_byte1_def)
  show "b64_byte1 (unat a div 4) (unat a mod 4 * 16) = a"
    by (simp add: b64_byte1_def)
  have m: "(unat a mod 4 * 16 + unat b div 16) mod 16 = unat b div 16"
    using b by (simp add: mod_add_left_eq[symmetric] del: mod_add_left_eq)
  have "(unat b mod 16 * 4 + unat c div 64) div 4 = unat b mod 16"
    using c by simp
  then show "b64_byte2 (unat a mod 4 * 16 + unat b div 16) (unat b mod 16 * 4 + unat c div 64) = b"
    using m by (simp add: b64_byte2_def)
  show "b64_byte2 (unat a mod 4 * 16 + unat b div 16) (unat b mod 16 * 4) = b"
    using m by (simp add: b64_byte2_def)
  have "(unat b mod 16 * 4 + unat c div 64) mod 4 = unat c div 64"
    using c by (simp add: mod_add_left_eq[symmetric] del: mod_add_left_eq)
  then show "b64_byte3 (unat b mod 16 * 4 + unat c div 64) (unat c mod 64) = c"
    by (simp add: b64_byte3_def)
qed

lemma b64_groups_encode: "b64_groups (b64_encode bs) = Some bs"
  by (induction bs rule: b64_encode.induct) (simp_all add: b64_sextets b64_bytes b64_char_plain)

lemma b64_encode_no_breaks:
  "filter (\<lambda>c. c \<noteq> CHR 0x0A \<and> c \<noteq> CHR 0x0D) (b64_encode bs) = b64_encode bs"
  by (induction bs rule: b64_encode.induct) (simp_all add: b64_sextets b64_char_plain)

lemma b64_decode_encode [simp]: "b64_decode (b64_encode bs) = Some bs"
  by (simp add: b64_decode_def b64_encode_no_breaks b64_groups_encode)

section \<open>One changed byte changes the hash\<close>

lemma fnv_prime_unit: "(1099511628211 :: u64) * 14886173955864302971 = 1"
  by simp

lemma fnv_step_inj: "fnv_step h b = fnv_step h' b' \<Longrightarrow> h XOR ucast b = h' XOR ucast b'"
proof -
  assume "fnv_step h b = fnv_step h' b'"
  then have "(h XOR ucast b) * (1099511628211 * 14886173955864302971) =
      (h' XOR ucast b') * (1099511628211 * 14886173955864302971)"
    unfolding fnv_step_def mult.assoc[symmetric] by simp
  then show ?thesis by (simp only: fnv_prime_unit mult_1_right)
qed

lemma xor_cancel_right: "(a XOR c) = (b XOR c) \<Longrightarrow> a = (b :: u64)"
  by (rule bit_word_eqI) (metis bit_xor_iff)

lemma fnv_fold_inj: "foldl fnv_step h ys = foldl fnv_step h' ys \<Longrightarrow> h = h'"
proof (induction ys arbitrary: h h')
  case (Cons y ys)
  then have "fnv_step h y = fnv_step h' y" by simp
  then show ?case by (blast dest: fnv_step_inj xor_cancel_right)
qed simp

lemma ucast_byte_inj: "(ucast (a :: byte) :: u64) = ucast b \<Longrightarrow> a = b"
proof -
  have "uint (ucast c :: u64) = uint c" for c :: byte by (simp add: uint_up_ucast is_up)
  then show "ucast a = (ucast b :: u64) \<Longrightarrow> a = b" by (metis word_uint_eq_iff)
qed

lemma fnv64a_change:
  assumes "a \<noteq> b"
  shows "fnv64a (xs @ a # ys) \<noteq> fnv64a (xs @ b # ys)"
proof
  let ?h = "foldl fnv_step 14695981039346656037 xs"
  assume "fnv64a (xs @ a # ys) = fnv64a (xs @ b # ys)"
  then have "fnv_step ?h a = fnv_step ?h b"
    by (auto simp: fnv64a_def dest: fnv_fold_inj)
  then have "?h XOR ucast a = ?h XOR (ucast b :: u64)" by (rule fnv_step_inj)
  then have "ucast a = (ucast b :: u64)" by (metis xor.commute xor_cancel_right)
  then show False using assms ucast_byte_inj by blast
qed

end
