(* ===== verification/Wasman_Types.thy ===== *)
theory Wasman_Types
  imports Go_Stdlib
begin

text \<open>
  The shared structures of \<open>types.go\<close>: errors, the instance metadata and oplog entries, the context
  with its handlers, and the \<open>SnapshotStore\<close> interface. The interface is a record of operations,
  the way a Go interface value carries its methods; the locales \<open>snapshot_store\<close> and \<open>wasm_store\<close>
  state what the engine relies on, over an abstract view of an instance (its full snapshot, its
  block deltas, its oplog and its metadata).
\<close>

section \<open>Errors\<close>

text \<open>
  \<open>Wrap p e\<close> is \<open>fmt.Errorf("p: %w", e)\<close> and \<open>Wrap2 p e f\<close> is \<open>fmt.Errorf("p: %w: %w", e, f)\<close>.
  \<open>NotExist\<close> is the path error for which \<open>os.IsNotExist\<close> holds, \<open>ApiError\<close> a \<open>smithy.APIError\<close> with
  its code and its text, \<open>ExitError\<close> a \<open>sys.ExitError\<close> with its exit code and its text.
\<close>

datatype go_error =
    Err string
  | Wrap string go_error
  | Wrap2 string go_error go_error
  | ErrWasmVersionMismatch
  | ErrConcurrentExecution
  | NotExist string
  | ApiError string string
  | ExitError u32 string

fun Error :: "go_error \<Rightarrow> string" where
  "Error (Err s) = s"
| "Error (Wrap p e) = p @ '': '' @ Error e"
| "Error (Wrap2 p e f) = p @ '': '' @ Error e @ '': '' @ Error f"
| "Error ErrWasmVersionMismatch = ''wasm module hash mismatch''"
| "Error ErrConcurrentExecution = ''concurrent execution detected (OCC fencing)''"
| "Error (NotExist path) = ''open '' @ path @ '': no such file or directory''"
| "Error (ApiError code text) = text"
| "Error (ExitError code text) = text"

text \<open>\<open>errors.Is\<close>, and \<open>errors.As\<close> for an API error and for an exit error.\<close>

fun error_is :: "go_error \<Rightarrow> go_error \<Rightarrow> bool" where
  "error_is (Wrap p e) t \<longleftrightarrow> Wrap p e = t \<or> error_is e t"
| "error_is (Wrap2 p e f) t \<longleftrightarrow> Wrap2 p e f = t \<or> error_is e t \<or> error_is f t"
| "error_is e t \<longleftrightarrow> e = t"

fun as_api_code :: "go_error \<Rightarrow> string option" where
  "as_api_code (ApiError code text) = Some code"
| "as_api_code (Wrap p e) = as_api_code e"
| "as_api_code (Wrap2 p e f) = (case as_api_code e of Some c \<Rightarrow> Some c | None \<Rightarrow> as_api_code f)"
| "as_api_code _ = None"

fun as_exit_code :: "go_error \<Rightarrow> u32 option" where
  "as_exit_code (ExitError code text) = Some code"
| "as_exit_code (Wrap p e) = as_exit_code e"
| "as_exit_code (Wrap2 p e f) = (case as_exit_code e of Some c \<Rightarrow> Some c | None \<Rightarrow> as_exit_code f)"
| "as_exit_code _ = None"

section \<open>Metadata and oplog entries\<close>

text \<open>Go's \<open>int\<close> fields are integers: a version counts checkpoints and a call index host calls.\<close>

record instance_meta =
  InstanceID :: string
  WasmHash :: string
  Version :: int
  ETag :: string
  ProcessID :: string
  DefinitionHash :: string
  BusinessKey :: string
  BpmnState :: bytes
  Completed :: bool

definition new_meta :: "string \<Rightarrow> string \<Rightarrow> instance_meta" where
  "new_meta iid hash = \<lparr> InstanceID = iid, WasmHash = hash, Version = 0, ETag = [], ProcessID = [],
     DefinitionHash = [], BusinessKey = [], BpmnState = [], Completed = False \<rparr>"

record oplog_entry =
  CallIndex :: int
  ApiName :: string
  RequestPayload :: bytes
  ResponsePayload :: bytes

type_synonym deltas = "(nat, bytes) gomap"

section \<open>Handlers and the context\<close>

text \<open>
  The in-memory handlers are closures of the host program. They act on an environment \<open>'e\<close> that
  the engine does not look into. A response of \<open>None\<close> is Go's \<open>nil\<close> slice.
\<close>

type_synonym 'e api_handler = "string \<Rightarrow> bytes \<Rightarrow> 'e \<Rightarrow> (go_error + bytes option) \<times> 'e"
type_synonym 'e download_handler = "'e \<Rightarrow> (go_error + bytes) \<times> 'e"
type_synonym 'e upload_handler = "bytes \<Rightarrow> 'e \<Rightarrow> go_error option \<times> 'e"

text \<open>
  The values a context carries. \<open>ctx_Err\<close> is the context's \<open>Err()\<close>, which depends on the
  environment because the context can be cancelled while the guest runs.
\<close>

record 'e go_context =
  ctx_api :: "'e api_handler option"
  ctx_download :: "'e download_handler option"
  ctx_upload :: "'e upload_handler option"
  ctx_keepAlive :: bool
  ctx_Err :: "'e \<Rightarrow> go_error option"

definition Background :: "'e go_context" where
  "Background = \<lparr> ctx_api = None, ctx_download = None, ctx_upload = None, ctx_keepAlive = False,
     ctx_Err = (\<lambda>_. None) \<rparr>"

definition WithApiHandler :: "'e go_context \<Rightarrow> 'e api_handler option \<Rightarrow> 'e go_context" where
  "WithApiHandler ctx h = ctx\<lparr>ctx_api := h\<rparr>"

definition WithDownloadHandler :: "'e go_context \<Rightarrow> 'e download_handler option \<Rightarrow> 'e go_context" where
  "WithDownloadHandler ctx h = ctx\<lparr>ctx_download := h\<rparr>"

definition WithUploadHandler :: "'e go_context \<Rightarrow> 'e upload_handler option \<Rightarrow> 'e go_context" where
  "WithUploadHandler ctx h = ctx\<lparr>ctx_upload := h\<rparr>"

definition getApiHandler :: "'e go_context \<Rightarrow> 'e api_handler option" where
  "getApiHandler ctx = ctx_api ctx"

definition getDownloadHandler :: "'e go_context \<Rightarrow> 'e download_handler option" where
  "getDownloadHandler ctx = ctx_download ctx"

definition getUploadHandler :: "'e go_context \<Rightarrow> 'e upload_handler option" where
  "getUploadHandler ctx = ctx_upload ctx"

section \<open>The SnapshotStore interface\<close>

text \<open>
  A method that can change the store returns the new state. \<open>SaveMetadata\<close> also updates the
  metadata its caller passed by pointer, which is its second result.
\<close>

record 's store_ops =
  st_Save :: "string \<Rightarrow> bytes \<Rightarrow> 's \<Rightarrow> go_error option \<times> 's"
  st_Load :: "string \<Rightarrow> 's \<Rightarrow> go_error + bytes"
  st_Delete :: "string \<Rightarrow> 's \<Rightarrow> go_error option \<times> 's"
  st_SaveDeltas :: "string \<Rightarrow> deltas \<Rightarrow> 's \<Rightarrow> go_error option \<times> 's"
  st_LoadDeltas :: "string \<Rightarrow> 's \<Rightarrow> go_error + deltas"
  st_TruncateDeltas :: "string \<Rightarrow> 's \<Rightarrow> go_error option \<times> 's"
  st_SaveOplog :: "string \<Rightarrow> int \<Rightarrow> string \<Rightarrow> bytes \<Rightarrow> bytes \<Rightarrow> 's \<Rightarrow> go_error option \<times> 's"
  st_LoadOplog :: "string \<Rightarrow> 's \<Rightarrow> go_error + oplog_entry list"
  st_TruncateOplog :: "string \<Rightarrow> int \<Rightarrow> 's \<Rightarrow> go_error option \<times> 's"
  st_SaveMetadata :: "instance_meta \<Rightarrow> 's \<Rightarrow> (go_error + bool) \<times> instance_meta \<times> 's"
  st_LoadMetadata :: "string \<Rightarrow> 's \<Rightarrow> go_error + instance_meta option"
  st_SaveWasm :: "string \<Rightarrow> bytes \<Rightarrow> 's \<Rightarrow> go_error option \<times> 's"
  st_LoadWasm :: "string \<Rightarrow> 's \<Rightarrow> go_error + bytes"
  st_UpdateActiveIndex :: "string \<Rightarrow> bytes \<Rightarrow> bool \<Rightarrow> 's \<Rightarrow> go_error option \<times> 's"
  st_LoadActiveIndex :: "'s \<Rightarrow> go_error + bytes"

text \<open>What a store holds of one instance, abstractly.\<close>

record inst =
  i_snapshot :: "bytes option"
  i_deltas :: "nat \<rightharpoonup> bytes"
  i_oplog :: "oplog_entry list"
  i_meta :: "instance_meta option"

definition empty_inst :: inst where
  "empty_inst = \<lparr> i_snapshot = None, i_deltas = Map.empty, i_oplog = [], i_meta = None \<rparr>"

definition mk_entry :: "int \<Rightarrow> string \<Rightarrow> bytes \<Rightarrow> bytes \<Rightarrow> oplog_entry" where
  "mk_entry i api req resp =
     \<lparr> CallIndex = i, ApiName = api, RequestPayload = req, ResponsePayload = resp \<rparr>"

text \<open>
  The compare-and-swap on versions of the memory and file stores: a new instance is saved with
  version zero, an existing one with the version it has.
\<close>

definition version_cas :: "instance_meta option \<Rightarrow> instance_meta \<Rightarrow> bool" where
  "version_cas existing m =
     (case existing of None \<Rightarrow> \<not> Version m > 0
      | Some ex \<Rightarrow> Version m \<noteq> 0 \<and> Version ex = Version m)"

definition version_of :: "instance_meta option \<Rightarrow> int" where
  "version_of mo = (case mo of None \<Rightarrow> 0 | Some m \<Rightarrow> Version m)"

text \<open>
  The contract of a store that is in order (\<open>inv\<close>): \<open>view\<close> is its abstract content and \<open>cas\<close> says
  when its compare-and-swap succeeds. \<open>ok_str\<close> and \<open>ok_meta\<close> are the strings and the metadata that
  the store's encoding keeps (all of them, or those in UTF-8). Keys of deltas are Go integers.
\<close>

locale snapshot_store =
  fixes st :: "'s store_ops"
    and inv :: "'s \<Rightarrow> bool"
    and view :: "'s \<Rightarrow> string \<Rightarrow> inst"
    and cas :: "instance_meta option \<Rightarrow> instance_meta \<Rightarrow> bool"
    and ok_str :: "string \<Rightarrow> bool"
    and ok_meta :: "instance_meta \<Rightarrow> bool"
  assumes Save: "inv s \<Longrightarrow> st_Save st iid b s = (r, s') \<Longrightarrow>
        r = None \<and> inv s' \<and> view s' = (view s)(iid := (view s iid)\<lparr>i_snapshot := Some b\<rparr>)"
    and Load_Some: "inv s \<Longrightarrow> i_snapshot (view s iid) = Some b \<Longrightarrow> st_Load st iid s = Inr b"
    and Load_None: "inv s \<Longrightarrow> i_snapshot (view s iid) = None \<Longrightarrow> \<exists>e. st_Load st iid s = Inl e"
    and Delete: "inv s \<Longrightarrow> st_Delete st iid s = (r, s') \<Longrightarrow>
        r = None \<and> inv s' \<and> view s' = (view s)(iid := empty_inst)"
    and SaveDeltas: "inv s \<Longrightarrow> distinct (map fst ds) \<Longrightarrow> \<forall>kv\<in>set ds. fst kv < 2 ^ 63 \<Longrightarrow>
        st_SaveDeltas st iid ds s = (r, s') \<Longrightarrow>
        r = None \<and> inv s' \<and>
        view s' = (view s)(iid := (view s iid)\<lparr>i_deltas := i_deltas (view s iid) ++ map_of ds\<rparr>)"
    and LoadDeltas: "inv s \<Longrightarrow>
        \<exists>ds. st_LoadDeltas st iid s = Inr ds \<and> map_of ds = i_deltas (view s iid) \<and> distinct (map fst ds)"
    and TruncateDeltas: "inv s \<Longrightarrow> st_TruncateDeltas st iid s = (r, s') \<Longrightarrow>
        r = None \<and> inv s' \<and> view s' = (view s)(iid := (view s iid)\<lparr>i_deltas := Map.empty\<rparr>)"
    and SaveOplog: "inv s \<Longrightarrow> ok_str api \<Longrightarrow> st_SaveOplog st iid i api req resp s = (r, s') \<Longrightarrow>
        r = None \<and> inv s' \<and>
        view s' = (view s)(iid := (view s iid)\<lparr>i_oplog := i_oplog (view s iid) @ [mk_entry i api req resp]\<rparr>)"
    and LoadOplog: "inv s \<Longrightarrow> st_LoadOplog st iid s = Inr (i_oplog (view s iid))"
    and TruncateOplog: "inv s \<Longrightarrow> st_TruncateOplog st iid i s = (r, s') \<Longrightarrow>
        r = None \<and> inv s' \<and>
        view s' = (view s)(iid := (view s iid)\<lparr>i_oplog := filter (\<lambda>e. CallIndex e > i) (i_oplog (view s iid))\<rparr>)"
    and SaveMetadata_ok: "inv s \<Longrightarrow> 0 \<le> Version m \<Longrightarrow> ok_meta m \<Longrightarrow> cas (i_meta (view s (InstanceID m))) m \<Longrightarrow>
        st_SaveMetadata st m s = (rb, m', s') \<Longrightarrow>
        rb = Inr True \<and> inv s' \<and> m' = m\<lparr>Version := Version m + 1, ETag := ETag m'\<rparr> \<and>
        view s' = (view s)(InstanceID m := (view s (InstanceID m))\<lparr>i_meta := Some m'\<rparr>)"
    and SaveMetadata_conflict: "inv s \<Longrightarrow> 0 \<le> Version m \<Longrightarrow> ok_meta m \<Longrightarrow>
        i_meta (view s (InstanceID m)) = Some ex \<Longrightarrow> \<not> cas (Some ex) m \<Longrightarrow> st_SaveMetadata st m s = (Inr False, m, s)"
    and SaveMetadata_gone: "inv s \<Longrightarrow> ok_meta m \<Longrightarrow> i_meta (view s (InstanceID m)) = None \<Longrightarrow> Version m > 0 \<Longrightarrow>
        st_SaveMetadata st m s = (rb, m', s') \<Longrightarrow> rb \<noteq> Inr True \<and> m' = m \<and> s' = s"
    and LoadMetadata: "inv s \<Longrightarrow> st_LoadMetadata st iid s = Inr (i_meta (view s iid))"
    and meta_wf: "inv s \<Longrightarrow> i_meta (view s iid) = Some m \<Longrightarrow>
        InstanceID m = iid \<and> Version m > 0 \<and> ok_meta m"
    and ok_new: "ok_str iid \<Longrightarrow> ok_str h \<Longrightarrow> ok_meta (new_meta iid h)"
    and ok_hash: "ok_meta m \<Longrightarrow> ok_str h \<Longrightarrow> ok_meta (m\<lparr>WasmHash := h\<rparr>)"
    and cas_new: "0 \<le> Version m \<Longrightarrow> cas None m \<longleftrightarrow> Version m = 0"
    and cas_current: "Version m > 0 \<Longrightarrow> cas (Some m) m"
    and cas_zero: "Version m = 0 \<Longrightarrow> \<not> cas (Some ex) m"
    and cas_hash: "cas exo (m\<lparr>WasmHash := h\<rparr>) = cas exo m"
    and cas_version: "inv s \<Longrightarrow> 0 \<le> Version m \<Longrightarrow> ok_meta m \<Longrightarrow> cas (i_meta (view s (InstanceID m))) m \<Longrightarrow>
        Version m = version_of (i_meta (view s (InstanceID m)))"
begin

lemma LoadDeltas_Inr:
  assumes "inv s" and "st_LoadDeltas st iid s = Inr ds"
  shows "map_of ds = i_deltas (view s iid) \<and> distinct (map fst ds)"
  using LoadDeltas[OF assms(1), of iid] assms(2) by auto

text \<open>Whatever the reason, a swap that does not go through changes nothing.\<close>

lemma SaveMetadata_refused:
  assumes "inv s" "0 \<le> Version m" "ok_meta m" "\<not> cas (i_meta (view s (InstanceID m))) m"
    and "st_SaveMetadata st m s = (rb, m', s')"
  shows "rb \<noteq> Inr True \<and> m' = m \<and> s' = s"
proof (cases "i_meta (view s (InstanceID m))")
  case None
  then have "Version m > 0" using assms(2,4) cas_new[of m] by fastforce
  then show ?thesis using SaveMetadata_gone[OF assms(1,3) None _ assms(5)] by blast
next
  case (Some ex)
  then show ?thesis using SaveMetadata_conflict[OF assms(1-3) Some] assms(4,5) by simp
qed

text \<open>Of two that could swap, the second cannot once the first did.\<close>

lemma swap_once:
  assumes "inv s" and m: "0 \<le> Version m" "ok_meta m" "cas (i_meta (view s (InstanceID m))) m"
    and m2: "0 \<le> Version m2" "ok_meta m2" "InstanceID m2 = InstanceID m" "cas (i_meta (view s (InstanceID m))) m2"
    and run: "st_SaveMetadata st m s = (rb, m', s')"
  shows "i_meta (view s' (InstanceID m)) = Some m' \<and> \<not> cas (Some m') m2"
proof -
  have C: "inv s'" "m' = m\<lparr>Version := Version m + 1, ETag := ETag m'\<rparr>" "i_meta (view s' (InstanceID m)) = Some m'"
    using SaveMetadata_ok[OF assms(1) m run] by simp_all
  have "Version m' = Version m + 1" by (subst C(2)) simp
  moreover have "Version m = Version m2"
    using cas_version[OF assms(1) m] cas_version[OF assms(1) m2(1,2)] m2(3,4) by simp
  ultimately show ?thesis using cas_version[OF C(1) m2(1,2)] m2(3) C(3) by (auto simp: version_of_def)
qed

end

text \<open>A store that also keeps the module registry, \<open>reg\<close>, which no other operation touches.\<close>

locale wasm_store = snapshot_store st inv view cas ok_str ok_meta
  for st :: "'s store_ops" and inv and view and cas and ok_str and ok_meta +
  fixes reg :: "'s \<Rightarrow> string \<rightharpoonup> bytes"
  assumes SaveWasm: "inv s \<Longrightarrow> reg s h = None \<or> reg s h = Some b \<Longrightarrow> st_SaveWasm st h b s = (r, s') \<Longrightarrow>
        r = None \<and> inv s' \<and> view s' = view s \<and> reg s' = (reg s)(h \<mapsto> b)"
    and LoadWasm_Some: "inv s \<Longrightarrow> reg s h = Some b \<Longrightarrow> st_LoadWasm st h s = Inr b"
    and LoadWasm_None: "inv s \<Longrightarrow> reg s h = None \<Longrightarrow> \<exists>e. st_LoadWasm st h s = Inl e"
    and reg_SaveMetadata: "inv s \<Longrightarrow> st_SaveMetadata st m s = (rb, m', s') \<Longrightarrow> reg s' = reg s"
    and reg_SaveOplog: "inv s \<Longrightarrow> st_SaveOplog st iid i api req resp s = (r, s') \<Longrightarrow> reg s' = reg s"
    and reg_Delete: "inv s \<Longrightarrow> st_Delete st iid s = (r, s') \<Longrightarrow> reg s' = reg s"
    and reg_Save: "inv s \<Longrightarrow> st_Save st iid b s = (r, s') \<Longrightarrow> reg s' = reg s"

section \<open>Facts about errors and entries\<close>

lemma error_is_refl [simp]: "error_is e e"
  by (cases e) auto

lemma error_is_Wrap: "error_is e t \<Longrightarrow> error_is (Wrap p e) t"
  by simp

lemma mk_entry_simps [simp]:
  "CallIndex (mk_entry i api req resp) = i" "ApiName (mk_entry i api req resp) = api"
  "RequestPayload (mk_entry i api req resp) = req" "ResponsePayload (mk_entry i api req resp) = resp"
  by (simp_all add: mk_entry_def)

lemma new_meta_simps [simp]:
  "InstanceID (new_meta iid h) = iid" "WasmHash (new_meta iid h) = h" "Version (new_meta iid h) = 0"
  by (simp_all add: new_meta_def)

lemma version_cas_laws:
  "0 \<le> Version m \<Longrightarrow> version_cas None m \<longleftrightarrow> Version m = 0"
  "Version m > 0 \<Longrightarrow> version_cas (Some m) m"
  "Version m = 0 \<Longrightarrow> \<not> version_cas (Some ex) m"
  "version_cas exo (m\<lparr>WasmHash := h\<rparr>) = version_cas exo m"
  "0 \<le> Version m \<Longrightarrow> version_cas exo m \<Longrightarrow> Version m = version_of exo"
  by (auto simp: version_cas_def version_of_def split: option.splits)

end
