(* ===== verification/Json_Codec.thy ===== *)
theory Json_Codec
  imports Wasman_Types
begin

text \<open>
  Serialisation: \<open>compress.go\<close> and what the stores use of \<open>encoding/json\<close>. A JSON document is a
  value of \<open>json\<close>; how each structure of \<open>types.go\<close> becomes one (field names, \<open>omitempty\<close>, base64 for
  byte slices, decimal map keys) is defined here, with the decoding that leaves what it could decode
  behind when an error is ignored. The text of a document and the gzip format are operations of the
  record \<open>codec\<close>, with their round trips as the locale \<open>codec_laws\<close>.

  Three conventions: a nil slice and an empty one are the same list (so an empty \<open>[]byte\<close> field is
  always written as the empty base64 string, and read back as empty); the members of a map are written
  in the order of the association list, since no reader depends on the order; and a negative block
  index, which no checkpoint writes, is treated as a key that cannot be decoded.
\<close>

section \<open>JSON documents\<close>

text \<open>A number is an integer or, written with a fraction or an exponent, a decimal \<open>JDec m e\<close> for m times ten to the e.\<close>

datatype json = JNull | JBool bool | JNum int | JDec int int | JStr string | JArr "json list" | JObj "(string \<times> json) list"

text \<open>
  \<open>json.Marshal\<close> replaces what is not UTF-8 in a string, so a string survives the round trip only if
  it is valid: the byte ranges of \<open>utf8.ValidString\<close>.
\<close>

fun utf8_bytes :: "nat list \<Rightarrow> bool" where
  "utf8_bytes [] = True"
| "utf8_bytes (a # xs) =
    (if a < 128 then utf8_bytes xs else
     case xs of [] \<Rightarrow> False | b # ys \<Rightarrow>
     if 194 \<le> a \<and> a \<le> 223 then 128 \<le> b \<and> b \<le> 191 \<and> utf8_bytes ys else
     case ys of [] \<Rightarrow> False | c # zs \<Rightarrow>
     if 224 \<le> a \<and> a \<le> 239
     then (if a = 224 then 160 else 128) \<le> b \<and> b \<le> (if a = 237 then 159 else 191)
          \<and> 128 \<le> c \<and> c \<le> 191 \<and> utf8_bytes zs
     else case zs of [] \<Rightarrow> False | d # ws \<Rightarrow>
     240 \<le> a \<and> a \<le> 244 \<and> (if a = 240 then 144 else 128) \<le> b \<and> b \<le> (if a = 244 then 143 else 191)
     \<and> 128 \<le> c \<and> c \<le> 191 \<and> 128 \<le> d \<and> d \<le> 191 \<and> utf8_bytes ws)"

definition valid_utf8 :: "string \<Rightarrow> bool" where
  "valid_utf8 s = utf8_bytes (map of_char s)"

fun json_utf8 :: "json \<Rightarrow> bool" where
  "json_utf8 (JStr s) = valid_utf8 s"
| "json_utf8 (JArr js) = list_all json_utf8 js"
| "json_utf8 (JObj kvs) = list_all (\<lambda>kv. valid_utf8 (fst kv) \<and> json_utf8 (snd kv)) kvs"
| "json_utf8 _ = True"

text \<open>A member of an object: the last one with the key wins.\<close>

definition obj_get :: "(string \<times> json) list \<Rightarrow> string \<Rightarrow> json option" where
  "obj_get kvs k = map_of (rev kvs) k"

section \<open>Decoding of single fields\<close>

text \<open>
  Each decoder returns the value left in the target (its zero value when the member is missing, null
  or of the wrong type) and whether no error was recorded.
\<close>

fun dec_str :: "json option \<Rightarrow> string \<times> bool" where
  "dec_str None = ([], True)"
| "dec_str (Some (JStr s)) = (s, True)"
| "dec_str (Some JNull) = ([], True)"
| "dec_str (Some _) = ([], False)"

fun dec_int :: "json option \<Rightarrow> int \<times> bool" where
  "dec_int None = (0, True)"
| "dec_int (Some (JNum n)) = (n, True)"
| "dec_int (Some JNull) = (0, True)"
| "dec_int (Some _) = (0, False)"

fun dec_bool :: "json option \<Rightarrow> bool \<times> bool" where
  "dec_bool None = (False, True)"
| "dec_bool (Some (JBool b)) = (b, True)"
| "dec_bool (Some JNull) = (False, True)"
| "dec_bool (Some _) = (False, False)"

text \<open>A byte slice: a base64 string, or an array of small numbers.\<close>

fun dec_byte :: "json \<Rightarrow> byte \<times> bool" where
  "dec_byte (JNum n) = (if 0 \<le> n \<and> n < 256 then (word_of_int n, True) else (0, False))"
| "dec_byte JNull = (0, True)"
| "dec_byte _ = (0, False)"

fun dec_bytes :: "json option \<Rightarrow> bytes \<times> bool" where
  "dec_bytes None = ([], True)"
| "dec_bytes (Some (JStr s)) =
     (case b64_decode s of Some b \<Rightarrow> (b, True) | None \<Rightarrow> ([], False))"
| "dec_bytes (Some JNull) = ([], True)"
| "dec_bytes (Some (JArr js)) = (map (fst \<circ> dec_byte) js, list_all (snd \<circ> dec_byte) js)"
| "dec_bytes (Some _) = ([], False)"

section \<open>map[int][]byte\<close>

definition marshal_deltas :: "deltas \<Rightarrow> json" where
  "marshal_deltas ds = JObj (map (\<lambda>kv. (FormatInt (int (fst kv)), JStr (b64_encode (snd kv)))) ds)"

text \<open>Decoding into an existing map adds the members to it; a key that is no number is skipped.\<close>

definition dec_delta_member :: "deltas \<times> bool \<Rightarrow> string \<times> json \<Rightarrow> deltas \<times> bool" where
  "dec_delta_member acc kv =
     (case ParseInt64 (fst kv) of
        None \<Rightarrow> (fst acc, False)
      | Some i \<Rightarrow> if i < 0 then (fst acc, False)
                  else let (b, ok) = dec_bytes (Some (snd kv))
                       in (AList.update (nat i) b (fst acc), snd acc \<and> ok))"

text \<open>
  The value null, which no operation writes, gives an empty map. The code is left with a nil map, which reads
  the same but does not take an assignment.
\<close>

fun unmarshal_deltas :: "deltas \<Rightarrow> json \<Rightarrow> deltas \<times> bool" where
  "unmarshal_deltas cur (JObj kvs) = foldl dec_delta_member (cur, True) kvs"
| "unmarshal_deltas cur JNull = ([], True)"
| "unmarshal_deltas cur _ = (cur, False)"

section \<open>[]OplogEntry\<close>

definition marshal_entry :: "oplog_entry \<Rightarrow> json" where
  "marshal_entry e = JObj
     [(''call_index'', JNum (CallIndex e)), (''api_name'', JStr (ApiName e)),
      (''request_payload'', JStr (b64_encode (RequestPayload e))),
      (''response_payload'', JStr (b64_encode (ResponsePayload e)))]"

text \<open>A slice that no element was appended to is \<open>nil\<close>, which is written as null.\<close>

definition marshal_oplog :: "oplog_entry list \<Rightarrow> json" where
  "marshal_oplog es = (if es = [] then JNull else JArr (map marshal_entry es))"

definition dec_entry_fields :: "(string \<times> json) list \<Rightarrow> oplog_entry \<times> bool" where
  "dec_entry_fields kvs =
     (let (i, ok1) = dec_int (obj_get kvs ''call_index'');
          (a, ok2) = dec_str (obj_get kvs ''api_name'');
          (q, ok3) = dec_bytes (obj_get kvs ''request_payload'');
          (p, ok4) = dec_bytes (obj_get kvs ''response_payload'')
      in (mk_entry i a q p, ok1 \<and> ok2 \<and> ok3 \<and> ok4))"

fun dec_entry :: "json \<Rightarrow> oplog_entry \<times> bool" where
  "dec_entry (JObj kvs) = dec_entry_fields kvs"
| "dec_entry JNull = (mk_entry 0 [] [] [], True)"
| "dec_entry _ = (mk_entry 0 [] [] [], False)"

fun unmarshal_oplog :: "json \<Rightarrow> oplog_entry list \<times> bool" where
  "unmarshal_oplog (JArr js) = (map (fst \<circ> dec_entry) js, list_all (snd \<circ> dec_entry) js)"
| "unmarshal_oplog JNull = ([], True)"
| "unmarshal_oplog _ = ([], False)"

section \<open>InstanceMeta\<close>

text \<open>A member that \<open>omitempty\<close> leaves out when its value is empty.\<close>

definition omitempty :: "bool \<Rightarrow> string \<Rightarrow> json \<Rightarrow> (string \<times> json) list" where
  "omitempty isEmpty k j = (if isEmpty then [] else [(k, j)])"

definition marshal_meta :: "instance_meta \<Rightarrow> json" where
  "marshal_meta m = JObj
     (omitempty False ''instance_id'' (JStr (InstanceID m))
      @ omitempty False ''wasm_hash'' (JStr (WasmHash m))
      @ omitempty False ''version'' (JNum (Version m))
      @ omitempty (ETag m = []) ''etag'' (JStr (ETag m))
      @ omitempty (ProcessID m = []) ''process_id'' (JStr (ProcessID m))
      @ omitempty (DefinitionHash m = []) ''definition_hash'' (JStr (DefinitionHash m))
      @ omitempty (BusinessKey m = []) ''business_key'' (JStr (BusinessKey m))
      @ omitempty (BpmnState m = []) ''bpmn_state'' (JStr (b64_encode (BpmnState m)))
      @ omitempty (\<not> Completed m) ''completed'' (JBool (Completed m)))"

definition zero_meta :: instance_meta where
  "zero_meta = new_meta [] []"

definition dec_meta_fields :: "(string \<times> json) list \<Rightarrow> instance_meta \<times> bool" where
  "dec_meta_fields kvs =
     (let (i, ok1) = dec_str (obj_get kvs ''instance_id'');
          (h, ok2) = dec_str (obj_get kvs ''wasm_hash'');
          (v, ok3) = dec_int (obj_get kvs ''version'');
          (t, ok4) = dec_str (obj_get kvs ''etag'');
          (p, ok5) = dec_str (obj_get kvs ''process_id'');
          (d, ok6) = dec_str (obj_get kvs ''definition_hash'');
          (k, ok7) = dec_str (obj_get kvs ''business_key'');
          (b, ok8) = dec_bytes (obj_get kvs ''bpmn_state'');
          (c, ok9) = dec_bool (obj_get kvs ''completed'')
      in (\<lparr> InstanceID = i, WasmHash = h, Version = v, ETag = t, ProcessID = p, DefinitionHash = d,
            BusinessKey = k, BpmnState = b, Completed = c \<rparr>,
          ok1 \<and> ok2 \<and> ok3 \<and> ok4 \<and> ok5 \<and> ok6 \<and> ok7 \<and> ok8 \<and> ok9))"

fun unmarshal_meta :: "json \<Rightarrow> instance_meta \<times> bool" where
  "unmarshal_meta (JObj kvs) = dec_meta_fields kvs"
| "unmarshal_meta JNull = (zero_meta, True)"
| "unmarshal_meta _ = (zero_meta, False)"

definition meta_utf8 :: "instance_meta \<Rightarrow> bool" where
  "meta_utf8 m = list_all valid_utf8
     [InstanceID m, WasmHash m, ETag m, ProcessID m, DefinitionHash m, BusinessKey m]"

section \<open>compress.go\<close>

text \<open>
  \<open>gz_write\<close> is a gzip writer over a fresh buffer, written once and closed; \<open>gz_read\<close> is a gzip
  reader read to its end; \<open>json_text\<close> and \<open>json_parse\<close> are the text layer of \<open>encoding/json\<close>, with
  \<open>None\<close> for a syntax error.
\<close>

record codec =
  gz_write :: "bytes \<Rightarrow> go_error + bytes"
  gz_read :: "bytes \<Rightarrow> go_error + bytes"
  json_text :: "json \<Rightarrow> bytes"
  json_parse :: "bytes \<Rightarrow> json option"

definition compressData :: "codec \<Rightarrow> bytes \<Rightarrow> go_error + bytes" where
  "compressData cd data = (case gz_write cd data of Inl e \<Rightarrow> Inl e | Inr buf \<Rightarrow> Inr buf)"

definition decompressData :: "codec \<Rightarrow> bytes \<Rightarrow> go_error + bytes" where
  "decompressData cd data = (case gz_read cd data of Inl e \<Rightarrow> Inl e | Inr all \<Rightarrow> Inr all)"

definition isGzipped :: "bytes \<Rightarrow> bool" where
  "isGzipped data \<longleftrightarrow> length data \<ge> 2 \<and> data ! 0 = 0x1f \<and> data ! 1 = 0x8b"

locale codec_laws =
  fixes cd :: codec
  assumes gzip: "\<exists>z. gz_write cd data = Inr z \<and> isGzipped z \<and> gz_read cd z = Inr data"
    and json: "json_utf8 j \<Longrightarrow> json_parse cd (json_text cd j) = Some j"
begin

lemma compress_decompress:
  "\<exists>z. compressData cd data = Inr z \<and> isGzipped z \<and> decompressData cd z = Inr data"
  using gzip[of data] by (auto simp: compressData_def decompressData_def)

end

section \<open>Round trips of the structures\<close>

lemma FormatInt_nat_parse: "n < 2 ^ 63 \<Longrightarrow> ParseInt64 (FormatInt (int n)) = Some (int n)"
proof (rule ParseInt64_FormatInt)
  show "n < 2 ^ 63 \<Longrightarrow> int n < 2 ^ 63"
    by (metis of_nat_less_iff of_nat_numeral of_nat_power)
qed simp

lemma unmarshal_deltas_fold:
  assumes "\<forall>kv\<in>set ds. fst kv < 2 ^ 63"
  shows "foldl dec_delta_member (cur, True)
           (map (\<lambda>kv. (FormatInt (int (fst kv)), JStr (b64_encode (snd kv)))) ds)
         = (foldl (\<lambda>m kv. AList.update (fst kv) (snd kv) m) cur ds, True)"
  using assms
  by (induction ds arbitrary: cur) (auto simp: dec_delta_member_def FormatInt_nat_parse Let_def)

lemma unmarshal_marshal_deltas:
  assumes "distinct (map fst ds)" and "\<forall>kv\<in>set ds. fst kv < 2 ^ 63"
  shows "snd (unmarshal_deltas [] (marshal_deltas ds))"
    "map_of (fst (unmarshal_deltas [] (marshal_deltas ds))) = map_of ds"
    "distinct (map fst (fst (unmarshal_deltas [] (marshal_deltas ds))))"
  using assms(1) distinct_foldl_update[of "[]" ds]
  by (simp_all add: marshal_deltas_def unmarshal_deltas_fold[OF assms(2)] map_of_foldr_update_set)

lemma dec_entry_marshal [simp]: "dec_entry (marshal_entry e) = (e, True)"
  by (cases e) (simp add: marshal_entry_def dec_entry_fields_def obj_get_def mk_entry_def)

lemma unmarshal_marshal_oplog [simp]: "unmarshal_oplog (marshal_oplog es) = (es, True)"
  by (auto simp: marshal_oplog_def list_all_iff comp_def)

lemma obj_get_append:
  "obj_get (xs @ ys) k = (case obj_get ys k of None \<Rightarrow> obj_get xs k | Some v \<Rightarrow> Some v)"
  by (simp add: obj_get_def map_add_def split: option.split)

lemma obj_get_omitempty:
  "obj_get (omitempty e k j) k' = (if k = k' \<and> \<not> e then Some j else None)"
  by (simp add: obj_get_def omitempty_def)

lemma dec_omitted:
  "dec_str (if v \<noteq> [] then Some (JStr v) else None) = (v, True)"
  "dec_bytes (if b \<noteq> [] then Some (JStr (b64_encode b)) else None) = (b, True)"
  "dec_bool (if c then Some (JBool c) else None) = (c, True)"
  by simp_all

lemma if_case_None:
  "(case (if c then Some x else None) of None \<Rightarrow> None | Some v \<Rightarrow> Some v) = (if c then Some x else None)"
  by simp

lemma unmarshal_marshal_meta [simp]: "unmarshal_meta (marshal_meta m) = (m, True)"
  by (cases m) (simp add: marshal_meta_def dec_meta_fields_def obj_get_append obj_get_omitempty
      dec_omitted if_case_None)

section \<open>Strings of the documents\<close>

lemma utf8_bytes_ascii: "\<forall>n\<in>set xs. n < 128 \<Longrightarrow> utf8_bytes xs"
  by (induction xs) auto

lemma valid_utf8_ascii: "(\<And>c. c \<in> set s \<Longrightarrow> of_char c < (128::nat)) \<Longrightarrow> valid_utf8 s"
  by (auto simp: valid_utf8_def intro!: utf8_bytes_ascii)

lemma b64_char_ascii: "n < 64 \<Longrightarrow> of_char (b64_char n) < (128::nat)"
  by (auto simp: b64_char_def)

lemma b64_encode_ascii: "c \<in> set (b64_encode bs) \<Longrightarrow> of_char c < (128::nat)"
  by (induction bs rule: b64_encode.induct) (auto simp: b64_char_ascii b64_sextets)

lemma valid_utf8_b64 [simp]: "valid_utf8 (b64_encode bs)"
  by (rule valid_utf8_ascii) (rule b64_encode_ascii)

lemma digit_char_ascii: "d < 10 \<Longrightarrow> of_char (digit_char d) < (128::nat)"
  by (simp add: digit_char_def)

lemma valid_utf8_FormatInt [simp]: "valid_utf8 (FormatInt i)"
  by (rule valid_utf8_ascii)
     (auto simp: FormatInt_def dest!: format_nat_digits intro: digit_char_ascii split: if_splits)

lemma json_utf8_deltas [simp]: "json_utf8 (marshal_deltas ds)"
  by (auto simp: marshal_deltas_def list_all_iff)

lemma field_names_utf8 [simp]:
  "valid_utf8 ''call_index''" "valid_utf8 ''api_name''" "valid_utf8 ''request_payload''"
  "valid_utf8 ''response_payload''" "valid_utf8 ''instance_id''" "valid_utf8 ''wasm_hash''"
  "valid_utf8 ''version''" "valid_utf8 ''etag''" "valid_utf8 ''process_id''"
  "valid_utf8 ''definition_hash''" "valid_utf8 ''business_key''" "valid_utf8 ''bpmn_state''"
  "valid_utf8 ''completed''" "valid_utf8 []"
  by (simp_all add: valid_utf8_def)

lemma json_utf8_entry [simp]: "json_utf8 (marshal_entry e) \<longleftrightarrow> valid_utf8 (ApiName e)"
  by (simp add: marshal_entry_def)

lemma json_utf8_oplog [simp]:
  "json_utf8 (marshal_oplog es) \<longleftrightarrow> list_all (\<lambda>e. valid_utf8 (ApiName e)) es"
  by (simp add: marshal_oplog_def list_all_iff)

lemma list_all_omitempty [simp]:
  "list_all P (omitempty e k j) \<longleftrightarrow> e \<or> P (k, j)"
  by (simp add: omitempty_def)

lemma json_utf8_meta: "meta_utf8 m \<Longrightarrow> json_utf8 (marshal_meta m)"
  by (simp add: marshal_meta_def meta_utf8_def)

end
