(* ===== verification/Active_Index.thy ===== *)
theory Active_Index
  imports Json_Codec
begin

text \<open>
  The active-instance index that \<open>MemorySnapshotStore\<close> and \<open>FileSnapshotStore\<close> keep as one JSON
  array: decoding it, replacing, removing or appending the entry of an instance, and encoding it.
  An entry is a Go \<open>map[string]interface{}\<close>; \<open>None\<close> is the nil map.
\<close>

section \<open>The index\<close>

type_synonym index_entry = "(string, json) gomap option"

definition json_error :: go_error where
  "json_error = Err ''json: cannot unmarshal''"

text \<open>Decoding an object into a Go map: a later member with the same key replaces an earlier one.\<close>

definition gomap_of :: "(string \<times> json) list \<Rightarrow> (string, json) gomap" where
  "gomap_of kvs = foldl (\<lambda>m kv. AList.update (fst kv) (snd kv) m) [] kvs"

fun dec_info :: "json \<Rightarrow> index_entry \<times> bool" where
  "dec_info (JObj kvs) = (Some (gomap_of kvs), True)"
| "dec_info JNull = (None, True)"
| "dec_info _ = (None, False)"

text \<open>The error of decoding the stored index is ignored: what was decoded is used.\<close>

fun dec_index :: "json option \<Rightarrow> index_entry list" where
  "dec_index (Some (JArr js)) = map (fst \<circ> dec_info) js"
| "dec_index _ = []"

text \<open>\<open>entry["instance_id"] == id\<close>\<close>

definition entry_is :: "string \<Rightarrow> index_entry \<Rightarrow> bool" where
  "entry_is iid e \<longleftrightarrow> (case e of None \<Rightarrow> False | Some m \<Rightarrow> map_of m ''instance_id'' = Some (JStr iid))"

text \<open>The loop over the entries, with its \<open>updated\<close> flag.\<close>

fun index_loop :: "string \<Rightarrow> index_entry \<Rightarrow> bool \<Rightarrow> index_entry list \<Rightarrow> index_entry list \<times> bool \<Rightarrow>
    index_entry list \<times> bool" where
  "index_loop iid info completed [] acc = acc"
| "index_loop iid info completed (e # es) (out, updated) =
     (if entry_is iid e
      then (if \<not> completed then index_loop iid info completed es (out @ [info], True)
            else index_loop iid info completed es (out, updated))
      else index_loop iid info completed es (out @ [e], updated))"

definition next_index :: "string \<Rightarrow> index_entry \<Rightarrow> bool \<Rightarrow> index_entry list \<Rightarrow> index_entry list" where
  "next_index iid info completed index =
     (let (out, updated) = index_loop iid info completed index ([], False)
      in if \<not> updated \<and> \<not> completed then out @ [info] else out)"

fun enc_entry :: "index_entry \<Rightarrow> json" where
  "enc_entry None = JNull"
| "enc_entry (Some m) = JObj m"

section \<open>What the update does\<close>

lemma index_loop_eq:
  "index_loop iid info completed es (out, u) =
     (out @ concat (map (\<lambda>e. if entry_is iid e then (if completed then [] else [info]) else [e]) es),
      u \<or> (\<not> completed \<and> (\<exists>e\<in>set es. entry_is iid e)))"
  by (induction es arbitrary: out u) auto

lemma next_index_eq:
  "next_index iid info completed index =
     (if completed then filter (\<lambda>e. \<not> entry_is iid e) index
      else if \<exists>e\<in>set index. entry_is iid e
      then map (\<lambda>e. if entry_is iid e then info else e) index
      else index @ [info])"
proof -
  have 1: "concat (map (\<lambda>e. if entry_is iid e then [] else [e]) index)
         = filter (\<lambda>e. \<not> entry_is iid e) index"
    by (induction index) auto
  have 2: "concat (map (\<lambda>e. if entry_is iid e then [info] else [e]) index)
         = map (\<lambda>e. if entry_is iid e then info else e) index"
    by (induction index) auto
  have 3: "\<forall>e\<in>set index. \<not> entry_is iid e \<Longrightarrow>
      map (\<lambda>e. if entry_is iid e then info else e) index = index"
    by (induction index) auto
  show ?thesis
    by (auto simp: next_index_def index_loop_eq 1 2 3 simp del: map_eq_conv)
qed

lemma next_index_filter_other:
  assumes "iid \<noteq> other" and "entry_is iid info"
  shows "filter (entry_is other) (next_index iid info completed index)
       = filter (entry_is other) index"
proof -
  have not_both: "\<not> (entry_is iid e \<and> entry_is other e)" for e
    using assms(1) by (auto simp: entry_is_def split: option.splits)
  have "filter (entry_is other) (filter (\<lambda>e. \<not> entry_is iid e) index) = filter (entry_is other) index"
    using not_both by (auto intro: filter_cong)
  moreover have "filter (entry_is other) (map (\<lambda>e. if entry_is iid e then info else e) index)
      = filter (entry_is other) index"
    using not_both assms(2) by (induction index) auto
  ultimately show ?thesis using assms(2) not_both[of info] by (auto simp: next_index_eq)
qed

lemma next_index_filter_own:
  assumes "entry_is iid info"
  shows "length (filter (entry_is iid) (next_index iid info completed index))
       = (if completed then 0 else max 1 (length (filter (entry_is iid) index)))"
proof (cases "\<exists>e\<in>set index. entry_is iid e")
  case True
  then have "filter (entry_is iid) index \<noteq> []" by (auto simp: filter_empty_conv)
  then have "length (filter (entry_is iid) index) \<ge> 1" by (cases "filter (entry_is iid) index") auto
  moreover have "length (filter (entry_is iid) (map (\<lambda>e. if entry_is iid e then info else e) index))
      = length (filter (entry_is iid) index)"
    using assms by (induction index) auto
  ultimately show ?thesis using True by (simp add: next_index_eq)
next
  case False
  then have "filter (entry_is iid) index = []" by (auto simp: filter_empty_conv)
  with False assms show ?thesis by (auto simp: next_index_eq)
qed

end
