(* ===== verification/Memory_Store.thy ===== *)
theory Memory_Store
  imports Active_Index
begin

text \<open>
  \<open>memory_store.go\<close>: the store that keeps everything in Go maps. Every method of the type is a
  definition over the record of its fields, \<open>memory_ops\<close> is its value of the \<open>SnapshotStore\<close>
  interface, and the interpretation \<open>mem_store\<close> shows that it keeps the contract of \<open>wasm_store\<close>
  without any condition on strings. The mutex makes each method one step.
\<close>

section \<open>MemorySnapshotStore\<close>

record memory_store =
  ms_snapshots :: "string \<rightharpoonup> bytes"
  ms_deltas :: "string \<rightharpoonup> deltas"
  ms_oplogs :: "string \<rightharpoonup> oplog_entry list"
  ms_meta :: "string \<rightharpoonup> instance_meta"
  ms_wasm :: "string \<rightharpoonup> bytes"
  ms_activeIndex :: bytes

definition NewMemorySnapshotStore :: memory_store where
  "NewMemorySnapshotStore = \<lparr> ms_snapshots = Map.empty, ms_deltas = Map.empty, ms_oplogs = Map.empty,
     ms_meta = Map.empty, ms_wasm = Map.empty, ms_activeIndex = bytes_of_string ''[]'' \<rparr>"

definition ms_Save :: "string \<Rightarrow> bytes \<Rightarrow> memory_store \<Rightarrow> go_error option \<times> memory_store" where
  "ms_Save iid snapshot s = (None, s\<lparr>ms_snapshots := (ms_snapshots s)(iid \<mapsto> snapshot)\<rparr>)"

definition ms_Load :: "string \<Rightarrow> memory_store \<Rightarrow> go_error + bytes" where
  "ms_Load iid s = (case ms_snapshots s iid of None \<Rightarrow> Inl (Err ''not found'') | Some snap \<Rightarrow> Inr snap)"

definition ms_Delete :: "string \<Rightarrow> memory_store \<Rightarrow> go_error option \<times> memory_store" where
  "ms_Delete iid s =
     (None, s\<lparr>ms_snapshots := (ms_snapshots s)(iid := None), ms_deltas := (ms_deltas s)(iid := None),
              ms_oplogs := (ms_oplogs s)(iid := None), ms_meta := (ms_meta s)(iid := None)\<rparr>)"

definition ms_SaveDeltas :: "string \<Rightarrow> deltas \<Rightarrow> memory_store \<Rightarrow> go_error option \<times> memory_store" where
  "ms_SaveDeltas iid ds s =
     (let current = (case ms_deltas s iid of None \<Rightarrow> [] | Some c \<Rightarrow> c);
          current' = foldl (\<lambda>m kv. AList.update (fst kv) (snd kv) m) current ds
      in (None, s\<lparr>ms_deltas := (ms_deltas s)(iid \<mapsto> current')\<rparr>))"

definition ms_LoadDeltas :: "string \<Rightarrow> memory_store \<Rightarrow> go_error + deltas" where
  "ms_LoadDeltas iid s = (case ms_deltas s iid of None \<Rightarrow> Inr [] | Some current \<Rightarrow> Inr current)"

definition ms_TruncateDeltas :: "string \<Rightarrow> memory_store \<Rightarrow> go_error option \<times> memory_store" where
  "ms_TruncateDeltas iid s = (None, s\<lparr>ms_deltas := (ms_deltas s)(iid := None)\<rparr>)"

definition ms_oplog_of :: "memory_store \<Rightarrow> string \<Rightarrow> oplog_entry list" where
  "ms_oplog_of s iid = (case ms_oplogs s iid of None \<Rightarrow> [] | Some l \<Rightarrow> l)"

definition ms_SaveOplog :: "string \<Rightarrow> int \<Rightarrow> string \<Rightarrow> bytes \<Rightarrow> bytes \<Rightarrow> memory_store \<Rightarrow>
    go_error option \<times> memory_store" where
  "ms_SaveOplog iid callIndex apiName request response s =
     (None, s\<lparr>ms_oplogs := (ms_oplogs s)
        (iid \<mapsto> ms_oplog_of s iid @ [mk_entry callIndex apiName request response])\<rparr>)"

definition ms_LoadOplog :: "string \<Rightarrow> memory_store \<Rightarrow> go_error + oplog_entry list" where
  "ms_LoadOplog iid s = (case ms_oplogs s iid of None \<Rightarrow> Inr [] | Some l \<Rightarrow> Inr l)"

definition ms_TruncateOplog :: "string \<Rightarrow> int \<Rightarrow> memory_store \<Rightarrow> go_error option \<times> memory_store" where
  "ms_TruncateOplog iid beforeCallIndex s =
     (None, s\<lparr>ms_oplogs := (ms_oplogs s)
        (iid \<mapsto> filter (\<lambda>e. CallIndex e > beforeCallIndex) (ms_oplog_of s iid))\<rparr>)"

definition ms_SaveMetadata :: "instance_meta \<Rightarrow> memory_store \<Rightarrow>
    (go_error + bool) \<times> instance_meta \<times> memory_store" where
  "ms_SaveMetadata m s =
     (let commit = (let m' = m\<lparr>Version := Version m + 1\<rparr>
                    in (Inr True, m', s\<lparr>ms_meta := (ms_meta s)(InstanceID m \<mapsto> m')\<rparr>))
      in case ms_meta s (InstanceID m) of
           Some existing \<Rightarrow>
             if Version m = 0 then (Inr False, m, s)
             else if Version existing \<noteq> Version m then (Inr False, m, s)
             else commit
         | None \<Rightarrow> if Version m > 0 then (Inr False, m, s) else commit)"

definition ms_LoadMetadata :: "string \<Rightarrow> memory_store \<Rightarrow> go_error + instance_meta option" where
  "ms_LoadMetadata iid s = (case ms_meta s iid of None \<Rightarrow> Inr None | Some m \<Rightarrow> Inr (Some m))"

definition ms_SaveWasm :: "string \<Rightarrow> bytes \<Rightarrow> memory_store \<Rightarrow> go_error option \<times> memory_store" where
  "ms_SaveWasm hash wasmBytes s = (None, s\<lparr>ms_wasm := (ms_wasm s)(hash \<mapsto> wasmBytes)\<rparr>)"

definition ms_LoadWasm :: "string \<Rightarrow> memory_store \<Rightarrow> go_error + bytes" where
  "ms_LoadWasm hash s = (case ms_wasm s hash of None \<Rightarrow> Inl (Err ''not found'') | Some w \<Rightarrow> Inr w)"

text \<open>\<open>nextIndex\<close> starts as a nil slice here, which \<open>json.Marshal\<close> writes as null if it stays empty.\<close>

definition ms_enc_index :: "index_entry list \<Rightarrow> json" where
  "ms_enc_index es = (if es = [] then JNull else JArr (map enc_entry es))"

definition ms_UpdateActiveIndex :: "codec \<Rightarrow> string \<Rightarrow> bytes \<Rightarrow> bool \<Rightarrow> memory_store \<Rightarrow>
    go_error option \<times> memory_store" where
  "ms_UpdateActiveIndex cd iid info completed s =
     (let index = (if length (ms_activeIndex s) > 0 then dec_index (json_parse cd (ms_activeIndex s)) else [])
      in case json_parse cd info of
           None \<Rightarrow> (Some json_error, s)
         | Some j \<Rightarrow>
             (case dec_info j of
                (_, False) \<Rightarrow> (Some json_error, s)
              | (newInfo, True) \<Rightarrow>
                  (None, s\<lparr>ms_activeIndex :=
                     json_text cd (ms_enc_index (next_index iid newInfo completed index))\<rparr>)))"

definition ms_LoadActiveIndex :: "memory_store \<Rightarrow> go_error + bytes" where
  "ms_LoadActiveIndex s =
     (if length (ms_activeIndex s) = 0 then Inr (bytes_of_string ''[]'') else Inr (ms_activeIndex s))"

text \<open>The store as a value of the interface.\<close>

definition memory_ops :: "codec \<Rightarrow> memory_store store_ops" where
  "memory_ops cd = \<lparr> st_Save = ms_Save, st_Load = ms_Load, st_Delete = ms_Delete,
     st_SaveDeltas = ms_SaveDeltas, st_LoadDeltas = ms_LoadDeltas,
     st_TruncateDeltas = ms_TruncateDeltas, st_SaveOplog = ms_SaveOplog, st_LoadOplog = ms_LoadOplog,
     st_TruncateOplog = ms_TruncateOplog, st_SaveMetadata = ms_SaveMetadata,
     st_LoadMetadata = ms_LoadMetadata, st_SaveWasm = ms_SaveWasm, st_LoadWasm = ms_LoadWasm,
     st_UpdateActiveIndex = ms_UpdateActiveIndex cd, st_LoadActiveIndex = ms_LoadActiveIndex \<rparr>"

section \<open>The contract\<close>

definition ms_view :: "memory_store \<Rightarrow> string \<Rightarrow> inst" where
  "ms_view s iid = \<lparr> i_snapshot = ms_snapshots s iid,
     i_deltas = (case ms_deltas s iid of None \<Rightarrow> Map.empty | Some ds \<Rightarrow> map_of ds),
     i_oplog = ms_oplog_of s iid, i_meta = ms_meta s iid \<rparr>"

definition ms_inv :: "memory_store \<Rightarrow> bool" where
  "ms_inv s \<longleftrightarrow> (\<forall>iid ds. ms_deltas s iid = Some ds \<longrightarrow> distinct (map fst ds))
     \<and> (\<forall>iid m. ms_meta s iid = Some m \<longrightarrow> InstanceID m = iid \<and> Version m > 0)"

lemmas ms_ops_defs = ms_Save_def ms_Load_def ms_Delete_def ms_SaveDeltas_def ms_LoadDeltas_def
  ms_TruncateDeltas_def ms_SaveOplog_def ms_LoadOplog_def ms_TruncateOplog_def ms_LoadMetadata_def
  ms_SaveWasm_def ms_LoadWasm_def

lemma memory_ops_sel [store_simps]:
  "st_Save (memory_ops cd) = ms_Save" "st_Load (memory_ops cd) = ms_Load"
  "st_Delete (memory_ops cd) = ms_Delete" "st_SaveDeltas (memory_ops cd) = ms_SaveDeltas"
  "st_LoadDeltas (memory_ops cd) = ms_LoadDeltas"
  "st_TruncateDeltas (memory_ops cd) = ms_TruncateDeltas"
  "st_SaveOplog (memory_ops cd) = ms_SaveOplog" "st_LoadOplog (memory_ops cd) = ms_LoadOplog"
  "st_TruncateOplog (memory_ops cd) = ms_TruncateOplog"
  "st_SaveMetadata (memory_ops cd) = ms_SaveMetadata"
  "st_LoadMetadata (memory_ops cd) = ms_LoadMetadata"
  "st_SaveWasm (memory_ops cd) = ms_SaveWasm" "st_LoadWasm (memory_ops cd) = ms_LoadWasm"
  by (simp_all add: memory_ops_def)

lemma ms_inv_init [simp]: "ms_inv NewMemorySnapshotStore"
  by (simp add: ms_inv_def NewMemorySnapshotStore_def)

lemma ms_SaveMetadata_eq:
  "ms_SaveMetadata m s =
     (if version_cas (ms_meta s (InstanceID m)) m
      then (Inr True, m\<lparr>Version := Version m + 1\<rparr>,
            s\<lparr>ms_meta := (ms_meta s)(InstanceID m \<mapsto> m\<lparr>Version := Version m + 1\<rparr>)\<rparr>)
      else (Inr False, m, s))"
  by (auto simp: ms_SaveMetadata_def version_cas_def Let_def split: option.splits)

lemma ms_view_upd [simp]:
  "i_meta (ms_view s iid) = ms_meta s iid" "i_snapshot (ms_view s iid) = ms_snapshots s iid"
  "i_oplog (ms_view s iid) = ms_oplog_of s iid"
  by (simp_all add: ms_view_def)

definition ms_deltas_of :: "memory_store \<Rightarrow> string \<Rightarrow> deltas" where
  "ms_deltas_of s iid = (case ms_deltas s iid of None \<Rightarrow> [] | Some c \<Rightarrow> c)"

lemma ms_view_deltas: "i_deltas (ms_view s iid) = map_of (ms_deltas_of s iid)"
  by (simp add: ms_view_def ms_deltas_of_def split: option.split)

lemma ms_SaveDeltas_spec:
  assumes "ms_inv s" and ds: "distinct (map fst ds)"
  shows "fst (ms_SaveDeltas iid ds s) = None \<and> ms_inv (snd (ms_SaveDeltas iid ds s)) \<and>
    ms_view (snd (ms_SaveDeltas iid ds s)) =
      (ms_view s)(iid := (ms_view s iid)\<lparr>i_deltas := i_deltas (ms_view s iid) ++ map_of ds\<rparr>)"
proof -
  define new where
    "new = foldl (\<lambda>m kv. AList.update (fst kv) (snd kv) m) (ms_deltas_of s iid) ds"
  have step: "ms_SaveDeltas iid ds s = (None, s\<lparr>ms_deltas := (ms_deltas s)(iid \<mapsto> new)\<rparr>)"
    by (simp add: ms_SaveDeltas_def new_def ms_deltas_of_def)
  have "distinct (map fst (ms_deltas_of s iid))"
    using assms(1) by (auto simp: ms_inv_def ms_deltas_of_def split: option.splits)
  then have dist: "distinct (map fst new)"
    unfolding new_def by (rule distinct_foldl_update)
  have new: "map_of new = i_deltas (ms_view s iid) ++ map_of ds"
    unfolding new_def by (simp add: map_of_foldr_update_set[OF ds] ms_view_deltas)
  have inv: "ms_inv (s\<lparr>ms_deltas := (ms_deltas s)(iid \<mapsto> new)\<rparr>)"
    using assms(1) dist by (auto simp: ms_inv_def)
  have "ms_view (s\<lparr>ms_deltas := (ms_deltas s)(iid \<mapsto> new)\<rparr>) =
      (ms_view s)(iid := (ms_view s iid)\<lparr>i_deltas := map_of new\<rparr>)"
    by (rule ext) (simp add: ms_view_def ms_oplog_of_def)
  with step inv new show ?thesis by simp
qed

interpretation mem_store: wasm_store "memory_ops cd" ms_inv ms_view version_cas "\<lambda>_. True" "\<lambda>_. True" ms_wasm
proof (unfold_locales, unfold store_simps, goal_cases)
  case (1 s iid b r s')
  then show ?case by (auto simp: ms_Save_def ms_inv_def ms_view_def ms_oplog_of_def)
next
  case (4 s iid r s')
  then show ?case
    by (auto simp: ms_Delete_def ms_inv_def ms_view_def ms_oplog_of_def empty_inst_def split: if_splits)
next
  case (5 s ds iid r s')
  then show ?case using ms_SaveDeltas_spec[of s ds iid] by simp
next
  case (6 s iid)
  then show ?case by (auto simp: ms_LoadDeltas_def ms_inv_def ms_view_def split: option.splits)
next
  case (7 s iid r s')
  then show ?case by (auto simp: ms_TruncateDeltas_def ms_inv_def ms_view_def ms_oplog_of_def split: if_splits)
next
  case (8 s api iid i req resp r s')
  then show ?case by (auto simp: ms_SaveOplog_def ms_inv_def ms_view_def ms_oplog_of_def)
next
  case (9 s iid)
  then show ?case by (auto simp: ms_LoadOplog_def ms_oplog_of_def split: option.splits)
next
  case (10 s iid i r s')
  then show ?case by (auto simp: ms_TruncateOplog_def ms_inv_def ms_view_def ms_oplog_of_def)
next
  case (11 s m rb m' s')
  then show ?case by (auto simp: ms_SaveMetadata_eq ms_inv_def ms_view_def ms_oplog_of_def split: if_splits)
next
  case (13 s m rb m' s')
  then show ?case by (auto simp: ms_SaveMetadata_eq version_cas_def)
next
  case (22 s m)
  then show ?case using version_cas_laws(5)[of m] by simp
qed (auto simp: ms_ops_defs ms_SaveMetadata_eq ms_inv_def ms_view_def ms_oplog_of_def version_cas_laws
      split: option.splits if_splits)

end
