(* ===== verification/Wasm_Memory.thy ===== *)
theory Wasm_Memory
  imports Wasman_Prelude
begin

text \<open>
  The linear memory of a WebAssembly module as the source sees it: the interface \<open>api.Memory\<close> of
  the wazero runtime, which is not part of this repository. The operations are a record of
  functions that the model takes as an argument; the locale \<open>linear_memory\<close> states what the
  documentation of the interface promises about them, over an abstraction to the byte string the
  memory holds. A byte list with a page limit is an instance of it.
\<close>

section \<open>The operations\<close>

text \<open>
  \<open>mem_Read\<close> returns a view of the memory. Where the source writes through the view of the whole
  memory (\<open>copy(memoryBytes, snapshot)\<close>), the model writes the new contents of the view back with
  \<open>mem_SetView\<close>.
\<close>

record 'm memory_api =
  mem_Size :: "'m \<Rightarrow> u32"
  mem_Read :: "'m \<Rightarrow> u32 \<Rightarrow> u32 \<Rightarrow> bytes option"
  mem_Write :: "'m \<Rightarrow> u32 \<Rightarrow> bytes \<Rightarrow> 'm \<times> bool"
  mem_Grow :: "'m \<Rightarrow> u32 \<Rightarrow> 'm \<times> u32 \<times> bool"
  mem_SetView :: "'m \<Rightarrow> bytes \<Rightarrow> 'm"

text \<open>The size of a WebAssembly page and the largest number of pages.\<close>

abbreviation page_size :: nat where "page_size \<equiv> 65536"
abbreviation max_pages :: nat where "max_pages \<equiv> 65536"

section \<open>What the interface promises\<close>

locale linear_memory =
  fixes M :: "'m memory_api"
    and contents :: "'m \<Rightarrow> bytes"
    and valid :: "'m \<Rightarrow> bool"
  assumes pages: "valid m \<Longrightarrow> page_size dvd length (contents m)"
    and limit: "valid m \<Longrightarrow> length (contents m) \<le> page_size * max_pages"
    and Size: "valid m \<Longrightarrow> mem_Size M m = word_of_nat (length (contents m))"
    and Read: "valid m \<Longrightarrow> mem_Read M m off n =
          (if unat off + unat n \<le> length (contents m)
           then Some (go_slice (unat off) (unat n) (contents m)) else None)"
    and Write_in: "valid m \<Longrightarrow> unat off + length bs \<le> length (contents m) \<Longrightarrow>
          mem_Write M m off bs = (m', b) \<Longrightarrow>
          b \<and> valid m' \<and> contents m' = overwrite (contents m) (unat off) bs"
    and Write_out: "valid m \<Longrightarrow> \<not> unat off + length bs \<le> length (contents m) \<Longrightarrow>
          mem_Write M m off bs = (m, False)"
    and Grow_zero: "valid m \<Longrightarrow>
          mem_Grow M m 0 = (m, word_of_nat (length (contents m) div page_size), True)"
    and Grow_ok: "valid m \<Longrightarrow> mem_Grow M m d = (m', prev, True) \<Longrightarrow>
          valid m' \<and> contents m' = contents m @ replicate (page_size * unat d) 0"
    and SetView: "valid m \<Longrightarrow> length (contents m) < page_size * max_pages \<Longrightarrow>
          length bs = length (contents m) \<Longrightarrow>
          valid (mem_SetView M m bs) \<and> contents (mem_SetView M m bs) = bs"
begin

text \<open>Below the 4 GiB maximum the whole memory is visible through \<open>Read(0, Size())\<close>.\<close>

lemma unat_Size:
  assumes "valid m" and "length (contents m) < page_size * max_pages"
  shows "unat (mem_Size M m) = length (contents m)"
  using assms by (simp add: Size unat_of_nat)

lemma Read_all:
  assumes "valid m" and "length (contents m) < page_size * max_pages"
  shows "mem_Read M m 0 (mem_Size M m) = Some (contents m)"
  using assms by (simp add: Read unat_Size go_slice_def)

lemma Size_zero_iff:
  assumes "valid m" and "length (contents m) < page_size * max_pages"
  shows "mem_Size M m = 0 \<longleftrightarrow> contents m = []"
  using unat_Size[OF assms] by (metis length_0_conv unat_eq_zero)

end

section \<open>A byte list as linear memory\<close>

definition list_memory :: "bytes memory_api" where
  "list_memory =
     \<lparr> mem_Size = (\<lambda>m. word_of_nat (length m)),
       mem_Read = (\<lambda>m off n. if unat off + unat n \<le> length m
                             then Some (go_slice (unat off) (unat n) m) else None),
       mem_Write = (\<lambda>m off bs. if unat off + length bs \<le> length m
                               then (overwrite m (unat off) bs, True) else (m, False)),
       mem_Grow = (\<lambda>m d. if length m div page_size + unat d \<le> max_pages
                         then (m @ replicate (page_size * unat d) 0,
                               word_of_nat (length m div page_size), True)
                         else (m, 0, False)),
       mem_SetView = (\<lambda>m bs. bs) \<rparr>"

definition list_memory_valid :: "bytes \<Rightarrow> bool" where
  "list_memory_valid m \<longleftrightarrow> page_size dvd length m \<and> length m \<le> page_size * max_pages"

interpretation lm: linear_memory list_memory "\<lambda>m. m" list_memory_valid
proof (unfold_locales, goal_cases)
  case (6 m off bs)
  then show ?case by (simp add: list_memory_def)
next
  case (8 m d m' prev)
  then have fits: "length m div page_size + unat d \<le> max_pages"
    and m': "m' = m @ replicate (page_size * unat d) 0"
    by (auto simp: list_memory_def split: if_splits)
  have "length m + page_size * unat d = page_size * (length m div page_size + unat d)"
    using 8 by (simp add: list_memory_valid_def add_mult_distrib2)
  also have "\<dots> \<le> page_size * max_pages"
    using fits by (rule mult_le_mono2)
  finally show ?case using 8 m' by (simp add: list_memory_valid_def)
next
  case (7 m)
  then have "length m div page_size \<le> max_pages"
    by (auto simp: list_memory_valid_def)
  then show ?case by (simp add: list_memory_def)
qed (auto simp: list_memory_def list_memory_valid_def split: if_splits)

end
