(* ===== verification/Session_Stream.thy ===== *)
theory Session_Stream
  imports Wasman_Types Wasm_Memory
begin

text \<open>
  The session of \<open>types.go\<close> and its two stream handlers, \<open>session.go\<close>. A session carries the guest's
  memory, the state of the download and upload streams and the handlers bound to its context; the
  handlers of the host act on the environment \<open>'e\<close>. Pointers and lengths are the 32-bit integers of
  the guest interface, so the slice bound \<open>ptr+length\<close> wraps as it does in Go.
\<close>

section \<open>Session\<close>

record ('m, 'e) session =
  ses_instanceID :: string
  ses_serverAddr :: string
  ses_shouldCrashOnCheckpoint :: bool
  ses_crashed :: bool
  ses_meta :: instance_meta
  ses_pageHashes :: "(nat \<rightharpoonup> u64) option"  \<comment> \<open>\<open>None\<close> is the nil map\<close>
  ses_callIndex :: int
  ses_uploadBuffer :: bytes
  ses_downloadEOF :: bool
  ses_ApiHandler :: "'e api_handler option"
  ses_DownloadHandler :: "'e download_handler option"
  ses_UploadHandler :: "'e upload_handler option"
  ses_downloadReader :: "bytes option"  \<comment> \<open>what the reader has not returned yet\<close>
  ses_memory :: 'm

text \<open>A host function returns to the guest or panics; wazero turns the panic into an error.\<close>

datatype 'a outcome = Ret 'a | Panic string

definition slice_panic :: string where
  "slice_panic = ''runtime error: slice bounds out of range''"

definition nil_map_panic :: string where
  "nil_map_panic = ''assignment to entry in nil map''"

text \<open>
  The bounds check \<open>ptr < 0 || length < 0 || int(ptr)+int(length) > len(memoryBytes)\<close>, and the slice
  \<open>memoryBytes[ptr : ptr+length]\<close>, whose upper bound is computed in 32 bits.
\<close>

definition out_of_bounds :: "i32 \<Rightarrow> i32 \<Rightarrow> bytes \<Rightarrow> bool" where
  "out_of_bounds ptr len view \<longleftrightarrow> sint ptr < 0 \<or> sint len < 0 \<or> sint ptr + sint len > int (length view)"

definition slice32 :: "i32 \<Rightarrow> i32 \<Rightarrow> bytes \<Rightarrow> bytes option" where
  "slice32 ptr len view =
     (let lo = sint ptr; hi = sint (ptr + len)
      in if lo < 0 \<or> hi < lo \<or> hi > int (length view) then None
         else Some (go_slice (nat lo) (nat (hi - lo)) view))"

section \<open>handleDownload\<close>

definition download_read :: "'m memory_api \<Rightarrow> i32 \<Rightarrow> i32 \<Rightarrow> bytes \<Rightarrow> ('m, 'e) session \<Rightarrow>
    i32 \<times> ('m, 'e) session" where
  "download_read M ptr len reader s =
     (let (buf, rest, eof) = reader_read reader (nat (sint len));
          s1 = (if length buf > 0 then s\<lparr>ses_memory := fst (mem_Write M (ses_memory s) ptr buf)\<rparr> else s);
          s2 = (if eof then s1\<lparr>ses_downloadReader := None, ses_downloadEOF := True\<rparr>
                else s1\<lparr>ses_downloadReader := Some rest\<rparr>)
      in (word_of_nat (length buf), s2))"

definition handleDownload :: "'m memory_api \<Rightarrow> i32 \<Rightarrow> i32 \<Rightarrow> ('m, 'e) session \<Rightarrow> 'e \<Rightarrow>
    i32 \<times> ('m, 'e) session \<times> 'e" where
  "handleDownload M ptr len s e =
     (if ses_downloadEOF s then (0, s, e)
      else case mem_Read M (ses_memory s) 0 (mem_Size M (ses_memory s)) of
        None \<Rightarrow> (-1, s, e)
      | Some memoryBytes \<Rightarrow>
          if out_of_bounds ptr len memoryBytes then (-1, s, e)
          else case ses_downloadReader s of
            Some reader \<Rightarrow> (let (n, s') = download_read M ptr len reader s in (n, s', e))
          | None \<Rightarrow>
              (case ses_DownloadHandler s of
                 None \<Rightarrow> (-1, s, e)
               | Some h \<Rightarrow>
                   (case h e of
                      (Inl err, e') \<Rightarrow> (-1, s, e')
                    | (Inr data, e') \<Rightarrow>
                        (let (n, s') = download_read M ptr len data s in (n, s', e')))))"

section \<open>handleUpload\<close>

definition handleUpload :: "'m memory_api \<Rightarrow> i32 \<Rightarrow> i32 \<Rightarrow> ('m, 'e) session \<Rightarrow> 'e \<Rightarrow>
    i32 outcome \<times> ('m, 'e) session \<times> 'e" where
  "handleUpload M ptr len s e =
     (case mem_Read M (ses_memory s) 0 (mem_Size M (ses_memory s)) of
        None \<Rightarrow> (Ret (-1), s, e)
      | Some memoryBytes \<Rightarrow>
          if out_of_bounds ptr len memoryBytes then (Ret (-1), s, e)
          else if len = 0 then
            (if ses_uploadBuffer s = [] then (Ret 0, s, e)
             else case ses_UploadHandler s of
               None \<Rightarrow> (Ret (-1), s, e)
             | Some h \<Rightarrow>
                 (let (err, e') = h (ses_uploadBuffer s) e;
                      s' = s\<lparr>ses_uploadBuffer := [], ses_downloadReader := None, ses_downloadEOF := False\<rparr>
                  in case err of Some x \<Rightarrow> (Ret (-1), s', e') | None \<Rightarrow> (Ret 0, s', e')))
          else case slice32 ptr len memoryBytes of
            None \<Rightarrow> (Panic slice_panic, s, e)
          | Some dataToWrite \<Rightarrow>
              (Ret len, s\<lparr>ses_uploadBuffer := ses_uploadBuffer s @ dataToWrite\<rparr>, e))"

section \<open>Streams of calls\<close>

text \<open>
  A guest that reads with a list of buffers, and what each call delivers: the bytes at the buffer up
  to the returned count. A guest that uploads a list of buffers.
\<close>

fun downloads :: "'m memory_api \<Rightarrow> (i32 \<times> i32) list \<Rightarrow> ('m, 'e) session \<Rightarrow> 'e \<Rightarrow>
    bytes option list \<times> ('m, 'e) session \<times> 'e" where
  "downloads M [] s e = ([], s, e)"
| "downloads M ((ptr, len) # reqs) s e =
     (let (n, s1, e1) = handleDownload M ptr len s e;
          chunk = mem_Read M (ses_memory s1) ptr n;
          (chunks, s2, e2) = downloads M reqs s1 e1
      in (chunk # chunks, s2, e2))"

fun uploads :: "'m memory_api \<Rightarrow> (i32 \<times> i32) list \<Rightarrow> ('m, 'e) session \<Rightarrow> 'e \<Rightarrow>
    i32 outcome list \<times> ('m, 'e) session \<times> 'e" where
  "uploads M [] s e = ([], s, e)"
| "uploads M ((ptr, len) # reqs) s e =
     (let (r, s1, e1) = handleUpload M ptr len s e;
          (rs, s2, e2) = uploads M reqs s1 e1
      in (r # rs, s2, e2))"

section \<open>Bounds in 32 bits\<close>

lemma signed_take_bit_31: "signed_take_bit 31 (k::int) = (k + 2147483648) mod 4294967296 - 2147483648"
  by (simp add: signed_take_bit_eq_take_bit_shift take_bit_eq_mod)

lemma sint32_cases: "sint (w::i32) = (if uint w < 2147483648 then uint w else uint w - 4294967296)"
proof -
  have b: "0 \<le> uint w" "uint w < 4294967296"
    using uint_lt2p[of w] by simp_all
  have "sint w = (uint w + 2147483648) mod 4294967296 - 2147483648"
    by (simp add: sint_uint signed_take_bit_31 del: uint_nonnegative)
  also have "\<dots> = (if uint w < 2147483648 then uint w else uint w - 4294967296)"
    using b by (cases "uint w < 2147483648") (auto simp: mod_pos_pos_trivial mod_pos_geq)
  finally show ?thesis .
qed

lemma sint32_add:
  assumes "0 \<le> sint (a::i32)" and "0 \<le> sint b"
  shows "sint (a + b) = (if sint a + sint b < 2147483648 then sint a + sint b else sint a + sint b - 4294967296)"
proof -
  have b: "sint a < 2147483648" "sint b < 2147483648"
    using sint_lt[of a] sint_lt[of b] by simp_all
  have "sint (a + b) = (sint a + sint b + 2147483648) mod 4294967296 - 2147483648"
    by (simp add: sint_word_add signed_take_bit_31)
  then show ?thesis using assms b
    by (cases "sint a + sint b < 2147483648") (auto simp: mod_pos_pos_trivial mod_pos_geq)
qed
lemma sint_nonneg_unat: "0 \<le> sint (w::i32) \<Longrightarrow> sint w = int (unat w)"
  using uint_lt2p[of w] by (simp add: sint32_cases split: if_splits)
lemma nonneg_unat_less: "0 \<le> sint (w::i32) \<Longrightarrow> unat w < 2147483648"
proof -
  assume "0 \<le> sint w"
  then have "int (unat w) < int 2147483648"
    using sint_lt[of w] sint_nonneg_unat[of w] by simp
  then show ?thesis by (simp only: of_nat_less_iff)
qed

lemma nat_sint_nonneg: "0 \<le> sint (w::i32) \<Longrightarrow> nat (sint w) = unat w"
  by (simp add: sint_nonneg_unat)

lemma in_bounds_iff:
  "\<not> out_of_bounds ptr len view \<longleftrightarrow>
     0 \<le> sint ptr \<and> 0 \<le> sint len \<and> unat ptr + unat len \<le> length view"
proof -
  have "0 \<le> sint ptr \<Longrightarrow> 0 \<le> sint len \<Longrightarrow>
      sint ptr + sint len \<le> int (length view) \<longleftrightarrow> unat ptr + unat len \<le> length view"
    by (simp only: sint_nonneg_unat) linarith
  then show ?thesis by (auto simp: out_of_bounds_def)
qed

lemma slice32_in_bounds:
  assumes "\<not> out_of_bounds ptr len view"
  shows "slice32 ptr len view =
    (if unat ptr + unat len < 2147483648 then Some (go_slice (unat ptr) (unat len) view) else None)"
proof -
  have p: "0 \<le> sint ptr" "0 \<le> sint len" and le: "unat ptr + unat len \<le> length view"
    using assms by (auto simp: in_bounds_iff)
  have s: "sint ptr = int (unat ptr)" "sint len = int (unat len)"
    using p sint_nonneg_unat by blast+
  have lt: "int (unat ptr) < 2147483648" "int (unat len) < 2147483648"
    using sint_lt[of ptr] sint_lt[of len] s by simp_all
  have sum: "sint (ptr + len) = (if int (unat ptr) + int (unat len) < 2147483648
      then int (unat ptr) + int (unat len) else int (unat ptr) + int (unat len) - 4294967296)"
    using sint32_add[OF p] by (simp only: s)
  show ?thesis
  proof (cases "unat ptr + unat len < 2147483648")
    case True
    then have "int (unat ptr) + int (unat len) < 2147483648" by linarith
    moreover have "int (unat ptr) + int (unat len) \<le> int (length view)" using le by linarith
    ultimately show ?thesis using True by (simp only: slice32_def Let_def sum s) simp
  next
    case False
    then have "\<not> int (unat ptr) + int (unat len) < 2147483648" by linarith
    then show ?thesis using False lt by (simp only: slice32_def Let_def sum s) simp
  qed
qed

section \<open>The download stream\<close>

text \<open>What the stream still has to deliver, once the handler has been asked for its data.\<close>

definition streaming :: "('m, 'e) session \<Rightarrow> bytes \<Rightarrow> bool" where
  "streaming s rest \<longleftrightarrow>
     (if ses_downloadEOF s then rest = [] else ses_downloadReader s = Some rest)"

context linear_memory
begin

lemma download_read_spec:
  assumes m: "valid (ses_memory s)" and b: "\<not> out_of_bounds ptr len (contents (ses_memory s))"
    and run: "download_read M ptr len reader s = (n, s')" and "\<not> ses_downloadEOF s"
  shows "valid (ses_memory s')" "length (contents (ses_memory s')) = length (contents (ses_memory s))"
    "mem_Read M (ses_memory s') ptr n = Some (take (unat len) reader)"
    "streaming s' (drop (unat len) reader)" "unat n = min (unat len) (length reader)"
proof -
  have p: "0 \<le> sint ptr" "0 \<le> sint len" and le: "unat ptr + unat len \<le> length (contents (ses_memory s))"
    using b by (auto simp: in_bounds_iff)
  have len: "nat (sint len) = unat len" "unat len < 2147483648"
    using p(2) by (simp_all only: nat_sint_nonneg nonneg_unat_less)
  define buf where "buf = take (unat len) reader"
  have lb: "length buf = min (unat len) (length reader)" by (simp add: buf_def min.commute)
  have n: "n = word_of_nat (length buf)"
    using run len by (auto simp: download_read_def reader_read_def buf_def Let_def split: if_splits)
  have un: "unat n = length buf"
    using lb len(2) by (simp add: n unat_of_nat)
  have mem: "ses_memory s' = (if buf = [] then ses_memory s else fst (mem_Write M (ses_memory s) ptr buf))"
    using run len by (auto simp: download_read_def reader_read_def buf_def Let_def split: if_splits)
  have fits: "unat ptr + length buf \<le> length (contents (ses_memory s))" using le lb by simp
  have w: "valid (ses_memory s') \<and> contents (ses_memory s') = overwrite (contents (ses_memory s)) (unat ptr) buf"
    using m mem Write_in[OF m fits] fits
    by (cases "buf = []") (auto simp: overwrite_def split: prod.splits intro: prod.collapse[symmetric])
  then show "valid (ses_memory s')" "length (contents (ses_memory s')) = length (contents (ses_memory s))"
    using fits by simp_all
  show "mem_Read M (ses_memory s') ptr n = Some (take (unat len) reader)"
    using w fits by (simp add: Read un go_slice_overwrite_same buf_def[symmetric])
  show "streaming s' (drop (unat len) reader)"
    using run len assms(4)
    by (auto simp: download_read_def reader_read_def streaming_def Let_def split: if_splits)
  show "unat n = min (unat len) (length reader)" using un lb by simp
qed

lemma handleDownload_streaming:
  assumes "valid (ses_memory s)" "length (contents (ses_memory s)) < page_size * max_pages"
    and b: "\<not> out_of_bounds ptr len (contents (ses_memory s))" and st: "streaming s rest"
    and run: "handleDownload M ptr len s e = (n, s', e')"
  shows "e' = e \<and> valid (ses_memory s') \<and> length (contents (ses_memory s')) = length (contents (ses_memory s)) \<and>
    mem_Read M (ses_memory s') ptr n = Some (take (unat len) rest) \<and> streaming s' (drop (unat len) rest)"
proof (cases "ses_downloadEOF s")
  case True
  with st run b assms(1) show ?thesis
    by (auto simp: handleDownload_def streaming_def Read in_bounds_iff go_slice_def)
next
  case False
  with st have r: "ses_downloadReader s = Some rest" by (simp add: streaming_def)
  obtain n1 s1 where d: "download_read M ptr len rest s = (n1, s1)" by fastforce
  have "(n, s', e') = (n1, s1, e)"
    using run False r b d by (simp add: handleDownload_def Read_all[OF assms(1,2)])
  then show ?thesis using download_read_spec[OF assms(1) b d False] by simp
qed

lemma downloads_streaming:
  assumes "valid (ses_memory s)" "length (contents (ses_memory s)) < page_size * max_pages"
    and "\<forall>(p, l)\<in>set reqs. \<not> out_of_bounds p l (contents (ses_memory s))" and "streaming s rest"
    and "downloads M reqs s e = (chunks, s', e')"
  shows "e' = e \<and> list_all (\<lambda>c. c \<noteq> None) chunks \<and>
    concat (map the chunks) = take (sum_list (map (\<lambda>r. unat (snd r)) reqs)) rest"
  using assms
proof (induction reqs arbitrary: s rest chunks)
  case Nil
  then show ?case by simp
next
  case (Cons req reqs)
  obtain p l where req: "req = (p, l)" by fastforce
  obtain n s1 e1 where h: "handleDownload M p l s e = (n, s1, e1)" by (metis prod_cases3)
  have b: "\<not> out_of_bounds p l (contents (ses_memory s))" using Cons.prems(3) req by simp
  note step = handleDownload_streaming[OF Cons.prems(1,2) b Cons.prems(4) h]
  obtain cs where cs: "downloads M reqs s1 e = (cs, s', e')"
    and chunks: "chunks = mem_Read M (ses_memory s1) p n # cs"
    using Cons.prems(5) req h step by (auto simp: Let_def split: prod.splits)
  have b1: "\<forall>(p, l)\<in>set reqs. \<not> out_of_bounds p l (contents (ses_memory s1))"
    using Cons.prems(3) step by (auto simp: out_of_bounds_def)
  have "e' = e \<and> list_all (\<lambda>c. c \<noteq> None) cs \<and>
      concat (map the cs) = take (sum_list (map (\<lambda>r. unat (snd r)) reqs)) (drop (unat l) rest)"
    using Cons.IH[of s1 "drop (unat l) rest", OF _ _ b1 _ cs] step Cons.prems(2) by simp
  then show ?case using chunks step req by (simp add: take_add)
qed

lemma download_first:
  assumes "valid (ses_memory s)" "length (contents (ses_memory s)) < page_size * max_pages"
    and b: "\<not> out_of_bounds ptr len (contents (ses_memory s))"
    and "\<not> ses_downloadEOF s" "ses_downloadReader s = None"
    and "ses_DownloadHandler s = Some h" "h e = (Inr payload, e1)"
  shows "handleDownload M ptr len s e =
    handleDownload M ptr len (s\<lparr>ses_downloadReader := Some payload\<rparr>) e1"
  using assms by (simp add: handleDownload_def Read_all[OF assms(1,2)] download_read_def Let_def
      split: prod.split)

section \<open>The upload stream\<close>

lemma handleUpload_chunk:
  assumes "valid (ses_memory s)" "length (contents (ses_memory s)) < page_size * max_pages"
    and "\<not> out_of_bounds ptr len (contents (ses_memory s))" "len \<noteq> 0" "unat ptr + unat len < 2147483648"
  shows "handleUpload M ptr len s e =
    (Ret len, s\<lparr>ses_uploadBuffer := ses_uploadBuffer s @ go_slice (unat ptr) (unat len) (contents (ses_memory s))\<rparr>, e)"
  using assms slice32_in_bounds[OF assms(3)] by (simp add: handleUpload_def Read_all[OF assms(1,2)])

lemma handleUpload_overflow:
  assumes "valid (ses_memory s)" "length (contents (ses_memory s)) < page_size * max_pages"
    and "\<not> out_of_bounds ptr len (contents (ses_memory s))" "len \<noteq> 0" "\<not> unat ptr + unat len < 2147483648"
  shows "handleUpload M ptr len s e = (Panic slice_panic, s, e)"
  using assms slice32_in_bounds[OF assms(3)] by (simp add: handleUpload_def Read_all[OF assms(1,2)])

lemma uploads_concat:
  assumes "valid (ses_memory s)" "length (contents (ses_memory s)) < page_size * max_pages"
    and "\<forall>(p, l)\<in>set reqs. \<not> out_of_bounds p l (contents (ses_memory s)) \<and> l \<noteq> 0 \<and> unat p + unat l < 2147483648"
  shows "uploads M reqs s e = (map (\<lambda>r. Ret (snd r)) reqs,
    s\<lparr>ses_uploadBuffer := ses_uploadBuffer s @
        concat (map (\<lambda>r. go_slice (unat (fst r)) (unat (snd r)) (contents (ses_memory s))) reqs)\<rparr>, e)"
  using assms
proof (induction reqs arbitrary: s)
  case Nil
  then show ?case by simp
next
  case (Cons req reqs)
  obtain p l where req: "req = (p, l)" by fastforce
  let ?s = "s\<lparr>ses_uploadBuffer := ses_uploadBuffer s @ go_slice (unat p) (unat l) (contents (ses_memory s))\<rparr>"
  have h: "handleUpload M p l s e = (Ret l, ?s, e)"
    using Cons.prems req by (intro handleUpload_chunk) auto
  have "uploads M reqs ?s e = (map (\<lambda>r. Ret (snd r)) reqs,
    ?s\<lparr>ses_uploadBuffer := ses_uploadBuffer ?s @
        concat (map (\<lambda>r. go_slice (unat (fst r)) (unat (snd r)) (contents (ses_memory ?s))) reqs)\<rparr>, e)"
    using Cons.prems by (intro Cons.IH) auto
  then show ?case by (simp add: req h)
qed

lemma handleUpload_flush:
  assumes "valid (ses_memory s)" "length (contents (ses_memory s)) < page_size * max_pages"
    and "\<not> out_of_bounds ptr 0 (contents (ses_memory s))" "ses_uploadBuffer s \<noteq> []"
    and "ses_UploadHandler s = Some h" "h (ses_uploadBuffer s) e = (err, e')"
  shows "handleUpload M ptr 0 s e = (Ret (case err of None \<Rightarrow> 0 | Some _ \<Rightarrow> -1),
    s\<lparr>ses_uploadBuffer := [], ses_downloadReader := None, ses_downloadEOF := False\<rparr>, e')"
  using assms by (simp add: handleUpload_def Read_all[OF assms(1,2)] split: option.split)

end

end
