(* ===== verification/Memory_Blocks.thy ===== *)
theory Memory_Blocks
  imports Wasman_Types
begin

text \<open>
  The dirty-block arithmetic of \<open>wasman.go\<close>: a memory is cut into blocks of 4096 bytes, a checkpoint
  saves the blocks whose FNV-1a hash differs from the last one recorded, and a restore hashes and
  overlays blocks. \<open>is_image\<close> is the specification: the memory that a full snapshot and a map of
  deltas stand for.
\<close>

section \<open>Blocks\<close>

definition block_at :: "nat \<Rightarrow> bytes \<Rightarrow> bytes" where
  "block_at i mem = go_slice (i * 4096) 4096 mem"

definition num_blocks :: "bytes \<Rightarrow> nat" where
  "num_blocks mem = length mem div 4096"

text \<open>
  The loop of an incremental checkpoint over the block indices: the recorded hashes and the deltas
  collected so far. Writing to the nil map panics (\<open>None\<close>).
\<close>

fun dirty_loop :: "bytes \<Rightarrow> nat list \<Rightarrow> (nat \<rightharpoonup> u64) option \<times> deltas \<Rightarrow>
    ((nat \<rightharpoonup> u64) option \<times> deltas) option" where
  "dirty_loop mem [] acc = Some acc"
| "dirty_loop mem (i # is) (pageHashes, ds) =
     (let blockData = block_at i mem; hashVal = fnv64a blockData;
          prevHash = (case pageHashes of None \<Rightarrow> None | Some f \<Rightarrow> f i)
      in if prevHash = None \<or> prevHash \<noteq> Some hashVal
         then case pageHashes of
                None \<Rightarrow> None
              | Some f \<Rightarrow> dirty_loop mem is (Some (f(i \<mapsto> hashVal)), AList.update i blockData ds)
         else dirty_loop mem is (pageHashes, ds))"

text \<open>The base hashes computed from a restored snapshot.\<close>

definition hash_blocks :: "bytes \<Rightarrow> (nat \<rightharpoonup> u64) \<Rightarrow> (nat \<rightharpoonup> u64)" where
  "hash_blocks mem f = foldl (\<lambda>g i. g(i \<mapsto> fnv64a (block_at i mem))) f [0..<num_blocks mem]"

text \<open>
  The overlay of loaded deltas. A slice out of range panics (\<open>False\<close>) and leaves the deltas before
  it applied.
\<close>

fun apply_deltas :: "deltas \<Rightarrow> bytes \<times> (nat \<rightharpoonup> u64) \<Rightarrow> bool \<times> bytes \<times> (nat \<rightharpoonup> u64)" where
  "apply_deltas [] (mem, f) = (True, mem, f)"
| "apply_deltas ((idx, d) # ds) (mem, f) =
     (if idx * 4096 + length d \<le> length mem
      then apply_deltas ds (overwrite mem (idx * 4096) d, f(idx \<mapsto> fnv64a d))
      else (False, mem, f))"

section \<open>The memory that a snapshot and deltas stand for\<close>

definition is_image :: "bytes \<Rightarrow> (nat \<rightharpoonup> bytes) \<Rightarrow> bytes \<Rightarrow> bool" where
  "is_image snap D img \<longleftrightarrow>
     65536 dvd length snap \<and> 65536 dvd length img \<and> length snap \<le> length img \<and>
     (\<forall>i b. D i = Some b \<longrightarrow> i < num_blocks img \<and> b = block_at i img) \<and>
     (\<forall>i < num_blocks img. D i = None \<longrightarrow> i < num_blocks snap \<and> block_at i img = block_at i snap)"

text \<open>The hashes a session has recorded are those of the blocks of \<open>img\<close>.\<close>

definition hashes_sound :: "(nat \<rightharpoonup> u64) \<Rightarrow> bytes \<Rightarrow> bool" where
  "hashes_sound f img \<longleftrightarrow> (\<forall>i v. f i = Some v \<longrightarrow> i < num_blocks img \<and> v = fnv64a (block_at i img))"

text \<open>No block changed from \<open>img\<close> to \<open>mem\<close> without changing its hash.\<close>

definition no_collision :: "bytes \<Rightarrow> bytes \<Rightarrow> bool" where
  "no_collision img mem \<longleftrightarrow>
     (\<forall>i < num_blocks img. fnv64a (block_at i mem) = fnv64a (block_at i img) \<longrightarrow>
        block_at i mem = block_at i img)"

section \<open>Facts about blocks\<close>

lemma length_block_at: "i < num_blocks mem \<Longrightarrow> length (block_at i mem) = 4096"
proof -
  assume "i < num_blocks mem"
  then have "i * 4096 + 4096 \<le> length mem" by (simp add: num_blocks_def)
  then show ?thesis by (simp add: block_at_def)
qed

lemma nth_block_at:
  assumes "i < num_blocks mem" and "j < 4096"
  shows "block_at i mem ! j = mem ! (i * 4096 + j)"
proof -
  have "i * 4096 + 4096 \<le> length mem" using assms(1) by (simp add: num_blocks_def)
  then show ?thesis using assms(2) by (simp add: block_at_def go_slice_def)
qed

lemma blocks_ext:
  assumes "length a = length b" and "4096 dvd length a"
    and "\<And>i. i < num_blocks a \<Longrightarrow> block_at i a = block_at i b"
  shows "a = b"
proof (rule nth_equalityI)
  show "length a = length b" by (rule assms(1))
  fix k assume k: "k < length a"
  define i j where "i = k div 4096" and "j = k mod 4096"
  have kij: "k = i * 4096 + j" and j: "j < 4096" by (simp_all add: i_def j_def)
  have i: "i < num_blocks a"
    using k assms(2) by (auto simp: i_def num_blocks_def elim!: dvdE)
  then have "i < num_blocks b" using assms(1) by (simp add: num_blocks_def)
  then have "a ! k = block_at i a ! j" "b ! k = block_at i b ! j"
    using i j kij by (simp_all add: nth_block_at)
  then show "a ! k = b ! k" using assms(3)[OF i] by simp
qed

lemma num_blocks_mono: "length a \<le> length b \<Longrightarrow> num_blocks a \<le> num_blocks b"
  by (simp add: num_blocks_def div_le_mono)

lemma block_at_append: "i < num_blocks a \<Longrightarrow> block_at i (a @ b) = block_at i a"
proof -
  assume "i < num_blocks a"
  then have "i * 4096 + 4096 \<le> length a" by (simp add: num_blocks_def)
  then show ?thesis by (simp add: block_at_def go_slice_def)
qed

lemma block_at_overwrite:
  assumes "idx < num_blocks mem" and "length d = 4096" and "i < num_blocks mem"
  shows "block_at i (overwrite mem (idx * 4096) d) = (if i = idx then d else block_at i mem)"
proof -
  have idx: "idx * 4096 + 4096 \<le> length mem" and i: "i * 4096 + 4096 \<le> length mem"
    using assms(1,3) by (simp_all add: num_blocks_def)
  have len: "num_blocks (overwrite mem (idx * 4096) d) = num_blocks mem"
    using idx assms(2) by (simp add: num_blocks_def)
  show ?thesis
  proof (rule nth_equalityI)
    show "length (block_at i (overwrite mem (idx * 4096) d)) = length (if i = idx then d else block_at i mem)"
      using assms len by (simp add: length_block_at)
    fix j assume "j < length (block_at i (overwrite mem (idx * 4096) d))"
    then have j: "j < 4096" using assms(3) len by (simp add: length_block_at)
    have "block_at i (overwrite mem (idx * 4096) d) ! j = overwrite mem (idx * 4096) d ! (i * 4096 + j)"
      using assms(3) len j by (simp add: nth_block_at)
    also have "\<dots> = (if idx * 4096 \<le> i * 4096 + j \<and> i * 4096 + j < idx * 4096 + 4096
        then d ! (i * 4096 + j - idx * 4096) else mem ! (i * 4096 + j))"
      using idx i j assms(2) by (simp add: nth_overwrite)
    also have "\<dots> = (if i = idx then d ! j else mem ! (i * 4096 + j))"
    proof -
      have "idx * 4096 \<le> i * 4096 + j \<and> i * 4096 + j < idx * 4096 + 4096 \<longleftrightarrow> i = idx"
        using j by linarith
      then show ?thesis by simp
    qed
    finally show "block_at i (overwrite mem (idx * 4096) d) ! j = (if i = idx then d else block_at i mem) ! j"
      using assms(3) j by (simp add: nth_block_at)
  qed
qed

lemma length_num_blocks: "65536 dvd length mem \<Longrightarrow> length mem = 4096 * num_blocks mem"
  by (auto simp: num_blocks_def elim!: dvdE)

lemma is_image_blocks:
  assumes "is_image snap D img" and "length c = length img"
    and "\<And>i. i < num_blocks img \<Longrightarrow> block_at i c = (case D i of Some d \<Rightarrow> d | None \<Rightarrow> block_at i snap)"
  shows "c = img"
proof (rule blocks_ext)
  have "65536 dvd length img" using assms(1) by (simp add: is_image_def)
  then show "4096 dvd length c" using assms(2) by (metis dvd_triv_left length_num_blocks)
  fix i assume "i < num_blocks c"
  then have i: "i < num_blocks img" using assms(2) by (simp add: num_blocks_def)
  show "block_at i c = block_at i img"
    using assms(1,3) i by (cases "D i") (auto simp: is_image_def)
qed (rule assms(2))

text \<open>The memory grew after the snapshot exactly if the last block is a delta.\<close>

lemma is_image_last:
  assumes "is_image snap D img" and "length snap < length img"
  shows "D (num_blocks img - 1) \<noteq> None" and "0 < num_blocks img"
proof -
  have len: "length snap = 4096 * num_blocks snap" "length img = 4096 * num_blocks img"
    using assms(1) by (auto simp: is_image_def intro: length_num_blocks)
  then have "num_blocks snap \<le> num_blocks img - 1" "0 < num_blocks img" using assms(2) by auto
  then show "D (num_blocks img - 1) \<noteq> None" "0 < num_blocks img"
    using assms(1) unfolding is_image_def
    by (metis diff_less leD zero_less_one, simp)
qed

section \<open>The incremental checkpoint\<close>

lemma dirty_loop_spec:
  assumes "distinct is" and "distinct (map fst ds)" and "\<forall>i\<in>set is. map_of ds i = None"
  shows "\<exists>f' ds'. dirty_loop mem is (Some f, ds) = Some (Some f', ds') \<and> distinct (map fst ds') \<and>
    (\<forall>i. f' i = (if i \<in> set is then Some (fnv64a (block_at i mem)) else f i)) \<and>
    (\<forall>i. map_of ds' i = (if i \<in> set is \<and> f i \<noteq> Some (fnv64a (block_at i mem))
                         then Some (block_at i mem) else map_of ds i))"
  using assms
proof (induction "is" arbitrary: f ds)
  case Nil
  then show ?case by simp
next
  case (Cons i "is")
  show ?case
  proof (cases "f i = Some (fnv64a (block_at i mem))")
    case True
    with Cons.IH[of ds f] Cons.prems show ?thesis by (auto simp: Let_def)
  next
    case False
    let ?f = "f(i \<mapsto> fnv64a (block_at i mem))" and ?ds = "AList.update i (block_at i mem) ds"
    have "distinct (map fst ?ds)" using Cons.prems(2) by (simp add: distinct_update)
    moreover have "\<forall>k\<in>set is. map_of ?ds k = None"
      using Cons.prems by (auto simp: update_conv')
    ultimately obtain f' ds' where IH: "dirty_loop mem is (Some ?f, ?ds) = Some (Some f', ds')"
      "distinct (map fst ds')"
      "\<forall>k. f' k = (if k \<in> set is then Some (fnv64a (block_at k mem)) else ?f k)"
      "\<forall>k. map_of ds' k = (if k \<in> set is \<and> ?f k \<noteq> Some (fnv64a (block_at k mem))
         then Some (block_at k mem) else map_of ?ds k)"
      using Cons.IH[of ?ds ?f] Cons.prems(1) by (auto simp del: fun_upd_apply)
    have "dirty_loop mem (i # is) (Some f, ds) = Some (Some f', ds')"
      using False IH(1) by (simp add: Let_def)
    moreover have "\<forall>k. f' k = (if k \<in> set (i # is) then Some (fnv64a (block_at k mem)) else f k)"
      using IH(3) Cons.prems(1) by auto
    moreover have "\<forall>k. map_of ds' k = (if k \<in> set (i # is) \<and> f k \<noteq> Some (fnv64a (block_at k mem))
         then Some (block_at k mem) else map_of ds k)"
      using IH(4) Cons.prems(1) False by (auto simp: update_conv')
    ultimately show ?thesis using IH(2) by blast
  qed
qed

lemma is_image_full: "65536 dvd length mem \<Longrightarrow> is_image mem Map.empty mem"
  by (simp add: is_image_def)

lemma is_image_dirty:
  assumes img: "is_image snap D img" and f: "hashes_sound f img"
    and len: "65536 dvd length mem" "length img \<le> length mem" and nc: "no_collision img mem"
    and ds: "\<And>i. map_of ds i = (if i < num_blocks mem \<and> f i \<noteq> Some (fnv64a (block_at i mem))
                             then Some (block_at i mem) else None)"
  shows "is_image snap (D ++ map_of ds) mem"
proof -
  have nb: "num_blocks img \<le> num_blocks mem" by (rule num_blocks_mono) (rule len(2))
  have clean: "i < num_blocks img \<and> block_at i mem = block_at i img"
    if "i < num_blocks mem" and "map_of ds i = None" for i
  proof -
    have "f i = Some (fnv64a (block_at i mem))" using that ds[of i] by (auto split: if_splits)
    then show ?thesis using f nc by (auto simp: hashes_sound_def no_collision_def)
  qed
  have A: "\<forall>i b. (D ++ map_of ds) i = Some b \<longrightarrow> i < num_blocks mem \<and> b = block_at i mem"
  proof (intro allI impI)
    fix i b assume Db: "(D ++ map_of ds) i = Some b"
    show "i < num_blocks mem \<and> b = block_at i mem"
    proof (cases "map_of ds i")
      case None
      then have D: "D i = Some b" using Db by (simp add: map_add_def)
      then have i: "i < num_blocks img" "b = block_at i img"
        using img by (auto simp: is_image_def)
      then show ?thesis using clean[OF _ None] nb by auto
    next
      case (Some c)
      then show ?thesis using Db ds[of i] by (auto split: if_splits)
    qed
  qed
  have B: "\<forall>i < num_blocks mem. (D ++ map_of ds) i = None \<longrightarrow>
      i < num_blocks snap \<and> block_at i mem = block_at i snap"
  proof (intro allI impI)
    fix i assume i: "i < num_blocks mem" and N: "(D ++ map_of ds) i = None"
    then have n: "map_of ds i = None" "D i = None" by (auto simp: map_add_def split: option.splits)
    have "i < num_blocks img" "block_at i mem = block_at i img" using clean[OF i n(1)] by auto
    then show "i < num_blocks snap \<and> block_at i mem = block_at i snap"
      using img n(2) by (auto simp: is_image_def)
  qed
  have "65536 dvd length snap" "length snap \<le> length mem"
    using img len(2) by (auto simp: is_image_def)
  then show ?thesis using len(1) A B by (simp add: is_image_def)
qed

lemma hashes_sound_dirty:
  assumes f: "hashes_sound f img" and "length img \<le> length mem"
    and f': "\<And>i. f' i = (if i < num_blocks mem then Some (fnv64a (block_at i mem)) else f i)"
  shows "hashes_sound f' mem"
proof -
  have "num_blocks img \<le> num_blocks mem" by (rule num_blocks_mono) (rule assms(2))
  then have none: "f i = None" if "\<not> i < num_blocks mem" for i
    using f that order_less_le_trans unfolding hashes_sound_def by (metis not_None_eq)
  show ?thesis unfolding hashes_sound_def
  proof (intro allI impI)
    fix i v assume fi: "f' i = Some v"
    show "i < num_blocks mem \<and> v = fnv64a (block_at i mem)"
      using fi f'[of i] none[of i] by (cases "i < num_blocks mem") auto
  qed
qed

section \<open>The restore\<close>

lemma hash_blocks_spec:
  "hash_blocks mem f i = (if i < num_blocks mem then Some (fnv64a (block_at i mem)) else f i)"
proof -
  have "foldl (\<lambda>g i. g(i \<mapsto> fnv64a (block_at i mem))) f [0..<n] i =
      (if i < n then Some (fnv64a (block_at i mem)) else f i)" for n
    by (induction n) auto
  then show ?thesis by (simp add: hash_blocks_def)
qed

lemma hash_blocks_sound: "hashes_sound (hash_blocks mem Map.empty) mem"
  by (auto simp: hashes_sound_def hash_blocks_spec split: if_splits)

lemma apply_deltas_spec:
  assumes "distinct (map fst ds)"
    and "\<forall>(i, d)\<in>set ds. i < num_blocks mem \<and> length d = 4096"
  shows "\<exists>mem' f'. apply_deltas ds (mem, f) = (True, mem', f') \<and> length mem' = length mem \<and>
    (\<forall>i < num_blocks mem. block_at i mem' = (case map_of ds i of Some d \<Rightarrow> d | None \<Rightarrow> block_at i mem)) \<and>
    (\<forall>i. f' i = (case map_of ds i of Some d \<Rightarrow> Some (fnv64a d) | None \<Rightarrow> f i))"
  using assms
proof (induction ds arbitrary: mem f)
  case Nil
  then show ?case by simp
next
  case (Cons x ds)
  obtain idx d where x: "x = (idx, d)" by fastforce
  have idx: "idx < num_blocks mem" "length d = 4096" using Cons.prems(2) x by auto
  have fits: "idx * 4096 + length d \<le> length mem"
    using idx by (simp add: num_blocks_def)
  let ?mem = "overwrite mem (idx * 4096) d" and ?f = "f(idx \<mapsto> fnv64a d)"
  have nb: "num_blocks ?mem = num_blocks mem" using fits by (simp add: num_blocks_def)
  obtain mem' f' where IH: "apply_deltas ds (?mem, ?f) = (True, mem', f')" "length mem' = length ?mem"
    "\<forall>i < num_blocks mem. block_at i mem' = (case map_of ds i of Some d \<Rightarrow> d | None \<Rightarrow> block_at i ?mem)"
    "\<forall>i. f' i = (case map_of ds i of Some d \<Rightarrow> Some (fnv64a d) | None \<Rightarrow> ?f i)"
    using Cons.IH[of ?mem ?f] Cons.prems nb by (auto simp del: fun_upd_apply)
  have "map_of ds idx = None" using Cons.prems(1) x by (simp add: map_of_eq_None_iff)
  then have "\<forall>i < num_blocks mem. block_at i mem' =
      (case map_of (x # ds) i of Some d \<Rightarrow> d | None \<Rightarrow> block_at i mem)"
    "\<forall>i. f' i = (case map_of (x # ds) i of Some d \<Rightarrow> Some (fnv64a d) | None \<Rightarrow> f i)"
    using IH(3,4) x idx by (auto simp: block_at_overwrite split: option.splits)
  then show ?case using IH(1,2) fits x by auto
qed

text \<open>Deltas over any snapshot that they fit in stand for some memory.\<close>

lemma overlay_image:
  assumes "distinct (map fst ds)" and "65536 dvd length mem"
    and "\<forall>(i, d)\<in>set ds. i < num_blocks mem \<and> length d = 4096"
  shows "\<exists>img. is_image mem (map_of ds) img \<and> length img = length mem"
proof -
  obtain img f where img: "apply_deltas ds (mem, Map.empty) = (True, img, f)" "length img = length mem"
    "\<forall>i < num_blocks mem. block_at i img = (case map_of ds i of Some d \<Rightarrow> d | None \<Rightarrow> block_at i mem)"
    using apply_deltas_spec[OF assms(1,3)] by blast
  have nb: "num_blocks img = num_blocks mem" using img(2) by (simp add: num_blocks_def)
  have "i < num_blocks mem \<and> b = block_at i img" if "map_of ds i = Some b" for i b
  proof -
    have "(i, b) \<in> set ds" using that by (rule map_of_SomeD)
    then have "i < num_blocks mem" using assms(3) by blast
    then show ?thesis using img(3) that by simp
  qed
  then have "is_image mem (map_of ds) img" using assms(2) img nb by (auto simp: is_image_def)
  then show ?thesis using img(2) by blast
qed

section \<open>One written byte\<close>

lemma no_collision_update:
  assumes "k < length img"
  shows "no_collision img (img[k := v])"
  unfolding no_collision_def
proof (intro allI impI, rule ccontr)
  fix i assume i: "i < num_blocks img"
    and h: "fnv64a (block_at i (img[k := v])) = fnv64a (block_at i img)"
    and ne: "block_at i (img[k := v]) \<noteq> block_at i img"
  have blk: "block_at i (img[k := v]) =
      (if i * 4096 \<le> k then (block_at i img)[k - i * 4096 := v] else block_at i img)"
    by (simp add: block_at_def go_slice_def drop_update_swap take_update_swap)
  let ?b = "block_at i img" and ?j = "k - i * 4096"
  have j: "?j < length ?b" and eq: "block_at i (img[k := v]) = ?b[?j := v]"
    using ne blk by (metis list_update_beyond not_less)+
  have upd: "?b[?j := v] = take ?j ?b @ v # drop (Suc ?j) ?b" using j by (simp add: upd_conv_take_nth_drop)
  have old: "?b = take ?j ?b @ ?b ! ?j # drop (Suc ?j) ?b" using j by (rule id_take_nth_drop)
  have "v \<noteq> ?b ! ?j" using ne eq by (metis list_update_id)
  then have "fnv64a (?b[?j := v]) \<noteq> fnv64a ?b" using fnv64a_change upd old by metis
  then show False using h eq by simp
qed

end
