(* ===== verification/Host_Calls.thy ===== *)
theory Host_Calls
  imports Session_Stream Memory_Blocks
begin

text \<open>
  The four functions of the host module \<open>env\<close> that \<open>wasman.go\<close> exports to a guest: \<open>checkpoint\<close>,
  \<open>host_get_time\<close>, \<open>host_call_api\<close> and \<open>stream_data\<close>. Each takes the module instance \<open>m\<close> that called
  it, the session of the call's context, the store and the environment of the handlers, and returns
  what the guest sees together with their new states. A panic is a value: the states it leaves
  behind are what a later execution finds.
\<close>

section \<open>checkpoint\<close>

definition isFullSnapshot :: "int \<Rightarrow> bool" where
  "isFullSnapshot v \<longleftrightarrow> v = 1 \<or> (v > 1 \<and> v mod 5 = 0)"

text \<open>A full snapshot; the errors of the two truncations are dropped, as in the source.\<close>

definition write_full :: "'s store_ops \<Rightarrow> string \<Rightarrow> int \<Rightarrow> int \<Rightarrow> bytes \<Rightarrow> 's \<Rightarrow> string option \<times> 's" where
  "write_full st iid version callIndex memoryBytes \<sigma> =
     (case st_Save st iid memoryBytes \<sigma> of
        (Some err, \<sigma>1) \<Rightarrow> (Some ''failed to write snapshot'', \<sigma>1)
      | (None, \<sigma>1) \<Rightarrow>
          if version > 1
          then let \<sigma>2 = snd (st_TruncateOplog st iid callIndex \<sigma>1);
                   \<sigma>3 = snd (st_TruncateDeltas st iid \<sigma>2)
               in (None, \<sigma>3)
          else (None, \<sigma>1))"

text \<open>An incremental checkpoint: the blocks whose hash changed since it was last recorded.\<close>

definition write_deltas :: "'s store_ops \<Rightarrow> string \<Rightarrow> bytes \<Rightarrow> (nat \<rightharpoonup> u64) option \<Rightarrow> 's \<Rightarrow>
    string option \<times> (nat \<rightharpoonup> u64) option \<times> 's" where
  "write_deltas st iid memoryBytes pageHashes \<sigma> =
     (case dirty_loop memoryBytes [0..<num_blocks memoryBytes] (pageHashes, []) of
        None \<Rightarrow> (Some nil_map_panic, pageHashes, \<sigma>)
      | Some (pageHashes', ds) \<Rightarrow>
          if length ds > 0
          then case st_SaveDeltas st iid ds \<sigma> of
                 (Some err, \<sigma>1) \<Rightarrow> (Some ''failed to write memory deltas'', pageHashes', \<sigma>1)
               | (None, \<sigma>1) \<Rightarrow> (None, pageHashes', \<sigma>1)
          else (None, pageHashes', \<sigma>))"

text \<open>What follows the compare-and-swap: the snapshot or the deltas, then the simulated crash.\<close>

definition write_memory :: "'s store_ops \<Rightarrow> bytes \<Rightarrow> ('m, 'e) session \<Rightarrow> 's \<Rightarrow>
    unit outcome \<times> ('m, 'e) session \<times> 's" where
  "write_memory st memoryBytes s \<sigma> =
     (let iid = ses_instanceID s; version = Version (ses_meta s);
          (fault, s1, \<sigma>1) =
            (if isFullSnapshot version
             then let (f, \<sigma>') = write_full st iid version (ses_callIndex s) memoryBytes \<sigma> in (f, s, \<sigma>')
             else let (f, ph, \<sigma>') = write_deltas st iid memoryBytes (ses_pageHashes s) \<sigma>
                  in (f, s\<lparr>ses_pageHashes := ph\<rparr>, \<sigma>'))
      in case fault of
           Some msg \<Rightarrow> (Panic msg, s1, \<sigma>1)
         | None \<Rightarrow>
             if ses_shouldCrashOnCheckpoint s1
             then (Panic ''simulated_host_crash'', s1\<lparr>ses_crashed := True\<rparr>, \<sigma>1)
             else (Ret (), s1, \<sigma>1))"

definition checkpoint :: "'s store_ops \<Rightarrow> 'm memory_api \<Rightarrow> string \<Rightarrow> 'm \<Rightarrow> ('m, 'e) session \<Rightarrow> 's \<Rightarrow>
    unit outcome \<times> ('m, 'e) session \<times> 's" where
  "checkpoint st M wasmHash m s \<sigma> =
     (let meta = (ses_meta s)\<lparr>WasmHash := wasmHash\<rparr>;
          (r, meta', \<sigma>1) = st_SaveMetadata st meta \<sigma>;
          s1 = s\<lparr>ses_meta := meta'\<rparr>
      in case r of
           Inl err \<Rightarrow> (Panic ''failed to save metadata'', s1, \<sigma>1)
         | Inr False \<Rightarrow> (Panic ''concurrent_execution_detected'', s1, \<sigma>1)
         | Inr True \<Rightarrow>
             (let s2 = s1\<lparr>ses_memory := m\<rparr>; size = mem_Size M m
              in if size = 0 then (Panic ''memory data size is zero'', s2, \<sigma>1)
                 else case mem_Read M m 0 size of
                        None \<Rightarrow> (Panic ''failed to read memory'', s2, \<sigma>1)
                      | Some memoryBytes \<Rightarrow> write_memory st memoryBytes s2 \<sigma>1))"

section \<open>host\_get\_time\<close>

text \<open>
  The loop over the oplog: the first entry of this call whose response parses. An entry that does
  not parse is logged and skipped.
\<close>

fun replay_time :: "int \<Rightarrow> oplog_entry list \<Rightarrow> int option" where
  "replay_time callIdx [] = None"
| "replay_time callIdx (entry # oplog) =
     (if CallIndex entry = callIdx \<and> ApiName entry = ''host_get_time''
      then case ParseInt64 (string_of_bytes (ResponsePayload entry)) of
             Some val \<Rightarrow> Some val
           | None \<Rightarrow> replay_time callIdx oplog
      else replay_time callIdx oplog)"

text \<open>\<open>clock\<close> is \<open>time.Now().UnixNano()\<close>; a failure to save the entry is only logged.\<close>

definition host_get_time :: "'s store_ops \<Rightarrow> ('e \<Rightarrow> int \<times> 'e) \<Rightarrow> ('m, 'e) session \<Rightarrow> 's \<Rightarrow> 'e \<Rightarrow>
    int \<times> ('m, 'e) session \<times> 's \<times> 'e" where
  "host_get_time st clock s \<sigma> e =
     (let callIdx = ses_callIndex s + 1;
          s1 = s\<lparr>ses_callIndex := callIdx\<rparr>;
          iid = ses_instanceID s;
          replayed = (case st_LoadOplog st iid \<sigma> of Inl err \<Rightarrow> None | Inr oplog \<Rightarrow> replay_time callIdx oplog)
      in case replayed of
           Some val \<Rightarrow> (val, s1, \<sigma>, e)
         | None \<Rightarrow>
             (let (nowNano, e1) = clock e;
                  payload = bytes_of_string (FormatInt nowNano);
                  \<sigma>1 = snd (st_SaveOplog st iid callIdx ''host_get_time'' [] payload \<sigma>)
              in (nowNano, s1, \<sigma>1, e1)))"

section \<open>host\_call\_api\<close>

definition find_entry :: "int \<Rightarrow> string \<Rightarrow> oplog_entry list \<Rightarrow> oplog_entry option" where
  "find_entry callIdx apiName oplog = find (\<lambda>e. CallIndex e = callIdx \<and> ApiName e = apiName) oplog"

text \<open>The response is written to the guest if it fits; the result of the write is not looked at.\<close>

definition deliver :: "'m memory_api \<Rightarrow> i32 \<Rightarrow> i32 \<Rightarrow> bytes \<Rightarrow> ('m, 'e) session \<Rightarrow> i32 \<times> ('m, 'e) session" where
  "deliver M respPtr respMaxLen response s =
     (if sint respMaxLen < int (length response) then (-2, s)
      else (word_of_nat (length response), s\<lparr>ses_memory := fst (mem_Write M (ses_memory s) respPtr response)\<rparr>))"

text \<open>The real operation: the handler, or the built-in \<open>test_api\<close>. \<open>None\<close> is the return of -1.\<close>

definition perform :: "'e api_handler option \<Rightarrow> string \<Rightarrow> bytes \<Rightarrow> int \<Rightarrow> 'e \<Rightarrow> bytes option \<times> 'e" where
  "perform handler apiName request callIdx e =
     (case handler of
        Some h \<Rightarrow>
          (case h apiName request e of
             (Inl err, e1) \<Rightarrow> (None, e1)
           | (Inr response, e1) \<Rightarrow> (response, e1))
      | None \<Rightarrow>
          if apiName = ''test_api''
          then (Some (bytes_of_string (''resp_for_'' @ string_of_bytes request @ ''_call_'' @ FormatInt callIdx)), e)
          else (None, e))"

text \<open>From the increment of the call index on: replay, or perform, log and deliver.\<close>

definition call_logged :: "'s store_ops \<Rightarrow> 'm memory_api \<Rightarrow> string \<Rightarrow> bytes \<Rightarrow> i32 \<Rightarrow> i32 \<Rightarrow>
    ('m, 'e) session \<Rightarrow> 's \<Rightarrow> 'e \<Rightarrow> i32 \<times> ('m, 'e) session \<times> 's \<times> 'e" where
  "call_logged st M apiName request respPtr respMaxLen s \<sigma> e =
     (let callIdx = ses_callIndex s + 1;
          s1 = s\<lparr>ses_callIndex := callIdx\<rparr>;
          iid = ses_instanceID s;
          logged = (case st_LoadOplog st iid \<sigma> of
                      Inl err \<Rightarrow> None | Inr oplog \<Rightarrow> find_entry callIdx apiName oplog)
      in case logged of
           Some entry \<Rightarrow>
             (let (n, s2) = deliver M respPtr respMaxLen (ResponsePayload entry) s1 in (n, s2, \<sigma>, e))
         | None \<Rightarrow>
             (case perform (ses_ApiHandler s1) apiName request callIdx e of
                (None, e1) \<Rightarrow> (-1, s1, \<sigma>, e1)
              | (Some response, e1) \<Rightarrow>
                  (case st_SaveOplog st iid callIdx apiName request response \<sigma> of
                     (Some err, \<sigma>1) \<Rightarrow> (-1, s1, \<sigma>1, e1)
                   | (None, \<sigma>1) \<Rightarrow>
                       (let (n, s2) = deliver M respPtr respMaxLen response s1 in (n, s2, \<sigma>1, e1)))))"

definition host_call_api :: "'s store_ops \<Rightarrow> 'm memory_api \<Rightarrow> 'm \<Rightarrow> i32 \<Rightarrow> i32 \<Rightarrow> i32 \<Rightarrow> i32 \<Rightarrow> i32 \<Rightarrow> i32 \<Rightarrow>
    ('m, 'e) session \<Rightarrow> 's \<Rightarrow> 'e \<Rightarrow> i32 outcome \<times> ('m, 'e) session \<times> 's \<times> 'e" where
  "host_call_api st M m apiNamePtr apiNameLen reqPtr reqLen respPtr respMaxLen s \<sigma> e =
     (let s0 = s\<lparr>ses_memory := m\<rparr>
      in case mem_Read M m 0 (mem_Size M m) of
           None \<Rightarrow> (Ret (-1), s0, \<sigma>, e)
         | Some memoryBytes \<Rightarrow>
             if out_of_bounds apiNamePtr apiNameLen memoryBytes then (Ret (-1), s0, \<sigma>, e)
             else case slice32 apiNamePtr apiNameLen memoryBytes of
               None \<Rightarrow> (Panic slice_panic, s0, \<sigma>, e)
             | Some name \<Rightarrow>
                 if out_of_bounds reqPtr reqLen memoryBytes then (Ret (-1), s0, \<sigma>, e)
                 else case slice32 reqPtr reqLen memoryBytes of
                   None \<Rightarrow> (Panic slice_panic, s0, \<sigma>, e)
                 | Some request \<Rightarrow>
                     (let (n, s1, \<sigma>1, e1) =
                        call_logged st M (string_of_bytes name) request respPtr respMaxLen s0 \<sigma> e
                      in (Ret n, s1, \<sigma>1, e1)))"

section \<open>stream\_data\<close>

definition stream_data :: "'m memory_api \<Rightarrow> 'm \<Rightarrow> i32 \<Rightarrow> i32 \<Rightarrow> i32 \<Rightarrow> ('m, 'e) session \<Rightarrow> 'e \<Rightarrow>
    i32 outcome \<times> ('m, 'e) session \<times> 'e" where
  "stream_data M m direction ptr len s e =
     (let s0 = s\<lparr>ses_memory := m\<rparr>
      in if direction = 0 then (let (n, s1, e1) = handleDownload M ptr len s0 e in (Ret n, s1, e1))
         else if direction = 1 then handleUpload M ptr len s0 e
         else (Ret (-1), s0, e))"

section \<open>Replay\<close>

lemma replay_time_append:
  "replay_time i (xs @ ys) = (case replay_time i xs of Some t \<Rightarrow> Some t | None \<Rightarrow> replay_time i ys)"
  by (induction xs) (auto split: option.splits)

lemma find_entry_append:
  "find_entry i nm (xs @ ys) = (case find_entry i nm xs of Some t \<Rightarrow> Some t | None \<Rightarrow> find_entry i nm ys)"
  by (induction xs) (auto simp: find_entry_def split: option.splits)

lemma deliver_memory:
  "ses_memory s = ses_memory s' \<Longrightarrow>
   fst (deliver M rp rm resp s) = fst (deliver M rp rm resp s') \<and>
   ses_memory (snd (deliver M rp rm resp s)) = ses_memory (snd (deliver M rp rm resp s'))"
  by (simp add: deliver_def)

context snapshot_store
begin

lemma host_get_time_replay:
  assumes "inv \<sigma>" "ok_str ''host_get_time''" "\<And>x. -(2 ^ 63) \<le> fst (clock x) \<and> fst (clock x) < 2 ^ 63"
    and run: "host_get_time st clock s \<sigma> e = (t, s1, \<sigma>1, e1)"
    and s2: "ses_instanceID s2 = ses_instanceID s" "ses_callIndex s2 = ses_callIndex s"
  shows "inv \<sigma>1 \<and> host_get_time st clock2 s2 \<sigma>1 e2 = (t, s2\<lparr>ses_callIndex := ses_callIndex s + 1\<rparr>, \<sigma>1, e2)"
proof -
  let ?i = "ses_callIndex s + 1" and ?iid = "ses_instanceID s"
  show ?thesis
  proof (cases "replay_time ?i (i_oplog (view \<sigma> ?iid))")
    case (Some v)
    then have "t = v" "\<sigma>1 = \<sigma>" using run by (auto simp: host_get_time_def LoadOplog[OF assms(1)] Let_def)
    then show ?thesis using Some assms(1) s2 by (simp add: host_get_time_def LoadOplog[OF assms(1)] Let_def)
  next
    case None
    obtain now e' where c: "clock e = (now, e')" by fastforce
    obtain r \<sigma>' where so: "st_SaveOplog st ?iid ?i ''host_get_time'' [] (bytes_of_string (FormatInt now)) \<sigma> = (r, \<sigma>')"
      by fastforce
    have t: "t = now" "\<sigma>1 = \<sigma>'"
      using run None c so by (auto simp: host_get_time_def LoadOplog[OF assms(1)] Let_def)
    note S = SaveOplog[OF assms(1,2) so]
    have "ParseInt64 (FormatInt now) = Some now"
      using assms(3)[of e] c by (intro ParseInt64_FormatInt) simp_all
    then have "replay_time ?i (i_oplog (view \<sigma>' ?iid)) = Some now"
      using S None by (simp add: replay_time_append)
    then show ?thesis using S t s2 LoadOplog[of \<sigma>' ?iid] by (simp add: host_get_time_def Let_def)
  qed
qed

lemma call_logged_replay:
  assumes "inv \<sigma>" "ok_str nm" and run: "call_logged st M nm req rp rm s \<sigma> e = (n, s1, \<sigma>1, e1)" "n \<noteq> -1"
    and s2: "ses_instanceID s2 = ses_instanceID s" "ses_callIndex s2 = ses_callIndex s" "ses_memory s2 = ses_memory s"
  shows "inv \<sigma>1 \<and> (\<exists>s3. call_logged st M nm req' rp rm s2 \<sigma>1 e2 = (n, s3, \<sigma>1, e2) \<and> ses_memory s3 = ses_memory s1)"
proof -
  let ?i = "ses_callIndex s + 1" and ?iid = "ses_instanceID s"
  have again: "\<exists>s3. call_logged st M nm req' rp rm s2 \<sigma>' e2 = (n, s3, \<sigma>', e2) \<and> ses_memory s3 = ses_memory s1"
    if "inv \<sigma>'" "find_entry ?i nm (i_oplog (view \<sigma>' ?iid)) = Some en"
      "deliver M rp rm (ResponsePayload en) (s\<lparr>ses_callIndex := ?i\<rparr>) = (n, s1)" for \<sigma>' en
    using that s2 deliver_memory[of "s\<lparr>ses_callIndex := ?i\<rparr>" "s2\<lparr>ses_callIndex := ?i\<rparr>" M rp rm "ResponsePayload en"]
    by (auto simp: call_logged_def LoadOplog Let_def split: prod.split)
  show ?thesis
  proof (cases "find_entry ?i nm (i_oplog (view \<sigma> ?iid))")
    case (Some en)
    then have "deliver M rp rm (ResponsePayload en) (s\<lparr>ses_callIndex := ?i\<rparr>) = (n, s1)" "\<sigma>1 = \<sigma>"
      using run(1) by (auto simp: call_logged_def LoadOplog[OF assms(1)] Let_def split: prod.splits)
    then show ?thesis using again Some assms(1) by simp
  next
    case None
    obtain resp e' where p: "perform (ses_ApiHandler s) nm req ?i e = (Some resp, e')"
      using run None by (auto simp: call_logged_def LoadOplog[OF assms(1)] Let_def split: prod.splits option.splits)
    obtain r \<sigma>' where so: "st_SaveOplog st ?iid ?i nm req resp \<sigma> = (r, \<sigma>')" by fastforce
    note S = SaveOplog[OF assms(1,2) so]
    have "deliver M rp rm resp (s\<lparr>ses_callIndex := ?i\<rparr>) = (n, s1)" "\<sigma>1 = \<sigma>'"
      using run(1) None p so S by (auto simp: call_logged_def LoadOplog[OF assms(1)] Let_def split: prod.splits)
    moreover have "find_entry ?i nm (i_oplog (view \<sigma>' ?iid)) = Some (mk_entry ?i nm req resp)"
      using S None by (simp add: find_entry_append) (simp add: find_entry_def)
    ultimately show ?thesis using again[of \<sigma>' "mk_entry ?i nm req resp"] S by simp
  qed
qed

lemma host_call_api_replay:
  assumes "inv \<sigma>" "\<And>nm view'. mem_Read M m 0 (mem_Size M m) = Some view' \<Longrightarrow> slice32 ap al view' = Some nm \<Longrightarrow>
      ok_str (string_of_bytes nm)"
    and run: "host_call_api st M m ap al rp rl wp wl s \<sigma> e = (Ret n, s1, \<sigma>1, e1)" "n \<noteq> -1"
    and s2: "ses_instanceID s2 = ses_instanceID s" "ses_callIndex s2 = ses_callIndex s"
  shows "inv \<sigma>1 \<and> (\<exists>s3. host_call_api st M m ap al rp rl wp wl s2 \<sigma>1 e2 = (Ret n, s3, \<sigma>1, e2) \<and>
    ses_memory s3 = ses_memory s1)"
proof -
  obtain memv nm req where v: "mem_Read M m 0 (mem_Size M m) = Some memv" "\<not> out_of_bounds ap al memv"
    "slice32 ap al memv = Some nm" "\<not> out_of_bounds rp rl memv" "slice32 rp rl memv = Some req"
    and c: "call_logged st M (string_of_bytes nm) req wp wl (s\<lparr>ses_memory := m\<rparr>) \<sigma> e = (n, s1, \<sigma>1, e1)"
    using run by (auto simp: host_call_api_def Let_def split: option.splits if_splits prod.splits)
  have "inv \<sigma>1 \<and> (\<exists>s3. call_logged st M (string_of_bytes nm) req wp wl (s2\<lparr>ses_memory := m\<rparr>) \<sigma>1 e2 = (n, s3, \<sigma>1, e2) \<and>
      ses_memory s3 = ses_memory s1)"
    using s2 by (intro call_logged_replay[OF assms(1) assms(2)[OF v(1,3)] c run(2)]) simp_all
  then show ?thesis using v by (auto simp: host_call_api_def Let_def)
qed

end

end
