(* ===== verification/Engine.thy ===== *)
theory Engine
  imports Host_Calls
begin

text \<open>
  The engine of \<open>wasman.go\<close>: construction, choice of the module version, instantiation, restore,
  and the two ways to run an instance, \<open>ExecuteWithArgs\<close> and \<open>RunBPMN\<close>. The wazero runtime is a
  parameter: a record of its operations on a runtime state \<open>'r\<close>, compiled modules \<open>'c\<close> and module
  instances \<open>'m\<close>, whose linear memory is seen through \<open>memory_api\<close>.
\<close>

section \<open>Guests\<close>

text \<open>
  An exported function of the guest, run on the state \<open>'m\<close> of its instance, is a tree: it computes
  and returns, exits through \<open>proc_exit\<close>, traps, or calls a host function and goes on with its
  result. A node holds the state of the instance at that moment and a continuation takes the state
  the host left. The tree of a run that returns is finite, so a guest that loops for ever between
  two host calls, or makes host calls for ever, has no tree.
\<close>

datatype (dead 'm) guest =
    Return 'm "u64 list"
  | ProcExit 'm u32
  | Trap 'm string
  | Checkpoint 'm "'m \<Rightarrow> 'm guest"
  | GetTime 'm "int \<Rightarrow> 'm \<Rightarrow> 'm guest"
  | CallApi 'm i32 i32 i32 i32 i32 i32 "i32 \<Rightarrow> 'm \<Rightarrow> 'm guest"
  | StreamData 'm i32 i32 i32 "i32 \<Rightarrow> 'm \<Rightarrow> 'm guest"

section \<open>The runtime\<close>

text \<open>
  \<open>rt_recovered\<close> is the error that a call returns when a host function panicked with a text, and
  \<open>rt_exit_text\<close> the text of an exit error. \<open>rt_SetModule\<close> writes the state of an instance back to
  the runtime, where the source mutates it through a pointer.
\<close>

record ('c, 'm, 'r) wazero =
  rt_NewRuntime :: 'r
  rt_HostModule :: "string \<Rightarrow> 'r \<Rightarrow> go_error option \<times> 'r"
  rt_CompileModule :: "bytes \<Rightarrow> go_error + 'c"
  rt_InstantiateModule :: "'c \<Rightarrow> string \<Rightarrow> 'r \<Rightarrow> (go_error + 'm) \<times> 'r"
  rt_Module :: "string \<Rightarrow> 'r \<Rightarrow> 'm option"
  rt_SetModule :: "string \<Rightarrow> 'm \<Rightarrow> 'r \<Rightarrow> 'r"
  rt_Close :: "string \<Rightarrow> 'r \<Rightarrow> go_error option \<times> 'r"
  rt_ExportedFunction :: "'m \<Rightarrow> string \<Rightarrow> (u64 list \<Rightarrow> 'm \<Rightarrow> 'm guest) option"
  rt_recovered :: "string \<Rightarrow> go_error"
  rt_exit_text :: "u32 \<Rightarrow> string"
  rt_trap :: "string \<Rightarrow> go_error"

section \<open>Running a guest function\<close>

text \<open>What a call needs besides the session: the store, the memory interface, the engine's hash.\<close>

record ('c, 'm, 'r, 's, 'e) host =
  h_store :: "'s store_ops"
  h_mem :: "'m memory_api"
  h_rt :: "('c, 'm, 'r) wazero"
  h_clock :: "'e \<Rightarrow> int \<times> 'e"
  h_wasmHash :: string

text \<open>The state a call leaves: the instance, the session, the store and the environment.\<close>

type_synonym ('m, 's, 'e) call_state = "'m \<times> ('m, 'e) session \<times> 's \<times> 'e"

primrec Call :: "('c, 'm, 'r, 's, 'e) host \<Rightarrow> 'm guest \<Rightarrow> ('m, 'e) session \<Rightarrow> 's \<Rightarrow> 'e \<Rightarrow>
    (go_error + u64 list) \<times> ('m, 's, 'e) call_state" where
  "Call H (Return m res) s \<sigma> e = (Inr res, m, s, \<sigma>, e)"
| "Call H (ProcExit m code) s \<sigma> e = (Inl (ExitError code (rt_exit_text (h_rt H) code)), m, s, \<sigma>, e)"
| "Call H (Trap m msg) s \<sigma> e = (Inl (rt_trap (h_rt H) msg), m, s, \<sigma>, e)"
| "Call H (Checkpoint m k) s \<sigma> e =
     (case checkpoint (h_store H) (h_mem H) (h_wasmHash H) m s \<sigma> of
        (Panic msg, s1, \<sigma>1) \<Rightarrow> (Inl (rt_recovered (h_rt H) msg), m, s1, \<sigma>1, e)
      | (Ret _, s1, \<sigma>1) \<Rightarrow> Call H (k m) s1 \<sigma>1 e)"
| "Call H (GetTime m k) s \<sigma> e =
     (case host_get_time (h_store H) (h_clock H) s \<sigma> e of
        (t, s1, \<sigma>1, e1) \<Rightarrow> Call H (k t m) s1 \<sigma>1 e1)"
| "Call H (CallApi m ap al rp rl wp wl k) s \<sigma> e =
     (case host_call_api (h_store H) (h_mem H) m ap al rp rl wp wl s \<sigma> e of
        (Panic msg, s1, \<sigma>1, e1) \<Rightarrow> (Inl (rt_recovered (h_rt H) msg), ses_memory s1, s1, \<sigma>1, e1)
      | (Ret n, s1, \<sigma>1, e1) \<Rightarrow> Call H (k n (ses_memory s1)) s1 \<sigma>1 e1)"
| "Call H (StreamData m dir ptr len k) s \<sigma> e =
     (case stream_data (h_mem H) m dir ptr len s e of
        (Panic msg, s1, e1) \<Rightarrow> (Inl (rt_recovered (h_rt H) msg), ses_memory s1, s1, \<sigma>, e1)
      | (Ret n, s1, e1) \<Rightarrow> Call H (k n (ses_memory s1)) s1 \<sigma> e1)"

section \<open>Restoring the memory of an instance\<close>

text \<open>The conversion \<open>uint32(neededPages)\<close> of a page count computed in 64 bits.\<close>

definition needed_pages :: "nat \<Rightarrow> u32" where
  "needed_pages sz = word_of_nat ((sz + 65535) div 65536)"

definition grow_to :: "'m memory_api \<Rightarrow> nat \<Rightarrow> 'm \<Rightarrow> bool \<times> 'm" where
  "grow_to M sz m =
     (let (m0, currentPages, _) = mem_Grow M m 0; needed = needed_pages sz
      in if needed > currentPages
         then let (m1, _, ok) = mem_Grow M m0 (needed - currentPages) in (ok, m1)
         else (True, m0))"

text \<open>
  The full snapshot, if it loads and is not empty: grow, copy, and hash every block. A restore
  returns its error, if any, with the instance and the hashes as it left them.
\<close>

definition restore_snapshot :: "'s store_ops \<Rightarrow> 'm memory_api \<Rightarrow> string \<Rightarrow> 's \<Rightarrow> 'm \<Rightarrow> (nat \<rightharpoonup> u64) \<Rightarrow>
    go_error option \<times> 'm \<times> (nat \<rightharpoonup> u64)" where
  "restore_snapshot st M iid \<sigma> m pageHashes =
     (case st_Load st iid \<sigma> of
        Inl err \<Rightarrow> (None, m, pageHashes)
      | Inr snapshot \<Rightarrow>
          if length snapshot > 0
          then case grow_to M (length snapshot) m of
                 (False, m1) \<Rightarrow> (Some (Err ''failed to grow memory for snapshot''), m1, pageHashes)
               | (True, m1) \<Rightarrow>
                   (case mem_Read M m1 0 (mem_Size M m1) of
                      None \<Rightarrow> (Some (Err ''failed to read memory for snapshot restoration''), m1, pageHashes)
                    | Some memoryBytes \<Rightarrow>
                        (let restored = go_copy memoryBytes snapshot
                         in (None, mem_SetView M m1 restored, hash_blocks restored pageHashes)))
          else (None, m, pageHashes))"

text \<open>The deltas, if they load and there are any. A delta that does not fit the memory panics.\<close>

definition max_index :: "deltas \<Rightarrow> nat" where
  "max_index ds = foldl (\<lambda>mx kv. if fst kv > mx then fst kv else mx) 0 ds"

definition restore_deltas :: "'s store_ops \<Rightarrow> 'm memory_api \<Rightarrow> string \<Rightarrow> 's \<Rightarrow> 'm \<Rightarrow> (nat \<rightharpoonup> u64) \<Rightarrow>
    go_error option outcome \<times> 'm \<times> (nat \<rightharpoonup> u64)" where
  "restore_deltas st M iid \<sigma> m pageHashes =
     (case st_LoadDeltas st iid \<sigma> of
        Inl err \<Rightarrow> (Ret None, m, pageHashes)
      | Inr ds \<Rightarrow>
          if length ds > 0
          then case grow_to M ((max_index ds + 1) * 4096) m of
                 (False, m1) \<Rightarrow> (Ret (Some (Err ''failed to grow memory for deltas'')), m1, pageHashes)
               | (True, m1) \<Rightarrow>
                   (case mem_Read M m1 0 (mem_Size M m1) of
                      None \<Rightarrow> (Ret (Some (Err ''failed to read memory for deltas restoration'')), m1, pageHashes)
                    | Some memoryBytes \<Rightarrow>
                        (let (ok, restored, pageHashes') = apply_deltas ds (memoryBytes, pageHashes)
                         in (if ok then Ret None else Panic slice_panic,
                             mem_SetView M m1 restored, pageHashes')))
          else (Ret None, m, pageHashes))"

definition restore :: "'s store_ops \<Rightarrow> 'm memory_api \<Rightarrow> string \<Rightarrow> 's \<Rightarrow> 'm \<Rightarrow> (nat \<rightharpoonup> u64) \<Rightarrow>
    go_error option outcome \<times> 'm \<times> (nat \<rightharpoonup> u64)" where
  "restore st M iid \<sigma> m pageHashes =
     (case restore_snapshot st M iid \<sigma> m pageHashes of
        (Some err, m1, f1) \<Rightarrow> (Ret (Some err), m1, f1)
      | (None, m1, f1) \<Rightarrow> restore_deltas st M iid \<sigma> m1 f1)"

section \<open>The engine\<close>

record ('c, 'm, 'r, 'e) engine =
  eng_runtime :: 'r
  eng_compiled :: 'c
  eng_wasmHash :: string
  eng_compiledCache :: "string \<rightharpoonup> 'c"
  eng_activeSessions :: "string \<rightharpoonup> ('m, 'e) session"

text \<open>The engine that is returned: it caches its own module, then the options are applied in turn.\<close>

definition make_engine :: "'r \<Rightarrow> 'c \<Rightarrow> string \<Rightarrow> (('c, 'm, 'r, 'e) engine \<Rightarrow> ('c, 'm, 'r, 'e) engine) list \<Rightarrow>
    ('c, 'm, 'r, 'e) engine" where
  "make_engine r compiled wasmHash opts =
     foldl (\<lambda>eng opt. opt eng)
       \<lparr> eng_runtime = r, eng_compiled = compiled, eng_wasmHash = wasmHash,
         eng_compiledCache = [wasmHash \<mapsto> compiled], eng_activeSessions = Map.empty \<rparr> opts"

text \<open>
  \<open>NewEngineWithBytes\<close>: \<open>sha\<close> is the hexadecimal SHA-256, \<open>opts\<close> the options applied at the end.
  The two host modules are instantiated by name.
\<close>

definition NewEngineWithBytes :: "(bytes \<Rightarrow> string) \<Rightarrow> 's store_ops \<Rightarrow> ('c, 'm, 'r) wazero \<Rightarrow> bytes \<Rightarrow>
    (('c, 'm, 'r, 'e) engine \<Rightarrow> ('c, 'm, 'r, 'e) engine) list \<Rightarrow> 's \<Rightarrow>
    (go_error + ('c, 'm, 'r, 'e) engine) \<times> 's" where
  "NewEngineWithBytes sha st W wasmBytes opts \<sigma> =
     (let wasmHash = sha wasmBytes
      in case st_SaveWasm st wasmHash wasmBytes \<sigma> of
           (Some err, \<sigma>1) \<Rightarrow> (Inl (Wrap ''failed to save WASM module in registry'' err), \<sigma>1)
         | (None, \<sigma>1) \<Rightarrow>
             (case rt_CompileModule W wasmBytes of
                Inl err \<Rightarrow> (Inl (Wrap ''failed to compile WASM module'' err), \<sigma>1)
              | Inr compiled \<Rightarrow>
                  (case rt_HostModule W ''wasi_snapshot_preview1'' (rt_NewRuntime W) of
                     (Some err, _) \<Rightarrow> (Inl (Wrap ''failed to instantiate WASI module'' err), \<sigma>1)
                   | (None, r1) \<Rightarrow>
                       (case rt_HostModule W ''env'' r1 of
                          (Some err, _) \<Rightarrow> (Inl (Wrap (''failed to instantiate host module '' @ [CHR 0x27] @ ''env'' @ [CHR 0x27]) err), \<sigma>1)
                        | (None, r2) \<Rightarrow>
                            (Inr (make_engine r2 compiled wasmHash opts), \<sigma>1)))))"

definition NewEngine :: "(string \<Rightarrow> go_error + bytes) \<Rightarrow> (bytes \<Rightarrow> string) \<Rightarrow> 's store_ops \<Rightarrow>
    ('c, 'm, 'r) wazero \<Rightarrow> string \<Rightarrow> (('c, 'm, 'r, 'e) engine \<Rightarrow> ('c, 'm, 'r, 'e) engine) list \<Rightarrow> 's \<Rightarrow>
    (go_error + ('c, 'm, 'r, 'e) engine) \<times> 's" where
  "NewEngine ReadFile sha st W wasmPath opts \<sigma> =
     (case ReadFile wasmPath of
        Inl err \<Rightarrow> (Inl (Wrap ''failed to read WASM module file'' err), \<sigma>)
      | Inr wasmBytes \<Rightarrow> NewEngineWithBytes sha st W wasmBytes opts \<sigma>)"

definition modName :: "string \<Rightarrow> string" where
  "modName iid = ''main-'' @ iid"

definition CloseInstance :: "('c, 'm, 'r) wazero \<Rightarrow> string \<Rightarrow> ('c, 'm, 'r, 'e) engine \<Rightarrow>
    go_error option \<times> ('c, 'm, 'r, 'e) engine" where
  "CloseInstance W iid eng =
     (let eng1 = eng\<lparr>eng_activeSessions := (eng_activeSessions eng)(iid := None)\<rparr>
      in case rt_Module W (modName iid) (eng_runtime eng1) of
           None \<Rightarrow> (None, eng1)
         | Some m \<Rightarrow>
             (let (err, r) = rt_Close W (modName iid) (eng_runtime eng1)
              in (err, eng1\<lparr>eng_runtime := r\<rparr>)))"

text \<open>
  The metadata of the instance and the module to run it with: an instance that was started with
  another module gets that module, from the cache or compiled from the registry.
\<close>

definition select_module :: "'s store_ops \<Rightarrow> ('c, 'm, 'r) wazero \<Rightarrow> string \<Rightarrow> ('c, 'm, 'r, 'e) engine \<Rightarrow> 's \<Rightarrow>
    (go_error + instance_meta \<times> 'c) \<times> ('c, 'm, 'r, 'e) engine" where
  "select_module st W iid eng \<sigma> =
     (case st_LoadMetadata st iid \<sigma> of
        Inl err \<Rightarrow> (Inl (Wrap ''failed to load metadata'' err), eng)
      | Inr None \<Rightarrow> (Inr (new_meta iid (eng_wasmHash eng), eng_compiled eng), eng)
      | Inr (Some meta) \<Rightarrow>
          if WasmHash meta \<noteq> eng_wasmHash eng
          then case eng_compiledCache eng (WasmHash meta) of
                 Some cached \<Rightarrow> (Inr (meta, cached), eng)
               | None \<Rightarrow>
                   (case st_LoadWasm st (WasmHash meta) \<sigma> of
                      Inl err \<Rightarrow>
                        (Inl (Wrap2 (''failed to load required WASM version '' @ WasmHash meta @ '' from registry'')
                                err ErrWasmVersionMismatch), eng)
                    | Inr loadedBytes \<Rightarrow>
                        (case rt_CompileModule W loadedBytes of
                           Inl err \<Rightarrow>
                             (Inl (Wrap (''failed to compile historical WASM module '' @ WasmHash meta) err), eng)
                         | Inr runModule \<Rightarrow>
                             (Inr (meta, runModule),
                              eng\<lparr>eng_compiledCache := (eng_compiledCache eng)(WasmHash meta \<mapsto> runModule)\<rparr>)))
          else (Inr (meta, eng_compiled eng), eng))"

end
