(* ===== verification/Execution.thy ===== *)
theory Execution
  imports Engine
begin

text \<open>
  \<open>ExecuteWithArgs\<close> and \<open>RunBPMN\<close> of \<open>wasman.go\<close>, composed of the parts of theory \<open>Engine\<close>. Both
  return the engine, the store and the environment they leave, also on every early return; deferred
  calls are applied where the function returns. A panic of the Go code itself (a delta that does not
  fit the memory, an empty result that is indexed) leaves the function as \<open>Panic\<close>.
\<close>

section \<open>ExecuteWithArgs\<close>

definition new_session :: "'e go_context \<Rightarrow> string \<Rightarrow> string \<Rightarrow> bool \<Rightarrow> instance_meta \<Rightarrow>
    (nat \<rightharpoonup> u64) option \<Rightarrow> 'm \<Rightarrow> ('m, 'e) session" where
  "new_session ctx iid serverAddr shouldCrash meta pageHashes m =
     \<lparr> ses_instanceID = iid, ses_serverAddr = serverAddr, ses_shouldCrashOnCheckpoint = shouldCrash,
       ses_crashed = False, ses_meta = meta, ses_pageHashes = pageHashes, ses_callIndex = 0,
       ses_uploadBuffer = [], ses_downloadEOF = False, ses_ApiHandler = getApiHandler ctx,
       ses_DownloadHandler = getDownloadHandler ctx, ses_UploadHandler = getUploadHandler ctx,
       ses_downloadReader = None, ses_memory = m \<rparr>"

text \<open>The call of \<open>_start\<close>: leaving with exit code 0 is the expected end.\<close>

definition run_start :: "('c, 'm, 'r, 's, 'e) host \<Rightarrow> 'm \<Rightarrow> ('m, 'e) session \<Rightarrow> 's \<Rightarrow> 'e \<Rightarrow>
    go_error option \<times> ('m, 's, 'e) call_state" where
  "run_start H m s \<sigma> e =
     (case rt_ExportedFunction (h_rt H) m ''_start'' of
        None \<Rightarrow> (None, m, s, \<sigma>, e)
      | Some startFunc \<Rightarrow>
          (case Call H (startFunc [] m) s \<sigma> e of
             (Inl err, cs) \<Rightarrow>
               (if as_exit_code err = Some 0 then None else Some (Wrap ''_start failed'' err), cs)
           | (Inr _, cs) \<Rightarrow> (None, cs)))"

text \<open>What \<open>ExecuteWithArgs\<close> makes of the end of the call.\<close>

definition classify :: "'e go_context \<Rightarrow> bool \<Rightarrow> (go_error + u64 list) \<Rightarrow> 'e \<Rightarrow> bool \<times> go_error option" where
  "classify ctx crashed r e =
     (case ctx_Err ctx e of
        Some err \<Rightarrow> (False, Some err)
      | None \<Rightarrow>
          (case r of
             Inr result \<Rightarrow> (False, None)
           | Inl err \<Rightarrow>
               if as_exit_code err = Some 0 then (False, None)
               else if crashed then (True, Some err)
               else if Contains (Error err) ''concurrent_execution_detected''
                    then (False, Some ErrConcurrentExecution)
               else (False, Some err)))"

text \<open>From the instantiated module to the result, before the deferred close.\<close>

definition execute_body :: "('c, 'm, 'r, 's, 'e) host \<Rightarrow> 'e go_context \<Rightarrow> string \<Rightarrow> u64 list \<Rightarrow> 'm \<Rightarrow>
    ('m, 'e) session \<Rightarrow> 's \<Rightarrow> 'e \<Rightarrow> (bool \<times> go_error option) outcome \<times> ('m, 's, 'e) call_state" where
  "execute_body H ctx entrypoint params m s \<sigma> e =
     (case (if entrypoint \<noteq> ''_start'' then run_start H m s \<sigma> e else (None, m, s, \<sigma>, e)) of
        (Some err, cs) \<Rightarrow> (Ret (False, Some err), cs)
      | (None, m1, s1, \<sigma>1, e1) \<Rightarrow>
          (let (rr, m3, f3) = restore (h_store H) (h_mem H) (ses_instanceID s1) \<sigma>1 m1 Map.empty;
               s3 = s1\<lparr>ses_memory := m3, ses_pageHashes := Some f3\<rparr>
           in case rr of
                Panic msg \<Rightarrow> (Panic msg, m3, s3, \<sigma>1, e1)
              | Ret (Some err) \<Rightarrow> (Ret (False, Some err), m3, s3, \<sigma>1, e1)
              | Ret None \<Rightarrow>
                  (case rt_ExportedFunction (h_rt H) m3 entrypoint of
                     None \<Rightarrow>
                       (Ret (False, Some (Err (''entrypoint function '' @ [CHR 0x27] @ entrypoint @ [CHR 0x27] @
                          '' not found''))), m3, s3, \<sigma>1, e1)
                   | Some runFunc \<Rightarrow>
                       (case Call H (runFunc params m3) s3 \<sigma>1 e1 of
                          (r, m4, s4, \<sigma>4, e4) \<Rightarrow>
                            (Ret (classify ctx (ses_crashed s4) r e4), m4, s4, \<sigma>4, e4)))))"

definition ExecuteWithArgs :: "'s store_ops \<Rightarrow> 'm memory_api \<Rightarrow> ('c, 'm, 'r) wazero \<Rightarrow> ('e \<Rightarrow> int \<times> 'e) \<Rightarrow>
    'e go_context \<Rightarrow> string \<Rightarrow> string \<Rightarrow> string \<Rightarrow> bool \<Rightarrow> u64 list \<Rightarrow>
    ('c, 'm, 'r, 'e) engine \<Rightarrow> 's \<Rightarrow> 'e \<Rightarrow>
    (bool \<times> go_error option) outcome \<times> ('c, 'm, 'r, 'e) engine \<times> 's \<times> 'e" where
  "ExecuteWithArgs st M W clock ctx iid entrypoint serverAddr shouldCrash params eng \<sigma> e =
     (case select_module st W iid eng \<sigma> of
        (Inl err, eng1) \<Rightarrow> (Ret (False, Some err), eng1, \<sigma>, e)
      | (Inr (meta, runModule), eng1) \<Rightarrow>
          (case rt_InstantiateModule W runModule (modName iid) (eng_runtime eng1) of
             (Inl err, r1) \<Rightarrow>
               (Ret (False, Some (Wrap ''failed to instantiate WASM'' err)), eng1\<lparr>eng_runtime := r1\<rparr>, \<sigma>, e)
           | (Inr m, r1) \<Rightarrow>
               (let H = \<lparr> h_store = st, h_mem = M, h_rt = W, h_clock = clock, h_wasmHash = eng_wasmHash eng1 \<rparr>;
                    s = new_session ctx iid serverAddr shouldCrash meta None m;
                    (res, m', s', \<sigma>', e') = execute_body H ctx entrypoint params m s \<sigma> e
                in (res, eng1\<lparr>eng_runtime := snd (rt_Close W (modName iid) r1)\<rparr>, \<sigma>', e'))))"

definition Execute :: "'s store_ops \<Rightarrow> 'm memory_api \<Rightarrow> ('c, 'm, 'r) wazero \<Rightarrow> ('e \<Rightarrow> int \<times> 'e) \<Rightarrow>
    'e go_context \<Rightarrow> string \<Rightarrow> string \<Rightarrow> string \<Rightarrow> bool \<Rightarrow> ('c, 'm, 'r, 'e) engine \<Rightarrow> 's \<Rightarrow> 'e \<Rightarrow>
    (bool \<times> go_error option) outcome \<times> ('c, 'm, 'r, 'e) engine \<times> 's \<times> 'e" where
  "Execute st M W clock ctx iid entrypoint serverAddr shouldCrash eng \<sigma> e =
     ExecuteWithArgs st M W clock ctx iid entrypoint serverAddr shouldCrash [] eng \<sigma> e"

section \<open>RunBPMN\<close>

definition WithKeepAlive :: "'e go_context \<Rightarrow> 'e go_context" where
  "WithKeepAlive ctx = ctx\<lparr>ctx_keepAlive := True\<rparr>"

definition isKeepAlive :: "'e go_context \<Rightarrow> bool" where
  "isKeepAlive ctx = ctx_keepAlive ctx"

definition index_panic :: string where
  "index_panic = ''runtime error: index out of range''"

text \<open>The session of the instance: a new one, or the active one bound to this call.\<close>

definition bpmn_session :: "'e go_context \<Rightarrow> string \<Rightarrow> string \<Rightarrow> instance_meta \<Rightarrow> ('m, 'e) session option \<Rightarrow>
    'm \<Rightarrow> ('m, 'e) session" where
  "bpmn_session ctx iid serverAddr meta active m =
     (case active of
        None \<Rightarrow> new_session ctx iid serverAddr False meta (Some Map.empty) m
      | Some s \<Rightarrow> s\<lparr>ses_meta := meta, ses_serverAddr := serverAddr, ses_ApiHandler := getApiHandler ctx,
                    ses_DownloadHandler := getDownloadHandler ctx, ses_UploadHandler := getUploadHandler ctx\<rparr>)"

definition forget_session :: "string \<Rightarrow> ('c, 'm, 'r, 'e) engine \<Rightarrow> ('c, 'm, 'r, 'e) engine" where
  "forget_session iid eng = eng\<lparr>eng_activeSessions := (eng_activeSessions eng)(iid := None)\<rparr>"

definition close_module :: "('c, 'm, 'r) wazero \<Rightarrow> string \<Rightarrow> ('c, 'm, 'r, 'e) engine \<Rightarrow> ('c, 'm, 'r, 'e) engine" where
  "close_module W iid eng =
     forget_session iid (eng\<lparr>eng_runtime := snd (rt_Close W (modName iid) (eng_runtime eng))\<rparr>)"

text \<open>The deferred function; an instance that is kept keeps the state it was left in.\<close>

definition bpmn_defer :: "('c, 'm, 'r) wazero \<Rightarrow> bool \<Rightarrow> bool \<Rightarrow> string \<Rightarrow> 'm \<Rightarrow> ('m, 'e) session \<Rightarrow>
    ('c, 'm, 'r, 'e) engine \<Rightarrow> ('c, 'm, 'r, 'e) engine" where
  "bpmn_defer W keepAlive failed iid m s eng =
     (if \<not> keepAlive \<or> failed \<or> ses_crashed s then close_module W iid eng
      else eng\<lparr>eng_runtime := rt_SetModule W (modName iid) m (eng_runtime eng),
               eng_activeSessions := (eng_activeSessions eng)(iid \<mapsto> s\<lparr>ses_memory := m\<rparr>)\<rparr>)"

text \<open>The two writes of the inputs to the exchange buffer.\<close>

definition write_inputs :: "'m memory_api \<Rightarrow> u32 \<Rightarrow> bytes \<Rightarrow> bytes \<Rightarrow> 'm \<Rightarrow> go_error option \<times> 'm" where
  "write_inputs M bufPtr graphBytes inputBytes m =
     (case mem_Write M m bufPtr graphBytes of
        (m1, False) \<Rightarrow> (Some (Err ''failed to write graph definition to WASM memory''), m1)
      | (m1, True) \<Rightarrow>
          (case mem_Write M m1 (bufPtr + word_of_nat (length graphBytes)) inputBytes of
             (m2, False) \<Rightarrow> (Some (Err ''failed to write input state to WASM memory''), m2)
           | (m2, True) \<Rightarrow> (None, m2)))"

text \<open>The guest function to call with its parameters, and the memory with the task identifier.\<close>

definition bpmn_call :: "('c, 'm, 'r) wazero \<Rightarrow> 'm memory_api \<Rightarrow> string \<Rightarrow> u32 \<Rightarrow> bytes \<Rightarrow> bytes \<Rightarrow> string \<Rightarrow> 'm \<Rightarrow>
    (go_error + 'm guest) \<times> 'm" where
  "bpmn_call W M entrypoint bufPtr graphBytes inputBytes completedTaskID m =
     (let g = word_of_nat (length graphBytes); i = word_of_nat (length inputBytes)
      in if entrypoint = ''execute'' then
           (case rt_ExportedFunction W m ''execute'' of
              None \<Rightarrow> (Inl (Err ''execute function not found in WASM VM''), m)
            | Some runFunc \<Rightarrow> (Inr (runFunc [g, i] m), m))
         else if entrypoint = ''resume'' then
           (case rt_ExportedFunction W m ''resume'' of
              None \<Rightarrow> (Inl (Err ''resume function not found in WASM VM''), m)
            | Some runFunc \<Rightarrow>
                (let taskIDOffset = word_of_nat (length graphBytes + length inputBytes) :: u32
                 in case mem_Write M m (bufPtr + taskIDOffset) (bytes_of_string completedTaskID) of
                      (m1, False) \<Rightarrow> (Inl (Err ''failed to write completed task ID to WASM memory''), m1)
                    | (m1, True) \<Rightarrow>
                        (Inr (runFunc [g, i, ucast taskIDOffset, word_of_nat (length completedTaskID)] m1), m1)))
         else (Inl (Err (''invalid entrypoint for RunBPMN: '' @ entrypoint)), m))"

text \<open>What \<open>RunBPMN\<close> makes of the end of the call.\<close>

definition bpmn_result :: "'m memory_api \<Rightarrow> 'e go_context \<Rightarrow> u32 \<Rightarrow> bool \<Rightarrow> (go_error + u64 list) \<Rightarrow> 'm \<Rightarrow> 'e \<Rightarrow>
    bool \<times> bytes option \<times> go_error option" where
  "bpmn_result M ctx bufPtr crashed r m e =
     (case ctx_Err ctx e of
        Some err \<Rightarrow> (False, None, Some err)
      | None \<Rightarrow>
          (let callRes = (case r of Inl _ \<Rightarrow> [] | Inr res \<Rightarrow> res);
               fault = (case r of Inr _ \<Rightarrow> None
                        | Inl err \<Rightarrow> if as_exit_code err = Some 0 then None else Some err)
           in case fault of
                Some err \<Rightarrow>
                  if crashed then (True, None, Some err)
                  else (False, None, Some (Wrap ''WASM call failed'' err))
              | None \<Rightarrow>
                  (case callRes of
                     [] \<Rightarrow> (False, None, Some (Err ''WASM call returned no results''))
                   | res # _ \<Rightarrow>
                       (let resultLen = ucast res :: i32
                        in if sint resultLen < 0
                           then (False, None, Some (Err (''WASM core execution failed with error code: '' @
                                  FormatInt (sint resultLen))))
                           else case mem_Read M m bufPtr resultLen of
                                  None \<Rightarrow> (False, None,
                                    Some (Err ''failed to read response bytes from WASM exchange buffer''))
                                | Some respBytes \<Rightarrow> (False, Some respBytes, None)))))"

text \<open>
  From the restored instance to the result. The second component is \<open>err != nil\<close> of the enclosing
  function at the return, which the deferred function looks at.
\<close>

definition bpmn_body :: "('c, 'm, 'r, 's, 'e) host \<Rightarrow> 'e go_context \<Rightarrow> string \<Rightarrow> bytes \<Rightarrow> bytes \<Rightarrow> string \<Rightarrow> 'm \<Rightarrow>
    ('m, 'e) session \<Rightarrow> 's \<Rightarrow> 'e \<Rightarrow>
    (bool \<times> bytes option \<times> go_error option) outcome \<times> bool \<times> ('m, 's, 'e) call_state" where
  "bpmn_body H ctx entrypoint graphBytes inputBytes completedTaskID m s \<sigma> e =
     (case rt_ExportedFunction (h_rt H) m ''get_exchange_buffer_pointer'' of
        None \<Rightarrow> (Ret (False, None, Some (Err ''get_exchange_buffer_pointer function not found in WASM VM'')),
                 False, m, s, \<sigma>, e)
      | Some getBufPtrFunc \<Rightarrow>
          (case Call H (getBufPtrFunc [] m) s \<sigma> e of
             (Inl err, cs) \<Rightarrow>
               (Ret (False, None, Some (Wrap ''failed to call get_exchange_buffer_pointer'' err)), True, cs)
           | (Inr [], cs) \<Rightarrow> (Panic index_panic, False, cs)
           | (Inr (resPtr # _), m1, s1, \<sigma>1, e1) \<Rightarrow>
               (let bufPtr = ucast resPtr :: u32;
                    totalLen = length graphBytes + length inputBytes + length completedTaskID
                in if totalLen > 1024 * 1024
                   then (Ret (False, None, Some (Err ''inputs size exceeds WASM exchange buffer limit of 1MB'')),
                         False, m1, s1, \<sigma>1, e1)
                   else case write_inputs (h_mem H) bufPtr graphBytes inputBytes m1 of
                     (Some err, m2) \<Rightarrow> (Ret (False, None, Some err), False, m2, s1, \<sigma>1, e1)
                   | (None, m2) \<Rightarrow>
                       (case bpmn_call (h_rt H) (h_mem H) entrypoint bufPtr graphBytes inputBytes completedTaskID m2 of
                          (Inl err, m3) \<Rightarrow> (Ret (False, None, Some err), False, m3, s1, \<sigma>1, e1)
                        | (Inr g, m3) \<Rightarrow>
                            (case Call H g s1 \<sigma>1 e1 of
                               (r, m4, s4, \<sigma>4, e4) \<Rightarrow>
                                 (Ret (bpmn_result (h_mem H) ctx bufPtr (ses_crashed s4) r m4 e4),
                                  isl r, m4, s4, \<sigma>4, e4))))))"

text \<open>
  The restore of \<open>RunBPMN\<close>: the same code as in \<open>ExecuteWithArgs\<close>, but it adds to the hashes that the
  session already has, and leaves memory and hashes in the session.
\<close>

definition bpmn_restore :: "'s store_ops \<Rightarrow> 'm memory_api \<Rightarrow> string \<Rightarrow> 's \<Rightarrow> 'm \<Rightarrow> ('m, 'e) session \<Rightarrow>
    go_error option outcome \<times> 'm \<times> ('m, 'e) session" where
  "bpmn_restore st M iid \<sigma> m s =
     (let hashes = (case ses_pageHashes s of None \<Rightarrow> Map.empty | Some f \<Rightarrow> f);
          (rr, m', f) = restore st M iid \<sigma> m hashes
      in (rr, m', s\<lparr>ses_memory := m', ses_pageHashes := Some f\<rparr>))"

definition RunBPMN :: "'s store_ops \<Rightarrow> 'm memory_api \<Rightarrow> ('c, 'm, 'r) wazero \<Rightarrow> ('e \<Rightarrow> int \<times> 'e) \<Rightarrow>
    'e go_context \<Rightarrow> string \<Rightarrow> string \<Rightarrow> bytes \<Rightarrow> bytes \<Rightarrow> string \<Rightarrow> string \<Rightarrow>
    ('c, 'm, 'r, 'e) engine \<Rightarrow> 's \<Rightarrow> 'e \<Rightarrow>
    (bool \<times> bytes option \<times> go_error option) outcome \<times> ('c, 'm, 'r, 'e) engine \<times> 's \<times> 'e" where
  "RunBPMN st M W clock ctx iid entrypoint graphBytes inputBytes completedTaskID serverAddr eng \<sigma> e =
     (case select_module st W iid eng \<sigma> of
        (Inl err, eng1) \<Rightarrow> (Ret (False, None, Some err), eng1, \<sigma>, e)
      | (Inr (meta, runModule), eng1) \<Rightarrow>
          (let keepAlive = isKeepAlive ctx;
               active = eng_activeSessions eng1 iid;
               H = \<lparr> h_store = st, h_mem = M, h_rt = W, h_clock = clock, h_wasmHash = eng_wasmHash eng1 \<rparr>;
               body = bpmn_body H ctx entrypoint graphBytes inputBytes completedTaskID
           in case rt_Module W (modName iid) (eng_runtime eng1) of
                Some m \<Rightarrow>
                  (let s = (bpmn_session ctx iid serverAddr meta active m)\<lparr>ses_memory := m\<rparr>;
                       (res, failed, m', s', \<sigma>', e') = body m s \<sigma> e
                   in (res, bpmn_defer W keepAlive failed iid m' s' eng1, \<sigma>', e'))
              | None \<Rightarrow>
                  (case rt_InstantiateModule W runModule (modName iid) (eng_runtime eng1) of
                     (Inl err, r1) \<Rightarrow>
                       (Ret (False, None, Some (Wrap ''failed to instantiate WASM'' err)),
                        forget_session iid (eng1\<lparr>eng_runtime := r1\<rparr>), \<sigma>, e)
                   | (Inr m, r1) \<Rightarrow>
                       (let eng2 = eng1\<lparr>eng_runtime := r1\<rparr>
                        in case run_start H m (bpmn_session ctx iid serverAddr meta active m) \<sigma> e of
                             (Some err, m1, s1, \<sigma>1, e1) \<Rightarrow>
                               (Ret (False, None, Some err),
                                (if \<not> keepAlive \<or> ses_crashed s1
                                 then close_module W iid (close_module W iid eng2) else close_module W iid eng2),
                                \<sigma>1, e1)
                           | (None, m1, s1, \<sigma>1, e1) \<Rightarrow>
                               (let (rr, m3, s3) = bpmn_restore st M iid \<sigma>1 m1 s1
                                in case rr of
                                     Panic msg \<Rightarrow> (Panic msg, bpmn_defer W keepAlive False iid m3 s3 eng2, \<sigma>1, e1)
                                   | Ret (Some err) \<Rightarrow>
                                       (Ret (False, None, Some err),
                                        bpmn_defer W keepAlive False iid m3 s3 eng2, \<sigma>1, e1)
                                   | Ret None \<Rightarrow>
                                       (let (res, failed, m', s', \<sigma>', e') = body m3 s3 \<sigma>1 e1
                                        in (res, bpmn_defer W keepAlive failed iid m' s' eng2, \<sigma>', e')))))))"

end
