(* ===== verification/Recovery.thy ===== *)
theory Recovery
  imports Execution
begin

text \<open>
  What makes the engine durable. The locale \<open>durable\<close> puts a store that keeps its contract beside a
  linear memory; inside it, a checkpoint makes the guest's memory the image that the store stands
  for, and a restore writes that image back. The facts are used through the interpretations for the
  stores of the repository.
\<close>

section \<open>Growing\<close>

text \<open>The memory can grow up to \<open>n\<close> bytes.\<close>

definition growable :: "'m memory_api \<Rightarrow> ('m \<Rightarrow> bytes) \<Rightarrow> ('m \<Rightarrow> bool) \<Rightarrow> nat \<Rightarrow> bool" where
  "growable M contents valid n \<longleftrightarrow>
     (\<forall>m d. valid m \<longrightarrow> length (contents m) + page_size * unat d \<le> n \<longrightarrow> snd (snd (mem_Grow M m d)))"

lemma list_memory_growable: "n \<le> page_size * max_pages \<Longrightarrow> growable list_memory (\<lambda>m. m) list_memory_valid n"
proof (unfold growable_def, intro allI impI)
  fix m and d :: u32 assume n: "n \<le> page_size * max_pages" and v: "list_memory_valid m"
    and le: "length m + page_size * unat d \<le> n"
  obtain k where k: "length m = page_size * k" using v by (auto simp: list_memory_valid_def)
  have "page_size * (k + unat d) \<le> page_size * max_pages" using le n k by (simp add: add_mult_distrib2)
  then have "k + unat d \<le> max_pages" by simp
  then show "snd (snd (mem_Grow list_memory m d))" by (simp add: list_memory_def k)
qed

lemma unat_needed_pages: "sz \<le> page_size * max_pages \<Longrightarrow> unat (needed_pages sz) = (sz + 65535) div 65536"
proof -
  assume "sz \<le> page_size * max_pages"
  then have "(sz + 65535) div 65536 \<le> 65536" by simp
  then show ?thesis by (simp add: needed_pages_def unat_of_nat)
qed

text \<open>A size rounded up to whole pages.\<close>

definition page_round :: "nat \<Rightarrow> nat" where
  "page_round sz = page_size * ((sz + 65535) div 65536)"

lemma page_round_dvd: "page_size dvd sz \<Longrightarrow> page_round sz = sz"
  by (auto simp: page_round_def elim!: dvdE)

lemma page_round_le: "page_size dvd n \<Longrightarrow> sz \<le> n \<Longrightarrow> page_round sz \<le> n"
  by (auto simp: page_round_def elim!: dvdE)

context linear_memory
begin

lemma grow_to_spec:
  assumes v: "valid m" and g: "growable M contents valid n" and n: "page_round sz \<le> n" "n \<le> page_size * max_pages"
    "length (contents m) \<le> n" and sz: "sz \<le> page_size * max_pages"
  shows "\<exists>m'. grow_to M sz m = (True, m') \<and> valid m' \<and>
    contents m' = contents m @ replicate (page_round sz - length (contents m)) 0"
proof -
  obtain k where k: "length (contents m) = page_size * k" using pages[OF v] by blast
  define p where "p = (sz + 65535) div 65536"
  have k_le: "k \<le> max_pages" using limit[OF v] k by simp
  have uk: "unat (word_of_nat k :: u32) = k" using k_le by (simp add: unat_of_nat)
  have up: "unat (needed_pages sz) = p" using unat_needed_pages[OF sz] by (simp add: p_def)
  have pr: "page_round sz = page_size * p" by (simp add: page_round_def p_def)
  have G0: "mem_Grow M m 0 = (m, word_of_nat k, True)" using Grow_zero[OF v] k by simp
  show ?thesis
  proof (cases "needed_pages sz > word_of_nat k")
    case False
    then have "p \<le> k" using up uk by (simp add: word_less_nat_alt)
    then show ?thesis using False v G0 pr k by (simp add: grow_to_def)
  next
    case True
    then have kp: "k < p" using up uk by (simp add: word_less_nat_alt)
    let ?d = "needed_pages sz - word_of_nat k"
    have ud: "unat ?d = p - k" using True up uk by (simp add: unat_sub word_less_nat_alt word_le_nat_alt)
    obtain m1 pv ok where G: "mem_Grow M m ?d = (m1, pv, ok)" by (metis prod_cases3)
    have "length (contents m) + page_size * unat ?d = page_round sz"
      using kp by (simp add: k pr ud flip: add_mult_distrib2)
    then have ok using g v n G unfolding growable_def by (metis snd_conv)
    then have "valid m1 \<and> contents m1 = contents m @ replicate (page_size * (p - k)) 0"
      using Grow_ok[OF v, of ?d m1 pv] G ud by simp
    moreover have "page_round sz - length (contents m) = page_size * (p - k)"
      by (simp add: pr k diff_mult_distrib2)
    ultimately show ?thesis using True G0 G \<open>ok\<close> by (simp add: grow_to_def)
  qed
qed

end

section \<open>The restore\<close>

lemma max_index_ge: "\<forall>kv\<in>set ds. fst kv \<le> max_index ds"
proof -
  have "mx \<le> foldl (\<lambda>mx kv. if fst kv > mx then fst kv else mx) mx ds \<and>
      (\<forall>kv\<in>set ds. fst kv \<le> foldl (\<lambda>mx kv. if fst kv > mx then fst kv else mx) mx ds)" for mx
  proof (induction ds arbitrary: mx)
    case (Cons a ds)
    show ?case using Cons[of "if fst a > mx then fst a else mx"] by (auto split: if_splits)
  qed simp
  then show ?thesis by (simp add: max_index_def)
qed

lemma max_index_lt:
  assumes "0 < n" and "\<forall>kv\<in>set ds. fst kv < n"
  shows "max_index ds < n"
proof -
  have "mx < n \<Longrightarrow> \<forall>kv\<in>set ds. fst kv < n \<Longrightarrow>
      foldl (\<lambda>mx kv. if fst kv > mx then fst kv else mx) mx ds < n" for mx
    by (induction ds arbitrary: mx) auto
  then show ?thesis using assms by (simp add: max_index_def)
qed

text \<open>
  The store holds a snapshot and deltas that stand for \<open>img\<close>. A session is in step with the store
  if it carries the current metadata and has recorded only hashes of blocks of the image; a session
  of a new instance carries version zero and has recorded nothing.
\<close>

definition durable_image :: "inst \<Rightarrow> bytes \<Rightarrow> bool" where
  "durable_image v img \<longleftrightarrow> (\<exists>snap. i_snapshot v = Some snap \<and> snap \<noteq> [] \<and> is_image snap (i_deltas v) img)"

definition fresh_session :: "inst \<Rightarrow> ('m, 'e) session \<Rightarrow> bool" where
  "fresh_session v s \<longleftrightarrow> InstanceID (ses_meta s) = ses_instanceID s \<and> Version (ses_meta s) = 0 \<and>
     i_meta v = None \<and> i_deltas v = Map.empty \<and> ses_pageHashes s = Some Map.empty"

definition current_session :: "inst \<Rightarrow> ('m, 'e) session \<Rightarrow> bool" where
  "current_session v s \<longleftrightarrow> InstanceID (ses_meta s) = ses_instanceID s \<and> Version (ses_meta s) > 0 \<and>
     i_meta v = Some (ses_meta s)"

definition in_step :: "inst \<Rightarrow> ('m, 'e) session \<Rightarrow> bytes \<Rightarrow> bool" where
  "in_step v s img \<longleftrightarrow> current_session v s \<and> durable_image v img \<and>
     (\<exists>f. ses_pageHashes s = Some f \<and> hashes_sound f img)"

text \<open>The metadata after a successful compare-and-swap.\<close>

definition committed_meta :: "instance_meta \<Rightarrow> string \<Rightarrow> string \<Rightarrow> instance_meta" where
  "committed_meta m h et = m\<lparr>WasmHash := h, Version := Version m + 1, ETag := et\<rparr>"

lemma committed_meta_simps [simp]:
  "Version (committed_meta m h et) = Version m + 1" "InstanceID (committed_meta m h et) = InstanceID m"
  "WasmHash (committed_meta m h et) = h"
  by (simp_all add: committed_meta_def)

text \<open>A checkpoint that went through: it returns, or it was asked to simulate a crash.\<close>

definition passed :: "('m, 'e) session \<Rightarrow> unit outcome" where
  "passed s = (if ses_shouldCrashOnCheckpoint s then Panic ''simulated_host_crash'' else Ret ())"

lemma write_memory_full:
  "isFullSnapshot (Version (ses_meta s)) \<Longrightarrow>
   write_full st (ses_instanceID s) (Version (ses_meta s)) (ses_callIndex s) mem \<sigma> = (None, \<sigma>') \<Longrightarrow>
   write_memory st mem s \<sigma> = (passed s, if ses_shouldCrashOnCheckpoint s then s\<lparr>ses_crashed := True\<rparr> else s, \<sigma>')"
  by (simp add: write_memory_def passed_def)

lemma write_memory_deltas:
  "\<not> isFullSnapshot (Version (ses_meta s)) \<Longrightarrow>
   write_deltas st (ses_instanceID s) mem (ses_pageHashes s) \<sigma> = (None, ph, \<sigma>') \<Longrightarrow>
   write_memory st mem s \<sigma> = (passed s, (if ses_shouldCrashOnCheckpoint s then s\<lparr>ses_crashed := True\<rparr> else s)
      \<lparr>ses_pageHashes := ph\<rparr>, \<sigma>')"
  by (simp add: write_memory_def passed_def)

lemma simulated_crash_sets_crashed:
  assumes "checkpoint st M h m s \<sigma> = (Panic ''simulated_host_crash'', s', \<sigma>')"
  shows "ses_crashed s'"
  using assms
  by (auto simp: checkpoint_def write_memory_def write_full_def write_deltas_def nil_map_panic_def Let_def
      split: sum.splits bool.splits option.splits if_splits prod.splits)

context snapshot_store
begin

lemma write_full_spec:
  assumes "inv \<sigma>" and run: "write_full st iid v ci mem \<sigma> = (fault, \<sigma>')"
  shows "fault = None \<and> inv \<sigma>' \<and> (\<forall>k. k \<noteq> iid \<longrightarrow> view \<sigma>' k = view \<sigma> k) \<and>
    i_snapshot (view \<sigma>' iid) = Some mem \<and> i_meta (view \<sigma>' iid) = i_meta (view \<sigma> iid) \<and>
    i_deltas (view \<sigma>' iid) = (if v > 1 then Map.empty else i_deltas (view \<sigma> iid)) \<and>
    i_oplog (view \<sigma>' iid) =
      (if v > 1 then filter (\<lambda>e. CallIndex e > ci) (i_oplog (view \<sigma> iid)) else i_oplog (view \<sigma> iid))"
proof -
  obtain r1 \<sigma>1 where 1: "st_Save st iid mem \<sigma> = (r1, \<sigma>1)" by fastforce
  obtain r2 \<sigma>2 where 2: "st_TruncateOplog st iid ci \<sigma>1 = (r2, \<sigma>2)" by fastforce
  obtain r3 \<sigma>3 where 3: "st_TruncateDeltas st iid \<sigma>2 = (r3, \<sigma>3)" by fastforce
  note S = Save[OF assms(1) 1]
  note O = TruncateOplog[OF _ 2]
  note D = TruncateDeltas[OF _ 3]
  show ?thesis using run S O D by (cases "v > 1") (auto simp: write_full_def 1 2 3 Let_def)
qed

lemma write_deltas_spec:
  assumes "inv \<sigma>" and len: "length mem < page_size * max_pages"
    and run: "write_deltas st iid mem (Some f) \<sigma> = (fault, ph, \<sigma>')"
  shows "\<exists>f' ds. fault = None \<and> ph = Some f' \<and> inv \<sigma>' \<and>
    (\<forall>i. f' i = (if i < num_blocks mem then Some (fnv64a (block_at i mem)) else f i)) \<and>
    (\<forall>i. map_of ds i = (if i < num_blocks mem \<and> f i \<noteq> Some (fnv64a (block_at i mem))
                        then Some (block_at i mem) else None)) \<and>
    view \<sigma>' = (view \<sigma>)(iid := (view \<sigma> iid)\<lparr>i_deltas := i_deltas (view \<sigma> iid) ++ map_of ds\<rparr>)"
proof -
  obtain f' ds where d: "dirty_loop mem [0..<num_blocks mem] (Some f, []) = Some (Some f', ds)"
    "distinct (map fst ds)"
    "\<forall>i. f' i = (if i < num_blocks mem then Some (fnv64a (block_at i mem)) else f i)"
    "\<forall>i. map_of ds i = (if i < num_blocks mem \<and> f i \<noteq> Some (fnv64a (block_at i mem))
                        then Some (block_at i mem) else None)"
    using dirty_loop_spec[of "[0..<num_blocks mem]" "[]" mem f] by auto
  have nb: "num_blocks mem < 2 ^ 63" using len by (simp add: num_blocks_def)
  have keys: "\<forall>kv\<in>set ds. fst kv < 2 ^ 63"
  proof
    fix kv assume "kv \<in> set ds"
    then have "map_of ds (fst kv) \<noteq> None" by (simp add: map_of_eq_None_iff)
    then have "fst kv < num_blocks mem" using d(4) by metis
    then show "fst kv < 2 ^ 63" using nb by linarith
  qed
  obtain r \<sigma>1 where sd: "st_SaveDeltas st iid ds \<sigma> = (r, \<sigma>1)" by fastforce
  note S = SaveDeltas[OF assms(1) d(2) keys sd]
  have upd: "view \<sigma> = (view \<sigma>)(iid := (view \<sigma> iid)\<lparr>i_deltas := i_deltas (view \<sigma> iid) ++ map_of []\<rparr>)" by simp
  show ?thesis
  proof (cases "ds = []")
    case True
    then have "fault = None \<and> ph = Some f' \<and> \<sigma>' = \<sigma>" using run d(1) by (auto simp: write_deltas_def)
    then show ?thesis using True d(3,4) assms(1) upd by blast
  next
    case False
    then have "fault = None \<and> ph = Some f' \<and> \<sigma>' = \<sigma>1" using run d(1) S by (auto simp: write_deltas_def sd)
    then show ?thesis using d(3,4) S by blast
  qed
qed

end

locale durable = snapshot_store st inv view cas ok_str ok_meta + linear_memory M contents valid
  for st :: "'s store_ops" and inv and view and cas and ok_str and ok_meta
    and M :: "'m memory_api" and contents and valid
begin

lemma restore_snapshot_spec:
  assumes "inv \<sigma>" "valid m" and snap: "i_snapshot (view \<sigma> iid) = Some snap" "snap \<noteq> []" "page_size dvd length snap"
    and n: "growable M contents valid n" "length snap \<le> n" "length (contents m) \<le> n" "n < page_size * max_pages"
  shows "\<exists>m' f'. restore_snapshot st M iid \<sigma> m Map.empty = (None, m', f') \<and> valid m' \<and>
    contents m' = snap @ drop (length snap) (contents m) \<and> hashes_sound f' (contents m')"
proof -
  have pr: "page_round (length snap) = length snap" using snap(3) by (rule page_round_dvd)
  obtain m1 where g: "grow_to M (length snap) m = (True, m1)" "valid m1"
    "contents m1 = contents m @ replicate (length snap - length (contents m)) 0"
    using grow_to_spec[OF assms(2) n(1), of "length snap"] pr n(2-4) by auto
  have lt: "length (contents m1) < page_size * max_pages" using g(3) n by simp
  define restored where "restored = go_copy (contents m1) snap"
  have r: "restored = snap @ drop (length snap) (contents m)"
    using g(3) by (auto simp: restored_def go_copy_def)
  have sv: "valid (mem_SetView M m1 restored)" "contents (mem_SetView M m1 restored) = restored"
    using SetView[OF g(2) lt, of restored] by (simp_all add: restored_def)
  have "restore_snapshot st M iid \<sigma> m Map.empty =
      (None, mem_SetView M m1 restored, hash_blocks restored Map.empty)"
    using snap(2) g(1) by (simp add: restore_snapshot_def Load_Some[OF assms(1) snap(1)]
        Read_all[OF g(2) lt] restored_def Let_def)
  then show ?thesis using sv r hash_blocks_sound[of restored] by auto
qed

lemma restore_deltas_spec:
  assumes "inv \<sigma>" "valid m" and img: "is_image snap (i_deltas (view \<sigma> iid)) img"
    and m: "contents m = snap @ drop (length snap) c" "length c \<le> length img" and f: "hashes_sound f (contents m)"
    and n: "growable M contents valid (length img)" "length img < page_size * max_pages"
  shows "\<exists>m' f'. restore_deltas st M iid \<sigma> m f = (Ret None, m', f') \<and> valid m' \<and>
    contents m' = img \<and> hashes_sound f' img"
proof -
  let ?D = "i_deltas (view \<sigma> iid)"
  obtain ds where ds: "st_LoadDeltas st iid \<sigma> = Inr ds" "map_of ds = ?D" "distinct (map fst ds)"
    using LoadDeltas[OF assms(1)] by blast
  have dvd: "page_size dvd length img" "page_size dvd length snap" "length snap \<le> length img"
    using img by (auto simp: is_image_def)
  have lens: "length snap = 4096 * num_blocks snap" "length img = 4096 * num_blocks img"
    using dvd(1,2) by (auto intro!: length_num_blocks)
  have lm: "length (contents m) \<le> length img" using m dvd(3) by simp
  have Dblk: "i < num_blocks img \<and> b = block_at i img" if "?D i = Some b" for i b
    using img that by (auto simp: is_image_def)
  have Dset: "i < num_blocks img \<and> d = block_at i img" if "(i, d) \<in> set ds" for i d
    using Dblk[of i d] ds(2,3) that by (metis map_of_is_SomeI)
  have keep: "block_at i (contents m @ z) = block_at i snap" if "i < num_blocks snap" for i z
    using that by (simp add: m(1) block_at_append)
  show ?thesis
  proof (cases "ds = []")
    case True
    then have D: "?D = Map.empty" using ds(2) by simp
    then have eq: "length snap = length img" using is_image_last[OF img] dvd(3) by force
    then have "contents m = snap" using m by simp
    moreover from this have "contents m = img"
      using eq D by (intro is_image_blocks[OF img]) auto
    ultimately show ?thesis using True ds(1) f assms(2) by (auto simp: restore_deltas_def)
  next
    case False
    then obtain i0 d0 where "(i0, d0) \<in> set ds" by (metis list.set_intros(1) neq_Nil_conv surj_pair)
    then have nb: "0 < num_blocks img" using Dset by fastforce
    have mx: "max_index ds < num_blocks img" using Dset by (intro max_index_lt[OF nb]) auto
    then have sz: "(max_index ds + 1) * 4096 \<le> length img" using lens by simp
    define z where "z = replicate (page_round ((max_index ds + 1) * 4096) - length (contents m)) (0::byte)"
    obtain m2 where g: "grow_to M ((max_index ds + 1) * 4096) m = (True, m2)" "valid m2" "contents m2 = contents m @ z"
      using grow_to_spec[OF assms(2) n(1), of "(max_index ds + 1) * 4096"] page_round_le[OF dvd(1) sz] n(2) sz lm
      unfolding z_def by auto
    have len2: "length (contents m2) = length img"
    proof (cases "length snap < length img")
      case True
      then obtain d where "map_of ds (num_blocks img - 1) = Some d" using is_image_last[OF img] ds(2) by auto
      then have "num_blocks img - 1 \<le> max_index ds" using max_index_ge[of ds] map_of_SomeD by fastforce
      then have "max_index ds + 1 = num_blocks img" using mx by linarith
      then have "(max_index ds + 1) * 4096 = length img" using lens(2) by simp
      then show ?thesis using g(3) lm dvd(1) by (simp add: z_def page_round_dvd)
    next
      case False
      then show ?thesis using g(3) m lm page_round_le[OF dvd(1) sz] dvd(3) by (simp add: z_def)
    qed
    then have nb2: "num_blocks (contents m2) = num_blocks img" by (simp add: num_blocks_def)
    have lt: "length (contents m2) < page_size * max_pages" using len2 n(2) by simp
    have fit: "\<forall>(i, d)\<in>set ds. i < num_blocks (contents m2) \<and> length d = 4096"
      using Dset nb2 length_block_at by fastforce
    obtain mem' f' where ad: "apply_deltas ds (contents m2, f) = (True, mem', f')" "length mem' = length img"
      "\<forall>i < num_blocks img. block_at i mem' = (case map_of ds i of Some d \<Rightarrow> d | None \<Rightarrow> block_at i (contents m2))"
      "\<forall>i. f' i = (case map_of ds i of Some d \<Rightarrow> Some (fnv64a d) | None \<Rightarrow> f i)"
      using apply_deltas_spec[OF ds(3) fit, of f] unfolding nb2 len2 by blast
    have clean: "i < num_blocks snap \<and> block_at i img = block_at i snap" if "i < num_blocks img" "?D i = None" for i
      using img that by (auto simp: is_image_def)
    have "mem' = img"
    proof (rule is_image_blocks[OF img ad(2)])
      fix i assume i: "i < num_blocks img"
      show "block_at i mem' = (case ?D i of Some d \<Rightarrow> d | None \<Rightarrow> block_at i snap)"
        using ad(3) i clean[OF i] keep[of i z] by (auto simp: ds(2) g(3) split: option.splits)
    qed
    moreover have "hashes_sound f' img" unfolding hashes_sound_def
    proof (intro allI impI)
      fix i v assume fi: "f' i = Some v"
      show "i < num_blocks img \<and> v = fnv64a (block_at i img)"
      proof (cases "?D i")
        case None
        then have fv: "f i = Some v" using fi ad(4) ds(2) by simp
        then have i: "i < num_blocks (contents m)" "v = fnv64a (block_at i (contents m))"
          using f by (auto simp: hashes_sound_def)
        have "i < num_blocks img" using i(1) num_blocks_mono[OF lm] by simp
        then show ?thesis using i(2) clean[OF _ None] keep[of i "[]"] by simp
      next
        case (Some d)
        then show ?thesis using fi ad(4) ds(2) Dblk[OF Some] by simp
      qed
    qed
    moreover have "valid (mem_SetView M m2 mem') \<and> contents (mem_SetView M m2 mem') = mem'"
      using SetView[OF g(2) lt] ad(2) len2 by simp
    ultimately show ?thesis using False ds(1) g(1) ad(1)
      by (auto simp: restore_deltas_def Read_all[OF g(2) lt] Let_def)
  qed
qed

lemma restore_image:
  assumes "inv \<sigma>" "valid m" and snap: "i_snapshot (view \<sigma> iid) = Some snap" "snap \<noteq> []"
    and img: "is_image snap (i_deltas (view \<sigma> iid)) img" and m: "length (contents m) \<le> length img"
    and n: "growable M contents valid (length img)" "length img < page_size * max_pages"
  shows "\<exists>m' f'. restore st M iid \<sigma> m Map.empty = (Ret None, m', f') \<and> valid m' \<and>
    contents m' = img \<and> hashes_sound f' img"
proof -
  have dvd: "page_size dvd length snap" "length snap \<le> length img" using img by (auto simp: is_image_def)
  obtain m1 f1 where r: "restore_snapshot st M iid \<sigma> m Map.empty = (None, m1, f1)" "valid m1"
    "contents m1 = snap @ drop (length snap) (contents m)" "hashes_sound f1 (contents m1)"
    using restore_snapshot_spec[OF assms(1,2) snap dvd(1) n(1) dvd(2) m n(2)] by blast
  obtain m2 f2 where "restore_deltas st M iid \<sigma> m1 f1 = (Ret None, m2, f2)" "valid m2"
    "contents m2 = img" "hashes_sound f2 img"
    using restore_deltas_spec[OF assms(1) r(2) img r(3) m r(4) n] by blast
  then show ?thesis using r(1) by (simp add: restore_def)
qed

lemma checkpoint_commit:
  assumes "inv \<sigma>" "valid m" "contents m \<noteq> []" "length (contents m) < page_size * max_pages"
    and "ok_meta (ses_meta s)" "ok_str h"
    and ready: "fresh_session (view \<sigma> (ses_instanceID s)) s \<or> current_session (view \<sigma> (ses_instanceID s)) s"
  shows "\<exists>et \<sigma>1. inv \<sigma>1 \<and> view \<sigma>1 = (view \<sigma>)(ses_instanceID s :=
      (view \<sigma> (ses_instanceID s))\<lparr>i_meta := Some (committed_meta (ses_meta s) h et)\<rparr>) \<and>
    checkpoint st M h m s \<sigma> =
      write_memory st (contents m) (s\<lparr>ses_meta := committed_meta (ses_meta s) h et, ses_memory := m\<rparr>) \<sigma>1"
proof -
  let ?meta = "(ses_meta s)\<lparr>WasmHash := h\<rparr>"
  have id: "InstanceID (ses_meta s) = ses_instanceID s" "0 \<le> Version (ses_meta s)"
    using ready by (auto simp: fresh_session_def current_session_def)
  have "cas (i_meta (view \<sigma> (ses_instanceID s))) (ses_meta s)"
    using ready cas_new[of "ses_meta s"] cas_current[of "ses_meta s"]
    by (auto simp: fresh_session_def current_session_def)
  moreover obtain rb meta' \<sigma>1 where sm: "st_SaveMetadata st ?meta \<sigma> = (rb, meta', \<sigma>1)" by (metis prod_cases3)
  ultimately have "rb = Inr True \<and> inv \<sigma>1 \<and> meta' = ?meta\<lparr>Version := Version ?meta + 1, ETag := ETag meta'\<rparr> \<and>
      view \<sigma>1 = (view \<sigma>)(InstanceID ?meta := (view \<sigma> (InstanceID ?meta))\<lparr>i_meta := Some meta'\<rparr>)"
    using assms id by (intro SaveMetadata_ok[OF _ _ _ _ sm]) (simp_all add: ok_hash cas_hash)
  then have *: "rb = Inr True" "inv \<sigma>1" "meta' = committed_meta (ses_meta s) h (ETag meta')"
    "view \<sigma>1 = (view \<sigma>)(ses_instanceID s := (view \<sigma> (ses_instanceID s))\<lparr>i_meta := Some meta'\<rparr>)"
    using id(1) by (simp_all add: committed_meta_def)
  have "mem_Size M m \<noteq> 0" using Size_zero_iff[OF assms(2,4)] assms(3) by simp
  then have "checkpoint st M h m s \<sigma> =
      write_memory st (contents m) (s\<lparr>ses_meta := meta', ses_memory := m\<rparr>) \<sigma>1"
    using *(1) by (simp add: checkpoint_def sm Read_all[OF assms(2,4)] Let_def)
  then show ?thesis using *(2-4) by metis
qed

lemma checkpoint_conflict:
  assumes "inv \<sigma>" "0 \<le> Version (ses_meta s)" "ok_meta (ses_meta s)" "ok_str h"
    and "i_meta (view \<sigma> (InstanceID (ses_meta s))) = Some ex" "\<not> cas (Some ex) (ses_meta s)"
  shows "checkpoint st M h m s \<sigma> =
    (Panic ''concurrent_execution_detected'', s\<lparr>ses_meta := (ses_meta s)\<lparr>WasmHash := h\<rparr>\<rparr>, \<sigma>)"
  using SaveMetadata_conflict[of \<sigma> "(ses_meta s)\<lparr>WasmHash := h\<rparr>"] assms
  by (simp add: checkpoint_def ok_hash cas_hash)

lemma checkpoint_full:
  assumes pre: "inv \<sigma>" "valid m" "contents m \<noteq> []" "length (contents m) < page_size * max_pages"
    "ok_meta (ses_meta s)" "ok_str h"
    "fresh_session (view \<sigma> (ses_instanceID s)) s \<or> current_session (view \<sigma> (ses_instanceID s)) s"
    and full: "isFullSnapshot (Version (ses_meta s) + 1)"
    and run: "checkpoint st M h m s \<sigma> = (r, s', \<sigma>')"
  shows "r = passed s \<and> inv \<sigma>' \<and> Version (ses_meta s') = Version (ses_meta s) + 1 \<and> WasmHash (ses_meta s') = h \<and>
    current_session (view \<sigma>' (ses_instanceID s)) s' \<and> ses_instanceID s' = ses_instanceID s \<and>
    i_snapshot (view \<sigma>' (ses_instanceID s)) = Some (contents m) \<and>
    i_deltas (view \<sigma>' (ses_instanceID s)) = Map.empty \<and> ses_pageHashes s' = ses_pageHashes s \<and>
    (\<forall>k. k \<noteq> ses_instanceID s \<longrightarrow> view \<sigma>' k = view \<sigma> k)"
proof -
  let ?iid = "ses_instanceID s"
  obtain et \<sigma>1 where c: "inv \<sigma>1"
    "view \<sigma>1 = (view \<sigma>)(?iid := (view \<sigma> ?iid)\<lparr>i_meta := Some (committed_meta (ses_meta s) h et)\<rparr>)"
    "checkpoint st M h m s \<sigma> =
      write_memory st (contents m) (s\<lparr>ses_meta := committed_meta (ses_meta s) h et, ses_memory := m\<rparr>) \<sigma>1"
    using checkpoint_commit[OF pre] by blast
  have id: "InstanceID (ses_meta s) = ?iid" "0 \<le> Version (ses_meta s)"
    "Version (ses_meta s) = 0 \<Longrightarrow> i_deltas (view \<sigma> ?iid) = Map.empty"
    using pre(7) by (auto simp: fresh_session_def current_session_def)
  let ?s1 = "s\<lparr>ses_meta := committed_meta (ses_meta s) h et, ses_memory := m\<rparr>"
  obtain fault \<sigma>2 where w: "write_full st ?iid (Version (ses_meta s) + 1) (ses_callIndex s) (contents m) \<sigma>1 = (fault, \<sigma>2)"
    by fastforce
  note W = write_full_spec[OF c(1) w]
  have "write_memory st (contents m) ?s1 \<sigma>1 =
      (passed ?s1, if ses_shouldCrashOnCheckpoint ?s1 then ?s1\<lparr>ses_crashed := True\<rparr> else ?s1, \<sigma>2)"
    using full w W by (intro write_memory_full) simp_all
  then have "r = passed s" "\<sigma>' = \<sigma>2" "ses_meta s' = committed_meta (ses_meta s) h et"
    "ses_instanceID s' = ?iid" "ses_pageHashes s' = ses_pageHashes s"
    using run c(3) by (auto simp: passed_def split: if_splits)
  then show ?thesis using W c(2) id by (auto simp: current_session_def)
qed

lemma checkpoint_deltas:
  assumes pre: "inv \<sigma>" "valid m" "contents m \<noteq> []" "length (contents m) < page_size * max_pages"
    "ok_meta (ses_meta s)" "ok_str h" "current_session (view \<sigma> (ses_instanceID s)) s"
    and inc: "\<not> isFullSnapshot (Version (ses_meta s) + 1)" and f: "ses_pageHashes s = Some f"
    and run: "checkpoint st M h m s \<sigma> = (r, s', \<sigma>')"
  shows "\<exists>f' ds. r = passed s \<and> inv \<sigma>' \<and> Version (ses_meta s') = Version (ses_meta s) + 1 \<and> WasmHash (ses_meta s') = h \<and>
    current_session (view \<sigma>' (ses_instanceID s)) s' \<and> ses_instanceID s' = ses_instanceID s \<and>
    ses_pageHashes s' = Some f' \<and>
    (\<forall>i. f' i = (if i < num_blocks (contents m) then Some (fnv64a (block_at i (contents m))) else f i)) \<and>
    (\<forall>i. map_of ds i = (if i < num_blocks (contents m) \<and> f i \<noteq> Some (fnv64a (block_at i (contents m)))
                        then Some (block_at i (contents m)) else None)) \<and>
    i_snapshot (view \<sigma>' (ses_instanceID s)) = i_snapshot (view \<sigma> (ses_instanceID s)) \<and>
    i_deltas (view \<sigma>' (ses_instanceID s)) = i_deltas (view \<sigma> (ses_instanceID s)) ++ map_of ds \<and>
    (\<forall>k. k \<noteq> ses_instanceID s \<longrightarrow> view \<sigma>' k = view \<sigma> k)"
proof -
  let ?iid = "ses_instanceID s"
  obtain et \<sigma>1 where c: "inv \<sigma>1"
    "view \<sigma>1 = (view \<sigma>)(?iid := (view \<sigma> ?iid)\<lparr>i_meta := Some (committed_meta (ses_meta s) h et)\<rparr>)"
    "checkpoint st M h m s \<sigma> =
      write_memory st (contents m) (s\<lparr>ses_meta := committed_meta (ses_meta s) h et, ses_memory := m\<rparr>) \<sigma>1"
    using checkpoint_commit[OF pre(1-6) disjI2[OF pre(7)]] by blast
  let ?s1 = "s\<lparr>ses_meta := committed_meta (ses_meta s) h et, ses_memory := m\<rparr>"
  obtain fault ph \<sigma>2 where w: "write_deltas st ?iid (contents m) (Some f) \<sigma>1 = (fault, ph, \<sigma>2)"
    by (metis prod_cases3)
  obtain f' ds where W: "fault = None" "ph = Some f'" "inv \<sigma>2"
    "\<forall>i. f' i = (if i < num_blocks (contents m) then Some (fnv64a (block_at i (contents m))) else f i)"
    "\<forall>i. map_of ds i = (if i < num_blocks (contents m) \<and> f i \<noteq> Some (fnv64a (block_at i (contents m)))
                        then Some (block_at i (contents m)) else None)"
    "view \<sigma>2 = (view \<sigma>1)(?iid := (view \<sigma>1 ?iid)\<lparr>i_deltas := i_deltas (view \<sigma>1 ?iid) ++ map_of ds\<rparr>)"
    using write_deltas_spec[OF c(1) pre(4) w] by blast
  have "write_memory st (contents m) ?s1 \<sigma>1 =
      (passed ?s1, (if ses_shouldCrashOnCheckpoint ?s1 then ?s1\<lparr>ses_crashed := True\<rparr> else ?s1)\<lparr>ses_pageHashes := ph\<rparr>, \<sigma>2)"
    using inc w W(1) f by (intro write_memory_deltas) simp_all
  then have "r = passed s" "\<sigma>' = \<sigma>2" "ses_meta s' = committed_meta (ses_meta s) h et"
    "ses_instanceID s' = ?iid" "ses_pageHashes s' = Some f'"
    using run c(3) W(2) by (auto simp: passed_def split: if_splits)
  then show ?thesis using W(3-6) c(2) pre(7)
    by (intro exI[of _ f'] exI[of _ ds]) (auto simp: current_session_def)
qed

text \<open>
  A checkpoint makes the guest's memory the image of the store. The session stays in step except
  after a full snapshot that replaces deltas, where the recorded hashes are left as they were.
\<close>

lemma checkpoint_durable:
  assumes pre: "inv \<sigma>" "valid m" "contents m \<noteq> []" "length (contents m) < page_size * max_pages"
    "ok_meta (ses_meta s)" "ok_str h"
    and ready: "fresh_session (view \<sigma> (ses_instanceID s)) s \<or>
      in_step (view \<sigma> (ses_instanceID s)) s img \<and> length img \<le> length (contents m) \<and> no_collision img (contents m)"
    and run: "checkpoint st M h m s \<sigma> = (r, s', \<sigma>')"
  shows "r = passed s \<and> inv \<sigma>' \<and> Version (ses_meta s') = Version (ses_meta s) + 1 \<and> WasmHash (ses_meta s') = h \<and>
    current_session (view \<sigma>' (ses_instanceID s)) s' \<and> ses_instanceID s' = ses_instanceID s \<and>
    durable_image (view \<sigma>' (ses_instanceID s)) (contents m) \<and>
    (Version (ses_meta s') = 1 \<or> \<not> isFullSnapshot (Version (ses_meta s')) \<longrightarrow>
       in_step (view \<sigma>' (ses_instanceID s)) s' (contents m)) \<and>
    (\<forall>k. k \<noteq> ses_instanceID s \<longrightarrow> view \<sigma>' k = view \<sigma> k)"
proof -
  let ?v = "view \<sigma> (ses_instanceID s)" and ?v' = "view \<sigma>' (ses_instanceID s)"
  have dvd: "65536 dvd length (contents m)" using pages[OF pre(2)] .
  have ver: "fresh_session ?v s \<Longrightarrow> Version (ses_meta s) = 0" "in_step ?v s img \<Longrightarrow> Version (ses_meta s) > 0"
    by (auto simp: fresh_session_def in_step_def current_session_def)
  have cur: "fresh_session ?v s \<or> current_session ?v s" using ready by (auto simp: in_step_def)
  show ?thesis
  proof (cases "isFullSnapshot (Version (ses_meta s) + 1)")
    case True
    note C = checkpoint_full[OF pre cur True run]
    have img: "durable_image ?v' (contents m)"
      using C pre(3) is_image_full[OF dvd] by (auto simp: durable_image_def)
    have "in_step ?v' s' (contents m)" if "Version (ses_meta s') = 1"
    proof -
      have "fresh_session ?v s" using ready that C ver(2) by auto
      then have "ses_pageHashes s' = Some Map.empty" using C by (simp add: fresh_session_def)
      then show ?thesis using C img by (simp add: in_step_def hashes_sound_def)
    qed
    then show ?thesis using C img True by auto
  next
    case False
    then have "\<not> fresh_session ?v s" using ver(1) by (auto simp: isFullSnapshot_def)
    then have st: "in_step ?v s img" "length img \<le> length (contents m)" "no_collision img (contents m)"
      using ready by auto
    then obtain f snap where f: "ses_pageHashes s = Some f" "hashes_sound f img"
      and snap: "i_snapshot ?v = Some snap" "snap \<noteq> []" "is_image snap (i_deltas ?v) img"
      by (auto simp: in_step_def durable_image_def)
    have cur: "current_session ?v s" using st(1) by (simp add: in_step_def)
    obtain f' ds where C: "r = passed s" "inv \<sigma>'" "Version (ses_meta s') = Version (ses_meta s) + 1 \<and> WasmHash (ses_meta s') = h"
      "current_session ?v' s'" "ses_instanceID s' = ses_instanceID s" "ses_pageHashes s' = Some f'"
      "\<forall>i. f' i = (if i < num_blocks (contents m) then Some (fnv64a (block_at i (contents m))) else f i)"
      "\<forall>i. map_of ds i = (if i < num_blocks (contents m) \<and> f i \<noteq> Some (fnv64a (block_at i (contents m)))
                        then Some (block_at i (contents m)) else None)"
      "i_snapshot ?v' = i_snapshot ?v" "i_deltas ?v' = i_deltas ?v ++ map_of ds"
      "\<forall>k. k \<noteq> ses_instanceID s \<longrightarrow> view \<sigma>' k = view \<sigma> k"
      using checkpoint_deltas[OF pre cur False f(1) run] by blast
    have "is_image snap (i_deltas ?v') (contents m)"
      using is_image_dirty[OF snap(3) f(2) dvd st(2,3), of ds] C(8,10) by simp
    then have img: "durable_image ?v' (contents m)" using C(9) snap by (auto simp: durable_image_def)
    have "hashes_sound f' (contents m)" using hashes_sound_dirty[OF f(2) st(2), of f'] C(7) by simp
    then show ?thesis using C img by (auto simp: in_step_def)
  qed
qed

text \<open>A session with the same metadata loses the swap, and nothing it does changes the store.\<close>

lemma second_fenced:
  assumes pre: "inv \<sigma>" "valid m" "contents m \<noteq> []" "length (contents m) < page_size * max_pages"
    "ok_meta (ses_meta s)" "ok_str h"
    and ready: "fresh_session (view \<sigma> (ses_instanceID s)) s \<or>
      in_step (view \<sigma> (ses_instanceID s)) s img \<and> length img \<le> length (contents m) \<and> no_collision img (contents m)"
    and run: "checkpoint st M h m s \<sigma> = (r, s', \<sigma>')"
    and t: "ses_meta t = ses_meta s" "ok_str h2" "checkpoint st M h2 m2 t \<sigma>' = (r2, t', \<sigma>2)"
  shows "r2 = Panic ''concurrent_execution_detected'' \<and> \<sigma>2 = \<sigma>'"
proof -
  note C = checkpoint_durable[OF pre ready run]
  have id: "InstanceID (ses_meta t) = ses_instanceID s" "0 \<le> Version (ses_meta t)"
    using ready t(1) by (auto simp: fresh_session_def in_step_def current_session_def)
  have C': "i_meta (view \<sigma>' (InstanceID (ses_meta t))) = Some (ses_meta s')" "inv \<sigma>'"
    "Version (ses_meta s') = Version (ses_meta t) + 1"
    using C t(1) id(1) by (auto simp: current_session_def)
  have "\<not> cas (Some (ses_meta s')) (ses_meta t)"
    using cas_version[OF C'(2) id(2)] pre(5) t(1) C'(1,3) by (auto simp: version_of_def)
  then have "checkpoint st M h2 m2 t \<sigma>' =
      (Panic ''concurrent_execution_detected'', t\<lparr>ses_meta := (ses_meta t)\<lparr>WasmHash := h2\<rparr>\<rparr>, \<sigma>')"
    using pre(5) t(1,2) id(2) C' by (intro checkpoint_conflict) simp_all
  then show ?thesis using t(3) by simp
qed

lemma restore_durable:
  assumes "inv \<sigma>" "valid m" "durable_image (view \<sigma> iid) img" "length (contents m) \<le> length img"
    and "growable M contents valid (length img)" "length img < page_size * max_pages"
  shows "\<exists>m' f'. restore st M iid \<sigma> m Map.empty = (Ret None, m', f') \<and> valid m' \<and>
    contents m' = img \<and> hashes_sound f' img"
  using assms restore_image by (auto simp: durable_image_def)

lemma checkpoint_then_restore:
  assumes pre: "inv \<sigma>" "valid m" "contents m \<noteq> []" "length (contents m) < page_size * max_pages"
    "ok_meta (ses_meta s)" "ok_str h"
    and ready: "fresh_session (view \<sigma> (ses_instanceID s)) s \<or>
      in_step (view \<sigma> (ses_instanceID s)) s img \<and> length img \<le> length (contents m) \<and> no_collision img (contents m)"
    and m0: "valid m0" "length (contents m0) \<le> length (contents m)" "growable M contents valid (length (contents m))"
    and run: "checkpoint st M h m s \<sigma> = (r, s', \<sigma>')"
  shows "r = passed s \<and> Version (ses_meta s') = Version (ses_meta s) + 1 \<and>
    (\<forall>k. k \<noteq> ses_instanceID s \<longrightarrow> view \<sigma>' k = view \<sigma> k) \<and>
    (\<exists>m' f'. restore st M (ses_instanceID s) \<sigma>' m0 Map.empty = (Ret None, m', f') \<and>
       contents m' = contents m \<and> hashes_sound f' (contents m))"
proof -
  note C = checkpoint_durable[OF pre ready run]
  have "inv \<sigma>'" "durable_image (view \<sigma>' (ses_instanceID s)) (contents m)" using C by blast+
  note R = restore_durable[OF this(1) m0(1) this(2) m0(2,3) pre(4)]
  show ?thesis using C R by blast
qed

text \<open>
  The hashes that a full snapshot leaves behind are stale: if the memory was \<open>A\<close> when they were
  recorded, is \<open>B\<close> at the full snapshot and \<open>A\<close> again at the next checkpoint, that checkpoint saves
  nothing and the store stands for \<open>B\<close>.
\<close>

lemma stale_hashes:
  assumes pre: "inv \<sigma>" "valid mA" "valid mB" "contents mA \<noteq> []" "contents mB \<noteq> []"
    "length (contents mA) < page_size * max_pages" "length (contents mB) < page_size * max_pages"
    "ok_meta (ses_meta s)" "ok_str h" "current_session (view \<sigma> (ses_instanceID s)) s"
    and full: "isFullSnapshot (Version (ses_meta s) + 1)" "\<not> isFullSnapshot (Version (ses_meta s) + 2)"
    and f: "ses_pageHashes s = Some f"
      "\<forall>i < num_blocks (contents mA). f i = Some (fnv64a (block_at i (contents mA)))"
    and run: "checkpoint st M h mB s \<sigma> = (r1, s1, \<sigma>1)" "checkpoint st M h mA s1 \<sigma>1 = (r2, s2, \<sigma>2)"
  shows "r2 = passed s1 \<and> inv \<sigma>2 \<and> durable_image (view \<sigma>2 (ses_instanceID s)) (contents mB)"
proof -
  let ?iid = "ses_instanceID s"
  have C: "inv \<sigma>1" "Version (ses_meta s1) = Version (ses_meta s) + 1" "current_session (view \<sigma>1 ?iid) s1"
    "ses_instanceID s1 = ?iid" "i_snapshot (view \<sigma>1 ?iid) = Some (contents mB)"
    "i_deltas (view \<sigma>1 ?iid) = Map.empty" "ses_pageHashes s1 = Some f"
    using checkpoint_full[OF pre(1,3,5,7,8,9) disjI2[OF pre(10)] full(1) run(1)] f(1) by auto
  have ok: "ok_meta (ses_meta s1)" using C(1,3) meta_wf[OF C(1)] by (auto simp: current_session_def)
  have inc: "\<not> isFullSnapshot (Version (ses_meta s1) + 1)" using full(2) C(2) by (simp add: add.commute)
  obtain f' ds where D: "r2 = passed s1" "inv \<sigma>2"
    "\<forall>i. map_of ds i = (if i < num_blocks (contents mA) \<and> f i \<noteq> Some (fnv64a (block_at i (contents mA)))
                        then Some (block_at i (contents mA)) else None)"
    "i_snapshot (view \<sigma>2 ?iid) = Some (contents mB)" "i_deltas (view \<sigma>2 ?iid) = map_of ds"
    using checkpoint_deltas[OF C(1) pre(2,4,6) ok pre(9) _ inc C(7) run(2)] C(3-6) by auto
  have "map_of ds = Map.empty" using D(3) f(2) by (intro ext) auto
  then show ?thesis using D pre(5) is_image_full[OF pages[OF pre(3)]] by (auto simp: durable_image_def)
qed

end

end
