(* ===== verification/Crash_Resume.thy ===== *)
theory Crash_Resume
  imports Recovery
begin

text \<open>
  The runtime's contract and what \<open>ExecuteWithArgs\<close> makes of it, end to end: an execution that dies
  at a checkpoint leaves the memory of that checkpoint in the store, and the next execution calls the
  entrypoint on exactly this memory.
\<close>

section \<open>What the runtime promises\<close>

locale wazero_runtime =
  fixes W :: "('c, 'm, 'r) wazero"
    and modules :: "'r \<Rightarrow> string \<rightharpoonup> 'm"
    and instantiable :: "'c \<Rightarrow> bool"
    and init :: "'c \<Rightarrow> 'm"
  assumes Module: "rt_Module W n r = modules r n"
    and Instantiate_new: "modules r n = None \<Longrightarrow> instantiable c \<Longrightarrow> rt_InstantiateModule W c n r = (x, r') \<Longrightarrow>
        x = Inr (init c) \<and> modules r' = (modules r)(n \<mapsto> init c)"
    and Instantiate_dup: "modules r n = Some m \<Longrightarrow> \<exists>err. rt_InstantiateModule W c n r = (Inl err, r)"
    and Instantiate_fail: "rt_InstantiateModule W c n r = (Inl err, r') \<Longrightarrow> modules r' = modules r"
    and Close: "rt_Close W n r = (y, r') \<Longrightarrow> modules r' = (modules r)(n := None)"
    and SetModule: "modules r n = Some m0 \<Longrightarrow> modules (rt_SetModule W n m r) = (modules r)(n \<mapsto> m)"
    and recovered_text: "Contains (Error (rt_recovered W msg)) msg"
    and recovered_exit: "as_exit_code (rt_recovered W msg) = None"
begin

lemma Close_snd: "modules (snd (rt_Close W n r)) = (modules r)(n := None)"
  by (metis Close prod.collapse)

end

text \<open>A runtime over byte lists: every module starts with the memory \<open>mem0\<close> and exports \<open>exports\<close>.\<close>

definition list_runtime :: "bytes \<Rightarrow> (string \<Rightarrow> (u64 list \<Rightarrow> bytes \<Rightarrow> bytes guest) option) \<Rightarrow>
    (bytes, bytes, string \<rightharpoonup> bytes) wazero" where
  "list_runtime mem0 exports =
     \<lparr> rt_NewRuntime = Map.empty, rt_HostModule = (\<lambda>n r. (None, r)), rt_CompileModule = (\<lambda>b. Inr b),
       rt_InstantiateModule = (\<lambda>c n r. case r n of None \<Rightarrow> (Inr mem0, r(n \<mapsto> mem0))
          | Some _ \<Rightarrow> (Inl (Err ''module already instantiated''), r)),
       rt_Module = (\<lambda>n r. r n), rt_SetModule = (\<lambda>n m r. r(n \<mapsto> m)), rt_Close = (\<lambda>n r. (None, r(n := None))),
       rt_ExportedFunction = (\<lambda>m. exports), rt_recovered = (\<lambda>msg. Err (msg @ '' (recovered by wazero)'')),
       rt_exit_text = (\<lambda>c. ''module closed''), rt_trap = (\<lambda>msg. Err (''wasm error: '' @ msg)) \<rparr>"

interpretation list_rt: wazero_runtime "list_runtime mem0 exports" "\<lambda>r. r" "\<lambda>_. True" "\<lambda>_. mem0"
  by unfold_locales (auto simp: list_runtime_def Contains_append[of "[]", simplified] split: option.splits)

section \<open>Booting\<close>

text \<open>The instance after \<open>_start\<close>, for a module whose \<open>_start\<close> makes no host call.\<close>

definition boot :: "('c, 'm, 'r) wazero \<Rightarrow> 'm \<Rightarrow> 'm option" where
  "boot W m = (case rt_ExportedFunction W m ''_start'' of
      None \<Rightarrow> Some m
    | Some startFunc \<Rightarrow>
        (case startFunc [] m of
           Return m0 _ \<Rightarrow> Some m0
         | ProcExit m0 code \<Rightarrow> if code = 0 then Some m0 else None
         | _ \<Rightarrow> None))"

lemma run_start_boot:
  "boot (h_rt H) m = Some m0 \<Longrightarrow> run_start H m s \<sigma> e = (None, m0, s, \<sigma>, e)"
  by (auto simp: boot_def run_start_def split: option.splits guest.splits if_splits)

section \<open>Execution over a store and a runtime\<close>

text \<open>The last part of an execution: the entrypoint on the restored instance.\<close>

definition run_entry :: "('c, 'm, 'r, 's, 'e) host \<Rightarrow> 'e go_context \<Rightarrow> string \<Rightarrow> u64 list \<Rightarrow> 'm \<Rightarrow>
    ('m, 'e) session \<Rightarrow> 's \<Rightarrow> 'e \<Rightarrow> (bool \<times> go_error option) outcome \<times> 's \<times> 'e" where
  "run_entry H ctx entrypoint params m s \<sigma> e =
     (case rt_ExportedFunction (h_rt H) m entrypoint of
        None \<Rightarrow> (Ret (False, Some (Err (''entrypoint function '' @ [CHR 0x27] @ entrypoint @ [CHR 0x27] @
                  '' not found''))), \<sigma>, e)
      | Some runFunc \<Rightarrow>
          (case Call H (runFunc params m) s \<sigma> e of
             (r, m4, s4, \<sigma>4, e4) \<Rightarrow> (Ret (classify ctx (ses_crashed s4) r e4), \<sigma>4, e4)))"

lemma execute_body_entry:
  assumes "boot (h_rt H) m = Some m0" and "entrypoint \<noteq> ''_start''"
    and "restore (h_store H) (h_mem H) (ses_instanceID s) \<sigma> m0 Map.empty = (Ret None, m1, f1)"
    and "execute_body H ctx entrypoint params m s \<sigma> e = (res, m', s', \<sigma>', e')"
  shows "(res, \<sigma>', e') = run_entry H ctx entrypoint params m1 (s\<lparr>ses_memory := m1, ses_pageHashes := Some f1\<rparr>) \<sigma> e"
  using assms(2-4) run_start_boot[OF assms(1), of s \<sigma> e]
  by (auto simp: execute_body_def run_entry_def split: option.splits prod.splits)

text \<open>A kept contract of store, memory and runtime.\<close>

locale durable_engine = durable st inv view cas ok_str ok_meta M contents valid +
    wazero_runtime W modules instantiable init
  for st :: "'s store_ops" and inv and view and cas and ok_str and ok_meta
    and M :: "'m memory_api" and contents and valid
    and W :: "('c, 'm, 'r) wazero" and modules and instantiable and init
begin

lemma ExecuteWithArgs_entry:
  assumes "select_module st W iid eng \<sigma> = (Inr (meta, c), eng1)" and "instantiable c"
    and "modules (eng_runtime eng1) (modName iid) = None" and "boot W (init c) = Some m0"
    and "entrypoint \<noteq> ''_start''" and "restore st M iid \<sigma> m0 Map.empty = (Ret None, m1, f1)"
    and "ExecuteWithArgs st M W clock ctx iid entrypoint addr crash params eng \<sigma> e = (res, eng', \<sigma>', e')"
  shows "(res, \<sigma>', e') = run_entry
      \<lparr> h_store = st, h_mem = M, h_rt = W, h_clock = clock, h_wasmHash = eng_wasmHash eng1 \<rparr> ctx entrypoint params m1
      ((new_session ctx iid addr crash meta (Some f1) m1)) \<sigma> e \<and>
    eng_compiledCache eng' = eng_compiledCache eng1 \<and> eng_wasmHash eng' = eng_wasmHash eng1 \<and>
    eng_compiled eng' = eng_compiled eng1 \<and> modules (eng_runtime eng') (modName iid) = None"
proof -
  let ?H = "\<lparr> h_store = st, h_mem = M, h_rt = W, h_clock = clock, h_wasmHash = eng_wasmHash eng1 \<rparr>"
  let ?s = "new_session ctx iid addr crash meta None (init c)"
  obtain x r1 where i: "rt_InstantiateModule W c (modName iid) (eng_runtime eng1) = (x, r1)" by fastforce
  have x: "x = Inr (init c)" using Instantiate_new[OF assms(3,2) i] by simp
  obtain rb m' s' \<sigma>2 e2 where b: "execute_body ?H ctx entrypoint params (init c) ?s \<sigma> e = (rb, m', s', \<sigma>2, e2)"
    by (metis prod_cases5)
  have "(rb, \<sigma>2, e2) = run_entry ?H ctx entrypoint params m1 (?s\<lparr>ses_memory := m1, ses_pageHashes := Some f1\<rparr>) \<sigma> e"
    using assms(4-6) by (intro execute_body_entry[OF _ _ _ b]) (simp_all add: new_session_def)
  moreover have "?s\<lparr>ses_memory := m1, ses_pageHashes := Some f1\<rparr> = new_session ctx iid addr crash meta (Some f1) m1"
    by (simp add: new_session_def)
  ultimately show ?thesis
    using assms(1,7) i x b by (auto simp: ExecuteWithArgs_def Let_def Close_snd split: prod.splits)
qed

lemma restore_nothing:
  assumes "inv \<sigma>" "i_snapshot (view \<sigma> iid) = None" "i_deltas (view \<sigma> iid) = Map.empty"
  shows "restore st M iid \<sigma> m f = (Ret None, m, f)"
proof -
  obtain err where "st_Load st iid \<sigma> = Inl err" using Load_None[OF assms(1,2)] by blast
  moreover obtain ds where ds: "st_LoadDeltas st iid \<sigma> = Inr ds" "map_of ds = Map.empty"
    using LoadDeltas[OF assms(1), of iid] assms(3) by auto
  moreover have "ds = []" using ds(2) by (cases ds) (auto simp: fun_eq_iff split: if_splits)
  ultimately show ?thesis by (simp add: restore_def restore_snapshot_def restore_deltas_def)
qed

lemma execute_resumes:
  assumes "inv \<sigma>" and meta: "i_meta (view \<sigma> iid) = Some meta" "WasmHash meta = eng_wasmHash eng"
    and mod: "instantiable (eng_compiled eng)" "modules (eng_runtime eng) (modName iid) = None"
      "boot W (init (eng_compiled eng)) = Some m0" "valid m0"
    and img: "durable_image (view \<sigma> iid) img" "length (contents m0) \<le> length img"
      "growable M contents valid (length img)" "length img < page_size * max_pages"
    and run: "entrypoint \<noteq> ''_start''"
      "ExecuteWithArgs st M W clock ctx iid entrypoint addr crash params eng \<sigma> e = (res, eng', \<sigma>', e')"
  shows "\<exists>m1 f1. valid m1 \<and> contents m1 = img \<and>
    in_step (view \<sigma> iid) (new_session ctx iid addr crash meta (Some f1) m1) img \<and>
    (res, \<sigma>', e') = run_entry
      \<lparr> h_store = st, h_mem = M, h_rt = W, h_clock = clock, h_wasmHash = eng_wasmHash eng \<rparr> ctx entrypoint params m1
      (new_session ctx iid addr crash meta (Some f1) m1) \<sigma> e \<and>
    modules (eng_runtime eng') (modName iid) = None"
proof -
  have sel: "select_module st W iid eng \<sigma> = (Inr (meta, eng_compiled eng), eng)"
    using LoadMetadata[OF assms(1), of iid] meta by (simp add: select_module_def)
  obtain m1 f1 where r: "restore st M iid \<sigma> m0 Map.empty = (Ret None, m1, f1)" "valid m1"
    "contents m1 = img" "hashes_sound f1 img"
    using restore_durable[OF assms(1) mod(4) img] by blast
  have "in_step (view \<sigma> iid) (new_session ctx iid addr crash meta (Some f1) m1) img"
    using meta_wf[OF assms(1) meta(1)] meta(1) img(1) r(4)
    by (simp add: in_step_def current_session_def new_session_def)
  then show ?thesis using ExecuteWithArgs_entry[OF sel mod(1-3) run(1) r(1) run(2)] r(2,3) by blast
qed

lemma execute_crashes:
  assumes "inv \<sigma>" and new: "i_meta (view \<sigma> iid) = None" "i_snapshot (view \<sigma> iid) = None"
      "i_deltas (view \<sigma> iid) = Map.empty" "ok_str iid" "ok_str (eng_wasmHash eng)"
    and mod: "instantiable (eng_compiled eng)" "modules (eng_runtime eng) (modName iid) = None"
      "boot W (init (eng_compiled eng)) = Some m0"
    and guest: "rt_ExportedFunction W m0 entrypoint = Some runFunc" "runFunc params m0 = Checkpoint mC k"
      "valid mC" "contents mC \<noteq> []" "length (contents mC) < page_size * max_pages"
    and run: "entrypoint \<noteq> ''_start''" "ctx_Err ctx e = None"
      "ExecuteWithArgs st M W clock ctx iid entrypoint addr True params eng \<sigma> e = (res, eng', \<sigma>', e')"
  shows "res = Ret (True, Some (rt_recovered W ''simulated_host_crash'')) \<and> inv \<sigma>' \<and>
    durable_image (view \<sigma>' iid) (contents mC) \<and>
    (\<exists>meta. i_meta (view \<sigma>' iid) = Some meta \<and> WasmHash meta = eng_wasmHash eng \<and> Version meta = 1) \<and>
    modules (eng_runtime eng') (modName iid) = None \<and> eng_wasmHash eng' = eng_wasmHash eng \<and>
    eng_compiled eng' = eng_compiled eng \<and> e' = e \<and>
    (\<exists>r s1. checkpoint st M (eng_wasmHash eng) mC
       (new_session ctx iid addr True (new_meta iid (eng_wasmHash eng)) (Some Map.empty) m0) \<sigma> = (r, s1, \<sigma>'))"
proof -
  let ?H = "\<lparr> h_store = st, h_mem = M, h_rt = W, h_clock = clock, h_wasmHash = eng_wasmHash eng \<rparr>"
  let ?meta = "new_meta iid (eng_wasmHash eng)"
  let ?s = "new_session ctx iid addr True ?meta (Some Map.empty) m0"
  have sel: "select_module st W iid eng \<sigma> = (Inr (?meta, eng_compiled eng), eng)"
    using LoadMetadata[OF assms(1), of iid] new by (simp add: select_module_def)
  note E = ExecuteWithArgs_entry[OF sel mod run(1) restore_nothing[OF assms(1) new(2,3)] run(3)]
  obtain r s1 \<sigma>1 where c: "checkpoint st M (eng_wasmHash eng) mC ?s \<sigma> = (r, s1, \<sigma>1)" by (metis prod_cases3)
  have sid: "ses_instanceID ?s = iid" "ses_meta ?s = ?meta" "ses_shouldCrashOnCheckpoint ?s"
    by (simp_all add: new_session_def)
  have fresh: "fresh_session (view \<sigma> (ses_instanceID ?s)) ?s"
    using new by (simp add: fresh_session_def sid) (simp add: new_session_def)
  note D = checkpoint_durable[OF assms(1) guest(3-5) _ new(5) disjI1[OF fresh] c, unfolded sid]
  have D': "r = passed ?s" "inv \<sigma>1" "durable_image (view \<sigma>1 iid) (contents mC)" "current_session (view \<sigma>1 iid) s1"
    "Version (ses_meta s1) = 1" "WasmHash (ses_meta s1) = eng_wasmHash eng"
    using D ok_new[OF new(4,5)] by simp_all
  have r: "r = Panic ''simulated_host_crash''" using D'(1) sid(3) by (simp add: passed_def)
  have "ses_crashed s1" using c r simulated_crash_sets_crashed by metis
  then have "run_entry ?H ctx entrypoint params m0 ?s \<sigma> e =
      (Ret (True, Some (rt_recovered W ''simulated_host_crash'')), \<sigma>1, e)"
    using guest(1,2) c r run(2) by (simp add: run_entry_def classify_def recovered_exit)
  then show ?thesis using E D' c by (auto simp: current_session_def)
qed

text \<open>The same for an instance that was checkpointed before: one more checkpoint, one more crash.\<close>

lemma execute_crashes_again:
  assumes "inv \<sigma>" and meta: "i_meta (view \<sigma> iid) = Some meta" "WasmHash meta = eng_wasmHash eng" "ok_str (eng_wasmHash eng)"
    and mod: "instantiable (eng_compiled eng)" "modules (eng_runtime eng) (modName iid) = None"
      "boot W (init (eng_compiled eng)) = Some m0" "valid m0"
    and img: "durable_image (view \<sigma> iid) img" "length (contents m0) \<le> length img"
      "growable M contents valid (length img)" "length img < page_size * max_pages"
    and guest: "\<And>m1. valid m1 \<Longrightarrow> contents m1 = img \<Longrightarrow> \<exists>runFunc mC k. rt_ExportedFunction W m1 entrypoint = Some runFunc \<and>
        runFunc params m1 = Checkpoint mC k \<and> valid mC \<and> contents mC = img'"
      "img' \<noteq> []" "length img' < page_size * max_pages" "length img \<le> length img'" "no_collision img img'"
    and run: "entrypoint \<noteq> ''_start''" "ctx_Err ctx e = None"
      "ExecuteWithArgs st M W clock ctx iid entrypoint addr True params eng \<sigma> e = (res, eng', \<sigma>', e')"
  shows "res = Ret (True, Some (rt_recovered W ''simulated_host_crash'')) \<and> inv \<sigma>' \<and> durable_image (view \<sigma>' iid) img' \<and>
    (\<exists>meta'. i_meta (view \<sigma>' iid) = Some meta' \<and> WasmHash meta' = eng_wasmHash eng \<and> Version meta' = Version meta + 1) \<and>
    modules (eng_runtime eng') (modName iid) = None \<and> eng_wasmHash eng' = eng_wasmHash eng \<and>
    eng_compiled eng' = eng_compiled eng \<and> e' = e"
proof -
  let ?H = "\<lparr> h_store = st, h_mem = M, h_rt = W, h_clock = clock, h_wasmHash = eng_wasmHash eng \<rparr>"
  have sel: "select_module st W iid eng \<sigma> = (Inr (meta, eng_compiled eng), eng)"
    using LoadMetadata[OF assms(1), of iid] meta by (simp add: select_module_def)
  obtain m1 f1 where m1: "valid m1" "contents m1 = img"
      "in_step (view \<sigma> iid) (new_session ctx iid addr True meta (Some f1) m1) img"
    and E: "(res, \<sigma>', e') = run_entry ?H ctx entrypoint params m1 (new_session ctx iid addr True meta (Some f1) m1) \<sigma> e"
      "modules (eng_runtime eng') (modName iid) = None"
    using execute_resumes[OF assms(1) meta(1,2) mod img run(1,3)] by blast
  have eng': "eng_wasmHash eng' = eng_wasmHash eng" "eng_compiled eng' = eng_compiled eng"
    using run(3) sel by (auto simp: ExecuteWithArgs_def Let_def split: prod.splits sum.splits)
  let ?s = "new_session ctx iid addr True meta (Some f1) m1"
  obtain runFunc mC k where g: "rt_ExportedFunction W m1 entrypoint = Some runFunc" "runFunc params m1 = Checkpoint mC k"
    "valid mC" "contents mC = img'" using guest(1)[OF m1(1,2)] by blast
  obtain r s1 \<sigma>1 where c: "checkpoint st M (eng_wasmHash eng) mC ?s \<sigma> = (r, s1, \<sigma>1)" by (metis prod_cases3)
  have sid: "ses_instanceID ?s = iid" "ses_meta ?s = meta" "ses_shouldCrashOnCheckpoint ?s" by (simp_all add: new_session_def)
  have "contents mC \<noteq> []" "length (contents mC) < page_size * max_pages" "ok_meta (ses_meta ?s)"
    "in_step (view \<sigma> (ses_instanceID ?s)) ?s img \<and> length img \<le> length (contents mC) \<and> no_collision img (contents mC)"
    using g(4) guest(2-5) meta_wf[OF assms(1) meta(1)] m1(3) sid by simp_all
  note D = checkpoint_durable[OF assms(1) g(3) this(1-3) meta(3) disjI2[OF this(4)] c, unfolded sid g(4)]
  have r: "r = Panic ''simulated_host_crash''" using D sid(3) by (simp add: passed_def)
  then have "ses_crashed s1" using c simulated_crash_sets_crashed by metis
  then have "run_entry ?H ctx entrypoint params m1 ?s \<sigma> e = (Ret (True, Some (rt_recovered W ''simulated_host_crash'')), \<sigma>1, e)"
    using g(1,2) c r run(2) by (simp add: run_entry_def classify_def recovered_exit)
  then show ?thesis using E D eng' by (auto simp: current_session_def)
qed

end

end
