(* ===== verification/Store_Spec.thy ===== *)
theory Store_Spec
  imports Wasman_Types
begin

text \<open>
  The abstract specification of a snapshot store that compares versions: a map from identifiers to
  the four things it keeps of an instance, and what each command of the interface does to it. A store
  that keeps the contract refines it: running commands and looking at the content commute.
\<close>

section \<open>Commands\<close>

datatype store_cmd =
    CSave string bytes
  | CDelete string
  | CSaveDeltas string deltas
  | CTruncateDeltas string
  | CSaveOplog string int string bytes bytes
  | CTruncateOplog string int
  | CSaveMetadata instance_meta

text \<open>What a command does to a store.\<close>

fun run_cmd :: "'s store_ops \<Rightarrow> store_cmd \<Rightarrow> 's \<Rightarrow> 's" where
  "run_cmd st (CSave iid b) \<sigma> = snd (st_Save st iid b \<sigma>)"
| "run_cmd st (CDelete iid) \<sigma> = snd (st_Delete st iid \<sigma>)"
| "run_cmd st (CSaveDeltas iid ds) \<sigma> = snd (st_SaveDeltas st iid ds \<sigma>)"
| "run_cmd st (CTruncateDeltas iid) \<sigma> = snd (st_TruncateDeltas st iid \<sigma>)"
| "run_cmd st (CSaveOplog iid i api req resp) \<sigma> = snd (st_SaveOplog st iid i api req resp \<sigma>)"
| "run_cmd st (CTruncateOplog iid i) \<sigma> = snd (st_TruncateOplog st iid i \<sigma>)"
| "run_cmd st (CSaveMetadata m) \<sigma> = snd (snd (st_SaveMetadata st m \<sigma>))"

text \<open>What it does to the abstract content.\<close>

fun spec_cmd :: "store_cmd \<Rightarrow> (string \<Rightarrow> inst) \<Rightarrow> (string \<Rightarrow> inst)" where
  "spec_cmd (CSave iid b) v = v(iid := (v iid)\<lparr>i_snapshot := Some b\<rparr>)"
| "spec_cmd (CDelete iid) v = v(iid := empty_inst)"
| "spec_cmd (CSaveDeltas iid ds) v = v(iid := (v iid)\<lparr>i_deltas := i_deltas (v iid) ++ map_of ds\<rparr>)"
| "spec_cmd (CTruncateDeltas iid) v = v(iid := (v iid)\<lparr>i_deltas := Map.empty\<rparr>)"
| "spec_cmd (CSaveOplog iid i api req resp) v =
     v(iid := (v iid)\<lparr>i_oplog := i_oplog (v iid) @ [mk_entry i api req resp]\<rparr>)"
| "spec_cmd (CTruncateOplog iid i) v =
     v(iid := (v iid)\<lparr>i_oplog := filter (\<lambda>e. CallIndex e > i) (i_oplog (v iid))\<rparr>)"
| "spec_cmd (CSaveMetadata m) v =
     (if version_cas (i_meta (v (InstanceID m))) m
      then v(InstanceID m := (v (InstanceID m))\<lparr>i_meta := Some (m\<lparr>Version := Version m + 1\<rparr>)\<rparr>) else v)"

text \<open>Commands whose arguments the encodings keep.\<close>

fun ok_cmd :: "(string \<Rightarrow> bool) \<Rightarrow> (instance_meta \<Rightarrow> bool) \<Rightarrow> store_cmd \<Rightarrow> bool" where
  "ok_cmd ok_str ok_meta (CSaveDeltas iid ds) \<longleftrightarrow> distinct (map fst ds) \<and> list_all (\<lambda>kv. fst kv < 2 ^ 63) ds"
| "ok_cmd ok_str ok_meta (CSaveOplog iid i api req resp) \<longleftrightarrow> ok_str api"
| "ok_cmd ok_str ok_meta (CSaveMetadata m) \<longleftrightarrow> 0 \<le> Version m \<and> ok_meta m"
| "ok_cmd ok_str ok_meta _ \<longleftrightarrow> True"

lemma ok_cmd_any: "ok_cmd p q c \<Longrightarrow> ok_cmd (\<lambda>_. True) (\<lambda>_. True) c"
  by (cases c) simp_all

section \<open>Refinement\<close>

text \<open>The commands that save or truncate data leave the metadata alone and do not end an instance.\<close>

fun data_cmd :: "store_cmd \<Rightarrow> bool" where
  "data_cmd (CSaveMetadata _) \<longleftrightarrow> False"
| "data_cmd (CDelete _) \<longleftrightarrow> False"
| "data_cmd _ \<longleftrightarrow> True"

context snapshot_store
begin

lemma run_other_refines:
  assumes I: "inv \<sigma>" and "ok_cmd ok_str ok_meta c" and "\<And>m. c \<noteq> CSaveMetadata m"
  shows "inv (run_cmd st c \<sigma>) \<and> view (run_cmd st c \<sigma>) = spec_cmd c (view \<sigma>)"
proof (cases c)
  case (CSave iid b)
  then show ?thesis using Save[OF I, of iid b] by (metis prod.collapse run_cmd.simps(1) spec_cmd.simps(1))
next
  case (CDelete iid)
  then show ?thesis using Delete[OF I, of iid] by (metis prod.collapse run_cmd.simps(2) spec_cmd.simps(2))
next
  case (CSaveDeltas iid ds)
  then have "distinct (map fst ds)" "\<forall>kv\<in>set ds. fst kv < 2 ^ 63" using assms(2) by (auto simp: list_all_iff)
  then show ?thesis using SaveDeltas[OF I, of ds iid] CSaveDeltas
    by (metis prod.collapse run_cmd.simps(3) spec_cmd.simps(3))
next
  case (CTruncateDeltas iid)
  then show ?thesis using TruncateDeltas[OF I, of iid] by (metis prod.collapse run_cmd.simps(4) spec_cmd.simps(4))
next
  case (CSaveOplog iid i api req resp)
  then have "ok_str api" using assms(2) by simp
  then show ?thesis using SaveOplog[OF I, of api iid i req resp] CSaveOplog
    by (metis prod.collapse run_cmd.simps(5) spec_cmd.simps(5))
next
  case (CTruncateOplog iid i)
  then show ?thesis using TruncateOplog[OF I, of iid i] by (metis prod.collapse run_cmd.simps(6) spec_cmd.simps(6))
next
  case (CSaveMetadata m)
  then show ?thesis using assms(3) by blast
qed

end

text \<open>A store whose swap compares versions and changes nothing else of the metadata.\<close>

locale versioned_store = snapshot_store st inv view version_cas ok_str ok_meta
  for st :: "'s store_ops" and inv and view and ok_str and ok_meta +
  assumes keeps_meta: "inv s \<Longrightarrow> st_SaveMetadata st m s = (Inr True, m', s') \<Longrightarrow> m' = m\<lparr>Version := Version m + 1\<rparr>"
begin

lemma run_cmd_refines:
  assumes I: "inv \<sigma>" and "ok_cmd ok_str ok_meta c"
  shows "inv (run_cmd st c \<sigma>) \<and> view (run_cmd st c \<sigma>) = spec_cmd c (view \<sigma>)"
proof (cases "\<exists>m. c = CSaveMetadata m")
  case False
  then show ?thesis using run_other_refines[OF assms] by blast
next
  case True
  then obtain m where CSaveMetadata: "c = CSaveMetadata m" by blast
  then have m: "0 \<le> Version m" "ok_meta m" using assms(2) by simp_all
  obtain rb m' \<sigma>' where run: "st_SaveMetadata st m \<sigma> = (rb, m', \<sigma>')" by (metis prod_cases3)
  show ?thesis
  proof (cases "version_cas (i_meta (view \<sigma> (InstanceID m))) m")
    case True
    have C: "rb = Inr True \<and> inv \<sigma>' \<and>
        view \<sigma>' = (view \<sigma>)(InstanceID m := (view \<sigma> (InstanceID m))\<lparr>i_meta := Some m'\<rparr>)"
      using SaveMetadata_ok[OF I m True run] by blast
    then have "m' = m\<lparr>Version := Version m + 1\<rparr>" using keeps_meta[OF I, of m m' \<sigma>'] run by simp
    then show ?thesis using C True CSaveMetadata run by simp
  next
    case False
    then show ?thesis using SaveMetadata_refused[OF I m False run] I CSaveMetadata run by simp
  qed
qed

lemma run_cmds_refine:
  assumes "inv \<sigma>" "list_all (ok_cmd ok_str ok_meta) cs"
  shows "inv (fold (run_cmd st) cs \<sigma>) \<and> view (fold (run_cmd st) cs \<sigma>) = fold spec_cmd cs (view \<sigma>)"
  using assms
proof (induction cs arbitrary: \<sigma>)
  case (Cons c cs)
  then show ?case using run_cmd_refines[of \<sigma> c] by simp
qed simp

end

end
