(* ===== verification/Concurrency.thy ===== *)
theory Concurrency
  imports Recovery Store_Spec
begin

text \<open>
  Optimistic concurrency control. Any number of sessions, on any number of hosts, work on one
  instance of a shared store: each loads the metadata when its execution starts, and a checkpoint
  first swaps the metadata and then writes the memory. The step relation interleaves these store
  accesses freely; a session whose swap fails aborts.
\<close>

section \<open>Interleaved sessions\<close>

text \<open>
  The metadata every running session holds, the store, and the history of commits: which session
  committed which version.
\<close>

record 's occ =
  occ_held :: "nat \<rightharpoonup> instance_meta"
  occ_store :: 's
  occ_log :: "(nat \<times> int) list"

text \<open>\<open>meta != nil\<close> or the fresh metadata, as in \<open>ExecuteWithArgs\<close>.\<close>

definition loaded_meta :: "string \<Rightarrow> string \<Rightarrow> instance_meta option \<Rightarrow> instance_meta" where
  "loaded_meta iid h mo = (case mo of None \<Rightarrow> new_meta iid h | Some m \<Rightarrow> m)"

text \<open>
  \<open>hs\<close> are the module hashes of the engines at work. What a checkpoint writes after its swap, one request after
  another in the code, is the one step \<open>Write\<close>; none of these requests touches the metadata.
\<close>

inductive occ_step :: "'s store_ops \<Rightarrow> string set \<Rightarrow> string \<Rightarrow> 's occ \<Rightarrow> 's occ \<Rightarrow> bool"
  for st :: "'s store_ops" and hs :: "string set" and iid :: string where
  Load: "h \<in> hs \<Longrightarrow> st_LoadMetadata st iid (occ_store c) = Inr mo \<Longrightarrow> occ_held c p = None \<Longrightarrow>
    occ_step st hs iid c (c\<lparr>occ_held := (occ_held c)(p \<mapsto> loaded_meta iid h mo)\<rparr>)"
| Commit: "h \<in> hs \<Longrightarrow> occ_held c p = Some m \<Longrightarrow>
    st_SaveMetadata st (m\<lparr>WasmHash := h\<rparr>) (occ_store c) = (Inr True, m', \<sigma>') \<Longrightarrow>
    occ_step st hs iid c (c\<lparr>occ_held := (occ_held c)(p \<mapsto> m'), occ_store := \<sigma>',
      occ_log := occ_log c @ [(p, Version m')]\<rparr>)"
| Conflict: "h \<in> hs \<Longrightarrow> occ_held c p = Some m \<Longrightarrow>
    st_SaveMetadata st (m\<lparr>WasmHash := h\<rparr>) (occ_store c) = (Inr False, m', \<sigma>') \<Longrightarrow>
    occ_step st hs iid c (c\<lparr>occ_held := (occ_held c)(p := None), occ_store := \<sigma>'\<rparr>)"
| Write: "occ_held c p = Some (ses_meta (s :: (unit, unit) session)) \<Longrightarrow> ses_instanceID s = iid \<Longrightarrow>
    ses_pageHashes s = Some f \<Longrightarrow> length mem < page_size * max_pages \<Longrightarrow>
    write_memory st mem s (occ_store c) = (r, s', \<sigma>') \<Longrightarrow>
    occ_step st hs iid c (c\<lparr>occ_store := \<sigma>'\<rparr>)"
| Leave: "occ_step st hs iid c (c\<lparr>occ_held := (occ_held c)(p := None)\<rparr>)"

inductive_cases occ_stepE: "occ_step st hs iid c c'"

definition occ_init :: "'s \<Rightarrow> 's occ" where
  "occ_init \<sigma> = \<lparr> occ_held = Map.empty, occ_store = \<sigma>, occ_log = [] \<rparr>"

inductive occ_reach :: "'s store_ops \<Rightarrow> string set \<Rightarrow> string \<Rightarrow> 's \<Rightarrow> 's occ \<Rightarrow> bool"
  for st :: "'s store_ops" and hs :: "string set" and iid :: string and \<sigma> :: 's where
  start: "occ_reach st hs iid \<sigma> (occ_init \<sigma>)"
| step: "occ_reach st hs iid \<sigma> c \<Longrightarrow> occ_step st hs iid c c' \<Longrightarrow> occ_reach st hs iid \<sigma> c'"

section \<open>Versions are committed one after another\<close>

text \<open>
  From a store with version \<open>v0\<close>, the commits have the versions \<open>v0+1\<close>, \<open>v0+2\<close> and so on, and the
  stored version is the last of them.
\<close>

definition occ_inv :: "('s \<Rightarrow> bool) \<Rightarrow> ('s \<Rightarrow> string \<Rightarrow> inst) \<Rightarrow> (instance_meta \<Rightarrow> bool) \<Rightarrow> string \<Rightarrow> int \<Rightarrow>
    's occ \<Rightarrow> bool" where
  "occ_inv good view okm iid v0 c \<longleftrightarrow> good (occ_store c) \<and>
     (\<forall>p m. occ_held c p = Some m \<longrightarrow> InstanceID m = iid \<and> 0 \<le> Version m \<and> okm m) \<and>
     map snd (occ_log c) = map (\<lambda>k. v0 + 1 + int k) [0..<length (occ_log c)] \<and>
     version_of (i_meta (view (occ_store c) iid)) = v0 + int (length (occ_log c))"

context snapshot_store
begin

lemma swap_version:
  assumes "inv \<sigma>" "InstanceID m = iid" "0 \<le> Version m" "ok_meta m" "ok_str h"
    and run: "st_SaveMetadata st (m\<lparr>WasmHash := h\<rparr>) \<sigma> = (rb, m', \<sigma>')"
  shows "inv \<sigma>' \<and> (rb = Inr True \<longrightarrow> InstanceID m' = iid \<and> 0 \<le> Version m' \<and> ok_meta m' \<and>
      Version m' = version_of (i_meta (view \<sigma> iid)) + 1 \<and> version_of (i_meta (view \<sigma>' iid)) = Version m') \<and>
    (rb \<noteq> Inr True \<longrightarrow> version_of (i_meta (view \<sigma>' iid)) = version_of (i_meta (view \<sigma> iid)))"
proof (cases "cas (i_meta (view \<sigma> iid)) m")
  case True
  let ?m = "m\<lparr>WasmHash := h\<rparr>"
  have C: "rb = Inr True \<and> inv \<sigma>' \<and> m' = ?m\<lparr>Version := Version ?m + 1, ETag := ETag m'\<rparr> \<and>
      view \<sigma>' = (view \<sigma>)(InstanceID ?m := (view \<sigma> (InstanceID ?m))\<lparr>i_meta := Some m'\<rparr>)"
    using assms(1-5) True by (intro SaveMetadata_ok[OF _ _ _ _ run]) (simp_all add: cas_hash ok_hash)
  then have m': "m' = ?m\<lparr>Version := Version ?m + 1, ETag := ETag m'\<rparr>" and inv': "inv \<sigma>'"
    and v': "i_meta (view \<sigma>' iid) = Some m'" and rb: "rb = Inr True" using assms(2) by simp_all
  have "Version m' = Version m + 1" by (subst m') simp
  moreover have "Version m = version_of (i_meta (view \<sigma> iid))"
    using cas_version[OF assms(1,3,4)] True assms(2) by simp
  ultimately show ?thesis using meta_wf[OF inv' v'] v' rb inv' by (simp add: version_of_def)
next
  case False
  then show ?thesis using SaveMetadata_refused[OF assms(1) _ _ _ run] assms
    by (simp add: cas_hash ok_hash)
qed

lemma write_memory_meta:
  assumes "inv \<sigma>" "ses_pageHashes s = Some f" "length mem < page_size * max_pages"
    and run: "write_memory st mem s \<sigma> = (r, s', \<sigma>')"
  shows "inv \<sigma>' \<and> i_meta (view \<sigma>' (ses_instanceID s)) = i_meta (view \<sigma> (ses_instanceID s))"
proof (cases "isFullSnapshot (Version (ses_meta s))")
  case True
  obtain fault \<sigma>1 where w: "write_full st (ses_instanceID s) (Version (ses_meta s)) (ses_callIndex s) mem \<sigma> = (fault, \<sigma>1)"
    by fastforce
  note W = write_full_spec[OF assms(1) w]
  show ?thesis using run W write_memory_full[OF True, of st mem \<sigma> \<sigma>1] w by auto
next
  case False
  obtain fault ph \<sigma>1 where w: "write_deltas st (ses_instanceID s) mem (Some f) \<sigma> = (fault, ph, \<sigma>1)"
    by (metis prod_cases3)
  obtain ds where W: "fault = None" "inv \<sigma>1" "view \<sigma>1 = (view \<sigma>)(ses_instanceID s :=
      (view \<sigma> (ses_instanceID s))\<lparr>i_deltas := i_deltas (view \<sigma> (ses_instanceID s)) ++ map_of ds\<rparr>)"
    using write_deltas_spec[OF assms(1,3) w] by blast
  show ?thesis using run W write_memory_deltas[OF False, of st mem \<sigma> ph \<sigma>1] w assms(2) by auto
qed

lemma occ_step_inv:
  assumes "occ_step st hs iid c c'" and I: "occ_inv inv view ok_meta iid v0 c"
    and ok: "ok_str iid" "\<forall>h\<in>hs. ok_str h"
  shows "occ_inv inv view ok_meta iid v0 c'"
  using assms(1)
proof cases
  case (Load h mo p)
  then have "mo = i_meta (view (occ_store c) iid)" using I LoadMetadata by (simp add: occ_inv_def)
  then have "InstanceID (loaded_meta iid h mo) = iid \<and> 0 \<le> Version (loaded_meta iid h mo) \<and> ok_meta (loaded_meta iid h mo)"
    using I ok Load(2) meta_wf[of "occ_store c" iid] ok_new[of iid h]
    by (auto simp: loaded_meta_def occ_inv_def split: option.split)
  then show ?thesis using I Load(1) by (auto simp: occ_inv_def)
next
  case (Commit h p m m' \<sigma>')
  then have "InstanceID m = iid" "0 \<le> Version m" "ok_meta m" "ok_str h" "inv (occ_store c)"
    using I ok by (auto simp: occ_inv_def)
  then show ?thesis using I swap_version[OF _ _ _ _ _ Commit(4), of iid] Commit(1)
    by (auto simp: occ_inv_def)
next
  case (Conflict h p m m' \<sigma>')
  then have "InstanceID m = iid" "0 \<le> Version m" "ok_meta m" "ok_str h" "inv (occ_store c)"
    using I ok by (auto simp: occ_inv_def)
  then show ?thesis using I swap_version[OF _ _ _ _ _ Conflict(4), of iid] Conflict(1)
    by (auto simp: occ_inv_def)
next
  case (Write p s f mem r s' \<sigma>')
  then show ?thesis using I write_memory_meta[OF _ Write(4,5,6)] by (auto simp: occ_inv_def)
next
  case (Leave p)
  then show ?thesis using I by (auto simp: occ_inv_def)
qed

lemma occ_reach_inv:
  assumes "occ_reach st hs iid \<sigma> c" "inv \<sigma>" "ok_str iid" "\<forall>h\<in>hs. ok_str h"
  shows "occ_inv inv view ok_meta iid (version_of (i_meta (view \<sigma> iid))) c"
  using assms(1)
proof induction
  case start
  then show ?case using assms(2) by (simp add: occ_inv_def occ_init_def)
next
  case (step c c')
  then show ?case using occ_step_inv assms(3,4) by blast
qed

end

end
