(* ===== verification/Memory_Engine.thy ===== *)
theory Memory_Engine
  imports Memory_Store Crash_Resume Concurrency
begin

text \<open>
  The engine over \<open>MemorySnapshotStore\<close>: the interpretations that give the facts of theories
  \<open>Recovery\<close>, \<open>Crash_Resume\<close> and \<open>Concurrency\<close> for this store, with any linear memory and runtime
  that keep their contracts, and with the byte-list ones.
\<close>

lemma mem_durable:
  "linear_memory M contents valid \<Longrightarrow>
   durable (memory_ops cd) ms_inv ms_view version_cas (\<lambda>_. True) (\<lambda>_. True) M contents valid"
  by (rule durable.intro[OF mem_store.snapshot_store_axioms])

lemma mem_durable_engine:
  "linear_memory M contents valid \<Longrightarrow> wazero_runtime W modules instantiable init \<Longrightarrow>
   durable_engine (memory_ops cd) ms_inv ms_view version_cas (\<lambda>_. True) (\<lambda>_. True) M contents valid
     W modules instantiable init"
  by (rule durable_engine.intro[OF mem_durable])

interpretation mem_versioned: versioned_store "memory_ops cd" ms_inv ms_view "\<lambda>_. True" "\<lambda>_. True"
  by unfold_locales (auto simp: store_simps ms_SaveMetadata_eq split: if_splits)

interpretation mem_engine: durable_engine "memory_ops cd" ms_inv ms_view version_cas "\<lambda>_. True" "\<lambda>_. True"
    list_memory "\<lambda>m. m" list_memory_valid "list_runtime mem0 exports" "\<lambda>r. r" "\<lambda>_. True" "\<lambda>_. mem0"
  by (rule mem_durable_engine[OF lm.linear_memory_axioms list_rt.wazero_runtime_axioms])

section \<open>A store whose truncation fails\<close>

text \<open>The store with a \<open>TruncateDeltas\<close> that returns an error and changes nothing.\<close>

definition failing_truncate :: "go_error \<Rightarrow> 's store_ops \<Rightarrow> 's store_ops" where
  "failing_truncate err st = st\<lparr>st_TruncateDeltas := (\<lambda>_ \<sigma>. (Some err, \<sigma>))\<rparr>"

lemma checkpoint_failing_truncate:
  assumes "linear_memory M contents valid" "valid m" "contents m \<noteq> []" "length (contents m) < page_size * max_pages"
    and "current_session (ms_view \<sigma> (ses_instanceID s)) s" "isFullSnapshot (Version (ses_meta s) + 1)"
    and "checkpoint (failing_truncate err (memory_ops cd)) M h m s \<sigma> = (r, s', \<sigma>')"
  shows "r = passed s \<and> ms_deltas \<sigma>' = ms_deltas \<sigma> \<and> ms_snapshots \<sigma>' = (ms_snapshots \<sigma>)(ses_instanceID s \<mapsto> contents m) \<and>
    (ms_inv \<sigma> \<longrightarrow> ms_inv \<sigma>')"
proof -
  let ?iid = "ses_instanceID s" and ?meta = "(ses_meta s)\<lparr>WasmHash := h, Version := Version (ses_meta s) + 1\<rparr>"
  have cur: "InstanceID (ses_meta s) = ?iid" "Version (ses_meta s) > 0" "ms_meta \<sigma> ?iid = Some (ses_meta s)"
    using assms(5) by (simp_all add: current_session_def)
  have rd: "mem_Read M m 0 (mem_Size M m) = Some (contents m)" "mem_Size M m \<noteq> 0"
    using linear_memory.Read_all[OF assms(1,2,4)] linear_memory.Size_zero_iff[OF assms(1,2,4)] assms(3) by simp_all
  let ?\<sigma>1 = "\<sigma>\<lparr>ms_meta := (ms_meta \<sigma>)(?iid \<mapsto> ?meta)\<rparr>"
  let ?\<sigma>2 = "snd (ms_TruncateOplog ?iid (ses_callIndex s) (?\<sigma>1\<lparr>ms_snapshots := (ms_snapshots \<sigma>)(?iid \<mapsto> contents m)\<rparr>))"
  let ?s1 = "s\<lparr>ses_meta := ?meta, ses_memory := m\<rparr>"
  have "checkpoint (failing_truncate err (memory_ops cd)) M h m s \<sigma> =
      write_memory (failing_truncate err (memory_ops cd)) (contents m) ?s1 ?\<sigma>1"
    using cur rd by (simp add: checkpoint_def failing_truncate_def memory_ops_def ms_SaveMetadata_eq version_cas_def Let_def)
  moreover have "write_full (failing_truncate err (memory_ops cd)) ?iid (Version ?meta) (ses_callIndex s) (contents m) ?\<sigma>1 = (None, ?\<sigma>2)"
    using cur by (simp add: write_full_def failing_truncate_def memory_ops_def ms_Save_def Let_def)
  ultimately have "r = passed s" "\<sigma>' = ?\<sigma>2"
    using write_memory_full[of ?s1 "failing_truncate err (memory_ops cd)" "contents m" ?\<sigma>1 ?\<sigma>2] assms(6,7)
    by (auto simp: passed_def split: if_splits)
  then show ?thesis using cur by (auto simp: ms_TruncateOplog_def ms_inv_def)
qed

section \<open>Concrete memories for examples\<close>

text \<open>A memory of one page with the same byte everywhere.\<close>

definition one_page :: "byte \<Rightarrow> bytes" where
  "one_page b = replicate 65536 b"

lemma length_one_page [simp]: "length (one_page b) = 65536"
  by (simp only: one_page_def length_replicate)

lemma one_page_ne [simp]: "one_page b \<noteq> []"
  using length_one_page[of b] by (metis list.size(3) zero_neq_numeral)

lemma one_page_valid [simp]: "list_memory_valid (one_page b)"
  by (simp add: list_memory_valid_def)

lemma one_page_inj [simp]: "one_page a = one_page b \<longleftrightarrow> a = b"
  by (simp only: one_page_def replicate_eq_replicate) simp

lemma num_blocks_one_page [simp]: "num_blocks (one_page b) = 16"
  by (simp add: num_blocks_def)

text \<open>A guest with one entrypoint: it sets every byte of its page to one and checkpoints.\<close>

definition demo_exports :: "string \<Rightarrow> (u64 list \<Rightarrow> bytes \<Rightarrow> bytes guest) option" where
  "demo_exports n = (if n = ''run'' then Some (\<lambda>_ m. Checkpoint (one_page 1) (\<lambda>m. Return m [])) else None)"

definition demo_engine :: "(bytes, bytes, string \<rightharpoonup> bytes, unit) engine" where
  "demo_engine = \<lparr> eng_runtime = Map.empty, eng_compiled = [], eng_wasmHash = ''h1'',
     eng_compiledCache = Map.empty, eng_activeSessions = Map.empty \<rparr>"

definition demo_clock :: "unit \<Rightarrow> int \<times> unit" where
  "demo_clock e = (42, e)"

lemma demo_boot: "boot (list_runtime m demo_exports) m' = Some m'"
  by (simp add: boot_def list_runtime_def demo_exports_def)

lemma demo_run: "rt_ExportedFunction (list_runtime m demo_exports) m' ''run'' =
    Some (\<lambda>_ m. Checkpoint (one_page 1) (\<lambda>m. Return m []))"
  by (simp add: list_runtime_def demo_exports_def)

lemma one_page_growable: "growable list_memory (\<lambda>m. m) list_memory_valid (length (one_page b))"
  by (rule list_memory_growable) simp

text \<open>A session of the memory store that runs an instance with one page of memory.\<close>

definition demo_session :: "instance_meta \<Rightarrow> (nat \<rightharpoonup> u64) \<Rightarrow> (bytes, unit) session" where
  "demo_session meta f = new_session Background ''i'' [] False meta (Some f) (one_page 0)"

lemma demo_session_simps [simp]:
  "ses_instanceID (demo_session meta f) = ''i''" "ses_meta (demo_session meta f) = meta"
  "ses_pageHashes (demo_session meta f) = Some f" "ses_shouldCrashOnCheckpoint (demo_session meta f) = False"
  "ses_callIndex (demo_session meta f) = 0"
  by (simp_all add: demo_session_def new_session_def)

text \<open>A store that holds instance \<open>i\<close> at some version, with a full snapshot and no deltas.\<close>

definition demo_store :: "int \<Rightarrow> bytes \<Rightarrow> memory_store" where
  "demo_store v snap = NewMemorySnapshotStore\<lparr>ms_meta := [''i'' \<mapsto> (new_meta ''i'' ''h1'')\<lparr>Version := v\<rparr>],
     ms_snapshots := [''i'' \<mapsto> snap]\<rparr>"

lemma demo_store_inv [simp]: "v > 0 \<Longrightarrow> ms_inv (demo_store v snap)"
  by (auto simp: demo_store_def ms_inv_def NewMemorySnapshotStore_def split: if_splits)

lemma demo_store_view [simp]:
  "i_meta (ms_view (demo_store v snap) ''i'') = Some ((new_meta ''i'' ''h1'')\<lparr>Version := v\<rparr>)"
  "i_snapshot (ms_view (demo_store v snap) ''i'') = Some snap"
  "i_deltas (ms_view (demo_store v snap) ''i'') = Map.empty"
  by (simp_all add: demo_store_def ms_view_def NewMemorySnapshotStore_def)

lemma demo_in_step:
  assumes "v > 0"
  shows "in_step (ms_view (demo_store v (one_page b)) ''i'')
    (demo_session ((new_meta ''i'' ''h1'')\<lparr>Version := v\<rparr>) (hash_blocks (one_page b) Map.empty)) (one_page b)"
  using assms
  by (simp add: in_step_def current_session_def durable_image_def is_image_full hash_blocks_sound del: ms_view_upd)

lemma block_one_page_ne: "a \<noteq> b \<Longrightarrow> block_at 3 (one_page a) \<noteq> block_at 3 (one_page b)"
proof -
  have "block_at 3 (one_page c) ! 0 = c" for c
    by (subst nth_block_at) (simp, simp, simp add: one_page_def)
  then show "a \<noteq> b \<Longrightarrow> ?thesis" by metis
qed

text \<open>The same store with a delta for block 3.\<close>

definition demo_store_delta :: "int \<Rightarrow> byte \<Rightarrow> memory_store" where
  "demo_store_delta v b = (demo_store v (one_page b))\<lparr>ms_deltas := [''i'' \<mapsto> [(3, block_at 3 (one_page b))]]\<rparr>"

lemma demo_store_delta_inv [simp]: "v > 0 \<Longrightarrow> ms_inv (demo_store_delta v b)"
  by (auto simp: demo_store_delta_def demo_store_def ms_inv_def NewMemorySnapshotStore_def split: if_splits)

lemma demo_store_delta_view [simp]:
  "ms_meta (demo_store_delta v b) ''i'' = Some ((new_meta ''i'' ''h1'')\<lparr>Version := v\<rparr>)"
  "ms_snapshots (demo_store_delta v b) ''i'' = Some (one_page b)"
  "i_deltas (ms_view (demo_store_delta v b) ''i'') = [3 \<mapsto> block_at 3 (one_page b)]"
  by (simp_all add: demo_store_delta_def demo_store_def ms_view_def NewMemorySnapshotStore_def)

lemma demo_delta_in_step:
  assumes "v > 0"
  shows "in_step (ms_view (demo_store_delta v b) ''i'')
    (demo_session ((new_meta ''i'' ''h1'')\<lparr>Version := v\<rparr>) (hash_blocks (one_page b) Map.empty)) (one_page b)"
  using assms by (simp add: in_step_def current_session_def durable_image_def is_image_def hash_blocks_sound)

end
