(* ===== verification/Isolation.thy ===== *)
theory Isolation
  imports Execution Memory_Store
begin

text \<open>
  One engine serves many instances over one store. Whatever a guest does, the executions of an
  instance touch the store only at that instance: every host function writes under the identifier of
  its session, the swap of the metadata is under the identifier in the metadata, and the two stay
  equal. The locale \<open>confined_store\<close> states what this needs of a store, the lemmas follow a guest
  through its host calls and a sequence of requests through the engine, and the interpretation is on
  the memory store.
\<close>

section \<open>Confinement\<close>

definition confined :: "('s \<Rightarrow> bool) \<Rightarrow> ('s \<Rightarrow> string \<Rightarrow> inst) \<Rightarrow> ('s \<Rightarrow> string \<rightharpoonup> bytes) \<Rightarrow> string \<Rightarrow> 's \<Rightarrow> 's \<Rightarrow> bool" where
  "confined ok view reg iid \<sigma> \<sigma>' \<longleftrightarrow>
     ok \<sigma>' \<and> reg \<sigma>' = reg \<sigma> \<and> (\<forall>j. j \<noteq> iid \<longrightarrow> view \<sigma>' j = view \<sigma> j)"

lemma confined_refl [simp]: "confined ok view reg iid \<sigma> \<sigma> \<longleftrightarrow> ok \<sigma>"
  by (simp add: confined_def)

lemma confined_trans [trans]:
  "confined ok view reg iid \<sigma> \<sigma>1 \<Longrightarrow> confined ok view reg iid \<sigma>1 \<sigma>2 \<Longrightarrow> confined ok view reg iid \<sigma> \<sigma>2"
  by (simp add: confined_def)

lemma confined_inv: "confined ok view reg iid \<sigma> \<sigma>' \<Longrightarrow> ok \<sigma>'"
  by (simp add: confined_def)

text \<open>A session bound to an instance: its identifier and the one in its metadata.\<close>

definition bound_session :: "string \<Rightarrow> ('m, 'e) session \<Rightarrow> bool" where
  "bound_session iid s \<longleftrightarrow>
     ses_instanceID s = iid \<and> InstanceID (ses_meta s) = iid \<and> 0 \<le> Version (ses_meta s)"

lemma bound_session_upd [simp]:
  "bound_session iid (s\<lparr>ses_memory := m\<rparr>) = bound_session iid s"
  "bound_session iid (s\<lparr>ses_pageHashes := f\<rparr>) = bound_session iid s"
  "bound_session iid (s\<lparr>ses_crashed := b\<rparr>) = bound_session iid s"
  "bound_session iid (s\<lparr>ses_callIndex := i\<rparr>) = bound_session iid s"
  "bound_session iid (s\<lparr>ses_uploadBuffer := u\<rparr>) = bound_session iid s"
  "bound_session iid (s\<lparr>ses_downloadReader := d\<rparr>) = bound_session iid s"
  "bound_session iid (s\<lparr>ses_downloadEOF := b\<rparr>) = bound_session iid s"
  by (simp_all add: bound_session_def)

lemma bound_new_session [simp]:
  "bound_session iid (new_session ctx iid' addr cr meta ph m) \<longleftrightarrow>
     iid' = iid \<and> InstanceID meta = iid \<and> 0 \<le> Version meta"
  by (simp add: bound_session_def new_session_def)

lemma handleDownload_bound:
  "handleDownload M ptr len s e = (n, s', e') \<Longrightarrow> bound_session iid s \<Longrightarrow> bound_session iid s'"
  by (auto simp: handleDownload_def download_read_def Let_def split: if_splits option.splits prod.splits sum.splits)

lemma handleUpload_bound:
  "handleUpload M ptr len s e = (r, s', e') \<Longrightarrow> bound_session iid s \<Longrightarrow> bound_session iid s'"
  by (auto simp: handleUpload_def Let_def split: if_splits option.splits prod.splits sum.splits)

lemma stream_data_bound:
  "stream_data M m dir ptr len s e = (r, s', e') \<Longrightarrow> bound_session iid s \<Longrightarrow> bound_session iid s'"
  by (auto simp: stream_data_def Let_def split: if_splits prod.splits
      dest!: handleDownload_bound[where iid = iid] handleUpload_bound[where iid = iid])

lemma deliver_bound: "deliver M rp rm resp s = (n, s') \<Longrightarrow> bound_session iid s' = bound_session iid s"
  by (auto simp: deliver_def split: if_splits)

text \<open>The blocks that an incremental checkpoint saves have distinct keys, whatever the hashes.\<close>

lemma dirty_loop_distinct:
  "dirty_loop mem is (f, ds) = Some (f', ds') \<Longrightarrow> distinct (map fst ds) \<Longrightarrow> distinct (map fst ds')"
  by (induction mem "is" "(f, ds)" arbitrary: f ds rule: dirty_loop.induct)
    (auto simp: Let_def distinct_update split: if_splits option.splits)

section \<open>Stores\<close>

locale confined_store =
  fixes st :: "'s store_ops"
    and inv :: "'s \<Rightarrow> bool"
    and view :: "'s \<Rightarrow> string \<Rightarrow> inst"
    and reg :: "'s \<Rightarrow> string \<rightharpoonup> bytes"
  assumes c_Save: "inv \<sigma> \<Longrightarrow> confined inv view reg iid \<sigma> (snd (st_Save st iid b \<sigma>))"
    and c_SaveDeltas: "inv \<sigma> \<Longrightarrow> distinct (map fst ds) \<Longrightarrow>
      confined inv view reg iid \<sigma> (snd (st_SaveDeltas st iid ds \<sigma>))"
    and c_TruncateDeltas: "inv \<sigma> \<Longrightarrow> confined inv view reg iid \<sigma> (snd (st_TruncateDeltas st iid \<sigma>))"
    and c_SaveOplog: "inv \<sigma> \<Longrightarrow> confined inv view reg iid \<sigma> (snd (st_SaveOplog st iid i api req resp \<sigma>))"
    and c_TruncateOplog: "inv \<sigma> \<Longrightarrow> confined inv view reg iid \<sigma> (snd (st_TruncateOplog st iid i \<sigma>))"
    and c_SaveMetadata: "inv \<sigma> \<Longrightarrow> 0 \<le> Version meta \<Longrightarrow> st_SaveMetadata st meta \<sigma> = (rb, meta', \<sigma>') \<Longrightarrow>
      confined inv view reg (InstanceID meta) \<sigma> \<sigma>' \<and> InstanceID meta' = InstanceID meta \<and> 0 \<le> Version meta'"
    and c_LoadMetadata: "inv \<sigma> \<Longrightarrow> st_LoadMetadata st iid \<sigma> = Inr (Some meta) \<Longrightarrow>
      InstanceID meta = iid \<and> 0 \<le> Version meta"
begin

text \<open>What a host call of a session leaves.\<close>

abbreviation kept :: "string \<Rightarrow> 's \<Rightarrow> ('m, 'e) session \<Rightarrow> 's \<Rightarrow> bool" where
  "kept iid \<sigma> s' \<sigma>' \<equiv> bound_session iid s' \<and> confined inv view reg iid \<sigma> \<sigma>'"

lemmas inv_confined = confined_inv[of inv view reg]
lemmas join_confined = confined_trans[of inv view reg]

lemma write_full_confined:
  assumes "inv \<sigma>" "write_full st iid v ci mem \<sigma> = (r, \<sigma>')"
  shows "confined inv view reg iid \<sigma> \<sigma>'"
proof -
  obtain r1 \<sigma>1 where S: "st_Save st iid mem \<sigma> = (r1, \<sigma>1)" by fastforce
  have 1: "confined inv view reg iid \<sigma> \<sigma>1" using c_Save[OF assms(1), of iid mem] S by simp
  let ?\<sigma>2 = "snd (st_TruncateOplog st iid ci \<sigma>1)"
  have 2: "confined inv view reg iid \<sigma>1 ?\<sigma>2" by (rule c_TruncateOplog[OF confined_inv[OF 1]])
  have 3: "confined inv view reg iid ?\<sigma>2 (snd (st_TruncateDeltas st iid ?\<sigma>2))"
    by (rule c_TruncateDeltas[OF confined_inv[OF 2]])
  show ?thesis using assms(2) S 1 confined_trans[OF confined_trans[OF 1 2] 3]
    by (auto simp: write_full_def Let_def split: option.splits if_splits)
qed

lemma write_deltas_confined:
  assumes "inv \<sigma>" "write_deltas st iid mem ph \<sigma> = (r, ph', \<sigma>')"
  shows "confined inv view reg iid \<sigma> \<sigma>'"
proof (cases "dirty_loop mem [0..<num_blocks mem] (ph, [])")
  case None
  then show ?thesis using assms by (auto simp: write_deltas_def)
next
  case (Some x)
  obtain f ds where x: "x = (f, ds)" by fastforce
  have "distinct (map fst ds)" using dirty_loop_distinct[of mem _ ph "[]" f ds] Some x by simp
  then have "confined inv view reg iid \<sigma> (snd (st_SaveDeltas st iid ds \<sigma>))" by (rule c_SaveDeltas[OF assms(1)])
  then show ?thesis using assms Some x by (auto simp: write_deltas_def split: if_splits option.splits prod.splits)
qed

lemma write_memory_confined:
  assumes "inv \<sigma>" "bound_session iid s" "write_memory st mem s \<sigma> = (r, s', \<sigma>')"
  shows "kept iid \<sigma> s' \<sigma>'"
proof -
  have iid: "ses_instanceID s = iid" using assms(2) by (simp add: bound_session_def)
  show ?thesis
  proof (cases "isFullSnapshot (Version (ses_meta s))")
    case True
    then show ?thesis using assms iid write_full_confined[OF assms(1)]
      by (fastforce simp: write_memory_def Let_def split: prod.splits option.splits if_splits)
  next
    case False
    then show ?thesis using assms iid write_deltas_confined[OF assms(1)]
      by (fastforce simp: write_memory_def Let_def split: prod.splits option.splits if_splits)
  qed
qed

lemma checkpoint_confined:
  assumes "inv \<sigma>" "bound_session iid s" "checkpoint st M h m s \<sigma> = (r, s', \<sigma>')"
  shows "kept iid \<sigma> s' \<sigma>'"
proof -
  let ?meta = "(ses_meta s)\<lparr>WasmHash := h\<rparr>"
  obtain rb meta' \<sigma>1 where S: "st_SaveMetadata st ?meta \<sigma> = (rb, meta', \<sigma>1)" by (metis prod_cases3)
  have 1: "confined inv view reg iid \<sigma> \<sigma>1 \<and> InstanceID meta' = iid \<and> 0 \<le> Version meta'"
    using c_SaveMetadata[OF assms(1) _ S] assms(2) by (simp add: bound_session_def)
  then have i1: "inv \<sigma>1" using inv_confined by blast
  have b: "bound_session iid (s\<lparr>ses_meta := meta'\<rparr>)" using 1 assms(2) by (simp add: bound_session_def)
  have w: "kept iid \<sigma>1 s' \<sigma>'" if "write_memory st mem (s\<lparr>ses_meta := meta', ses_memory := m\<rparr>) \<sigma>1 = (r, s', \<sigma>')" for mem
    using write_memory_confined[OF i1 _ that, of iid] b by simp
  show ?thesis using assms(3) S 1 b w join_confined[of iid \<sigma> \<sigma>1 \<sigma>']
    by (auto simp: checkpoint_def Let_def split: sum.splits bool.splits if_splits option.splits)
qed

lemma host_get_time_confined:
  assumes "inv \<sigma>" "bound_session iid s" "host_get_time st clock s \<sigma> e = (t, s', \<sigma>', e')"
  shows "kept iid \<sigma> s' \<sigma>'"
  using assms c_SaveOplog[OF assms(1), of iid]
  by (auto simp: host_get_time_def Let_def bound_session_def split: sum.splits option.splits prod.splits)

lemma call_logged_confined:
  assumes "inv \<sigma>" "bound_session iid s" "call_logged st M nm req rp rm s \<sigma> e = (n, s', \<sigma>', e')"
  shows "kept iid \<sigma> s' \<sigma>'"
proof -
  have iid: "ses_instanceID s = iid" using assms(2) by (simp add: bound_session_def)
  have so: "confined inv view reg iid \<sigma> \<sigma>1" if "st_SaveOplog st iid i nm req resp \<sigma> = (x, \<sigma>1)" for i resp x \<sigma>1
    using c_SaveOplog[OF assms(1), of iid i nm req resp] that by simp
  show ?thesis using assms iid
    by (auto simp: call_logged_def Let_def deliver_bound so split: sum.splits option.splits prod.splits)
qed

lemma host_call_api_confined:
  assumes "inv \<sigma>" "bound_session iid s" "host_call_api st M m ap al rp rl wp wl s \<sigma> e = (r, s', \<sigma>', e')"
  shows "kept iid \<sigma> s' \<sigma>'"
  using assms call_logged_confined[OF assms(1), of iid "s\<lparr>ses_memory := m\<rparr>"]
  by (fastforce simp: host_call_api_def Let_def split: option.splits if_splits prod.splits)

section \<open>Guests and executions\<close>

lemma Call_confined:
  assumes "h_store H = st" "inv \<sigma>" "bound_session iid s" "Call H g s \<sigma> e = (r, m', s', \<sigma>', e')"
  shows "kept iid \<sigma> s' \<sigma>'"
  using assms(2-4)
proof (induction g arbitrary: s \<sigma> e)
  case (Checkpoint m k)
  obtain q s1 \<sigma>1 where C: "checkpoint st (h_mem H) (h_wasmHash H) m s \<sigma> = (q, s1, \<sigma>1)" by (metis prod_cases3)
  have 1: "kept iid \<sigma> s1 \<sigma>1" by (rule checkpoint_confined[OF Checkpoint.prems(1,2) C])
  then show ?case using Checkpoint.prems(3) C assms(1) Checkpoint.IH[OF rangeI, of \<sigma>1 s1 m e]
      join_confined[of iid \<sigma> \<sigma>1 \<sigma>'] inv_confined[of iid \<sigma> \<sigma>1]
    by (cases q) auto
next
  case (GetTime m k)
  obtain t s1 \<sigma>1 e1 where C: "host_get_time st (h_clock H) s \<sigma> e = (t, s1, \<sigma>1, e1)" by (metis prod_cases4)
  have 1: "kept iid \<sigma> s1 \<sigma>1" by (rule host_get_time_confined[OF GetTime.prems(1,2) C])
  then show ?case using GetTime.prems(3) C assms(1) GetTime.IH[OF rangeI rangeI, of \<sigma>1 s1 t m e1]
      join_confined[of iid \<sigma> \<sigma>1 \<sigma>'] inv_confined[of iid \<sigma> \<sigma>1]
    by auto
next
  case (CallApi m ap al rp rl wp wl k)
  obtain q s1 \<sigma>1 e1 where C: "host_call_api st (h_mem H) m ap al rp rl wp wl s \<sigma> e = (q, s1, \<sigma>1, e1)"
    by (metis prod_cases4)
  have 1: "kept iid \<sigma> s1 \<sigma>1" by (rule host_call_api_confined[OF CallApi.prems(1,2) C])
  then show ?case using CallApi.prems(3) C assms(1) CallApi.IH[OF rangeI rangeI, of \<sigma>1 s1 _ "ses_memory s1" e1]
      join_confined[of iid \<sigma> \<sigma>1 \<sigma>'] inv_confined[of iid \<sigma> \<sigma>1]
    by (cases q) auto
next
  case (StreamData m dir ptr len k)
  obtain q s1 e1 where C: "stream_data (h_mem H) m dir ptr len s e = (q, s1, e1)" by (metis prod_cases3)
  have 1: "bound_session iid s1" by (rule stream_data_bound[OF C StreamData.prems(2)])
  then show ?case using StreamData.prems C StreamData.IH[OF rangeI rangeI, of \<sigma> s1 _ "ses_memory s1" e1] by (cases q) auto
qed auto

lemma run_start_confined:
  assumes "h_store H = st" "inv \<sigma>" "bound_session iid s" "run_start H m s \<sigma> e = (r, m', s', \<sigma>', e')"
  shows "kept iid \<sigma> s' \<sigma>'"
proof (cases "rt_ExportedFunction (h_rt H) m ''_start''")
  case None
  then show ?thesis using assms by (simp add: run_start_def)
next
  case (Some f)
  obtain q cs where "Call H (f [] m) s \<sigma> e = (q, cs)" by (rule prod.exhaust)
  moreover have "cs = (m', s', \<sigma>', e')" using assms(4) Some calculation by (auto simp: run_start_def split: sum.splits)
  ultimately show ?thesis using Call_confined[OF assms(1-3)] by blast
qed

lemma execute_body_confined:
  assumes H: "h_store H = st" and "inv \<sigma>" "bound_session iid s"
    and run: "execute_body H ctx ep ps m s \<sigma> e = (r, m', s', \<sigma>', e')"
  shows "kept iid \<sigma> s' \<sigma>'"
proof -
  let ?start = "if ep \<noteq> ''_start'' then run_start H m s \<sigma> e else (None, m, s, \<sigma>, e)"
  obtain q m1 s1 \<sigma>1 e1 where S: "?start = (q, m1, s1, \<sigma>1, e1)" by (metis prod_cases5)
  have 1: "kept iid \<sigma> s1 \<sigma>1"
    using S run_start_confined[OF H assms(2,3), of m e q m1 s1 \<sigma>1 e1] assms(2,3) by (simp split: if_splits)
  then have i1: "inv \<sigma>1" using inv_confined by blast
  have c: "kept iid \<sigma> s4 \<sigma>4"
    if "Call H g (s1\<lparr>ses_memory := m3, ses_pageHashes := Some f3\<rparr>) \<sigma>1 e1 = (r4, m4, s4, \<sigma>4, e4)"
    for g m3 f3 r4 m4 s4 \<sigma>4 e4
    using Call_confined[OF H i1 _ that, of iid] 1 join_confined[of iid \<sigma> \<sigma>1 \<sigma>4] by simp
  show ?thesis using run 1 c unfolding execute_body_def S
    by (auto simp: Let_def split: option.splits outcome.splits prod.splits)
qed

lemma select_module_bound:
  assumes "inv \<sigma>" "select_module st W iid eng \<sigma> = (q, eng1)"
  shows "eng_activeSessions eng1 = eng_activeSessions eng \<and>
    (\<forall>meta c. q = Inr (meta, c) \<longrightarrow> InstanceID meta = iid \<and> 0 \<le> Version meta)"
  using assms(2) c_LoadMetadata[OF assms(1), of iid]
  by (auto simp: select_module_def split: sum.splits option.splits if_splits)

lemma ExecuteWithArgs_confined:
  assumes "inv \<sigma>"
    and run: "ExecuteWithArgs st M W clock ctx iid ep addr cr ps eng \<sigma> e = (r, eng', \<sigma>', e')"
  shows "confined inv view reg iid \<sigma> \<sigma>' \<and> eng_activeSessions eng' = eng_activeSessions eng"
proof -
  obtain q eng1 where S: "select_module st W iid eng \<sigma> = (q, eng1)" by fastforce
  note B = select_module_bound[OF assms(1) S]
  show ?thesis
  proof (cases q)
    case (Inl err)
    then show ?thesis using run S B assms(1) by (auto simp: ExecuteWithArgs_def)
  next
    case (Inr x)
    obtain meta c where x: "x = (meta, c)" by fastforce
    let ?H = "\<lparr> h_store = st, h_mem = M, h_rt = W, h_clock = clock, h_wasmHash = eng_wasmHash eng1 \<rparr>"
    have b: "confined inv view reg iid \<sigma> \<sigma>''"
      if "execute_body ?H ctx ep ps m (new_session ctx iid addr cr meta None m) \<sigma> e = (r'', m'', s'', \<sigma>'', e'')"
      for m r'' m'' s'' \<sigma>'' e''
      using execute_body_confined[OF _ assms(1) _ that, of iid] B Inr x by simp
    show ?thesis using run S B Inr x assms(1) b
      by (auto simp: ExecuteWithArgs_def Let_def split: prod.splits sum.splits)
  qed
qed

lemma bpmn_body_confined:
  assumes H: "h_store H = st" and "inv \<sigma>" "bound_session iid s"
    and run: "bpmn_body H ctx ep gb ib task m s \<sigma> e = (r, failed, m', s', \<sigma>', e')"
  shows "kept iid \<sigma> s' \<sigma>'"
proof (cases "rt_ExportedFunction (h_rt H) m ''get_exchange_buffer_pointer''")
  case None
  then show ?thesis using assms by (simp add: bpmn_body_def)
next
  case (Some f)
  obtain q m1 s1 \<sigma>1 e1 where C: "Call H (f [] m) s \<sigma> e = (q, m1, s1, \<sigma>1, e1)" by (metis prod_cases5)
  have 1: "kept iid \<sigma> s1 \<sigma>1" by (rule Call_confined[OF assms(1-3) C])
  then have i1: "inv \<sigma>1" using inv_confined by blast
  have c: "kept iid \<sigma> s4 \<sigma>4" if "Call H g s1 \<sigma>1 e1 = (r4, m4, s4, \<sigma>4, e4)" for g r4 m4 s4 \<sigma>4 e4
    using Call_confined[OF H i1 _ that, of iid] 1 join_confined[of iid \<sigma> \<sigma>1 \<sigma>4] by simp
  show ?thesis using run Some C 1 c
    by (auto simp: bpmn_body_def Let_def split: sum.splits list.splits if_splits prod.splits option.splits)
qed

end

section \<open>Requests\<close>

text \<open>The sessions that an engine keeps alive are bound to the instances they are kept for.\<close>

definition sessions_bound :: "('c, 'm, 'r, 'e) engine \<Rightarrow> bool" where
  "sessions_bound eng \<longleftrightarrow> (\<forall>iid s. eng_activeSessions eng iid = Some s \<longrightarrow> bound_session iid s)"

text \<open>What a client of the engine asks for, and the engine, store and environment it leaves.\<close>

datatype 'e request =
    RExecute "'e go_context" string string string bool "u64 list"
  | RBpmn "'e go_context" string string bytes bytes string string
  | RClose string

primrec target :: "'e request \<Rightarrow> string" where
  "target (RExecute ctx iid ep addr cr ps) = iid"
| "target (RBpmn ctx iid ep gb ib task addr) = iid"
| "target (RClose iid) = iid"

primrec serve :: "'s store_ops \<Rightarrow> 'm memory_api \<Rightarrow> ('c, 'm, 'r) wazero \<Rightarrow> ('e \<Rightarrow> int \<times> 'e) \<Rightarrow> 'e request \<Rightarrow>
    ('c, 'm, 'r, 'e) engine \<times> 's \<times> 'e \<Rightarrow> ('c, 'm, 'r, 'e) engine \<times> 's \<times> 'e" where
  "serve st M W clock (RExecute ctx iid ep addr cr ps) x =
     (case x of (eng, \<sigma>, e) \<Rightarrow> snd (ExecuteWithArgs st M W clock ctx iid ep addr cr ps eng \<sigma> e))"
| "serve st M W clock (RBpmn ctx iid ep gb ib task addr) x =
     (case x of (eng, \<sigma>, e) \<Rightarrow> snd (RunBPMN st M W clock ctx iid ep gb ib task addr eng \<sigma> e))"
| "serve st M W clock (RClose iid) x = (case x of (eng, \<sigma>, e) \<Rightarrow> (snd (CloseInstance W iid eng), \<sigma>, e))"

definition engine_local :: "string \<Rightarrow> ('c, 'm, 'r, 'e) engine \<Rightarrow> ('c, 'm, 'r, 'e) engine \<Rightarrow> bool" where
  "engine_local iid eng eng' \<longleftrightarrow>
     sessions_bound eng' \<and> (\<forall>j. j \<noteq> iid \<longrightarrow> eng_activeSessions eng' j = eng_activeSessions eng j)"

lemma bpmn_session_bound:
  assumes "\<And>s. active = Some s \<Longrightarrow> bound_session iid s" "InstanceID meta = iid" "0 \<le> Version meta"
  shows "bound_session iid (bpmn_session ctx iid addr meta active m)"
  using assms by (cases active) (auto simp: bpmn_session_def bound_session_def new_session_def)

lemma close_local:
  "sessions_bound eng \<Longrightarrow> eng_activeSessions eng' = eng_activeSessions eng \<Longrightarrow> engine_local iid eng (forget_session iid eng')"
  "sessions_bound eng \<Longrightarrow> eng_activeSessions eng' = eng_activeSessions eng \<Longrightarrow> engine_local iid eng (close_module W iid eng')"
  "sessions_bound eng \<Longrightarrow> eng_activeSessions eng' = eng_activeSessions eng \<Longrightarrow>
     engine_local iid eng (close_module W iid (close_module W iid eng'))"
  by (auto simp: engine_local_def sessions_bound_def forget_session_def close_module_def)

lemma CloseInstance_local: "sessions_bound eng \<Longrightarrow> engine_local iid eng (snd (CloseInstance W iid eng))"
  by (auto simp: CloseInstance_def engine_local_def sessions_bound_def Let_def split: option.split prod.split)

lemma bpmn_defer_local:
  assumes "sessions_bound eng" "eng_activeSessions eng' = eng_activeSessions eng" "bound_session iid s"
  shows "engine_local iid eng (bpmn_defer W ka failed iid m s eng')"
  using assms close_local(2)[OF assms(1,2)] by (auto simp: bpmn_defer_def engine_local_def sessions_bound_def)

context confined_store
begin

lemma RunBPMN_confined:
  assumes i: "inv \<sigma>" and eng: "sessions_bound eng"
    and run: "RunBPMN st M W clock ctx iid ep gb ib task addr eng \<sigma> e = (r, eng', \<sigma>', e')"
  shows "confined inv view reg iid \<sigma> \<sigma>' \<and> engine_local iid eng eng'"
proof -
  obtain q eng1 where S: "select_module st W iid eng \<sigma> = (q, eng1)" by fastforce
  note B = select_module_bound[OF i S]
  from B have A: "eng_activeSessions eng1 = eng_activeSessions eng" by blast
  have E1: "engine_local iid eng eng1" using A eng by (simp add: engine_local_def sessions_bound_def)
  show ?thesis
  proof (cases q)
    case (Inl err)
    then show ?thesis using run S E1 i by (auto simp: RunBPMN_def)
  next
    case (Inr x)
    obtain meta c where x: "x = (meta, c)" by fastforce
    let ?H = "\<lparr> h_store = st, h_mem = M, h_rt = W, h_clock = clock, h_wasmHash = eng_wasmHash eng1 \<rparr>"
    have b: "bound_session iid (bpmn_session ctx iid addr meta (eng_activeSessions eng1 iid) m)" for m
      using B Inr x eng by (intro bpmn_session_bound) (auto simp: sessions_bound_def)
    note body = bpmn_body_confined[where H = ?H, simplified]
    note start = run_start_confined[where H = ?H, simplified, OF i b]
    have full: "kept iid \<sigma> s2 \<sigma>2"
      if "run_start ?H m (bpmn_session ctx iid addr meta (eng_activeSessions eng1 iid) m) \<sigma> e = (w, m1, s1, \<sigma>1, e1)"
        "bpmn_body ?H ctx ep gb ib task m3 (s1\<lparr>ses_memory := m3, ses_pageHashes := f\<rparr>) \<sigma>1 e1 = (r2, fl, m2, s2, \<sigma>2, e2)"
      for m w m1 s1 \<sigma>1 e1 m3 f r2 fl m2 s2 \<sigma>2 e2
      using start[OF that(1)] body[OF _ _ that(2)] join_confined[of iid \<sigma> \<sigma>1 \<sigma>2] inv_confined[of iid \<sigma> \<sigma>1] by simp
    have act: "kept iid \<sigma> s2 \<sigma>2"
      if "bpmn_body ?H ctx ep gb ib task m ((bpmn_session ctx iid addr meta (eng_activeSessions eng1 iid) m)\<lparr>ses_memory := m\<rparr>)
            \<sigma> e = (r2, fl, m2, s2, \<sigma>2, e2)" for m r2 fl m2 s2 \<sigma>2 e2
      using body[OF i _ that] b by simp
    note local = close_local[OF eng] bpmn_defer_local[OF eng]
    show ?thesis
    proof (cases "rt_Module W (modName iid) (eng_runtime eng1)")
      case (Some m)
      then show ?thesis using run S Inr x
        by (auto simp: RunBPMN_def Let_def split: prod.splits intro!: local A dest: act)
    next
      case None
      then show ?thesis using run S Inr x i
        by (auto simp: RunBPMN_def bpmn_restore_def Let_def split: prod.splits sum.splits option.splits outcome.splits if_splits
            intro!: local simp: A dest: start[unfolded A] full[unfolded A])
    qed
  qed
qed

lemma serve_confined:
  assumes i: "inv \<sigma>" and eng: "sessions_bound eng" and run: "serve st M W clock q (eng, \<sigma>, e) = (eng', \<sigma>', e')"
  shows "confined inv view reg (target q) \<sigma> \<sigma>' \<and> engine_local (target q) eng eng'"
proof (cases q)
  case (RExecute ctx iid ep addr cr ps)
  obtain r where "ExecuteWithArgs st M W clock ctx iid ep addr cr ps eng \<sigma> e = (r, eng', \<sigma>', e')"
    using run RExecute by (cases "ExecuteWithArgs st M W clock ctx iid ep addr cr ps eng \<sigma> e") simp
  from ExecuteWithArgs_confined[OF i this] show ?thesis using RExecute eng
    by (auto simp: engine_local_def sessions_bound_def)
next
  case (RBpmn ctx iid ep gb ib task addr)
  obtain r where "RunBPMN st M W clock ctx iid ep gb ib task addr eng \<sigma> e = (r, eng', \<sigma>', e')"
    using run RBpmn by (cases "RunBPMN st M W clock ctx iid ep gb ib task addr eng \<sigma> e") simp
  from RunBPMN_confined[OF i eng this] show ?thesis using RBpmn by simp
next
  case (RClose iid)
  then show ?thesis using run i CloseInstance_local[OF eng, of iid W] by auto
qed

lemma serve_all_confined:
  assumes "inv \<sigma>" "sessions_bound eng" "fold (serve st M W clock) qs (eng, \<sigma>, e) = (eng', \<sigma>', e')"
  shows "inv \<sigma>' \<and> sessions_bound eng' \<and> reg \<sigma>' = reg \<sigma> \<and>
    (\<forall>j. j \<notin> target ` set qs \<longrightarrow> view \<sigma>' j = view \<sigma> j \<and> eng_activeSessions eng' j = eng_activeSessions eng j)"
  using assms
proof (induction qs arbitrary: eng \<sigma> e)
  case (Cons q qs)
  obtain eng1 \<sigma>1 e1 where S: "serve st M W clock q (eng, \<sigma>, e) = (eng1, \<sigma>1, e1)" by (metis prod_cases3)
  note 1 = serve_confined[OF Cons.prems(1,2) S]
  then show ?case using Cons.IH[of \<sigma>1 eng1 e1] Cons.prems(3) S by (auto simp: confined_def engine_local_def)
qed simp

end

section \<open>The memory store\<close>

interpretation mem_confined: confined_store "memory_ops cd" ms_inv ms_view ms_wasm
proof (unfold_locales, unfold store_simps, goal_cases)
  case (2 \<sigma> ds iid)
  then show ?case using ms_SaveDeltas_spec[OF 2, of iid] by (auto simp: confined_def ms_SaveDeltas_def)
qed (auto simp: ms_ops_defs ms_SaveMetadata_eq confined_def less_imp_le ms_inv_def ms_view_def ms_oplog_of_def
      split: option.splits if_splits)

end
