(* ===== verification/Blob_Layout.thy ===== *)
theory Blob_Layout
  imports Active_Index
begin

text \<open>
  What the file store and the object store have in common: both keep one blob per instance and kind
  under a name made from the identifier, compressed JSON for the deltas and the oplog, compressed
  bytes for snapshots and modules, plain JSON for the metadata. A \<open>layout\<close> gives the names; the
  view of a set of blobs and its invariant are defined over any layout, and the locale
  \<open>blob_layout\<close> shows how one written blob changes them.
\<close>

section \<open>What blobs decode to\<close>

text \<open>\<open>json.Unmarshal\<close> with its error returned.\<close>

definition unmarshal :: "codec \<Rightarrow> (json \<Rightarrow> 'a \<times> bool) \<Rightarrow> bytes \<Rightarrow> go_error + 'a" where
  "unmarshal cd dec d =
     (case json_parse cd d of
        None \<Rightarrow> Inl json_error
      | Some j \<Rightarrow> (case dec j of (x, True) \<Rightarrow> Inr x | (x, False) \<Rightarrow> Inl json_error))"

definition file_bin :: "codec \<Rightarrow> bytes \<Rightarrow> bytes option" where
  "file_bin cd z = (case decompressData cd z of Inl _ \<Rightarrow> None | Inr d \<Rightarrow> Some d)"

definition file_json :: "codec \<Rightarrow> (json \<Rightarrow> 'a \<times> bool) \<Rightarrow> bytes \<Rightarrow> 'a option" where
  "file_json cd dec d = (case unmarshal cd dec d of Inl _ \<Rightarrow> None | Inr x \<Rightarrow> Some x)"

definition file_deltas :: "codec \<Rightarrow> bytes \<Rightarrow> deltas option" where
  "file_deltas cd z = Option.bind (file_bin cd z) (file_json cd (unmarshal_deltas []))"

definition file_oplog :: "codec \<Rightarrow> bytes \<Rightarrow> oplog_entry list option" where
  "file_oplog cd z = Option.bind (file_bin cd z) (file_json cd unmarshal_oplog)"

definition file_meta :: "codec \<Rightarrow> bytes \<Rightarrow> instance_meta option" where
  "file_meta cd z = file_json cd unmarshal_meta z"

text \<open>
  The content of the deltas and the oplog as a save finds it once the blob is read: an error of the
  decompression or of the decoding counts as nothing.
\<close>

definition decode_deltas :: "codec \<Rightarrow> bytes \<Rightarrow> deltas" where
  "decode_deltas cd z =
     (case decompressData cd z of
        Inl _ \<Rightarrow> []
      | Inr d \<Rightarrow> (case json_parse cd d of None \<Rightarrow> [] | Some j \<Rightarrow> fst (unmarshal_deltas [] j)))"

definition decode_oplog :: "codec \<Rightarrow> bytes \<Rightarrow> oplog_entry list" where
  "decode_oplog cd z =
     (case decompressData cd z of
        Inl _ \<Rightarrow> []
      | Inr d \<Rightarrow> (case json_parse cd d of None \<Rightarrow> [] | Some j \<Rightarrow> fst (unmarshal_oplog j)))"

definition good_deltas :: "string \<Rightarrow> deltas \<Rightarrow> bool" where
  "good_deltas iid ds \<longleftrightarrow> distinct (map fst ds) \<and> (\<forall>k\<in>dom (map_of ds). k < 2 ^ 63)"

definition good_oplog :: "string \<Rightarrow> oplog_entry list \<Rightarrow> bool" where
  "good_oplog iid es \<longleftrightarrow> list_all (\<lambda>e. valid_utf8 (ApiName e)) es"

section \<open>Layouts and views\<close>

record layout =
  lay_bin :: "string \<Rightarrow> string"
  lay_deltas :: "string \<Rightarrow> string"
  lay_oplog :: "string \<Rightarrow> string"
  lay_meta :: "string \<Rightarrow> string"
  lay_wasm :: "string \<Rightarrow> string"

text \<open>\<open>dm\<close> is how the store reads a metadata blob.\<close>

definition blob_view :: "codec \<Rightarrow> (bytes \<Rightarrow> instance_meta option) \<Rightarrow> layout \<Rightarrow> (string \<rightharpoonup> bytes) \<Rightarrow> string \<Rightarrow> inst" where
  "blob_view cd dm L B iid =
     \<lparr> i_snapshot = Option.bind (B (lay_bin L iid)) (file_bin cd),
       i_deltas = (case Option.bind (B (lay_deltas L iid)) (file_deltas cd) of
                     None \<Rightarrow> Map.empty | Some ds \<Rightarrow> map_of ds),
       i_oplog = (case Option.bind (B (lay_oplog L iid)) (file_oplog cd) of None \<Rightarrow> [] | Some es \<Rightarrow> es),
       i_meta = Option.bind (B (lay_meta L iid)) dm \<rparr>"

definition blob_reg :: "codec \<Rightarrow> layout \<Rightarrow> (string \<rightharpoonup> bytes) \<Rightarrow> string \<rightharpoonup> bytes" where
  "blob_reg cd L B h = Option.bind (B (lay_wasm L h)) (file_bin cd)"

text \<open>Every blob of a kind decodes to something good.\<close>

definition kind_ok :: "(bytes \<Rightarrow> 'a option) \<Rightarrow> (string \<Rightarrow> 'a \<Rightarrow> bool) \<Rightarrow> (string \<Rightarrow> string) \<Rightarrow> (string \<rightharpoonup> bytes) \<Rightarrow> bool" where
  "kind_ok dec good path B \<longleftrightarrow> (\<forall>iid z. B (path iid) = Some z \<longrightarrow> (\<exists>x. dec z = Some x \<and> good iid x))"

definition blobs_ok :: "codec \<Rightarrow> (bytes \<Rightarrow> instance_meta option) \<Rightarrow> (string \<Rightarrow> instance_meta \<Rightarrow> bool) \<Rightarrow> layout \<Rightarrow>
    (string \<rightharpoonup> bytes) \<Rightarrow> bool" where
  "blobs_ok cd dm good_meta L B \<longleftrightarrow> kind_ok (file_bin cd) (\<lambda>_ _. True) (lay_bin L) B \<and>
     kind_ok (file_deltas cd) good_deltas (lay_deltas L) B \<and>
     kind_ok (file_oplog cd) good_oplog (lay_oplog L) B \<and>
     kind_ok dm good_meta (lay_meta L) B \<and>
     kind_ok (file_bin cd) (\<lambda>_ _. True) (lay_wasm L) B"

text \<open>A name that no kind uses can be written freely.\<close>

definition foreign :: "layout \<Rightarrow> string \<Rightarrow> bool" where
  "foreign L p \<longleftrightarrow> p \<notin> range (lay_bin L) \<union> range (lay_deltas L) \<union> range (lay_oplog L) \<union> range (lay_meta L) \<union> range (lay_wasm L)"

lemma kind_ok_put:
  "kind_ok dec good path B \<Longrightarrow> (\<And>iid z. p = path iid \<Longrightarrow> zo = Some z \<Longrightarrow> \<exists>x. dec z = Some x \<and> good iid x) \<Longrightarrow>
   kind_ok dec good path (B(p := zo))"
  by (simp add: kind_ok_def)

lemma kind_okD: "kind_ok dec good path B \<Longrightarrow> B (path iid) = Some z \<Longrightarrow> \<exists>x. dec z = Some x \<and> good iid x"
  by (simp add: kind_ok_def)

lemma blobs_ok_empty [simp]: "blobs_ok cd dm good_meta L Map.empty"
  by (simp add: blobs_ok_def kind_ok_def)

lemma blob_view_empty [simp]: "blob_view cd dm L Map.empty iid = empty_inst"
  by (simp add: blob_view_def empty_inst_def)

lemma file_bin_eq: "file_bin cd z = Some d \<longleftrightarrow> decompressData cd z = Inr d"
  by (auto simp: file_bin_def split: sum.splits)

lemma file_bin_None: "file_bin cd z = None \<longleftrightarrow> (\<exists>e. decompressData cd z = Inl e)"
  by (auto simp: file_bin_def split: sum.splits)

lemma file_json_eq: "file_json cd dec d = Some x \<longleftrightarrow> unmarshal cd dec d = Inr x"
  by (auto simp: file_json_def split: sum.splits)

lemma unmarshal_Inr: "unmarshal cd dec d = Inr x \<longleftrightarrow> (\<exists>j. json_parse cd d = Some j \<and> dec j = (x, True))"
  by (auto simp: unmarshal_def split: option.splits prod.splits bool.splits)

lemma file_deltas_eq:
  "file_deltas cd z = Some ds \<longleftrightarrow> (\<exists>d. decompressData cd z = Inr d \<and> unmarshal cd (unmarshal_deltas []) d = Inr ds)"
  by (auto simp: file_deltas_def bind_eq_Some_conv file_bin_eq file_json_eq)

lemma file_oplog_eq:
  "file_oplog cd z = Some es \<longleftrightarrow> (\<exists>d. decompressData cd z = Inr d \<and> unmarshal cd unmarshal_oplog d = Inr es)"
  by (auto simp: file_oplog_def bind_eq_Some_conv file_bin_eq file_json_eq)

lemma decode_deltas_ok: "file_deltas cd z = Some ds \<Longrightarrow> decode_deltas cd z = ds"
  by (auto simp: file_deltas_eq unmarshal_Inr decode_deltas_def)

lemma decode_oplog_ok: "file_oplog cd z = Some es \<Longrightarrow> decode_oplog cd z = es"
  by (auto simp: file_oplog_eq unmarshal_Inr decode_oplog_def)

lemma good_deltas_empty [simp]: "good_deltas iid []"
  by (simp add: good_deltas_def)

section \<open>What is written is read back\<close>

context codec_laws
begin

lemma file_json_text: "json_utf8 j \<Longrightarrow> dec j = (x, True) \<Longrightarrow> file_json cd dec (json_text cd j) = Some x"
  by (simp add: file_json_def unmarshal_def json)

lemma file_meta_text: "meta_utf8 m \<Longrightarrow> file_meta cd (json_text cd (marshal_meta m)) = Some m"
  by (simp add: file_meta_def file_json_text json_utf8_meta)

lemma compress_bin: "\<exists>z. compressData cd d = Inr z \<and> file_bin cd z = Some d"
  using compress_decompress[of d] by (auto simp: file_bin_eq)

lemma encode_deltas:
  assumes "good_deltas iid cur" "distinct (map fst ds)" "\<forall>kv\<in>set ds. fst kv < 2 ^ 63"
  shows "\<exists>z out. compressData cd (json_text cd
      (marshal_deltas (foldl (\<lambda>m kv. AList.update (fst kv) (snd kv) m) cur ds))) = Inr z \<and>
    file_deltas cd z = Some out \<and> good_deltas iid out \<and> map_of out = map_of cur ++ map_of ds"
proof -
  define new where "new = foldl (\<lambda>m kv. AList.update (fst kv) (snd kv) m) cur ds"
  have new: "map_of new = map_of cur ++ map_of ds" "distinct (map fst new)"
    using assms(1,2) by (simp_all add: new_def map_of_foldr_update_set distinct_foldl_update good_deltas_def)
  have dom: "\<forall>k\<in>dom (map_of new). k < 2 ^ 63"
    using assms(1,3) by (auto simp: new(1) good_deltas_def dom_map_of_conv_image_fst)
  then have keys: "\<forall>kv\<in>set new. fst kv < 2 ^ 63" by (auto simp: dom_map_of_conv_image_fst)
  obtain z where z: "compressData cd (json_text cd (marshal_deltas new)) = Inr z"
      "file_bin cd z = Some (json_text cd (marshal_deltas new))" using compress_bin by blast
  obtain out where out: "unmarshal_deltas [] (marshal_deltas new) = (out, True)" "map_of out = map_of new" "distinct (map fst out)"
    using unmarshal_marshal_deltas[OF new(2) keys] by (cases "unmarshal_deltas [] (marshal_deltas new)") auto
  have "file_deltas cd z = Some out"
    using z(2) file_json_text[of "marshal_deltas new" "unmarshal_deltas []" out] out(1) by (simp add: file_deltas_def)
  moreover have "good_deltas iid out" using out dom by (simp add: good_deltas_def)
  ultimately show ?thesis using z(1) out(2) new(1) by (auto simp: new_def)
qed

lemma encode_oplog:
  assumes "good_oplog iid es"
  shows "\<exists>z. compressData cd (json_text cd (marshal_oplog es)) = Inr z \<and> file_oplog cd z = Some es"
proof -
  obtain z where z: "compressData cd (json_text cd (marshal_oplog es)) = Inr z"
      "file_bin cd z = Some (json_text cd (marshal_oplog es))" using compress_bin by blast
  then show ?thesis using assms file_json_text[of "marshal_oplog es" unmarshal_oplog es]
    by (auto simp: file_oplog_def good_oplog_def)
qed

end

section \<open>One written blob\<close>

text \<open>No two blobs of a layout share a name.\<close>

locale blob_layout = codec_laws cd for cd :: codec +
  fixes dm :: "bytes \<Rightarrow> instance_meta option" and good_meta :: "string \<Rightarrow> instance_meta \<Rightarrow> bool" and L :: layout
  assumes lay_inj: "inj (lay_bin L)" "inj (lay_deltas L)" "inj (lay_oplog L)" "inj (lay_meta L)" "inj (lay_wasm L)"
    and lay_disjoint: "lay_bin L a \<noteq> lay_deltas L b" "lay_bin L a \<noteq> lay_oplog L b" "lay_bin L a \<noteq> lay_meta L b"
      "lay_bin L a \<noteq> lay_wasm L b" "lay_deltas L a \<noteq> lay_oplog L b" "lay_deltas L a \<noteq> lay_meta L b"
      "lay_deltas L a \<noteq> lay_wasm L b" "lay_oplog L a \<noteq> lay_meta L b" "lay_oplog L a \<noteq> lay_wasm L b"
      "lay_meta L a \<noteq> lay_wasm L b"
begin

lemmas names_distinct = lay_inj[THEN inj_eq] lay_disjoint lay_disjoint[symmetric]

abbreviation bview :: "(string \<rightharpoonup> bytes) \<Rightarrow> string \<Rightarrow> inst" where "bview \<equiv> blob_view cd dm L"
abbreviation bok :: "(string \<rightharpoonup> bytes) \<Rightarrow> bool" where "bok \<equiv> blobs_ok cd dm good_meta L"

lemma view_put:
  "bview (B(lay_bin L iid := zo)) = (bview B)(iid := (bview B iid)\<lparr>i_snapshot := Option.bind zo (file_bin cd)\<rparr>)"
  "bview (B(lay_deltas L iid := zo)) = (bview B)(iid := (bview B iid)\<lparr>i_deltas :=
     (case Option.bind zo (file_deltas cd) of None \<Rightarrow> Map.empty | Some ds \<Rightarrow> map_of ds)\<rparr>)"
  "bview (B(lay_oplog L iid := zo)) = (bview B)(iid := (bview B iid)\<lparr>i_oplog :=
     (case Option.bind zo (file_oplog cd) of None \<Rightarrow> [] | Some es \<Rightarrow> es)\<rparr>)"
  "bview (B(lay_meta L iid := zo)) = (bview B)(iid := (bview B iid)\<lparr>i_meta := Option.bind zo dm\<rparr>)"
  "bview (B(lay_wasm L h := zo)) = bview B"
  by (rule ext, simp add: blob_view_def names_distinct)+

lemma reg_put:
  "blob_reg cd L (B(lay_bin L iid := zo)) = blob_reg cd L B"
  "blob_reg cd L (B(lay_deltas L iid := zo)) = blob_reg cd L B"
  "blob_reg cd L (B(lay_oplog L iid := zo)) = blob_reg cd L B"
  "blob_reg cd L (B(lay_meta L iid := zo)) = blob_reg cd L B"
  "blob_reg cd L (B(lay_wasm L h := zo)) = (blob_reg cd L B)(h := Option.bind zo (file_bin cd))"
  by (rule ext, simp add: blob_reg_def names_distinct)+

lemma ok_put:
  "bok B \<Longrightarrow> (\<And>z. zo = Some z \<Longrightarrow> file_bin cd z \<noteq> None) \<Longrightarrow> bok (B(lay_bin L iid := zo))"
  "bok B \<Longrightarrow> (\<And>z. zo = Some z \<Longrightarrow> \<exists>x. file_deltas cd z = Some x \<and> good_deltas iid x) \<Longrightarrow> bok (B(lay_deltas L iid := zo))"
  "bok B \<Longrightarrow> (\<And>z. zo = Some z \<Longrightarrow> \<exists>x. file_oplog cd z = Some x \<and> good_oplog iid x) \<Longrightarrow> bok (B(lay_oplog L iid := zo))"
  "bok B \<Longrightarrow> (\<And>z. zo = Some z \<Longrightarrow> \<exists>x. dm z = Some x \<and> good_meta iid x) \<Longrightarrow> bok (B(lay_meta L iid := zo))"
  "bok B \<Longrightarrow> (\<And>z. zo = Some z \<Longrightarrow> file_bin cd z \<noteq> None) \<Longrightarrow> bok (B(lay_wasm L h := zo))"
  by (auto simp: blobs_ok_def names_distinct intro!: kind_ok_put)

lemma foreign_ne:
  "foreign L p \<Longrightarrow> lay_bin L iid \<noteq> p" "foreign L p \<Longrightarrow> lay_deltas L iid \<noteq> p" "foreign L p \<Longrightarrow> lay_oplog L iid \<noteq> p"
  "foreign L p \<Longrightarrow> lay_meta L iid \<noteq> p" "foreign L p \<Longrightarrow> lay_wasm L iid \<noteq> p"
  by (auto simp: foreign_def)

lemma foreign_put:
  assumes "foreign L p"
  shows "bview (B(p := zo)) = bview B" "blob_reg cd L (B(p := zo)) = blob_reg cd L B" "bok B \<Longrightarrow> bok (B(p := zo))"
proof -
  note n = foreign_ne[OF assms]
  show "bview (B(p := zo)) = bview B" by (rule ext) (simp add: blob_view_def n)
  show "blob_reg cd L (B(p := zo)) = blob_reg cd L B" by (rule ext) (simp add: blob_reg_def n)
  show "bok B \<Longrightarrow> bok (B(p := zo))" by (simp add: blobs_ok_def kind_ok_def n)
qed

lemma view_delete:
  "bview (B(lay_bin L iid := None, lay_deltas L iid := None, lay_oplog L iid := None, lay_meta L iid := None)) =
     (bview B)(iid := empty_inst)"
  by (simp only: view_put) (cases "bview B iid", simp add: empty_inst_def)

lemma reg_delete:
  "blob_reg cd L (B(lay_bin L iid := None, lay_deltas L iid := None, lay_oplog L iid := None, lay_meta L iid := None)) =
     blob_reg cd L B"
  by (simp only: reg_put)

lemma ok_delete:
  "bok B \<Longrightarrow> bok (B(lay_bin L iid := None, lay_deltas L iid := None, lay_oplog L iid := None, lay_meta L iid := None))"
  by (intro ok_put) simp_all

text \<open>The blobs that are read before they are written.\<close>

lemma deltas_blob:
  assumes "bok B"
  shows "case B (lay_deltas L iid) of
      None \<Rightarrow> i_deltas (bview B iid) = Map.empty
    | Some z \<Rightarrow> (\<exists>ds. file_deltas cd z = Some ds \<and> good_deltas iid ds \<and> map_of ds = i_deltas (bview B iid))"
proof (cases "B (lay_deltas L iid)")
  case (Some z)
  then have "\<exists>x. file_deltas cd z = Some x \<and> good_deltas iid x"
    using assms kind_okD[of "file_deltas cd" good_deltas "lay_deltas L" B iid z] by (simp add: blobs_ok_def)
  then show ?thesis using Some by (auto simp: blob_view_def)
qed (simp add: blob_view_def)

lemma oplog_blob:
  assumes "bok B"
  shows "good_oplog iid (i_oplog (bview B iid)) \<and> (case B (lay_oplog L iid) of
      None \<Rightarrow> i_oplog (bview B iid) = [] | Some z \<Rightarrow> file_oplog cd z = Some (i_oplog (bview B iid)))"
proof (cases "B (lay_oplog L iid)")
  case (Some z)
  then have "\<exists>x. file_oplog cd z = Some x \<and> good_oplog iid x"
    using assms kind_okD[of "file_oplog cd" good_oplog "lay_oplog L" B iid z] by (simp add: blobs_ok_def)
  then show ?thesis using Some by (auto simp: blob_view_def)
qed (simp add: blob_view_def good_oplog_def)

lemma meta_blob:
  assumes "bok B" "B (lay_meta L iid) = Some z"
  shows "\<exists>m. dm z = Some m \<and> good_meta iid m \<and> i_meta (bview B iid) = Some m"
  using assms kind_okD[of dm good_meta "lay_meta L" B iid z] by (auto simp: blobs_ok_def blob_view_def)

lemma meta_good:
  assumes "bok B" "i_meta (bview B iid) = Some m"
  shows "good_meta iid m"
proof -
  obtain z where "B (lay_meta L iid) = Some z" using assms(2) by (auto simp: blob_view_def bind_eq_Some_conv)
  then show ?thesis using meta_blob[OF assms(1)] assms(2) by fastforce
qed

lemma bin_blob:
  assumes "bok B" "B (lay_bin L iid) = Some z"
  shows "\<exists>b. decompressData cd z = Inr b \<and> i_snapshot (bview B iid) = Some b"
  using assms kind_okD[of "file_bin cd" _ "lay_bin L" B iid z] by (fastforce simp: blobs_ok_def blob_view_def file_bin_eq)

lemma wasm_blob:
  assumes "bok B" "B (lay_wasm L h) = Some z"
  shows "\<exists>b. decompressData cd z = Inr b \<and> blob_reg cd L B h = Some b"
  using assms kind_okD[of "file_bin cd" _ "lay_wasm L" B h z] by (fastforce simp: blobs_ok_def blob_reg_def file_bin_eq)

end

end
