(* ===== verification/Fs_Store.thy ===== *)
theory Fs_Store
  imports Blob_Layout
begin

text \<open>
  \<open>fs_store.go\<close>: the store that keeps one file per instance and kind in a directory. The file system
  is a map from paths to contents, with faults that make single reads, writes and removals fail. Every
  method of the type is a definition over it. Two paths are the same file if they are the same
  string, so an identifier that contains a path separator is outside the model.
\<close>

section \<open>The file system\<close>

text \<open>
  \<open>fs_write_fault\<close> gives the error of a write and what the failed write left in the file;
  \<open>fs_remove_fault\<close> makes a removal fail.
\<close>

record fs =
  fs_files :: "string \<rightharpoonup> bytes"
  fs_read_fault :: "string \<Rightarrow> go_error option"
  fs_write_fault :: "string \<Rightarrow> (go_error \<times> bytes option) option"
  fs_remove_fault :: "string \<Rightarrow> bool"

definition ReadFile :: "string \<Rightarrow> fs \<Rightarrow> go_error + bytes" where
  "ReadFile path f =
     (case fs_read_fault f path of
        Some err \<Rightarrow> Inl err
      | None \<Rightarrow> (case fs_files f path of None \<Rightarrow> Inl (NotExist path) | Some data \<Rightarrow> Inr data))"

definition WriteFile :: "string \<Rightarrow> bytes \<Rightarrow> fs \<Rightarrow> go_error option \<times> fs" where
  "WriteFile path data f =
     (case fs_write_fault f path of
        Some (err, left) \<Rightarrow> (Some err, f\<lparr>fs_files := (fs_files f)(path := left)\<rparr>)
      | None \<Rightarrow> (None, f\<lparr>fs_files := (fs_files f)(path \<mapsto> data)\<rparr>))"

text \<open>\<open>_ = os.Remove(path)\<close>, and whether \<open>os.Stat\<close> finds a file.\<close>

definition Remove :: "string \<Rightarrow> fs \<Rightarrow> fs" where
  "Remove path f = (if fs_remove_fault f path then f else f\<lparr>fs_files := (fs_files f)(path := None)\<rparr>)"

definition Stat_ok :: "string \<Rightarrow> fs \<Rightarrow> bool" where
  "Stat_ok path f \<longleftrightarrow> fs_files f path \<noteq> None"

fun IsNotExist :: "go_error \<Rightarrow> bool" where
  "IsNotExist (NotExist path) = True"
| "IsNotExist _ = False"

section \<open>Paths\<close>

definition in_dir :: "string \<Rightarrow> string \<Rightarrow> string" where
  "in_dir dir name = (if dir \<noteq> [] then dir @ ''/'' @ name else name)"

definition bin_path :: "string \<Rightarrow> string \<Rightarrow> string" where
  "bin_path dir iid = in_dir dir (iid @ ''.bin'')"

definition deltas_path :: "string \<Rightarrow> string \<Rightarrow> string" where
  "deltas_path dir iid = in_dir dir (iid @ ''_deltas.json'')"

definition oplog_path :: "string \<Rightarrow> string \<Rightarrow> string" where
  "oplog_path dir iid = in_dir dir (iid @ ''_oplog.json'')"

definition meta_path :: "string \<Rightarrow> string \<Rightarrow> string" where
  "meta_path dir iid = in_dir dir (iid @ ''_meta.json'')"

definition wasm_path :: "string \<Rightarrow> string \<Rightarrow> string" where
  "wasm_path dir hash = in_dir dir (''wasm_'' @ hash @ ''.wasm'')"

definition index_path :: "string \<Rightarrow> string" where
  "index_path dir = in_dir dir ''active_index.json''"

section \<open>FileSnapshotStore\<close>

text \<open>Compress and write, and read and decompress.\<close>

definition write_compressed :: "codec \<Rightarrow> string \<Rightarrow> bytes \<Rightarrow> fs \<Rightarrow> go_error option \<times> fs" where
  "write_compressed cd path data f =
     (case compressData cd data of Inl err \<Rightarrow> (Some err, f) | Inr z \<Rightarrow> WriteFile path z f)"

definition read_compressed :: "codec \<Rightarrow> string \<Rightarrow> fs \<Rightarrow> go_error + bytes" where
  "read_compressed cd path f =
     (case ReadFile path f of Inl err \<Rightarrow> Inl err | Inr data \<Rightarrow> decompressData cd data)"

definition fs_Save :: "codec \<Rightarrow> string \<Rightarrow> string \<Rightarrow> bytes \<Rightarrow> fs \<Rightarrow> go_error option \<times> fs" where
  "fs_Save cd dir iid snapshot f = write_compressed cd (bin_path dir iid) snapshot f"

definition fs_Load :: "codec \<Rightarrow> string \<Rightarrow> string \<Rightarrow> fs \<Rightarrow> go_error + bytes" where
  "fs_Load cd dir iid f = read_compressed cd (bin_path dir iid) f"

text \<open>What \<open>SaveDeltas\<close> finds: every error on the way counts as an empty map.\<close>

definition fs_current_deltas :: "codec \<Rightarrow> string \<Rightarrow> fs \<Rightarrow> deltas" where
  "fs_current_deltas cd path f = (case ReadFile path f of Inl _ \<Rightarrow> [] | Inr data \<Rightarrow> decode_deltas cd data)"

definition fs_SaveDeltas :: "codec \<Rightarrow> string \<Rightarrow> string \<Rightarrow> deltas \<Rightarrow> fs \<Rightarrow> go_error option \<times> fs" where
  "fs_SaveDeltas cd dir iid ds f =
     (let path = deltas_path dir iid;
          current = foldl (\<lambda>m kv. AList.update (fst kv) (snd kv) m) (fs_current_deltas cd path f) ds
      in write_compressed cd path (json_text cd (marshal_deltas current)) f)"

definition fs_LoadDeltas :: "codec \<Rightarrow> string \<Rightarrow> string \<Rightarrow> fs \<Rightarrow> go_error + deltas" where
  "fs_LoadDeltas cd dir iid f =
     (case ReadFile (deltas_path dir iid) f of
        Inl err \<Rightarrow> if IsNotExist err then Inr [] else Inl err
      | Inr data \<Rightarrow>
          (case decompressData cd data of
             Inl err \<Rightarrow> Inl err
           | Inr d \<Rightarrow> unmarshal cd (unmarshal_deltas []) d))"

definition fs_TruncateDeltas :: "string \<Rightarrow> string \<Rightarrow> fs \<Rightarrow> go_error option \<times> fs" where
  "fs_TruncateDeltas dir iid f = (None, Remove (deltas_path dir iid) f)"

definition fs_current_oplog :: "codec \<Rightarrow> string \<Rightarrow> fs \<Rightarrow> oplog_entry list" where
  "fs_current_oplog cd path f = (case ReadFile path f of Inl _ \<Rightarrow> [] | Inr data \<Rightarrow> decode_oplog cd data)"

definition fs_SaveOplog :: "codec \<Rightarrow> string \<Rightarrow> string \<Rightarrow> int \<Rightarrow> string \<Rightarrow> bytes \<Rightarrow> bytes \<Rightarrow> fs \<Rightarrow>
    go_error option \<times> fs" where
  "fs_SaveOplog cd dir iid callIndex apiName request response f =
     (let path = oplog_path dir iid;
          lst = fs_current_oplog cd path f @ [mk_entry callIndex apiName request response]
      in write_compressed cd path (json_text cd (marshal_oplog lst)) f)"

definition fs_LoadOplog :: "codec \<Rightarrow> string \<Rightarrow> string \<Rightarrow> fs \<Rightarrow> go_error + oplog_entry list" where
  "fs_LoadOplog cd dir iid f =
     (case ReadFile (oplog_path dir iid) f of
        Inl err \<Rightarrow> if IsNotExist err then Inr [] else Inl err
      | Inr data \<Rightarrow>
          (case decompressData cd data of
             Inl err \<Rightarrow> Inl err
           | Inr d \<Rightarrow> unmarshal cd unmarshal_oplog d))"

definition fs_TruncateOplog :: "codec \<Rightarrow> string \<Rightarrow> string \<Rightarrow> int \<Rightarrow> fs \<Rightarrow> go_error option \<times> fs" where
  "fs_TruncateOplog cd dir iid beforeCallIndex f =
     (let path = oplog_path dir iid
      in case ReadFile path f of
           Inl err \<Rightarrow> (if IsNotExist err then None else Some err, f)
         | Inr data \<Rightarrow>
             (case decompressData cd data of
                Inl err \<Rightarrow> (Some err, f)
              | Inr d \<Rightarrow>
                  (case unmarshal cd unmarshal_oplog d of
                     Inl err \<Rightarrow> (Some err, f)
                   | Inr lst \<Rightarrow>
                       write_compressed cd path
                         (json_text cd (marshal_oplog (filter (\<lambda>e. CallIndex e > beforeCallIndex) lst))) f)))"

definition fs_SaveMetadata :: "codec \<Rightarrow> string \<Rightarrow> instance_meta \<Rightarrow> fs \<Rightarrow>
    (go_error + bool) \<times> instance_meta \<times> fs" where
  "fs_SaveMetadata cd dir m f =
     (let path = meta_path dir (InstanceID m);
          commit = (let m' = m\<lparr>Version := Version m + 1\<rparr>
                    in case WriteFile path (json_text cd (marshal_meta m')) f of
                         (Some err, f') \<Rightarrow> (Inl err, m', f')
                       | (None, f') \<Rightarrow> (Inr True, m', f'))
      in case ReadFile path f of
           Inr data \<Rightarrow>
             (let existing = (case json_parse cd data of None \<Rightarrow> zero_meta | Some j \<Rightarrow> fst (unmarshal_meta j))
              in if Version m = 0 then (Inr False, m, f)
                 else if Version existing \<noteq> Version m then (Inr False, m, f)
                 else commit)
         | Inl err \<Rightarrow>
             if \<not> IsNotExist err then (Inl err, m, f)
             else if Version m > 0 then (Inr False, m, f)
             else commit)"

definition fs_LoadMetadata :: "codec \<Rightarrow> string \<Rightarrow> string \<Rightarrow> fs \<Rightarrow> go_error + instance_meta option" where
  "fs_LoadMetadata cd dir iid f =
     (case ReadFile (meta_path dir iid) f of
        Inl err \<Rightarrow> if IsNotExist err then Inr None else Inl err
      | Inr data \<Rightarrow>
          (case unmarshal cd unmarshal_meta data of Inl err \<Rightarrow> Inl err | Inr m \<Rightarrow> Inr (Some m)))"

definition fs_Delete :: "string \<Rightarrow> string \<Rightarrow> fs \<Rightarrow> go_error option \<times> fs" where
  "fs_Delete dir iid f =
     (None, Remove (meta_path dir iid) (Remove (oplog_path dir iid)
              (Remove (deltas_path dir iid) (Remove (bin_path dir iid) f))))"

definition fs_SaveWasm :: "codec \<Rightarrow> string \<Rightarrow> string \<Rightarrow> bytes \<Rightarrow> fs \<Rightarrow> go_error option \<times> fs" where
  "fs_SaveWasm cd dir hash wasmBytes f =
     (let path = wasm_path dir hash
      in if Stat_ok path f then (None, f) else write_compressed cd path wasmBytes f)"

definition fs_LoadWasm :: "codec \<Rightarrow> string \<Rightarrow> string \<Rightarrow> fs \<Rightarrow> go_error + bytes" where
  "fs_LoadWasm cd dir hash f = read_compressed cd (wasm_path dir hash) f"

definition fs_UpdateActiveIndex :: "codec \<Rightarrow> string \<Rightarrow> string \<Rightarrow> bytes \<Rightarrow> bool \<Rightarrow> fs \<Rightarrow>
    go_error option \<times> fs" where
  "fs_UpdateActiveIndex cd dir iid info completed f =
     (let path = index_path dir;
          index = (case ReadFile path f of Inl _ \<Rightarrow> [] | Inr data \<Rightarrow> dec_index (json_parse cd data))
      in case unmarshal cd dec_info info of
           Inl err \<Rightarrow> (Some (Wrap ''failed to unmarshal index info'' err), f)
         | Inr newInfo \<Rightarrow>
             WriteFile path (json_text cd (JArr (map enc_entry (next_index iid newInfo completed index)))) f)"

definition fs_LoadActiveIndex :: "string \<Rightarrow> fs \<Rightarrow> go_error + bytes" where
  "fs_LoadActiveIndex dir f =
     (case ReadFile (index_path dir) f of
        Inl err \<Rightarrow> if IsNotExist err then Inr (bytes_of_string ''[]'') else Inl err
      | Inr data \<Rightarrow> Inr data)"

definition fs_ops :: "codec \<Rightarrow> string \<Rightarrow> fs store_ops" where
  "fs_ops cd dir = \<lparr> st_Save = fs_Save cd dir, st_Load = fs_Load cd dir, st_Delete = fs_Delete dir,
     st_SaveDeltas = fs_SaveDeltas cd dir, st_LoadDeltas = fs_LoadDeltas cd dir,
     st_TruncateDeltas = fs_TruncateDeltas dir, st_SaveOplog = fs_SaveOplog cd dir,
     st_LoadOplog = fs_LoadOplog cd dir, st_TruncateOplog = fs_TruncateOplog cd dir,
     st_SaveMetadata = fs_SaveMetadata cd dir, st_LoadMetadata = fs_LoadMetadata cd dir,
     st_SaveWasm = fs_SaveWasm cd dir, st_LoadWasm = fs_LoadWasm cd dir,
     st_UpdateActiveIndex = fs_UpdateActiveIndex cd dir, st_LoadActiveIndex = fs_LoadActiveIndex dir \<rparr>"

section \<open>No two files share a path\<close>

lemma in_dir_inj [simp]: "in_dir dir a = in_dir dir b \<longleftrightarrow> a = b"
  by (simp add: in_dir_def)

lemma append_literal_ne: "rev sfx @ rev a \<noteq> rev sfx' @ rev b \<Longrightarrow> a @ sfx \<noteq> b @ sfx'"
  by (metis rev_append)

lemma paths_inj [simp]:
  "bin_path dir a = bin_path dir b \<longleftrightarrow> a = b" "deltas_path dir a = deltas_path dir b \<longleftrightarrow> a = b"
  "oplog_path dir a = oplog_path dir b \<longleftrightarrow> a = b" "meta_path dir a = meta_path dir b \<longleftrightarrow> a = b"
  "wasm_path dir a = wasm_path dir b \<longleftrightarrow> a = b"
  by (simp_all add: bin_path_def deltas_path_def oplog_path_def meta_path_def wasm_path_def)

lemma paths_disjoint_aux:
  "a @ ''.bin'' \<noteq> b @ ''_deltas.json''" "a @ ''.bin'' \<noteq> b @ ''_oplog.json''" "a @ ''.bin'' \<noteq> b @ ''_meta.json''"
  "a @ ''_deltas.json'' \<noteq> b @ ''_oplog.json''" "a @ ''_deltas.json'' \<noteq> b @ ''_meta.json''"
  "a @ ''_oplog.json'' \<noteq> b @ ''_meta.json''"
  "a @ ''.bin'' \<noteq> c @ ''.wasm''" "a @ ''_deltas.json'' \<noteq> c @ ''.wasm''" "a @ ''_oplog.json'' \<noteq> c @ ''.wasm''"
  "a @ ''_meta.json'' \<noteq> c @ ''.wasm''"
  by (rule append_literal_ne, simp)+

lemma paths_disjoint [simp]:
  "bin_path dir a \<noteq> deltas_path dir b" "bin_path dir a \<noteq> oplog_path dir b" "bin_path dir a \<noteq> meta_path dir b"
  "deltas_path dir a \<noteq> oplog_path dir b" "deltas_path dir a \<noteq> meta_path dir b" "oplog_path dir a \<noteq> meta_path dir b"
  "bin_path dir a \<noteq> wasm_path dir b" "deltas_path dir a \<noteq> wasm_path dir b" "oplog_path dir a \<noteq> wasm_path dir b"
  "meta_path dir a \<noteq> wasm_path dir b"
  using paths_disjoint_aux(1-6) paths_disjoint_aux(7-10)[of _ "''wasm_'' @ b"]
  by (simp_all add: bin_path_def deltas_path_def oplog_path_def meta_path_def wasm_path_def)

lemmas paths_disjoint_sym [simp] = paths_disjoint[symmetric]

section \<open>The contract\<close>

definition fs_layout :: "string \<Rightarrow> layout" where
  "fs_layout dir = \<lparr> lay_bin = bin_path dir, lay_deltas = deltas_path dir, lay_oplog = oplog_path dir,
     lay_meta = meta_path dir, lay_wasm = wasm_path dir \<rparr>"

definition fs_view :: "codec \<Rightarrow> string \<Rightarrow> fs \<Rightarrow> string \<Rightarrow> inst" where
  "fs_view cd dir f = blob_view cd (file_meta cd) (fs_layout dir) (fs_files f)"

definition fs_reg :: "codec \<Rightarrow> string \<Rightarrow> fs \<Rightarrow> string \<rightharpoonup> bytes" where
  "fs_reg cd dir f = blob_reg cd (fs_layout dir) (fs_files f)"

definition file_good_meta :: "string \<Rightarrow> instance_meta \<Rightarrow> bool" where
  "file_good_meta iid m \<longleftrightarrow> InstanceID m = iid \<and> Version m > 0 \<and> meta_utf8 m"

text \<open>Every file decodes to something good, and no operation of the system fails.\<close>

definition no_faults :: "fs \<Rightarrow> bool" where
  "no_faults f \<longleftrightarrow> (\<forall>p. fs_read_fault f p = None \<and> fs_write_fault f p = None \<and> \<not> fs_remove_fault f p)"

definition fs_inv :: "codec \<Rightarrow> string \<Rightarrow> fs \<Rightarrow> bool" where
  "fs_inv cd dir f \<longleftrightarrow> no_faults f \<and> blobs_ok cd (file_meta cd) file_good_meta (fs_layout dir) (fs_files f)"

abbreviation put :: "string \<Rightarrow> bytes option \<Rightarrow> fs \<Rightarrow> fs" where
  "put p zo f \<equiv> f\<lparr>fs_files := (fs_files f)(p := zo)\<rparr>"

lemma fs_layout_sel [simp]:
  "lay_bin (fs_layout dir) = bin_path dir" "lay_deltas (fs_layout dir) = deltas_path dir"
  "lay_oplog (fs_layout dir) = oplog_path dir" "lay_meta (fs_layout dir) = meta_path dir"
  "lay_wasm (fs_layout dir) = wasm_path dir"
  by (simp_all add: fs_layout_def)

lemma no_faults_put [simp]: "no_faults (f\<lparr>fs_files := x\<rparr>) = no_faults f"
  by (simp add: no_faults_def)

lemma no_faults_ops:
  "no_faults f \<Longrightarrow> ReadFile p f = (case fs_files f p of None \<Rightarrow> Inl (NotExist p) | Some d \<Rightarrow> Inr d)"
  "no_faults f \<Longrightarrow> WriteFile p d f = (None, put p (Some d) f)"
  "no_faults f \<Longrightarrow> Remove p f = put p None f"
  by (simp_all add: no_faults_def ReadFile_def WriteFile_def Remove_def)

locale file_store = codec_laws cd for cd :: codec +
  fixes dir :: string

sublocale file_store \<subseteq> blobs: blob_layout cd "file_meta cd" file_good_meta "fs_layout dir"
  by unfold_locales (simp_all add: inj_def)

context file_store
begin

lemma fs_view_put [simp]:
  "fs_view cd dir (put (bin_path dir iid) zo f) =
     (fs_view cd dir f)(iid := (fs_view cd dir f iid)\<lparr>i_snapshot := Option.bind zo (file_bin cd)\<rparr>)"
  "fs_view cd dir (put (deltas_path dir iid) zo f) =
     (fs_view cd dir f)(iid := (fs_view cd dir f iid)\<lparr>i_deltas :=
        (case Option.bind zo (file_deltas cd) of None \<Rightarrow> Map.empty | Some ds \<Rightarrow> map_of ds)\<rparr>)"
  "fs_view cd dir (put (oplog_path dir iid) zo f) =
     (fs_view cd dir f)(iid := (fs_view cd dir f iid)\<lparr>i_oplog :=
        (case Option.bind zo (file_oplog cd) of None \<Rightarrow> [] | Some es \<Rightarrow> es)\<rparr>)"
  "fs_view cd dir (put (meta_path dir iid) zo f) =
     (fs_view cd dir f)(iid := (fs_view cd dir f iid)\<lparr>i_meta := Option.bind zo (file_meta cd)\<rparr>)"
  "fs_view cd dir (put (wasm_path dir h) zo f) = fs_view cd dir f"
  using blobs.view_put[of "fs_files f"] by (simp_all add: fs_view_def)

lemma fs_reg_put [simp]:
  "fs_reg cd dir (put (oplog_path dir iid) zo f) = fs_reg cd dir f"
  "fs_reg cd dir (put (meta_path dir iid) zo f) = fs_reg cd dir f"
  "fs_reg cd dir (put (wasm_path dir h) zo f) = (fs_reg cd dir f)(h := Option.bind zo (file_bin cd))"
  "fs_reg cd dir (put (bin_path dir iid) zo f) = fs_reg cd dir f"
  using blobs.reg_put[of "fs_files f"] by (simp_all add: fs_reg_def)

lemma inv_no_faults: "fs_inv cd dir f \<Longrightarrow> no_faults f"
  by (simp add: fs_inv_def)

lemma inv_blobs: "fs_inv cd dir f \<Longrightarrow> blobs_ok cd (file_meta cd) file_good_meta (fs_layout dir) (fs_files f)"
  by (simp add: fs_inv_def)

lemma fs_inv_put:
  "fs_inv cd dir f \<Longrightarrow> (\<And>z. zo = Some z \<Longrightarrow> file_bin cd z \<noteq> None) \<Longrightarrow> fs_inv cd dir (put (bin_path dir iid) zo f)"
  "fs_inv cd dir f \<Longrightarrow> (\<And>z. zo = Some z \<Longrightarrow> \<exists>x. file_deltas cd z = Some x \<and> good_deltas iid x) \<Longrightarrow>
   fs_inv cd dir (put (deltas_path dir iid) zo f)"
  "fs_inv cd dir f \<Longrightarrow> (\<And>z. zo = Some z \<Longrightarrow> \<exists>x. file_oplog cd z = Some x \<and> good_oplog iid x) \<Longrightarrow>
   fs_inv cd dir (put (oplog_path dir iid) zo f)"
  "fs_inv cd dir f \<Longrightarrow> (\<And>z. zo = Some z \<Longrightarrow> \<exists>x. file_meta cd z = Some x \<and> file_good_meta iid x) \<Longrightarrow>
   fs_inv cd dir (put (meta_path dir iid) zo f)"
  "fs_inv cd dir f \<Longrightarrow> (\<And>z. zo = Some z \<Longrightarrow> file_bin cd z \<noteq> None) \<Longrightarrow> fs_inv cd dir (put (wasm_path dir h) zo f)"
  using blobs.ok_put[of "fs_files f"] by (simp_all add: fs_inv_def)

lemma write_compressed_ok:
  assumes "no_faults f" "compressData cd d = Inr z"
  shows "write_compressed cd p d f = (None, put p (Some z) f)"
  using assms by (simp add: write_compressed_def no_faults_ops)

lemma read_compressed_eq:
  "no_faults f \<Longrightarrow> read_compressed cd p f =
     (case fs_files f p of None \<Rightarrow> Inl (NotExist p) | Some z \<Rightarrow> decompressData cd z)"
  by (simp add: read_compressed_def no_faults_ops split: option.split)

text \<open>The current content of the two files that are read before they are written.\<close>

lemma current_deltas:
  assumes "fs_inv cd dir f"
  shows "map_of (fs_current_deltas cd (deltas_path dir iid) f) = i_deltas (fs_view cd dir f iid) \<and>
    good_deltas iid (fs_current_deltas cd (deltas_path dir iid) f)"
  using blobs.deltas_blob[OF inv_blobs[OF assms], of iid] inv_no_faults[OF assms]
  by (auto simp: fs_current_deltas_def no_faults_ops fs_view_def decode_deltas_ok split: option.splits)

lemma current_oplog:
  assumes "fs_inv cd dir f"
  shows "fs_current_oplog cd (oplog_path dir iid) f = i_oplog (fs_view cd dir f iid) \<and>
    good_oplog iid (i_oplog (fs_view cd dir f iid)) \<and>
    fs_LoadOplog cd dir iid f = Inr (i_oplog (fs_view cd dir f iid))"
  using blobs.oplog_blob[OF inv_blobs[OF assms], of iid] inv_no_faults[OF assms]
  by (auto simp: fs_current_oplog_def fs_LoadOplog_def no_faults_ops fs_view_def decode_oplog_ok file_oplog_eq
      split: option.splits)

lemma Save_law:
  assumes "fs_inv cd dir f" "fs_Save cd dir iid b f = (r, f')"
  shows "r = None \<and> fs_inv cd dir f' \<and>
    fs_view cd dir f' = (fs_view cd dir f)(iid := (fs_view cd dir f iid)\<lparr>i_snapshot := Some b\<rparr>)"
proof -
  obtain z where z: "compressData cd b = Inr z" "file_bin cd z = Some b" using compress_bin by blast
  have "r = None" "f' = put (bin_path dir iid) (Some z) f"
    using assms(2) write_compressed_ok[OF inv_no_faults[OF assms(1)] z(1)] by (simp_all add: fs_Save_def)
  then show ?thesis using fs_inv_put(1)[OF assms(1), of "Some z" iid] z(2) by simp
qed

lemma SaveDeltas_law:
  assumes I: "fs_inv cd dir f" and ds: "distinct (map fst ds)" "\<forall>kv\<in>set ds. fst kv < 2 ^ 63"
    and run: "fs_SaveDeltas cd dir iid ds f = (r, f')"
  shows "r = None \<and> fs_inv cd dir f' \<and> fs_view cd dir f' =
    (fs_view cd dir f)(iid := (fs_view cd dir f iid)\<lparr>i_deltas := i_deltas (fs_view cd dir f iid) ++ map_of ds\<rparr>)"
proof -
  let ?cur = "fs_current_deltas cd (deltas_path dir iid) f"
  note C = current_deltas[OF I, of iid]
  obtain z out where z: "compressData cd (json_text cd
      (marshal_deltas (foldl (\<lambda>m kv. AList.update (fst kv) (snd kv) m) ?cur ds))) = Inr z"
    "file_deltas cd z = Some out" "good_deltas iid out" "map_of out = i_deltas (fs_view cd dir f iid) ++ map_of ds"
    using encode_deltas[of iid ?cur ds] C ds by auto
  have "r = None" "f' = put (deltas_path dir iid) (Some z) f"
    using run write_compressed_ok[OF inv_no_faults[OF I] z(1)] by (simp_all add: fs_SaveDeltas_def Let_def)
  then show ?thesis using fs_inv_put(2)[OF I, of "Some z" iid] z by simp
qed

lemma LoadDeltas_law:
  assumes I: "fs_inv cd dir f"
  shows "\<exists>ds. fs_LoadDeltas cd dir iid f = Inr ds \<and> map_of ds = i_deltas (fs_view cd dir f iid) \<and> distinct (map fst ds)"
  using blobs.deltas_blob[OF inv_blobs[OF I], of iid] inv_no_faults[OF I]
  by (auto simp: fs_LoadDeltas_def no_faults_ops fs_view_def file_deltas_eq good_deltas_def split: option.splits)

lemma write_oplog:
  assumes I: "fs_inv cd dir f" and es: "good_oplog iid es"
    and run: "write_compressed cd (oplog_path dir iid) (json_text cd (marshal_oplog es)) f = (r, f')"
  shows "r = None \<and> fs_inv cd dir f' \<and>
    fs_view cd dir f' = (fs_view cd dir f)(iid := (fs_view cd dir f iid)\<lparr>i_oplog := es\<rparr>)"
proof -
  obtain z where z: "compressData cd (json_text cd (marshal_oplog es)) = Inr z" "file_oplog cd z = Some es"
    using encode_oplog[OF es] by blast
  then have "r = None" "f' = put (oplog_path dir iid) (Some z) f"
    using run write_compressed_ok[OF inv_no_faults[OF I] z(1)] by simp_all
  then show ?thesis using es fs_inv_put(3)[OF I, of "Some z" iid] z(2) by simp
qed

lemma SaveOplog_law:
  assumes "fs_inv cd dir f" "valid_utf8 api" "fs_SaveOplog cd dir iid i api req resp f = (r, f')"
  shows "r = None \<and> fs_inv cd dir f' \<and> fs_view cd dir f' = (fs_view cd dir f)(iid :=
    (fs_view cd dir f iid)\<lparr>i_oplog := i_oplog (fs_view cd dir f iid) @ [mk_entry i api req resp]\<rparr>)"
  using assms current_oplog[OF assms(1), of iid]
  by (intro write_oplog[OF assms(1)]) (auto simp: fs_SaveOplog_def good_oplog_def)

lemma TruncateOplog_law:
  assumes "fs_inv cd dir f" "fs_TruncateOplog cd dir iid i f = (r, f')"
  shows "r = None \<and> fs_inv cd dir f' \<and> fs_view cd dir f' = (fs_view cd dir f)(iid :=
    (fs_view cd dir f iid)\<lparr>i_oplog := filter (\<lambda>e. CallIndex e > i) (i_oplog (fs_view cd dir f iid))\<rparr>)"
proof (cases "fs_files f (oplog_path dir iid)")
  case None
  then have "i_oplog (fs_view cd dir f iid) = []" by (simp add: fs_view_def blob_view_def)
  moreover have "(fs_view cd dir f iid)\<lparr>i_oplog := []\<rparr> = fs_view cd dir f iid" using None by (simp add: fs_view_def blob_view_def)
  moreover have "r = None" "f' = f" using None assms by (simp_all add: fs_TruncateOplog_def fs_inv_def no_faults_ops)
  ultimately show ?thesis using assms(1) by (metis filter.simps(1) fun_upd_triv)
next
  case (Some z)
  note C = current_oplog[OF assms(1), of iid]
  have "write_compressed cd (oplog_path dir iid) (json_text cd (marshal_oplog
      (filter (\<lambda>e. CallIndex e > i) (i_oplog (fs_view cd dir f iid))))) f = (r, f')"
    using Some assms C by (auto simp: fs_TruncateOplog_def fs_LoadOplog_def fs_inv_def no_faults_ops split: sum.splits)
  then show ?thesis using C
    by (intro write_oplog[OF assms(1)]) (auto simp: good_oplog_def list_all_iff)
qed

lemma fs_SaveMetadata_eq:
  assumes I: "fs_inv cd dir f"
  shows "fs_SaveMetadata cd dir m f =
    (if version_cas (i_meta (fs_view cd dir f (InstanceID m))) m
     then (Inr True, m\<lparr>Version := Version m + 1\<rparr>,
           put (meta_path dir (InstanceID m)) (Some (json_text cd (marshal_meta (m\<lparr>Version := Version m + 1\<rparr>)))) f)
     else (Inr False, m, f))"
proof (cases "fs_files f (meta_path dir (InstanceID m))")
  case None
  then show ?thesis using inv_no_faults[OF I]
    by (simp add: fs_SaveMetadata_def no_faults_ops fs_view_def blob_view_def version_cas_def Let_def)
next
  case (Some z)
  then obtain ex where ex: "file_meta cd z = Some ex" "i_meta (fs_view cd dir f (InstanceID m)) = Some ex"
    using blobs.meta_blob[OF inv_blobs[OF I], of "InstanceID m" z] by (auto simp: fs_view_def)
  then obtain j where "json_parse cd z = Some j" "unmarshal_meta j = (ex, True)"
    by (auto simp: file_meta_def file_json_eq unmarshal_Inr)
  then show ?thesis using Some ex inv_no_faults[OF I]
    by (simp add: fs_SaveMetadata_def no_faults_ops version_cas_def Let_def)
qed

lemma SaveMetadata_law:
  assumes I: "fs_inv cd dir f" and "0 \<le> Version m" "meta_utf8 m" "version_cas (i_meta (fs_view cd dir f (InstanceID m))) m"
    and run: "fs_SaveMetadata cd dir m f = (rb, m', f')"
  shows "rb = Inr True \<and> fs_inv cd dir f' \<and> m' = m\<lparr>Version := Version m + 1, ETag := ETag m'\<rparr> \<and>
    fs_view cd dir f' = (fs_view cd dir f)(InstanceID m := (fs_view cd dir f (InstanceID m))\<lparr>i_meta := Some m'\<rparr>)"
proof -
  let ?m = "m\<lparr>Version := Version m + 1\<rparr>"
  have m: "meta_utf8 ?m" using assms(3) by (simp add: meta_utf8_def)
  have "rb = Inr True" "m' = ?m" "f' = put (meta_path dir (InstanceID m)) (Some (json_text cd (marshal_meta ?m))) f"
    using run assms(4) by (auto simp: fs_SaveMetadata_eq[OF I])
  then show ?thesis
    using fs_inv_put(4)[OF I, of "Some (json_text cd (marshal_meta ?m))" "InstanceID m"] file_meta_text[OF m] m assms(2)
    by (simp add: file_good_meta_def)
qed

lemma LoadMetadata_law:
  assumes I: "fs_inv cd dir f"
  shows "fs_LoadMetadata cd dir iid f = Inr (i_meta (fs_view cd dir f iid)) \<and>
    (\<forall>m. i_meta (fs_view cd dir f iid) = Some m \<longrightarrow> InstanceID m = iid \<and> Version m > 0 \<and> meta_utf8 m)"
proof (cases "fs_files f (meta_path dir iid)")
  case None
  then show ?thesis using inv_no_faults[OF I] by (simp add: fs_LoadMetadata_def no_faults_ops fs_view_def blob_view_def)
next
  case (Some z)
  then obtain ex where ex: "file_meta cd z = Some ex" "file_good_meta iid ex" "i_meta (fs_view cd dir f iid) = Some ex"
    using blobs.meta_blob[OF inv_blobs[OF I], of iid z] by (auto simp: fs_view_def)
  then have "unmarshal cd unmarshal_meta z = Inr ex" by (simp add: file_meta_def file_json_eq)
  then show ?thesis using Some ex inv_no_faults[OF I] by (simp add: fs_LoadMetadata_def no_faults_ops file_good_meta_def)
qed

lemma Delete_law:
  assumes "fs_inv cd dir f" "fs_Delete dir iid f = (r, f')"
  shows "r = None \<and> fs_inv cd dir f' \<and> fs_view cd dir f' = (fs_view cd dir f)(iid := empty_inst) \<and>
    fs_reg cd dir f' = fs_reg cd dir f"
  using assms(2) inv_no_faults[OF assms(1)] blobs.view_delete[of "fs_files f" iid]
    blobs.ok_delete[OF inv_blobs[OF assms(1)], of iid] blobs.reg_delete[of "fs_files f" iid]
  by (auto simp: fs_Delete_def no_faults_ops fs_view_def fs_reg_def fs_inv_def)

lemma SaveWasm_law:
  assumes I: "fs_inv cd dir f" and h: "fs_reg cd dir f h = None \<or> fs_reg cd dir f h = Some b"
    and run: "fs_SaveWasm cd dir h b f = (r, f')"
  shows "r = None \<and> fs_inv cd dir f' \<and> fs_view cd dir f' = fs_view cd dir f \<and> fs_reg cd dir f' = (fs_reg cd dir f)(h \<mapsto> b)"
proof (cases "fs_files f (wasm_path dir h)")
  case None
  obtain z where z: "compressData cd b = Inr z" "file_bin cd z = Some b" using compress_bin by blast
  then have "r = None" "f' = put (wasm_path dir h) (Some z) f"
    using run None write_compressed_ok[OF inv_no_faults[OF I] z(1)] by (simp_all add: fs_SaveWasm_def Stat_ok_def)
  then show ?thesis using fs_inv_put(5)[OF I, of "Some z" h] z(2) by simp
next
  case (Some z)
  then have "fs_reg cd dir f h = Some b"
    using h blobs.wasm_blob[OF inv_blobs[OF I], of h z] by (auto simp: fs_reg_def)
  moreover have "r = None" "f' = f" using run Some by (simp_all add: fs_SaveWasm_def Stat_ok_def)
  ultimately show ?thesis using I by auto
qed

lemma reg_writes:
  "fs_inv cd dir f \<Longrightarrow> fs_SaveMetadata cd dir m f = (rb, m', f') \<Longrightarrow> fs_reg cd dir f' = fs_reg cd dir f"
  "fs_inv cd dir f \<Longrightarrow> fs_SaveOplog cd dir iid i api req resp f = (r, f') \<Longrightarrow> fs_reg cd dir f' = fs_reg cd dir f"
  "fs_inv cd dir f \<Longrightarrow> fs_Save cd dir iid b f = (r, f') \<Longrightarrow> fs_reg cd dir f' = fs_reg cd dir f"
proof -
  have w: "\<exists>z. write_compressed cd p d f = (None, put p (Some z) f)" if "fs_inv cd dir f" for p d
    using write_compressed_ok[OF inv_no_faults[OF that]] compress_bin by blast
  show "fs_inv cd dir f \<Longrightarrow> fs_Save cd dir iid b f = (r, f') \<Longrightarrow> fs_reg cd dir f' = fs_reg cd dir f"
    using w[of "bin_path dir iid" b] by (auto simp: fs_Save_def)
  show "fs_inv cd dir f \<Longrightarrow> fs_SaveMetadata cd dir m f = (rb, m', f') \<Longrightarrow> fs_reg cd dir f' = fs_reg cd dir f"
    by (auto simp: fs_SaveMetadata_eq split: if_splits)
  assume I: "fs_inv cd dir f" and run: "fs_SaveOplog cd dir iid i api req resp f = (r, f')"
  show "fs_reg cd dir f' = fs_reg cd dir f" using run w[OF I] by (metis Pair_inject fs_SaveOplog_def fs_reg_put(1))
qed

lemma bins_law:
  "fs_inv cd dir f \<Longrightarrow> i_snapshot (fs_view cd dir f iid) = Some b \<Longrightarrow> fs_Load cd dir iid f = Inr b"
  "fs_inv cd dir f \<Longrightarrow> i_snapshot (fs_view cd dir f iid) = None \<Longrightarrow> \<exists>e. fs_Load cd dir iid f = Inl e"
  "fs_inv cd dir f \<Longrightarrow> fs_reg cd dir f h = Some b \<Longrightarrow> fs_LoadWasm cd dir h f = Inr b"
  "fs_inv cd dir f \<Longrightarrow> fs_reg cd dir f h = None \<Longrightarrow> \<exists>e. fs_LoadWasm cd dir h f = Inl e"
  using inv_no_faults[of f]
  by (auto simp: fs_Load_def fs_LoadWasm_def fs_view_def fs_reg_def blob_view_def blob_reg_def read_compressed_eq
      bind_eq_Some_conv bind_eq_None_conv file_bin_eq file_bin_None split: option.splits)

lemma fs_ops_sel [store_simps]:
  "st_Save (fs_ops cd dir) = fs_Save cd dir" "st_Load (fs_ops cd dir) = fs_Load cd dir"
  "st_Delete (fs_ops cd dir) = fs_Delete dir" "st_SaveDeltas (fs_ops cd dir) = fs_SaveDeltas cd dir"
  "st_LoadDeltas (fs_ops cd dir) = fs_LoadDeltas cd dir" "st_TruncateDeltas (fs_ops cd dir) = fs_TruncateDeltas dir"
  "st_SaveOplog (fs_ops cd dir) = fs_SaveOplog cd dir" "st_LoadOplog (fs_ops cd dir) = fs_LoadOplog cd dir"
  "st_TruncateOplog (fs_ops cd dir) = fs_TruncateOplog cd dir" "st_SaveMetadata (fs_ops cd dir) = fs_SaveMetadata cd dir"
  "st_LoadMetadata (fs_ops cd dir) = fs_LoadMetadata cd dir" "st_SaveWasm (fs_ops cd dir) = fs_SaveWasm cd dir"
  "st_LoadWasm (fs_ops cd dir) = fs_LoadWasm cd dir"
  by (simp_all add: fs_ops_def)

lemma TruncateDeltas_law:
  assumes "fs_inv cd dir f" "fs_TruncateDeltas dir iid f = (r, f')"
  shows "r = None \<and> fs_inv cd dir f' \<and>
    fs_view cd dir f' = (fs_view cd dir f)(iid := (fs_view cd dir f iid)\<lparr>i_deltas := Map.empty\<rparr>)"
proof -
  have "no_faults f" using assms(1) by (simp add: fs_inv_def)
  then have "r = None" "f' = put (deltas_path dir iid) None f" using assms(2) by (simp_all add: fs_TruncateDeltas_def no_faults_ops)
  then show ?thesis using fs_inv_put(2)[OF assms(1), of None iid] by simp
qed

end

sublocale file_store \<subseteq> fs: wasm_store "fs_ops cd dir" "fs_inv cd dir" "fs_view cd dir" version_cas valid_utf8 meta_utf8 "fs_reg cd dir"
proof (unfold_locales, unfold store_simps, goal_cases)
  case (1 s iid b r s') then show ?case by (rule Save_law)
next
  case (2 s iid b) then show ?case by (rule bins_law)
next
  case (3 s iid) then show ?case by (rule bins_law)
next
  case (4 s iid r s') then show ?case using Delete_law by blast
next
  case (5 s ds iid r s') then show ?case by (rule SaveDeltas_law)
next
  case (6 s iid) then show ?case by (rule LoadDeltas_law)
next
  case (7 s iid r s') then show ?case by (rule TruncateDeltas_law)
next
  case (8 s api iid i req resp r s') then show ?case by (rule SaveOplog_law)
next
  case (9 s iid) then show ?case using current_oplog by blast
next
  case (10 s iid i r s') then show ?case by (rule TruncateOplog_law)
next
  case (11 s m rb m' s') then show ?case by (rule SaveMetadata_law)
next
  case (12 s m) then show ?case by (simp add: fs_SaveMetadata_eq)
next
  case (13 s m rb m' s') then show ?case by (auto simp: fs_SaveMetadata_eq version_cas_def)
next
  case (14 s iid) then show ?case using LoadMetadata_law by blast
next
  case (15 s iid m) then show ?case using LoadMetadata_law[of s iid] by blast
next
  case (22 s m) then show ?case using version_cas_laws(5)[of m] by simp
next
  case (23 s h b r s') then show ?case by (rule SaveWasm_law)
next
  case (24 s h b) then show ?case by (rule bins_law)
next
  case (25 s h) then show ?case by (rule bins_law)
next
  case (26 s m rb m' s') then show ?case by (rule reg_writes)
next
  case (27 s iid i api req resp r s') then show ?case by (rule reg_writes)
next
  case (28 s iid r s') then show ?case using Delete_law by blast
next
  case (29 s iid b r s') then show ?case by (rule reg_writes)
qed (simp_all add: meta_utf8_def version_cas_laws new_meta_def)

end
