(* ===== verification/Json_Text.thy ===== *)
theory Json_Text
  imports Json_Codec
begin

text \<open>
  A codec that keeps the laws of \<open>codec_laws\<close>: the compact text of a JSON document with a recursive
  descent parser, and a gzip header in front of the stored data. It shows that the laws can hold
  together and gives the examples of the development something to compute with.
\<close>

section \<open>Strings\<close>

definition hex_char :: "nat \<Rightarrow> char" where
  "hex_char d = (if d < 10 then char_of (48 + d) else char_of (87 + d))"

definition hex_val :: "char \<Rightarrow> nat option" where
  "hex_val c = (let n = of_char c in if 48 \<le> n \<and> n \<le> 57 then Some (n - 48)
     else if 97 \<le> n \<and> n \<le> 102 then Some (n - 87) else None)"

definition esc :: "char \<Rightarrow> string" where
  "esc c = (if c = CHR 0x22 \<or> c = CHR 0x5C then [CHR 0x5C, c]
     else if of_char c < (32::nat) then [CHR 0x5C, CHR ''u'', CHR ''0'', CHR ''0'', hex_char (of_char c div 16), hex_char (of_char c mod 16)]
     else [c])"

definition print_str :: "string \<Rightarrow> string" where
  "print_str s = CHR 0x22 # concat (map esc s) @ [CHR 0x22]"

text \<open>The rest of a string after its opening quote.\<close>

fun parse_str :: "string \<Rightarrow> (string \<times> string) option" where
  "parse_str [] = None"
| "parse_str (c # cs) =
     (if c = CHR 0x22 then Some ([], cs)
      else if c = CHR 0x5C then
        (case cs of
           [] \<Rightarrow> None
         | e # r \<Rightarrow>
             if e = CHR ''u'' then
               (case r of
                  a # b # x # y # r' \<Rightarrow>
                    (case (hex_val x, hex_val y) of
                       (Some h, Some l) \<Rightarrow>
                         if a = CHR ''0'' \<and> b = CHR ''0'' then
                           (case parse_str r' of None \<Rightarrow> None | Some (s, t) \<Rightarrow> Some (char_of (16 * h + l) # s, t))
                         else None
                     | _ \<Rightarrow> None)
                | _ \<Rightarrow> None)
             else if e = CHR 0x22 \<or> e = CHR 0x5C then
               (case parse_str r of None \<Rightarrow> None | Some (s, t) \<Rightarrow> Some (e # s, t))
             else None)
      else case parse_str cs of None \<Rightarrow> None | Some (s, t) \<Rightarrow> Some (c # s, t))"

lemma hex_val_hex_char [simp]: "d < 16 \<Longrightarrow> hex_val (hex_char d) = Some d"
  by (auto simp: hex_val_def hex_char_def Let_def)

lemma parse_str_esc:
  "parse_str (esc c @ t) = (case parse_str t of None \<Rightarrow> None | Some (s, r) \<Rightarrow> Some (c # s, r))"
proof (cases "c = CHR 0x22 \<or> c = CHR 0x5C \<or> \<not> of_char c < (32::nat)")
  case False
  then have "of_char c < (32::nat)" by blast
  then have "of_char c div 16 < (16::nat)" by (simp add: less_mult_imp_div_less)
  then show ?thesis using False by (auto simp: esc_def split: option.split)
qed (auto simp: esc_def)

lemma parse_print_str: "parse_str (concat (map esc s) @ CHR 0x22 # t) = Some (s, t)"
  by (induction s) (simp_all add: parse_str_esc)

section \<open>Documents\<close>

fun join :: "string list \<Rightarrow> string" where
  "join [] = []"
| "join [x] = x"
| "join (x # xs) = x @ CHR '','' # join xs"

fun print_json :: "json \<Rightarrow> string" where
  "print_json JNull = ''null''"
| "print_json (JBool b) = (if b then ''true'' else ''false'')"
| "print_json (JNum n) = FormatInt n"
| "print_json (JDec m e) = FormatInt m @ CHR ''e'' # FormatInt e"
| "print_json (JStr s) = print_str s"
| "print_json (JArr js) = CHR ''['' # join (map print_json js) @ '']''"
| "print_json (JObj kvs) =
     CHR ''{'' # join (map (\<lambda>kv. print_str (fst kv) @ CHR '':'' # print_json (snd kv)) kvs) @ ''}''"

definition is_digit :: "char \<Rightarrow> bool" where
  "is_digit c \<longleftrightarrow> char_digit c \<noteq> None"

definition parse_int :: "string \<Rightarrow> (int \<times> string) option" where
  "parse_int s =
     (let neg = (s \<noteq> [] \<and> hd s = CHR ''-''); body = (if neg then tl s else s)
      in case parse_nat (takeWhile is_digit body) of
           None \<Rightarrow> None
         | Some n \<Rightarrow> Some (if neg then - int n else int n, dropWhile is_digit body))"

definition parse_num :: "string \<Rightarrow> (json \<times> string) option" where
  "parse_num s =
     (case parse_int s of
        None \<Rightarrow> None
      | Some (m, r) \<Rightarrow>
          if r \<noteq> [] \<and> hd r = CHR ''e''
          then (case parse_int (tl r) of None \<Rightarrow> None | Some (e, t) \<Rightarrow> Some (JDec m e, t))
          else Some (JNum m, r))"

fun parse_val :: "nat \<Rightarrow> string \<Rightarrow> (json \<times> string) option"
  and parse_elems :: "nat \<Rightarrow> string \<Rightarrow> (json list \<times> string) option"
  and parse_members :: "nat \<Rightarrow> string \<Rightarrow> ((string \<times> json) list \<times> string) option" where
  "parse_val 0 s = None"
| "parse_val (Suc n) s =
     (if s = [] then None
      else if hd s = CHR 0x22 then map_option (\<lambda>(x, r). (JStr x, r)) (parse_str (tl s))
      else if prefix ''[]'' s then Some (JArr [], drop 2 s)
      else if hd s = CHR ''['' then map_option (\<lambda>(x, r). (JArr x, r)) (parse_elems n (tl s))
      else if prefix ''{}'' s then Some (JObj [], drop 2 s)
      else if hd s = CHR ''{'' then map_option (\<lambda>(x, r). (JObj x, r)) (parse_members n (tl s))
      else if prefix ''null'' s then Some (JNull, drop 4 s)
      else if prefix ''true'' s then Some (JBool True, drop 4 s)
      else if prefix ''false'' s then Some (JBool False, drop 5 s)
      else parse_num s)"
| "parse_elems 0 s = None"
| "parse_elems (Suc n) s =
     (case parse_val n s of
        Some (j, c # r) \<Rightarrow>
          if c = CHR '']'' then Some ([j], r)
          else if c = CHR '','' then map_option (\<lambda>(js, t). (j # js, t)) (parse_elems n r)
          else None
      | _ \<Rightarrow> None)"
| "parse_members 0 s = None"
| "parse_members (Suc n) s =
     (if s = [] \<or> hd s \<noteq> CHR 0x22 then None
      else case parse_str (tl s) of
        Some (k, d # q) \<Rightarrow>
          if d \<noteq> CHR '':'' then None
          else (case parse_val n q of
                  Some (j, c # r) \<Rightarrow>
                    if c = CHR ''}'' then Some ([(k, j)], r)
                    else if c = CHR '','' then map_option (\<lambda>(kvs, t). ((k, j) # kvs, t)) (parse_members n r)
                    else None
                | _ \<Rightarrow> None)
      | _ \<Rightarrow> None)"

definition parse_json :: "string \<Rightarrow> json option" where
  "parse_json s = (case parse_val (length s) s of Some (j, []) \<Rightarrow> Some j | _ \<Rightarrow> None)"

section \<open>Round trip\<close>

definition no_digit :: "string \<Rightarrow> bool" where
  "no_digit rest \<longleftrightarrow> rest = [] \<or> \<not> is_digit (hd rest) \<and> hd rest \<noteq> CHR ''e''"

lemma is_digit_digit_char [simp]: "d < 10 \<Longrightarrow> is_digit (digit_char d)"
  by (simp add: is_digit_def)

lemma format_nat_is_digit: "\<forall>c\<in>set (format_nat n). is_digit c"
  using format_nat_digits by fastforce

lemma hd_format_nat: "is_digit (hd (format_nat n))"
  using format_nat_is_digit[of n] by simp

lemma parse_int_FormatInt:
  assumes "rest = [] \<or> \<not> is_digit (hd rest)"
  shows "parse_int (FormatInt n @ rest) = Some (n, rest)"
proof -
  have tw: "takeWhile is_digit (format_nat k @ rest) = format_nat k"
    "dropWhile is_digit (format_nat k @ rest) = rest" for k
    using format_nat_is_digit[of k] assms
    by (auto simp: takeWhile_append dropWhile_append takeWhile_eq_Nil_iff dropWhile_eq_self_iff)
  have "hd (format_nat k @ rest) \<noteq> CHR ''-''" for k
    using hd_format_nat[of k] by (auto simp: is_digit_def char_digit_def hd_append)
  then show ?thesis by (simp add: parse_int_def FormatInt_def Let_def tw)
qed

lemma parse_num_print:
  assumes "no_digit rest"
  shows "parse_num (print_json (JNum n) @ rest) = Some (JNum n, rest)"
    and "parse_num (print_json (JDec n e) @ rest) = Some (JDec n e, rest)"
proof -
  have r: "rest = [] \<or> \<not> is_digit (hd rest)" using assms by (auto simp: no_digit_def)
  show "parse_num (print_json (JNum n) @ rest) = Some (JNum n, rest)"
    using assms by (auto simp: parse_num_def parse_int_FormatInt[OF r] no_digit_def)
  have "\<not> is_digit (CHR ''e'')" by (simp add: is_digit_def char_digit_def)
  then have "parse_int (FormatInt n @ CHR ''e'' # FormatInt e @ rest) = Some (n, CHR ''e'' # FormatInt e @ rest)"
    by (intro parse_int_FormatInt) simp
  then show "parse_num (print_json (JDec n e) @ rest) = Some (JDec n e, rest)"
    by (simp add: parse_num_def parse_int_FormatInt[OF r])
qed

lemma hd_FormatInt: "FormatInt n \<noteq> [] \<and> (hd (FormatInt n) = CHR ''-'' \<or> is_digit (hd (FormatInt n)))"
  using hd_format_nat by (simp add: FormatInt_def)

text \<open>The first character tells the kinds of documents apart.\<close>

lemma hd_print_json: "print_json j \<noteq> [] \<and> hd (print_json j) \<noteq> CHR '']''"
proof (cases j)
  case (JNum n)
  then show ?thesis using hd_FormatInt[of n] by (auto simp: is_digit_def char_digit_def Let_def)
next
  case (JDec n e)
  then show ?thesis using hd_FormatInt[of n] by (auto simp: is_digit_def char_digit_def Let_def)
qed (auto simp: print_str_def)

lemma parse_val_number:
  assumes "s \<noteq> []" "hd s = CHR ''-'' \<or> is_digit (hd s)"
  shows "parse_val (Suc n) s = parse_num s"
proof -
  have "hd s \<notin> {CHR 0x22, CHR ''['', CHR ''{'', CHR ''n'', CHR ''t'', CHR ''f''}"
    using assms(2) by (auto simp: is_digit_def char_digit_def)
  then show ?thesis using assms(1) by (cases s) auto
qed

lemma parse_elems_join:
  assumes "js \<noteq> []" and "\<forall>j\<in>set js. \<forall>n rest. length (print_json j) \<le> n \<longrightarrow> no_digit rest \<longrightarrow>
      parse_val n (print_json j @ rest) = Some (j, rest)"
    and "length (join (map print_json js)) < n"
  shows "parse_elems n (join (map print_json js) @ CHR '']'' # rest) = Some (js, rest)"
  using assms
proof (induction js arbitrary: n rule: list_nonempty_induct)
  case (single j)
  then obtain n' where n: "n = Suc n'" by (cases n) auto
  then show ?case using single by (simp add: no_digit_def is_digit_def char_digit_def)
next
  case (cons j js)
  then obtain n' where n: "n = Suc n'" by (cases n) auto
  obtain x xs where js: "js = x # xs" using cons.hyps by (cases js) auto
  have j: "join (map print_json (j # js)) = print_json j @ CHR '','' # join (map print_json js)"
    by (simp add: js)
  have "parse_elems n' (join (map print_json js) @ CHR '']'' # rest) = Some (js, rest)"
    using cons.prems n j by (intro cons.IH) auto
  moreover have "parse_val n' (print_json j @ CHR '','' # join (map print_json js) @ CHR '']'' # rest) =
      Some (j, CHR '','' # join (map print_json js) @ CHR '']'' # rest)"
    using cons.prems n j by (simp add: no_digit_def is_digit_def char_digit_def)
  ultimately show ?case by (simp only: j n) simp
qed

abbreviation print_member :: "string \<times> json \<Rightarrow> string" where
  "print_member kv \<equiv> print_str (fst kv) @ CHR '':'' # print_json (snd kv)"

lemma parse_members_join:
  assumes "kvs \<noteq> []" and "\<forall>kv\<in>set kvs. \<forall>n rest. length (print_json (snd kv)) \<le> n \<longrightarrow> no_digit rest \<longrightarrow>
      parse_val n (print_json (snd kv) @ rest) = Some (snd kv, rest)"
    and "length (join (map print_member kvs)) < n"
  shows "parse_members n (join (map print_member kvs) @ CHR ''}'' # rest) = Some (kvs, rest)"
  using assms
proof (induction kvs arbitrary: n rule: list_nonempty_induct)
  case (single kv)
  then obtain n' where n: "n = Suc n'" by (cases n) auto
  then show ?case using single
    by (simp add: no_digit_def is_digit_def char_digit_def print_str_def parse_print_str)
next
  case (cons kv kvs)
  then obtain n' where n: "n = Suc n'" by (cases n) auto
  obtain x xs where kvs: "kvs = x # xs" using cons.hyps by (cases kvs) auto
  have j: "join (map print_member (kv # kvs)) = print_member kv @ CHR '','' # join (map print_member kvs)"
    by (simp add: kvs)
  have "parse_members n' (join (map print_member kvs) @ CHR ''}'' # rest) = Some (kvs, rest)"
    using cons.prems n j by (intro cons.IH) auto
  moreover have "parse_val n' (print_json (snd kv) @ CHR '','' # join (map print_member kvs) @ CHR ''}'' # rest) =
      Some (snd kv, CHR '','' # join (map print_member kvs) @ CHR ''}'' # rest)"
    using cons.prems n j by (simp add: no_digit_def is_digit_def char_digit_def)
  ultimately show ?case by (simp only: j n) (simp add: print_str_def parse_print_str)
qed

lemma parse_val_print:
  "length (print_json j) \<le> n \<Longrightarrow> no_digit rest \<Longrightarrow> parse_val n (print_json j @ rest) = Some (j, rest)"
proof (induction j arbitrary: n rest)
  case (JNum i)
  then obtain n' where "n = Suc n'" using hd_FormatInt[of i] by (cases n) auto
  then show ?case using JNum hd_FormatInt[of i] parse_val_number[of "FormatInt i @ rest" n'] parse_num_print(1)[of rest i]
    by (simp del: parse_val.simps)
next
  case (JDec i e)
  then obtain n' where "n = Suc n'" using hd_FormatInt[of i] by (cases n) auto
  then show ?case using JDec hd_FormatInt[of i] parse_val_number[of "FormatInt i @ CHR ''e'' # FormatInt e @ rest" n']
      parse_num_print(2)[of rest i e]
    by (simp del: parse_val.simps)
next
  case (JStr s)
  then obtain n' where "n = Suc n'" by (cases n) (auto simp: print_str_def)
  then show ?case by (simp add: print_str_def parse_print_str)
next
  case (JArr js)
  then obtain n' where n: "n = Suc n'" by (cases n) auto
  show ?case
  proof (cases "js = []")
    case False
    have e: "parse_elems n' (join (map print_json js) @ CHR '']'' # rest) = Some (js, rest)"
      using JArr n False by (intro parse_elems_join) auto
    have "join (map print_json js) \<noteq> [] \<and> hd (join (map print_json js)) \<noteq> CHR '']''"
      using False hd_print_json by (cases js rule: remdups_adj.cases) auto
    then have "\<not> prefix ''[]'' (CHR ''['' # join (map print_json js) @ CHR '']'' # rest)"
      by (cases "join (map print_json js)") auto
    then show ?thesis using e n by simp
  qed (simp add: n)
next
  case (JObj kvs)
  then obtain n' where n: "n = Suc n'" by (cases n) auto
  show ?case
  proof (cases "kvs = []")
    case False
    have e: "parse_members n' (join (map print_member kvs) @ CHR ''}'' # rest) = Some (kvs, rest)"
      using JObj n False by (intro parse_members_join) auto
    have "join (map print_member kvs) \<noteq> [] \<and> hd (join (map print_member kvs)) \<noteq> CHR ''}''"
      using False by (cases kvs rule: remdups_adj.cases) (auto simp: print_str_def)
    then have "\<not> prefix ''{}'' (CHR ''{'' # join (map print_member kvs) @ CHR ''}'' # rest)"
      by (cases "join (map print_member kvs)") auto
    then show ?thesis using e n by simp
  qed (simp add: n)
next
  case JNull
  then show ?case by (cases n) auto
next
  case (JBool b)
  then show ?case by (cases n; cases b) auto
qed

lemma parse_json_print: "parse_json (print_json j) = Some j"
  using parse_val_print[of j "length (print_json j)" "[]"] by (simp add: parse_json_def no_digit_def)

section \<open>The codec\<close>

text \<open>The ten bytes of a gzip header: magic number, deflate, no flags, no time, unknown system.\<close>

definition gzip_header :: bytes where
  "gzip_header = [0x1f, 0x8b, 8, 0, 0, 0, 0, 0, 0, 255]"

definition compact_codec :: codec where
  "compact_codec =
     \<lparr> gz_write = (\<lambda>data. Inr (gzip_header @ data)),
       gz_read = (\<lambda>z. if take 10 z = gzip_header then Inr (drop 10 z) else Inl (Err ''gzip: invalid header'')),
       json_text = (\<lambda>j. bytes_of_string (print_json j)),
       json_parse = (\<lambda>b. parse_json (string_of_bytes b)) \<rparr>"

interpretation compact: codec_laws compact_codec
  by unfold_locales (simp_all add: compact_codec_def gzip_header_def isGzipped_def parse_json_print)

end
