(* ===== verification/Fs_Engine.thy ===== *)
theory Fs_Engine
  imports Fs_Store Crash_Resume Concurrency Json_Text
begin

text \<open>
  The engine over \<open>FileSnapshotStore\<close>: the interpretations that give the facts of theories
  \<open>Recovery\<close>, \<open>Crash_Resume\<close>, \<open>Concurrency\<close> and \<open>Store_Spec\<close> for this store, with any codec, linear
  memory and runtime that keep their contracts, and what a read error does to an incremental save.
\<close>

sublocale file_store \<subseteq> fsv: versioned_store "fs_ops cd dir" "fs_inv cd dir" "fs_view cd dir" valid_utf8 meta_utf8
  by unfold_locales (auto simp: fs_ops_def fs_SaveMetadata_eq split: if_splits)

interpretation compact_fs: file_store compact_codec dir for dir
  by unfold_locales

context file_store
begin

lemma contract: "versioned_store (fs_ops cd dir) (fs_inv cd dir) (fs_view cd dir) valid_utf8 meta_utf8"
  by (rule fsv.versioned_store_axioms)

text \<open>A read error of the deltas file during \<open>SaveDeltas\<close>: the deltas saved before are lost.\<close>

lemma SaveDeltas_read_fault:
  assumes "fs_inv cd dir f" "distinct (map fst ds)" "\<forall>kv\<in>set ds. fst kv < 2 ^ 63"
    and run: "fs_SaveDeltas cd dir iid ds (f\<lparr>fs_read_fault := (\<lambda>_. None)(deltas_path dir iid := Some err)\<rparr>) = (r, f')"
  shows "r = None \<and> i_deltas (fs_view cd dir f' iid) = map_of ds"
proof -
  let ?f = "f\<lparr>fs_read_fault := (\<lambda>_. None)(deltas_path dir iid := Some err)\<rparr>"
  obtain z out where z: "compressData cd (json_text cd
      (marshal_deltas (foldl (\<lambda>m kv. AList.update (fst kv) (snd kv) m) [] ds))) = Inr z"
    "file_deltas cd z = Some out" "map_of out = map_of ds"
    using encode_deltas[of iid "[]" ds] assms(2,3) by auto
  have "fs_write_fault f p = None" for p using assms(1) by (simp add: fs_inv_def no_faults_def)
  then have "r = None" "f' = put (deltas_path dir iid) (Some z) ?f"
    using run z(1) by (simp_all add: fs_SaveDeltas_def fs_current_deltas_def ReadFile_def
        write_compressed_def WriteFile_def Let_def)
  then show ?thesis using z(2,3) by (simp add: fs_view_def blob_view_def)
qed

end

lemma fs_versioned:
  "codec_laws cd \<Longrightarrow> versioned_store (fs_ops cd dir) (fs_inv cd dir) (fs_view cd dir) valid_utf8 meta_utf8"
  by (rule file_store.contract[OF file_store.intro])

lemma fs_durable:
  "codec_laws cd \<Longrightarrow> linear_memory M contents valid \<Longrightarrow>
   durable (fs_ops cd dir) (fs_inv cd dir) (fs_view cd dir) version_cas valid_utf8 meta_utf8 M contents valid"
  by (rule durable.intro[OF versioned_store.axioms(1)[OF fs_versioned]])

interpretation fs_engine: durable_engine "fs_ops compact_codec dir" "fs_inv compact_codec dir" "fs_view compact_codec dir"
    version_cas valid_utf8 meta_utf8 list_memory "\<lambda>m. m" list_memory_valid
    "list_runtime mem0 exports" "\<lambda>r. r" "\<lambda>_. True" "\<lambda>_. mem0" for dir mem0 exports
  by (rule durable_engine.intro[OF fs_durable[OF compact.codec_laws_axioms lm.linear_memory_axioms]
        list_rt.wazero_runtime_axioms])

section \<open>An empty directory\<close>

definition empty_fs :: fs where
  "empty_fs = \<lparr> fs_files = Map.empty, fs_read_fault = (\<lambda>_. None), fs_write_fault = (\<lambda>_. None),
     fs_remove_fault = (\<lambda>_. False) \<rparr>"

lemma empty_fs_inv [simp]: "fs_inv cd dir empty_fs"
  by (simp add: fs_inv_def no_faults_def empty_fs_def)

lemma empty_fs_view [simp]: "fs_view cd dir empty_fs iid = empty_inst"
  by (simp add: fs_view_def empty_fs_def)

end
