(* ===== verification/Runner_Builder.thy ===== *)
theory Runner_Builder
  imports Memory_Store Execution
begin

text \<open>
  \<open>runner_builder.go\<close>: the fluent \<open>Runner\<close> with its sticky error, and the \<open>TestRunner\<close> that wraps it.
  Every method takes and returns the runner, as the chained calls do. A nil context or store is
  \<open>None\<close>. The memory store of \<open>WithMemoryStore\<close> is created with the runner, so the runner carries the
  store it was given as its operations together with their state.
\<close>

section \<open>Runner\<close>

record ('e, 's) runner =
  rn_ctx :: "'e go_context"
  rn_wasmPath :: string
  rn_wasmBytes :: bytes
  rn_store :: "('s store_ops \<times> 's) option"
  rn_instanceID :: string
  rn_entrypoint :: string
  rn_apiHandler :: "'e api_handler option"
  rn_downloadHandler :: "'e download_handler option"
  rn_uploadHandler :: "'e upload_handler option"
  rn_serverAddr :: string
  rn_shouldCrash :: bool
  rn_params :: "u64 list"
  rn_err :: "go_error option"
  rn_crashed :: bool

definition NewRunner :: "('e, 's) runner" where
  "NewRunner = \<lparr> rn_ctx = Background, rn_wasmPath = [], rn_wasmBytes = [], rn_store = None,
     rn_instanceID = [], rn_entrypoint = ''run'', rn_apiHandler = None, rn_downloadHandler = None,
     rn_uploadHandler = None, rn_serverAddr = [], rn_shouldCrash = False, rn_params = [], rn_err = None,
     rn_crashed = False \<rparr>"

text \<open>\<open>if r.err != nil \{ return r \}\<close> in front of every setter.\<close>

definition unless_err :: "(('e, 's) runner \<Rightarrow> ('e, 's) runner) \<Rightarrow> ('e, 's) runner \<Rightarrow> ('e, 's) runner" where
  "unless_err upd r = (if rn_err r \<noteq> None then r else upd r)"

definition rn_WithContext :: "'e go_context option \<Rightarrow> ('e, 's) runner \<Rightarrow> ('e, 's) runner" where
  "rn_WithContext ctx = unless_err (\<lambda>r. case ctx of
      None \<Rightarrow> r\<lparr>rn_err := Some (Err ''context cannot be nil'')\<rparr>
    | Some c \<Rightarrow> r\<lparr>rn_ctx := c\<rparr>)"

definition rn_WithWasmPath :: "string \<Rightarrow> ('e, 's) runner \<Rightarrow> ('e, 's) runner" where
  "rn_WithWasmPath p = unless_err (\<lambda>r. r\<lparr>rn_wasmPath := p\<rparr>)"

definition rn_WithWasmBytes :: "bytes \<Rightarrow> ('e, 's) runner \<Rightarrow> ('e, 's) runner" where
  "rn_WithWasmBytes b = unless_err (\<lambda>r. r\<lparr>rn_wasmBytes := b\<rparr>)"

definition rn_WithStore :: "('s store_ops \<times> 's) option \<Rightarrow> ('e, 's) runner \<Rightarrow> ('e, 's) runner" where
  "rn_WithStore st = unless_err (\<lambda>r. case st of
      None \<Rightarrow> r\<lparr>rn_err := Some (Err ''store cannot be nil'')\<rparr>
    | Some s \<Rightarrow> r\<lparr>rn_store := Some s\<rparr>)"

definition rn_WithMemoryStore :: "codec \<Rightarrow> ('e, memory_store) runner \<Rightarrow> ('e, memory_store) runner" where
  "rn_WithMemoryStore cd = unless_err (\<lambda>r. r\<lparr>rn_store := Some (memory_ops cd, NewMemorySnapshotStore)\<rparr>)"

definition rn_WithSessionID :: "string \<Rightarrow> ('e, 's) runner \<Rightarrow> ('e, 's) runner" where
  "rn_WithSessionID iid = unless_err (\<lambda>r. r\<lparr>rn_instanceID := iid\<rparr>)"

definition rn_WithEntrypoint :: "string \<Rightarrow> ('e, 's) runner \<Rightarrow> ('e, 's) runner" where
  "rn_WithEntrypoint ep = unless_err (\<lambda>r. r\<lparr>rn_entrypoint := ep\<rparr>)"

definition rn_WithApiHandler :: "'e api_handler option \<Rightarrow> ('e, 's) runner \<Rightarrow> ('e, 's) runner" where
  "rn_WithApiHandler h = unless_err (\<lambda>r. r\<lparr>rn_apiHandler := h\<rparr>)"

definition rn_WithDownloadHandler :: "'e download_handler option \<Rightarrow> ('e, 's) runner \<Rightarrow> ('e, 's) runner" where
  "rn_WithDownloadHandler h = unless_err (\<lambda>r. r\<lparr>rn_downloadHandler := h\<rparr>)"

definition rn_WithUploadHandler :: "'e upload_handler option \<Rightarrow> ('e, 's) runner \<Rightarrow> ('e, 's) runner" where
  "rn_WithUploadHandler h = unless_err (\<lambda>r. r\<lparr>rn_uploadHandler := h\<rparr>)"

definition rn_WithServer :: "string \<Rightarrow> ('e, 's) runner \<Rightarrow> ('e, 's) runner" where
  "rn_WithServer addr = unless_err (\<lambda>r. r\<lparr>rn_serverAddr := addr\<rparr>)"

definition rn_WithArgs :: "u64 list \<Rightarrow> ('e, 's) runner \<Rightarrow> ('e, 's) runner" where
  "rn_WithArgs ps = unless_err (\<lambda>r. r\<lparr>rn_params := ps\<rparr>)"

definition rn_Error :: "('e, 's) runner \<Rightarrow> go_error option" where
  "rn_Error r = rn_err r"

text \<open>The context of the run: the handlers that are set are bound to it.\<close>

definition run_ctx :: "('e, 's) runner \<Rightarrow> 'e go_context" where
  "run_ctx r =
     (let c1 = (if rn_apiHandler r \<noteq> None then WithApiHandler (rn_ctx r) (rn_apiHandler r) else rn_ctx r);
          c2 = (if rn_downloadHandler r \<noteq> None then WithDownloadHandler c1 (rn_downloadHandler r) else c1)
      in if rn_uploadHandler r \<noteq> None then WithUploadHandler c2 (rn_uploadHandler r) else c2)"

definition rn_Run :: "'m memory_api \<Rightarrow> ('c, 'm, 'r) wazero \<Rightarrow> ('e \<Rightarrow> int \<times> 'e) \<Rightarrow>
    (string \<Rightarrow> go_error + bytes) \<Rightarrow> (bytes \<Rightarrow> string) \<Rightarrow> ('e, 's) runner \<Rightarrow> 'e \<Rightarrow>
    (bool \<times> go_error option) outcome \<times> ('e, 's) runner \<times> 'e" where
  "rn_Run M W clock ReadFile sha r e =
     (if rn_err r \<noteq> None then (Ret (False, rn_err r), r, e)
      else if rn_instanceID r = [] then (Ret (False, Some (Err ''session ID is required'')), r, e)
      else case rn_store r of
        None \<Rightarrow> (Ret (False, Some (Err ''snapshot store is required'')), r, e)
      | Some (st, \<sigma>) \<Rightarrow>
          if rn_wasmBytes r = [] \<and> rn_wasmPath r = []
          then (Ret (False, Some (Err ''either WASM file path or WASM bytes must be configured'')), r, e)
          else case (if length (rn_wasmBytes r) > 0 then NewEngineWithBytes sha st W (rn_wasmBytes r) [] \<sigma>
                     else NewEngine ReadFile sha st W (rn_wasmPath r) [] \<sigma>) of
                 (Inl err, \<sigma>1) \<Rightarrow>
                   (Ret (False, Some (Wrap ''failed to build engine'' err)), r\<lparr>rn_store := Some (st, \<sigma>1)\<rparr>, e)
               | (Inr eng, \<sigma>1) \<Rightarrow>
                   (case ExecuteWithArgs st M W clock (run_ctx r) (rn_instanceID r) (rn_entrypoint r)
                           (rn_serverAddr r) (rn_shouldCrash r) (rn_params r) eng \<sigma>1 e of
                      (Ret (crashed, err), _, \<sigma>2, e2) \<Rightarrow>
                        (Ret (crashed, err),
                         r\<lparr>rn_store := Some (st, \<sigma>2), rn_crashed := crashed, rn_err := err\<rparr>, e2)
                    | (Panic msg, _, \<sigma>2, e2) \<Rightarrow> (Panic msg, r\<lparr>rn_store := Some (st, \<sigma>2)\<rparr>, e2)))"

section \<open>TestRunner\<close>

text \<open>The wrapper hands every call on to its runner; \<open>WithCrash\<close> is its own.\<close>

record ('e, 's) test_runner =
  tr_runner :: "('e, 's) runner"

definition NewTestRunner :: "('e, 's) test_runner" where
  "NewTestRunner = \<lparr> tr_runner = NewRunner \<rparr>"

definition tr_delegate :: "(('e, 's) runner \<Rightarrow> ('e, 's) runner) \<Rightarrow> ('e, 's) test_runner \<Rightarrow> ('e, 's) test_runner" where
  "tr_delegate f tr = tr\<lparr>tr_runner := f (tr_runner tr)\<rparr>"

definition tr_WithContext :: "'e go_context option \<Rightarrow> ('e, 's) test_runner \<Rightarrow> ('e, 's) test_runner" where
  "tr_WithContext c = tr_delegate (rn_WithContext c)"

definition tr_WithWasmPath :: "string \<Rightarrow> ('e, 's) test_runner \<Rightarrow> ('e, 's) test_runner" where
  "tr_WithWasmPath p = tr_delegate (rn_WithWasmPath p)"

definition tr_WithWasmBytes :: "bytes \<Rightarrow> ('e, 's) test_runner \<Rightarrow> ('e, 's) test_runner" where
  "tr_WithWasmBytes b = tr_delegate (rn_WithWasmBytes b)"

definition tr_WithStore :: "('s store_ops \<times> 's) option \<Rightarrow> ('e, 's) test_runner \<Rightarrow> ('e, 's) test_runner" where
  "tr_WithStore st = tr_delegate (rn_WithStore st)"

definition tr_WithMemoryStore :: "codec \<Rightarrow> ('e, memory_store) test_runner \<Rightarrow> ('e, memory_store) test_runner" where
  "tr_WithMemoryStore cd = tr_delegate (rn_WithMemoryStore cd)"

definition tr_WithSessionID :: "string \<Rightarrow> ('e, 's) test_runner \<Rightarrow> ('e, 's) test_runner" where
  "tr_WithSessionID iid = tr_delegate (rn_WithSessionID iid)"

definition tr_WithEntrypoint :: "string \<Rightarrow> ('e, 's) test_runner \<Rightarrow> ('e, 's) test_runner" where
  "tr_WithEntrypoint ep = tr_delegate (rn_WithEntrypoint ep)"

definition tr_WithApiHandler :: "'e api_handler option \<Rightarrow> ('e, 's) test_runner \<Rightarrow> ('e, 's) test_runner" where
  "tr_WithApiHandler h = tr_delegate (rn_WithApiHandler h)"

definition tr_WithDownloadHandler :: "'e download_handler option \<Rightarrow> ('e, 's) test_runner \<Rightarrow> ('e, 's) test_runner" where
  "tr_WithDownloadHandler h = tr_delegate (rn_WithDownloadHandler h)"

definition tr_WithUploadHandler :: "'e upload_handler option \<Rightarrow> ('e, 's) test_runner \<Rightarrow> ('e, 's) test_runner" where
  "tr_WithUploadHandler h = tr_delegate (rn_WithUploadHandler h)"

definition tr_WithServer :: "string \<Rightarrow> ('e, 's) test_runner \<Rightarrow> ('e, 's) test_runner" where
  "tr_WithServer addr = tr_delegate (rn_WithServer addr)"

definition tr_WithArgs :: "u64 list \<Rightarrow> ('e, 's) test_runner \<Rightarrow> ('e, 's) test_runner" where
  "tr_WithArgs ps = tr_delegate (rn_WithArgs ps)"

definition tr_WithCrash :: "bool \<Rightarrow> ('e, 's) test_runner \<Rightarrow> ('e, 's) test_runner" where
  "tr_WithCrash shouldCrash = tr_delegate (unless_err (\<lambda>r. r\<lparr>rn_shouldCrash := shouldCrash\<rparr>))"

definition tr_Error :: "('e, 's) test_runner \<Rightarrow> go_error option" where
  "tr_Error tr = rn_Error (tr_runner tr)"

definition tr_Run :: "'m memory_api \<Rightarrow> ('c, 'm, 'r) wazero \<Rightarrow> ('e \<Rightarrow> int \<times> 'e) \<Rightarrow>
    (string \<Rightarrow> go_error + bytes) \<Rightarrow> (bytes \<Rightarrow> string) \<Rightarrow> ('e, 's) test_runner \<Rightarrow> 'e \<Rightarrow>
    (bool \<times> go_error option) outcome \<times> ('e, 's) test_runner \<times> 'e" where
  "tr_Run M W clock ReadFile sha tr e =
     (let (res, r, e') = rn_Run M W clock ReadFile sha (tr_runner tr) e in (res, tr\<lparr>tr_runner := r\<rparr>, e'))"

section \<open>The sticky error\<close>

text \<open>A chained call, for statements about chains of calls.\<close>

datatype ('e, 's) setter =
    SContext "'e go_context option" | SWasmPath string | SWasmBytes bytes
  | SStore "('s store_ops \<times> 's) option" | SSessionID string | SEntrypoint string
  | SApiHandler "'e api_handler option" | SDownloadHandler "'e download_handler option"
  | SUploadHandler "'e upload_handler option" | SServer string | SArgs "u64 list"

fun apply_setter :: "('e, 's) setter \<Rightarrow> ('e, 's) runner \<Rightarrow> ('e, 's) runner" where
  "apply_setter (SContext c) = rn_WithContext c"
| "apply_setter (SWasmPath p) = rn_WithWasmPath p"
| "apply_setter (SWasmBytes b) = rn_WithWasmBytes b"
| "apply_setter (SStore st) = rn_WithStore st"
| "apply_setter (SSessionID iid) = rn_WithSessionID iid"
| "apply_setter (SEntrypoint ep) = rn_WithEntrypoint ep"
| "apply_setter (SApiHandler h) = rn_WithApiHandler h"
| "apply_setter (SDownloadHandler h) = rn_WithDownloadHandler h"
| "apply_setter (SUploadHandler h) = rn_WithUploadHandler h"
| "apply_setter (SServer a) = rn_WithServer a"
| "apply_setter (SArgs ps) = rn_WithArgs ps"

lemmas setter_defs = rn_WithContext_def rn_WithWasmPath_def rn_WithWasmBytes_def rn_WithStore_def
  rn_WithSessionID_def rn_WithEntrypoint_def rn_WithApiHandler_def rn_WithDownloadHandler_def
  rn_WithUploadHandler_def rn_WithServer_def rn_WithArgs_def unless_err_def

text \<open>
  A chained call of a \<open>TestRunner\<close>: every method it has. \<open>WithMemoryStore\<close> makes the store one in memory, so these
  calls are on a runner for that store.
\<close>

datatype 'e test_setter = TSetter "('e, memory_store) setter" | TMemoryStore codec | TCrash bool

fun apply_test_setter :: "'e test_setter \<Rightarrow> ('e, memory_store) test_runner \<Rightarrow> ('e, memory_store) test_runner" where
  "apply_test_setter (TSetter (SContext c)) = tr_WithContext c"
| "apply_test_setter (TSetter (SWasmPath p)) = tr_WithWasmPath p"
| "apply_test_setter (TSetter (SWasmBytes b)) = tr_WithWasmBytes b"
| "apply_test_setter (TSetter (SStore st)) = tr_WithStore st"
| "apply_test_setter (TSetter (SSessionID iid)) = tr_WithSessionID iid"
| "apply_test_setter (TSetter (SEntrypoint ep)) = tr_WithEntrypoint ep"
| "apply_test_setter (TSetter (SApiHandler h)) = tr_WithApiHandler h"
| "apply_test_setter (TSetter (SDownloadHandler h)) = tr_WithDownloadHandler h"
| "apply_test_setter (TSetter (SUploadHandler h)) = tr_WithUploadHandler h"
| "apply_test_setter (TSetter (SServer a)) = tr_WithServer a"
| "apply_test_setter (TSetter (SArgs ps)) = tr_WithArgs ps"
| "apply_test_setter (TMemoryStore cd) = tr_WithMemoryStore cd"
| "apply_test_setter (TCrash b) = tr_WithCrash b"

lemmas test_setter_defs = tr_WithContext_def tr_WithWasmPath_def tr_WithWasmBytes_def tr_WithStore_def
  tr_WithSessionID_def tr_WithEntrypoint_def tr_WithApiHandler_def tr_WithDownloadHandler_def
  tr_WithUploadHandler_def tr_WithServer_def tr_WithArgs_def tr_WithMemoryStore_def rn_WithMemoryStore_def
  tr_WithCrash_def tr_delegate_def tr_Error_def rn_Error_def

lemma setter_sticky: "rn_err r = Some x \<Longrightarrow> apply_setter c r = r"
  by (cases c) (simp_all add: setter_defs)

lemma setters_sticky: "rn_err r = Some x \<Longrightarrow> fold apply_setter cs r = r"
  by (induction cs) (simp_all add: setter_sticky)

lemma test_setter_sticky: "tr_Error tr = Some x \<Longrightarrow> apply_test_setter c tr = tr"
  by (cases c rule: apply_test_setter.cases) (simp_all add: test_setter_defs setter_defs)

lemma test_setters_sticky: "tr_Error tr = Some x \<Longrightarrow> fold apply_test_setter cs tr = tr"
  by (induction cs) (simp_all add: test_setter_sticky)

lemma first_error_kept:
  assumes "rn_err (fold apply_setter cs r) = Some x"
  shows "rn_err (fold apply_setter (cs @ ds) r) = Some x"
  using assms by (simp add: setters_sticky)

lemma Run_sticky: "rn_err r = Some x \<Longrightarrow> rn_Run M W clock ReadFile sha r e = (Ret (False, Some x), r, e)"
  by (simp add: rn_Run_def)

lemma test_Run_sticky: "tr_Error tr = Some x \<Longrightarrow> tr_Run M W clock ReadFile sha tr e = (Ret (False, Some x), tr, e)"
  by (simp add: tr_Run_def tr_Error_def rn_Error_def Run_sticky)

lemma Run_crash_sticks:
  assumes "rn_Run M W clock ReadFile sha r e = (Ret (True, Some x), r', e')"
  shows "rn_err r' = Some x \<and> rn_crashed r'"
  using assms by (auto simp: rn_Run_def split: if_splits option.splits prod.splits sum.splits outcome.splits)

lemma run_ctx_handlers:
  "getApiHandler (run_ctx r) = (case rn_apiHandler r of None \<Rightarrow> getApiHandler (rn_ctx r) | Some h \<Rightarrow> Some h)"
  "getDownloadHandler (run_ctx r) = (case rn_downloadHandler r of None \<Rightarrow> getDownloadHandler (rn_ctx r) | Some h \<Rightarrow> Some h)"
  "getUploadHandler (run_ctx r) = (case rn_uploadHandler r of None \<Rightarrow> getUploadHandler (rn_ctx r) | Some h \<Rightarrow> Some h)"
  by (auto simp: run_ctx_def getApiHandler_def getDownloadHandler_def getUploadHandler_def WithApiHandler_def
      WithDownloadHandler_def WithUploadHandler_def Let_def split: option.split)

end
