(* ===== verification/Runner_Example.thy ===== *)
theory Runner_Example
  imports Runner_Builder Memory_Engine Json_Text
begin

text \<open>
  A configured runner over the in-memory store and the byte-list runtime, and its run with the
  simulated crash, for the examples of the root theory.
\<close>

definition demo_runner :: "(unit, memory_store) runner" where
  "demo_runner = NewRunner\<lparr>rn_wasmBytes := [1], rn_instanceID := ''i'',
     rn_store := Some (memory_ops compact_codec, NewMemorySnapshotStore)\<rparr>"

lemma demo_runner_chain:
  "demo_runner = rn_WithMemoryStore compact_codec (rn_WithSessionID ''i'' (rn_WithWasmBytes [1] NewRunner))"
  by (simp add: demo_runner_def rn_WithMemoryStore_def rn_WithSessionID_def rn_WithWasmBytes_def unless_err_def NewRunner_def)

lemma demo_runner_crashes:
  "\<exists>r' e'. rn_Run list_memory (list_runtime (one_page 0) demo_exports) demo_clock (\<lambda>p. Inl (NotExist p)) (\<lambda>b. ''h1'')
      (demo_runner\<lparr>rn_shouldCrash := True\<rparr>) () =
      (Ret (True, Some (Err ''simulated_host_crash (recovered by wazero)'')), r', e')"
proof -
  let ?W = "list_runtime (one_page 0) demo_exports" and ?st = "memory_ops compact_codec"
  let ?\<sigma> = "NewMemorySnapshotStore\<lparr>ms_wasm := [''h1'' \<mapsto> [1]]\<rparr>"
  let ?eng = "\<lparr> eng_runtime = Map.empty, eng_compiled = [1], eng_wasmHash = ''h1'',
     eng_compiledCache = [''h1'' \<mapsto> [1]], eng_activeSessions = Map.empty \<rparr> :: (bytes, bytes, string \<rightharpoonup> bytes, unit) engine"
  have eng: "NewEngineWithBytes (\<lambda>b. ''h1'') ?st ?W [1] [] NewMemorySnapshotStore = (Inr ?eng, ?\<sigma>)"
    by (simp add: NewEngineWithBytes_def make_engine_def store_simps ms_SaveWasm_def list_runtime_def NewMemorySnapshotStore_def Let_def)
  obtain res eng' \<sigma>' e' where x: "ExecuteWithArgs ?st list_memory ?W demo_clock Background ''i'' ''run'' [] True [] ?eng ?\<sigma> () =
      (res, eng', \<sigma>', e')" by (metis prod_cases4)
  have "ms_inv ?\<sigma>" by (simp add: ms_inv_def NewMemorySnapshotStore_def)
  moreover have "i_meta (ms_view ?\<sigma> ''i'') = None" "i_snapshot (ms_view ?\<sigma> ''i'') = None" "i_deltas (ms_view ?\<sigma> ''i'') = Map.empty"
    by (simp_all add: ms_view_def NewMemorySnapshotStore_def)
  ultimately have "res = Ret (True, Some (rt_recovered ?W ''simulated_host_crash''))"
    using mem_engine.execute_crashes[where entrypoint = "''run''" and runFunc = "\<lambda>_ m. Checkpoint (one_page 1) (\<lambda>m. Return m [])",
        OF _ _ _ _ _ _ _ _ demo_boot demo_run refl one_page_valid one_page_ne _ _ _ x]
    by (simp add: Background_def)
  then have "res = Ret (True, Some (Err ''simulated_host_crash (recovered by wazero)''))" by (simp add: list_runtime_def)
  moreover have "run_ctx (demo_runner\<lparr>rn_shouldCrash := True\<rparr>) = Background"
    by (simp add: run_ctx_def demo_runner_def NewRunner_def)
  ultimately show ?thesis using x eng
    by (simp add: rn_Run_def demo_runner_def NewRunner_def)
qed

end
