(* ===== verification/S3_Store.thy ===== *)
theory S3_Store
  imports Blob_Layout
begin

text \<open>
  \<open>s3_store.go\<close>: the store over an S3-compatible object service. The SDK client is a parameter, a
  record of the four requests the code sends; the locale \<open>object_service\<close> states the documented
  behaviour of the service: an object with its entity tag, writes on a condition, deletion, listing.
  There is no mutex: the metadata swap is one conditional request, every other update reads an
  object and writes it back. Every method of the type is a definition here.
\<close>

section \<open>The client\<close>

text \<open>The fields of \<open>s3.PutObjectInput\<close> that the code sets.\<close>

record put_input =
  pi_Bucket :: string
  pi_Key :: string
  pi_Body :: bytes
  pi_IfNoneMatch :: "string option"
  pi_IfMatch :: "string option"

text \<open>
  \<open>'o\<close> is the state of the service. \<open>s3_GetObject\<close> gives the body, which can fail while it is read,
  and the entity tag; \<open>s3_ListObjectsV2\<close> gives the pages of a listing, with the keys of a page.
\<close>

record 'o s3_client =
  s3_GetObject :: "string \<Rightarrow> string \<Rightarrow> 'o \<Rightarrow> go_error + (go_error + bytes) \<times> string option"
  s3_PutObject :: "put_input \<Rightarrow> 'o \<Rightarrow> (go_error + string option) \<times> 'o"
  s3_DeleteObject :: "string \<Rightarrow> string \<Rightarrow> 'o \<Rightarrow> go_error option \<times> 'o"
  s3_ListObjectsV2 :: "string \<Rightarrow> string \<Rightarrow> 'o \<Rightarrow> (go_error + string option list) list"

record 'o s3_store =
  s3_Client :: "'o s3_client"
  s3_bucket :: string

definition NewS3SnapshotStore :: "(go_error + 'cfg) \<Rightarrow> ('cfg \<Rightarrow> 'o s3_client) \<Rightarrow> string \<Rightarrow> go_error + 'o s3_store" where
  "NewS3SnapshotStore LoadDefaultConfig NewFromConfig bucket =
     (case LoadDefaultConfig of
        Inl err \<Rightarrow> Inl (Wrap ''unable to load SDK config'' err)
      | Inr cfg \<Rightarrow> Inr \<lparr> s3_Client = NewFromConfig cfg, s3_bucket = bucket \<rparr>)"

section \<open>Errors\<close>

definition isNotFound :: "go_error option \<Rightarrow> bool" where
  "isNotFound err =
     (case err of
        None \<Rightarrow> False
      | Some e \<Rightarrow>
          if as_api_code e = Some ''NoSuchKey'' \<or> as_api_code e = Some ''NotFound'' then True
          else let errStr = ToLower (Error e)
               in Contains errStr ''404'' \<or> Contains errStr ''nosuchkey'' \<or> Contains errStr ''notfound'' \<or>
                  Contains errStr ''not found'')"

definition isPreconditionFailed :: "go_error option \<Rightarrow> bool" where
  "isPreconditionFailed err =
     (case err of
        None \<Rightarrow> False
      | Some e \<Rightarrow>
          if (case as_api_code e of
                None \<Rightarrow> False
              | Some code \<Rightarrow> code = ''PreconditionFailed'' \<or> Contains (ToLower code) ''precondition'') then True
          else let errStr = ToLower (Error e)
               in Contains errStr ''412'' \<or> Contains errStr ''preconditionfailed'' \<or>
                  Contains errStr ''precondition failed'')"

section \<open>Objects\<close>

definition readObject :: "'o s3_store \<Rightarrow> string \<Rightarrow> 'o \<Rightarrow> go_error + bytes \<times> string" where
  "readObject S key \<sigma> =
     (case s3_GetObject (s3_Client S) (s3_bucket S) key \<sigma> of
        Inl err \<Rightarrow> Inl err
      | Inr (body, tag) \<Rightarrow>
          (case body of
             Inl err \<Rightarrow> Inl err
           | Inr data \<Rightarrow> Inr (data, case tag of None \<Rightarrow> [] | Some t \<Rightarrow> t)))"

definition put_plain :: "'o s3_store \<Rightarrow> string \<Rightarrow> bytes \<Rightarrow> put_input" where
  "put_plain S key data = \<lparr> pi_Bucket = s3_bucket S, pi_Key = key, pi_Body = data, pi_IfNoneMatch = None, pi_IfMatch = None \<rparr>"

definition writeObject :: "'o s3_store \<Rightarrow> string \<Rightarrow> bytes \<Rightarrow> 'o \<Rightarrow> (go_error + string) \<times> 'o" where
  "writeObject S key data \<sigma> =
     (case s3_PutObject (s3_Client S) (put_plain S key data) \<sigma> of
        (Inl err, \<sigma>1) \<Rightarrow> (Inl err, \<sigma>1)
      | (Inr tag, \<sigma>1) \<Rightarrow> (Inr (case tag of None \<Rightarrow> [] | Some t \<Rightarrow> t), \<sigma>1))"

text \<open>\<open>compressData\<close> and \<open>writeObject\<close> with their errors wrapped.\<close>

definition put_compressed :: "codec \<Rightarrow> string \<Rightarrow> string \<Rightarrow> 'o s3_store \<Rightarrow> string \<Rightarrow> bytes \<Rightarrow> 'o \<Rightarrow> go_error option \<times> 'o" where
  "put_compressed cd compressMsg writeMsg S key data \<sigma> =
     (case compressData cd data of
        Inl err \<Rightarrow> (Some (Wrap compressMsg err), \<sigma>)
      | Inr z \<Rightarrow>
          (case writeObject S key z \<sigma> of
             (Inl err, \<sigma>1) \<Rightarrow> (Some (Wrap writeMsg err), \<sigma>1)
           | (Inr _, \<sigma>1) \<Rightarrow> (None, \<sigma>1)))"

definition quoted :: "string \<Rightarrow> string" where
  "quoted s = [CHR 0x27] @ s @ [CHR 0x27]"

section \<open>Keys\<close>

definition snapshot_key :: "string \<Rightarrow> string" where
  "snapshot_key iid = ''instances/'' @ iid @ ''/snapshot.bin''"

definition deltas_key :: "string \<Rightarrow> string" where
  "deltas_key iid = ''instances/'' @ iid @ ''/deltas.json''"

definition oplog_key :: "string \<Rightarrow> string" where
  "oplog_key iid = ''instances/'' @ iid @ ''/oplog.json''"

definition meta_key :: "string \<Rightarrow> string" where
  "meta_key iid = ''instances/'' @ iid @ ''/meta.json''"

definition active_key :: "string \<Rightarrow> string" where
  "active_key iid = ''instances/'' @ iid @ ''/active.json''"

definition wasm_key :: "string \<Rightarrow> string" where
  "wasm_key hash = ''wasm/'' @ hash @ ''.wasm''"

section \<open>S3SnapshotStore\<close>

definition s3_Save :: "codec \<Rightarrow> 'o s3_store \<Rightarrow> string \<Rightarrow> bytes \<Rightarrow> 'o \<Rightarrow> go_error option \<times> 'o" where
  "s3_Save cd S iid snapshot \<sigma> =
     put_compressed cd (''failed to compress snapshot for '' @ quoted iid) (''failed to save snapshot for '' @ quoted iid)
       S (snapshot_key iid) snapshot \<sigma>"

definition s3_Load :: "codec \<Rightarrow> 'o s3_store \<Rightarrow> string \<Rightarrow> 'o \<Rightarrow> go_error + bytes" where
  "s3_Load cd S iid \<sigma> =
     (case readObject S (snapshot_key iid) \<sigma> of Inl err \<Rightarrow> Inl err | Inr (data, _) \<Rightarrow> decompressData cd data)"

text \<open>
  The two requests of \<open>SaveDeltas\<close>: what the read finds (every error of the decoding counts as an
  empty map, an error of the request as well if it looks like a missing object), and the write of the
  merged map.
\<close>

definition s3_read_deltas :: "codec \<Rightarrow> 'o s3_store \<Rightarrow> string \<Rightarrow> 'o \<Rightarrow> go_error + deltas" where
  "s3_read_deltas cd S iid \<sigma> =
     (case readObject S (deltas_key iid) \<sigma> of
        Inr (data, _) \<Rightarrow> Inr (decode_deltas cd data)
      | Inl err \<Rightarrow> if \<not> isNotFound (Some err) then Inl (Wrap ''failed to read deltas from S3'' err) else Inr [])"

definition s3_write_deltas :: "codec \<Rightarrow> 'o s3_store \<Rightarrow> string \<Rightarrow> deltas \<Rightarrow> deltas \<Rightarrow> 'o \<Rightarrow> go_error option \<times> 'o" where
  "s3_write_deltas cd S iid current ds \<sigma> =
     put_compressed cd ''failed to compress deltas'' ''failed to write deltas to S3'' S (deltas_key iid)
       (json_text cd (marshal_deltas (foldl (\<lambda>m kv. AList.update (fst kv) (snd kv) m) current ds))) \<sigma>"

definition s3_SaveDeltas :: "codec \<Rightarrow> 'o s3_store \<Rightarrow> string \<Rightarrow> deltas \<Rightarrow> 'o \<Rightarrow> go_error option \<times> 'o" where
  "s3_SaveDeltas cd S iid ds \<sigma> =
     (case s3_read_deltas cd S iid \<sigma> of
        Inl err \<Rightarrow> (Some err, \<sigma>)
      | Inr current \<Rightarrow> s3_write_deltas cd S iid current ds \<sigma>)"

text \<open>A decoding of a read object whose errors are wrapped.\<close>

definition decode_object :: "codec \<Rightarrow> string \<Rightarrow> string \<Rightarrow> (json \<Rightarrow> 'a \<times> bool) \<Rightarrow> bytes \<Rightarrow> go_error + 'a" where
  "decode_object cd decompressMsg unmarshalMsg dec data =
     (case decompressData cd data of
        Inl err \<Rightarrow> Inl (Wrap decompressMsg err)
      | Inr d \<Rightarrow> (case unmarshal cd dec d of Inl err \<Rightarrow> Inl (Wrap unmarshalMsg err) | Inr x \<Rightarrow> Inr x))"

definition s3_LoadDeltas :: "codec \<Rightarrow> 'o s3_store \<Rightarrow> string \<Rightarrow> 'o \<Rightarrow> go_error + deltas" where
  "s3_LoadDeltas cd S iid \<sigma> =
     (case readObject S (deltas_key iid) \<sigma> of
        Inl err \<Rightarrow> if isNotFound (Some err) then Inr [] else Inl (Wrap ''failed to load deltas from S3'' err)
      | Inr (data, _) \<Rightarrow>
          decode_object cd ''failed to decompress deltas from S3'' ''failed to unmarshal deltas'' (unmarshal_deltas []) data)"

text \<open>A deletion; an error that looks like a missing object is none.\<close>

definition delete_key :: "string \<Rightarrow> 'o s3_store \<Rightarrow> string \<Rightarrow> 'o \<Rightarrow> go_error option \<times> 'o" where
  "delete_key msg S key \<sigma> =
     (case s3_DeleteObject (s3_Client S) (s3_bucket S) key \<sigma> of
        (Some err, \<sigma>1) \<Rightarrow> (if \<not> isNotFound (Some err) then Some (Wrap msg err) else None, \<sigma>1)
      | (None, \<sigma>1) \<Rightarrow> (None, \<sigma>1))"

definition s3_TruncateDeltas :: "'o s3_store \<Rightarrow> string \<Rightarrow> 'o \<Rightarrow> go_error option \<times> 'o" where
  "s3_TruncateDeltas S iid \<sigma> = delete_key ''failed to truncate deltas on S3'' S (deltas_key iid) \<sigma>"

text \<open>The two requests of \<open>SaveOplog\<close>.\<close>

definition s3_read_oplog :: "codec \<Rightarrow> 'o s3_store \<Rightarrow> string \<Rightarrow> 'o \<Rightarrow> go_error + oplog_entry list" where
  "s3_read_oplog cd S iid \<sigma> =
     (case readObject S (oplog_key iid) \<sigma> of
        Inr (data, _) \<Rightarrow> Inr (decode_oplog cd data)
      | Inl err \<Rightarrow> if \<not> isNotFound (Some err) then Inl (Wrap ''failed to read oplog from S3'' err) else Inr [])"

definition s3_append_oplog :: "codec \<Rightarrow> 'o s3_store \<Rightarrow> string \<Rightarrow> oplog_entry list \<Rightarrow> oplog_entry \<Rightarrow> 'o \<Rightarrow>
    go_error option \<times> 'o" where
  "s3_append_oplog cd S iid lst entry \<sigma> =
     put_compressed cd ''failed to compress oplog'' ''failed to write oplog to S3'' S (oplog_key iid)
       (json_text cd (marshal_oplog (lst @ [entry]))) \<sigma>"

definition s3_SaveOplog :: "codec \<Rightarrow> 'o s3_store \<Rightarrow> string \<Rightarrow> int \<Rightarrow> string \<Rightarrow> bytes \<Rightarrow> bytes \<Rightarrow> 'o \<Rightarrow>
    go_error option \<times> 'o" where
  "s3_SaveOplog cd S iid callIndex apiName request response \<sigma> =
     (case s3_read_oplog cd S iid \<sigma> of
        Inl err \<Rightarrow> (Some err, \<sigma>)
      | Inr lst \<Rightarrow> s3_append_oplog cd S iid lst (mk_entry callIndex apiName request response) \<sigma>)"

definition s3_LoadOplog :: "codec \<Rightarrow> 'o s3_store \<Rightarrow> string \<Rightarrow> 'o \<Rightarrow> go_error + oplog_entry list" where
  "s3_LoadOplog cd S iid \<sigma> =
     (case readObject S (oplog_key iid) \<sigma> of
        Inl err \<Rightarrow> if isNotFound (Some err) then Inr [] else Inl (Wrap ''failed to load oplog from S3'' err)
      | Inr (data, _) \<Rightarrow>
          decode_object cd ''failed to decompress oplog from S3'' ''failed to unmarshal oplog'' unmarshal_oplog data)"

definition s3_TruncateOplog :: "codec \<Rightarrow> 'o s3_store \<Rightarrow> string \<Rightarrow> int \<Rightarrow> 'o \<Rightarrow> go_error option \<times> 'o" where
  "s3_TruncateOplog cd S iid beforeCallIndex \<sigma> =
     (case readObject S (oplog_key iid) \<sigma> of
        Inl err \<Rightarrow>
          (if isNotFound (Some err) then None else Some (Wrap ''failed to read oplog for truncate from S3'' err), \<sigma>)
      | Inr (data, _) \<Rightarrow>
          (case decode_object cd ''failed to decompress oplog for truncate from S3''
                  ''failed to unmarshal oplog for truncate'' unmarshal_oplog data of
             Inl err \<Rightarrow> (Some err, \<sigma>)
           | Inr lst \<Rightarrow>
               put_compressed cd ''failed to compress truncated oplog'' ''failed to write truncated oplog to S3''
                 S (oplog_key iid)
                 (json_text cd (marshal_oplog (filter (\<lambda>e. CallIndex e > beforeCallIndex) lst))) \<sigma>))"

text \<open>
  The swap of the metadata in one request: a new instance must have no object, an existing one the
  object whose tag was loaded. The tag itself is not part of the document.
\<close>

definition next_meta :: "instance_meta \<Rightarrow> instance_meta" where
  "next_meta m = m\<lparr>Version := (if Version m = 0 then 1 else Version m + 1), ETag := []\<rparr>"

definition meta_put :: "codec \<Rightarrow> 'o s3_store \<Rightarrow> instance_meta \<Rightarrow> put_input" where
  "meta_put cd S m =
     (let plain = put_plain S (meta_key (InstanceID m)) (json_text cd (marshal_meta (next_meta m)))
      in if Version m = 0 then plain\<lparr>pi_IfNoneMatch := Some ''*''\<rparr> else plain\<lparr>pi_IfMatch := Some (ETag m)\<rparr>)"

definition s3_SaveMetadata :: "codec \<Rightarrow> 'o s3_store \<Rightarrow> instance_meta \<Rightarrow> 'o \<Rightarrow>
    (go_error + bool) \<times> instance_meta \<times> 'o" where
  "s3_SaveMetadata cd S m \<sigma> =
     (case s3_PutObject (s3_Client S) (meta_put cd S m) \<sigma> of
        (Inl err, \<sigma>1) \<Rightarrow>
          if isPreconditionFailed (Some err) then (Inr False, m, \<sigma>1)
          else (Inl (Wrap ''failed to save metadata to S3'' err), m, \<sigma>1)
      | (Inr tag, \<sigma>1) \<Rightarrow>
          (Inr True, m\<lparr>Version := Version (next_meta m), ETag := (case tag of None \<Rightarrow> ETag m | Some t \<Rightarrow> t)\<rparr>, \<sigma>1))"

definition s3_LoadMetadata :: "codec \<Rightarrow> 'o s3_store \<Rightarrow> string \<Rightarrow> 'o \<Rightarrow> go_error + instance_meta option" where
  "s3_LoadMetadata cd S iid \<sigma> =
     (case readObject S (meta_key iid) \<sigma> of
        Inl err \<Rightarrow> if isNotFound (Some err) then Inr None else Inl (Wrap ''failed to load metadata from S3'' err)
      | Inr (data, tag) \<Rightarrow>
          (case unmarshal cd unmarshal_meta data of
             Inl err \<Rightarrow> Inl (Wrap ''failed to unmarshal metadata'' err)
           | Inr m \<Rightarrow> Inr (Some (m\<lparr>ETag := tag\<rparr>))))"

definition s3_SaveWasm :: "codec \<Rightarrow> 'o s3_store \<Rightarrow> string \<Rightarrow> bytes \<Rightarrow> 'o \<Rightarrow> go_error option \<times> 'o" where
  "s3_SaveWasm cd S hash wasmBytes \<sigma> =
     put_compressed cd (''failed to compress WASM module '' @ hash)
       (''failed to save WASM module '' @ hash @ '' to S3'') S (wasm_key hash) wasmBytes \<sigma>"

definition s3_LoadWasm :: "codec \<Rightarrow> 'o s3_store \<Rightarrow> string \<Rightarrow> 'o \<Rightarrow> go_error + bytes" where
  "s3_LoadWasm cd S hash \<sigma> =
     (case readObject S (wasm_key hash) \<sigma> of
        Inl err \<Rightarrow>
          if isNotFound (Some err) then Inl (Err (''wasm module not found: '' @ hash))
          else Inl (Wrap (''failed to load WASM module '' @ hash @ '' from S3'') err)
      | Inr (data, _) \<Rightarrow> decompressData cd data)"

text \<open>\<open>Delete\<close> stops at the first key that cannot be deleted.\<close>

fun delete_keys :: "'o s3_store \<Rightarrow> string list \<Rightarrow> 'o \<Rightarrow> go_error option \<times> 'o" where
  "delete_keys S [] \<sigma> = (None, \<sigma>)"
| "delete_keys S (key # keys) \<sigma> =
     (case delete_key (''failed to delete key '' @ key @ '' from S3'') S key \<sigma> of
        (Some err, \<sigma>1) \<Rightarrow> (Some err, \<sigma>1)
      | (None, \<sigma>1) \<Rightarrow> delete_keys S keys \<sigma>1)"

definition s3_Delete :: "'o s3_store \<Rightarrow> string \<Rightarrow> 'o \<Rightarrow> go_error option \<times> 'o" where
  "s3_Delete S iid \<sigma> =
     delete_keys S [snapshot_key iid, deltas_key iid, oplog_key iid, meta_key iid, active_key iid] \<sigma>"

definition s3_UpdateActiveIndex :: "'o s3_store \<Rightarrow> string \<Rightarrow> bytes \<Rightarrow> bool \<Rightarrow> 'o \<Rightarrow> go_error option \<times> 'o" where
  "s3_UpdateActiveIndex S iid info completed \<sigma> =
     (if completed
      then delete_key (''failed to delete active status for '' @ iid @ '' from S3'') S (active_key iid) \<sigma>
      else case s3_PutObject (s3_Client S) (put_plain S (active_key iid) info) \<sigma> of
             (Inl err, \<sigma>1) \<Rightarrow> (Some (Wrap (''failed to write active status for '' @ iid @ '' to S3'') err), \<sigma>1)
           | (Inr _, \<sigma>1) \<Rightarrow> (None, \<sigma>1))"

text \<open>
  The keys of the index objects on the pages of the listing, and the entries in the order in which
  the parallel reads answer; the first answer that is an error ends the loop.
\<close>

fun active_keys :: "(go_error + string option list) list \<Rightarrow> go_error + string list" where
  "active_keys [] = Inr []"
| "active_keys (Inl err # pages) = Inl (Wrap ''failed to list instances prefix'' err)"
| "active_keys (Inr page # pages) =
     (case active_keys pages of
        Inl err \<Rightarrow> Inl err
      | Inr keys \<Rightarrow> Inr (concat (map (\<lambda>k. case k of None \<Rightarrow> [] | Some key \<Rightarrow> if HasSuffix key ''/active.json'' then [key] else []) page) @ keys))"

fun collect_active :: "codec \<Rightarrow> (go_error + bytes \<times> string) list \<Rightarrow> go_error + index_entry list" where
  "collect_active cd [] = Inr []"
| "collect_active cd (Inl err # rs) = Inl (Wrap ''failed to read active instance info'' err)"
| "collect_active cd (Inr (data, _) # rs) =
     (case unmarshal cd dec_info data of
        Inl err \<Rightarrow> Inl (Wrap ''failed to unmarshal active instance info'' err)
      | Inr item \<Rightarrow> (case collect_active cd rs of Inl err \<Rightarrow> Inl err | Inr items \<Rightarrow> Inr (item # items)))"

text \<open>\<open>arrival\<close> is the order in which the goroutines answer.\<close>

definition s3_LoadActiveIndex :: "codec \<Rightarrow> (string list \<Rightarrow> string list) \<Rightarrow> 'o s3_store \<Rightarrow> 'o \<Rightarrow> go_error + bytes" where
  "s3_LoadActiveIndex cd arrival S \<sigma> =
     (case active_keys (s3_ListObjectsV2 (s3_Client S) (s3_bucket S) ''instances/'' \<sigma>) of
        Inl err \<Rightarrow> Inl err
      | Inr keys \<Rightarrow>
          if length keys = 0 then Inr (bytes_of_string ''[]'')
          else case collect_active cd (map (\<lambda>k. readObject S k \<sigma>) (arrival keys)) of
                 Inl err \<Rightarrow> Inl err
               | Inr activeList \<Rightarrow> Inr (json_text cd (JArr (map enc_entry activeList))))"

definition s3_ops :: "codec \<Rightarrow> (string list \<Rightarrow> string list) \<Rightarrow> 'o s3_store \<Rightarrow> 'o store_ops" where
  "s3_ops cd arrival S = \<lparr> st_Save = s3_Save cd S, st_Load = s3_Load cd S, st_Delete = s3_Delete S,
     st_SaveDeltas = s3_SaveDeltas cd S, st_LoadDeltas = s3_LoadDeltas cd S,
     st_TruncateDeltas = s3_TruncateDeltas S, st_SaveOplog = s3_SaveOplog cd S,
     st_LoadOplog = s3_LoadOplog cd S, st_TruncateOplog = s3_TruncateOplog cd S,
     st_SaveMetadata = s3_SaveMetadata cd S, st_LoadMetadata = s3_LoadMetadata cd S,
     st_SaveWasm = s3_SaveWasm cd S, st_LoadWasm = s3_LoadWasm cd S,
     st_UpdateActiveIndex = s3_UpdateActiveIndex S, st_LoadActiveIndex = s3_LoadActiveIndex cd arrival S \<rparr>"

end
