(* ===== verification/S3_Contract.thy ===== *)
theory S3_Contract
  imports S3_Store "HOL-Library.Multiset"
begin

text \<open>
  The S3 store keeps the contract of a snapshot store whenever the object service behaves as
  documented: its compare-and-swap is the entity tag of the metadata object. The locale
  \<open>object_service\<close> is the service, \<open>s3_bucket_store\<close> the store over one bucket of it.
\<close>

section \<open>The service\<close>

text \<open>
  \<open>objs\<close> are the objects of a bucket, \<open>etag\<close> the tag of an object with some content, and \<open>up\<close> says that
  the service answers. A conditional write of an object that is not there is answered with 404, one
  whose condition fails with 412. The texts of the errors, which carry request identifiers, can be
  anything.
\<close>

locale object_service =
  fixes C :: "'o s3_client"
    and up :: "'o \<Rightarrow> bool"
    and objs :: "'o \<Rightarrow> string \<Rightarrow> string \<rightharpoonup> bytes"
    and etag :: "bytes \<Rightarrow> string"
  assumes Get_object: "up \<sigma> \<Longrightarrow> objs \<sigma> b k = Some d \<Longrightarrow> s3_GetObject C b k \<sigma> = Inr (Inr d, Some (etag d))"
    and Get_missing: "up \<sigma> \<Longrightarrow> objs \<sigma> b k = None \<Longrightarrow> \<exists>text. s3_GetObject C b k \<sigma> = Inl (ApiError ''NoSuchKey'' text)"
    and Put_ok: "up \<sigma> \<Longrightarrow>
        (case pi_IfNoneMatch i of None \<Rightarrow> True | Some x \<Rightarrow> x = ''*'' \<and> objs \<sigma> (pi_Bucket i) (pi_Key i) = None) \<Longrightarrow>
        (case pi_IfMatch i of None \<Rightarrow> True
         | Some t \<Rightarrow> (\<exists>d. objs \<sigma> (pi_Bucket i) (pi_Key i) = Some d \<and> etag d = t)) \<Longrightarrow>
        s3_PutObject C i \<sigma> = (r, \<sigma>') \<Longrightarrow>
        r = Inr (Some (etag (pi_Body i))) \<and> up \<sigma>' \<and>
        objs \<sigma>' = (objs \<sigma>)(pi_Bucket i := (objs \<sigma> (pi_Bucket i))(pi_Key i \<mapsto> pi_Body i))"
    and Put_exists: "up \<sigma> \<Longrightarrow> pi_IfNoneMatch i = Some ''*'' \<Longrightarrow> objs \<sigma> (pi_Bucket i) (pi_Key i) = Some d \<Longrightarrow>
        \<exists>text. s3_PutObject C i \<sigma> = (Inl (ApiError ''PreconditionFailed'' text), \<sigma>)"
    and Put_mismatch: "up \<sigma> \<Longrightarrow> pi_IfNoneMatch i = None \<Longrightarrow> pi_IfMatch i = Some t \<Longrightarrow>
        objs \<sigma> (pi_Bucket i) (pi_Key i) = Some d \<Longrightarrow> etag d \<noteq> t \<Longrightarrow>
        \<exists>text. s3_PutObject C i \<sigma> = (Inl (ApiError ''PreconditionFailed'' text), \<sigma>)"
    and Put_gone: "up \<sigma> \<Longrightarrow> pi_IfNoneMatch i = None \<Longrightarrow> pi_IfMatch i = Some t \<Longrightarrow>
        objs \<sigma> (pi_Bucket i) (pi_Key i) = None \<Longrightarrow>
        \<exists>text. s3_PutObject C i \<sigma> = (Inl (ApiError ''NoSuchKey'' text), \<sigma>)"
    and Delete_object: "up \<sigma> \<Longrightarrow> s3_DeleteObject C b k \<sigma> = (x, \<sigma>') \<Longrightarrow>
        x = None \<and> up \<sigma>' \<and> objs \<sigma>' = (objs \<sigma>)(b := (objs \<sigma> b)(k := None))"
    and List_objects: "up \<sigma> \<Longrightarrow> \<exists>pages. s3_ListObjectsV2 C b p \<sigma> = map Inr pages \<and>
        distinct (concat pages) \<and> set (concat pages) = Some ` {k. prefix p k \<and> objs \<sigma> b k \<noteq> None}"

lemma isNotFound_NoSuchKey [simp]: "isNotFound (Some (ApiError ''NoSuchKey'' text))"
  by (simp add: isNotFound_def)

lemma isPreconditionFailed_code [simp]: "isPreconditionFailed (Some (ApiError ''PreconditionFailed'' text))"
  by (simp add: isPreconditionFailed_def)

section \<open>The bucket of a store\<close>

definition s3_layout :: layout where
  "s3_layout = \<lparr> lay_bin = snapshot_key, lay_deltas = deltas_key, lay_oplog = oplog_key, lay_meta = meta_key,
     lay_wasm = wasm_key \<rparr>"

lemma s3_layout_sel [simp]:
  "lay_bin s3_layout = snapshot_key" "lay_deltas s3_layout = deltas_key" "lay_oplog s3_layout = oplog_key"
  "lay_meta s3_layout = meta_key" "lay_wasm s3_layout = wasm_key"
  by (simp_all add: s3_layout_def)

text \<open>The metadata of an object is what its document says, with the tag of the object.\<close>

definition s3_meta :: "codec \<Rightarrow> (bytes \<Rightarrow> string) \<Rightarrow> bytes \<Rightarrow> instance_meta option" where
  "s3_meta cd etag z = map_option (\<lambda>m. m\<lparr>ETag := etag z\<rparr>) (file_meta cd z)"

text \<open>
  Metadata a session can hold: its strings are in UTF-8, and once it has been stored its tag is the
  one of its document, up to the module hash, which a checkpoint sets before it swaps.
\<close>

definition s3_ok_meta :: "codec \<Rightarrow> (bytes \<Rightarrow> string) \<Rightarrow> instance_meta \<Rightarrow> bool" where
  "s3_ok_meta cd etag m \<longleftrightarrow> meta_utf8 (m\<lparr>ETag := []\<rparr>) \<and>
     (Version m > 0 \<longrightarrow> (\<exists>h. valid_utf8 h \<and> ETag m = etag (json_text cd (marshal_meta (m\<lparr>ETag := [], WasmHash := h\<rparr>)))))"

definition s3_good_meta :: "codec \<Rightarrow> (bytes \<Rightarrow> string) \<Rightarrow> string \<Rightarrow> instance_meta \<Rightarrow> bool" where
  "s3_good_meta cd etag iid m \<longleftrightarrow> InstanceID m = iid \<and> Version m > 0 \<and> s3_ok_meta cd etag m"

definition s3_cas :: "instance_meta option \<Rightarrow> instance_meta \<Rightarrow> bool" where
  "s3_cas exo m = (case exo of None \<Rightarrow> Version m = 0 | Some ex \<Rightarrow> Version m \<noteq> 0 \<and> ETag ex = ETag m)"

section \<open>Keys\<close>

lemma keys_inj [simp]:
  "snapshot_key a = snapshot_key b \<longleftrightarrow> a = b" "deltas_key a = deltas_key b \<longleftrightarrow> a = b"
  "oplog_key a = oplog_key b \<longleftrightarrow> a = b" "meta_key a = meta_key b \<longleftrightarrow> a = b" "active_key a = active_key b \<longleftrightarrow> a = b"
  "wasm_key a = wasm_key b \<longleftrightarrow> a = b"
  by (simp_all add: snapshot_key_def deltas_key_def oplog_key_def meta_key_def active_key_def wasm_key_def)

lemma last_chars_ne: "rev x \<noteq> rev y \<Longrightarrow> x \<noteq> y"
  by simp

lemma keys_disjoint [simp]:
  "snapshot_key a \<noteq> deltas_key b" "snapshot_key a \<noteq> oplog_key b" "snapshot_key a \<noteq> meta_key b"
  "snapshot_key a \<noteq> active_key b" "deltas_key a \<noteq> oplog_key b" "deltas_key a \<noteq> meta_key b"
  "deltas_key a \<noteq> active_key b" "oplog_key a \<noteq> meta_key b" "oplog_key a \<noteq> active_key b" "meta_key a \<noteq> active_key b"
  by (rule last_chars_ne, simp add: snapshot_key_def deltas_key_def oplog_key_def meta_key_def active_key_def)+

lemma keys_wasm [simp]:
  "snapshot_key a \<noteq> wasm_key b" "deltas_key a \<noteq> wasm_key b" "oplog_key a \<noteq> wasm_key b" "meta_key a \<noteq> wasm_key b"
  "active_key a \<noteq> wasm_key b"
  by (simp_all add: snapshot_key_def deltas_key_def oplog_key_def meta_key_def active_key_def wasm_key_def)

lemmas keys_disjoint_sym [simp] = keys_disjoint[symmetric] keys_wasm[symmetric]

lemma active_foreign: "foreign s3_layout (active_key iid)"
  by (auto simp: foreign_def)

section \<open>The store\<close>

text \<open>
  Different versions of the metadata have different tags: what the tag of an object is for, and what
  the swap relies on. Every parallel read answers once.
\<close>

locale s3_bucket_store = object_service C up objs etag + codec_laws cd
  for C :: "'o s3_client" and up and objs and etag and cd +
  fixes bucket :: string and arrival :: "string list \<Rightarrow> string list"
  assumes etag_version: "meta_utf8 m \<Longrightarrow> meta_utf8 m' \<Longrightarrow>
      etag (json_text cd (marshal_meta m)) = etag (json_text cd (marshal_meta m')) \<Longrightarrow> Version m = Version m'"
    and arrival: "mset (arrival keys) = mset keys"

sublocale s3_bucket_store \<subseteq> blobs: blob_layout cd "s3_meta cd etag" "s3_good_meta cd etag" s3_layout
  by unfold_locales (simp_all add: inj_def)

definition s3_inv :: "codec \<Rightarrow> ('o \<Rightarrow> bool) \<Rightarrow> ('o \<Rightarrow> string \<Rightarrow> string \<rightharpoonup> bytes) \<Rightarrow> (bytes \<Rightarrow> string) \<Rightarrow> string \<Rightarrow> 'o \<Rightarrow> bool" where
  "s3_inv cd up objs etag bucket \<sigma> \<longleftrightarrow> up \<sigma> \<and> blobs_ok cd (s3_meta cd etag) (s3_good_meta cd etag) s3_layout (objs \<sigma> bucket)"

definition s3_view :: "codec \<Rightarrow> ('o \<Rightarrow> string \<Rightarrow> string \<rightharpoonup> bytes) \<Rightarrow> (bytes \<Rightarrow> string) \<Rightarrow> string \<Rightarrow> 'o \<Rightarrow> string \<Rightarrow> inst" where
  "s3_view cd objs etag bucket \<sigma> = blob_view cd (s3_meta cd etag) s3_layout (objs \<sigma> bucket)"

definition s3_reg :: "codec \<Rightarrow> ('o \<Rightarrow> string \<Rightarrow> string \<rightharpoonup> bytes) \<Rightarrow> string \<Rightarrow> 'o \<Rightarrow> string \<rightharpoonup> bytes" where
  "s3_reg cd objs bucket \<sigma> = blob_reg cd s3_layout (objs \<sigma> bucket)"

definition the_store :: "'o s3_client \<Rightarrow> string \<Rightarrow> 'o s3_store" where
  "the_store C bucket = \<lparr> s3_Client = C, s3_bucket = bucket \<rparr>"

lemma the_store_sel [simp]: "s3_Client (the_store C bucket) = C" "s3_bucket (the_store C bucket) = bucket"
  by (simp_all add: the_store_def)

context s3_bucket_store
begin

abbreviation S :: "'o s3_store" where "S \<equiv> the_store C bucket"
abbreviation good :: "'o \<Rightarrow> bool" where "good \<equiv> s3_inv cd up objs etag bucket"
abbreviation see :: "'o \<Rightarrow> string \<Rightarrow> inst" where "see \<equiv> s3_view cd objs etag bucket"
abbreviation ok :: "(string \<rightharpoonup> bytes) \<Rightarrow> bool" where
  "ok \<equiv> blobs_ok cd (s3_meta cd etag) (s3_good_meta cd etag) s3_layout"

lemma goodD: "good \<sigma> \<Longrightarrow> up \<sigma>" "good \<sigma> \<Longrightarrow> ok (objs \<sigma> bucket)"
  by (simp_all add: s3_inv_def)

lemma readObject_eq:
  assumes "up \<sigma>"
  shows "objs \<sigma> bucket k = Some d \<Longrightarrow> readObject S k \<sigma> = Inr (d, etag d)"
    and "objs \<sigma> bucket k = None \<Longrightarrow> \<exists>text. readObject S k \<sigma> = Inl (ApiError ''NoSuchKey'' text)"
  using Get_object[OF assms, of bucket k d] Get_missing[OF assms, of bucket k] by (auto simp: readObject_def)

lemma writeObject_ok:
  assumes "up \<sigma>" "writeObject S k d \<sigma> = (r, \<sigma>')"
  shows "r = Inr (etag d) \<and> up \<sigma>' \<and> objs \<sigma>' bucket = (objs \<sigma> bucket)(k \<mapsto> d)"
proof -
  obtain x \<sigma>1 where p: "s3_PutObject C (put_plain S k d) \<sigma> = (x, \<sigma>1)" by fastforce
  have "x = Inr (Some (etag d)) \<and> up \<sigma>1 \<and> objs \<sigma>1 = (objs \<sigma>)(bucket := (objs \<sigma> bucket)(k \<mapsto> d))"
    using Put_ok[OF assms(1) _ _ p] by (simp add: put_plain_def)
  then show ?thesis using assms(2) p by (auto simp: writeObject_def)
qed

lemma put_compressed_ok:
  assumes "up \<sigma>" "compressData cd d = Inr z" "put_compressed cd msg msg' S k d \<sigma> = (r, \<sigma>')"
  shows "r = None \<and> up \<sigma>' \<and> objs \<sigma>' bucket = (objs \<sigma> bucket)(k \<mapsto> z)"
proof -
  obtain x \<sigma>1 where w: "writeObject S k z \<sigma> = (x, \<sigma>1)" by fastforce
  show ?thesis using writeObject_ok[OF assms(1) w] w assms(2,3) by (auto simp: put_compressed_def)
qed

lemma delete_key_ok:
  assumes "up \<sigma>" "delete_key msg S k \<sigma> = (r, \<sigma>')"
  shows "r = None \<and> up \<sigma>' \<and> objs \<sigma>' bucket = (objs \<sigma> bucket)(k := None)"
proof -
  obtain x \<sigma>1 where w: "s3_DeleteObject C bucket k \<sigma> = (x, \<sigma>1)" by fastforce
  show ?thesis using Delete_object[OF assms(1) w] w assms(2) by (auto simp: delete_key_def)
qed

lemma Save_law:
  assumes "good \<sigma>" "s3_Save cd S iid b \<sigma> = (r, \<sigma>')"
  shows "r = None \<and> good \<sigma>' \<and> see \<sigma>' = (see \<sigma>)(iid := (see \<sigma> iid)\<lparr>i_snapshot := Some b\<rparr>)"
proof -
  obtain z where z: "compressData cd b = Inr z" "file_bin cd z = Some b" using compress_bin by blast
  note P = put_compressed_ok[OF goodD(1)[OF assms(1)] z(1) assms(2)[unfolded s3_Save_def]]
  show ?thesis using P blobs.ok_put(1)[OF goodD(2)[OF assms(1)], of "Some z" iid]
      blobs.view_put(1)[of "objs \<sigma> bucket" iid "Some z"] z(2)
    by (simp add: s3_inv_def s3_view_def)
qed

lemma read_deltas:
  assumes "good \<sigma>"
  shows "\<exists>ds. s3_read_deltas cd S iid \<sigma> = Inr ds \<and> map_of ds = i_deltas (see \<sigma> iid) \<and> good_deltas iid ds"
  using blobs.deltas_blob[OF goodD(2)[OF assms], of iid] readObject_eq[OF goodD(1)[OF assms], of "deltas_key iid"]
  by (cases "objs \<sigma> bucket (deltas_key iid)")
     (auto simp: s3_read_deltas_def s3_view_def decode_deltas_ok)

lemma write_deltas_law:
  assumes "good \<sigma>" "good_deltas iid cur" "distinct (map fst ds)" "\<forall>kv\<in>set ds. fst kv < 2 ^ 63"
    and run: "s3_write_deltas cd S iid cur ds \<sigma> = (r, \<sigma>')"
  shows "r = None \<and> good \<sigma>' \<and> see \<sigma>' = (see \<sigma>)(iid := (see \<sigma> iid)\<lparr>i_deltas := map_of cur ++ map_of ds\<rparr>)"
proof -
  obtain z out where z: "compressData cd (json_text cd
      (marshal_deltas (foldl (\<lambda>m kv. AList.update (fst kv) (snd kv) m) cur ds))) = Inr z"
    "file_deltas cd z = Some out" "good_deltas iid out" "map_of out = map_of cur ++ map_of ds"
    using encode_deltas[OF assms(2-4)] by blast
  note P = put_compressed_ok[OF goodD(1)[OF assms(1)] z(1) run[unfolded s3_write_deltas_def]]
  show ?thesis using P blobs.ok_put(2)[OF goodD(2)[OF assms(1)], of "Some z" iid]
      blobs.view_put(2)[of "objs \<sigma> bucket" iid "Some z"] z(2-4)
    by (simp add: s3_inv_def s3_view_def)
qed

lemma SaveDeltas_law:
  assumes "good \<sigma>" "distinct (map fst ds)" "\<forall>kv\<in>set ds. fst kv < 2 ^ 63" "s3_SaveDeltas cd S iid ds \<sigma> = (r, \<sigma>')"
  shows "r = None \<and> good \<sigma>' \<and> see \<sigma>' = (see \<sigma>)(iid := (see \<sigma> iid)\<lparr>i_deltas := i_deltas (see \<sigma> iid) ++ map_of ds\<rparr>)"
proof -
  obtain cur where c: "s3_read_deltas cd S iid \<sigma> = Inr cur" "map_of cur = i_deltas (see \<sigma> iid)" "good_deltas iid cur"
    using read_deltas[OF assms(1)] by blast
  then show ?thesis using write_deltas_law[OF assms(1) c(3) assms(2,3)] assms(4) by (simp add: s3_SaveDeltas_def)
qed

lemma LoadDeltas_law:
  assumes "good \<sigma>"
  shows "\<exists>ds. s3_LoadDeltas cd S iid \<sigma> = Inr ds \<and> map_of ds = i_deltas (see \<sigma> iid) \<and> distinct (map fst ds)"
  using blobs.deltas_blob[OF goodD(2)[OF assms], of iid] readObject_eq[OF goodD(1)[OF assms], of "deltas_key iid"]
  by (cases "objs \<sigma> bucket (deltas_key iid)")
     (auto simp: s3_LoadDeltas_def s3_view_def decode_object_def file_deltas_eq good_deltas_def)

lemma TruncateDeltas_law:
  assumes "good \<sigma>" "s3_TruncateDeltas S iid \<sigma> = (r, \<sigma>')"
  shows "r = None \<and> good \<sigma>' \<and> see \<sigma>' = (see \<sigma>)(iid := (see \<sigma> iid)\<lparr>i_deltas := Map.empty\<rparr>)"
  using delete_key_ok[OF goodD(1)[OF assms(1)] assms(2)[unfolded s3_TruncateDeltas_def]]
    blobs.ok_put(2)[OF goodD(2)[OF assms(1)], of None iid] blobs.view_put(2)[of "objs \<sigma> bucket" iid None]
  by (simp add: s3_inv_def s3_view_def)

lemma read_oplog:
  assumes "good \<sigma>"
  shows "s3_read_oplog cd S iid \<sigma> = Inr (i_oplog (see \<sigma> iid)) \<and> s3_LoadOplog cd S iid \<sigma> = Inr (i_oplog (see \<sigma> iid)) \<and>
    good_oplog iid (i_oplog (see \<sigma> iid))"
  using blobs.oplog_blob[OF goodD(2)[OF assms], of iid] readObject_eq[OF goodD(1)[OF assms], of "oplog_key iid"]
  by (cases "objs \<sigma> bucket (oplog_key iid)")
     (auto simp: s3_read_oplog_def s3_LoadOplog_def s3_view_def decode_object_def decode_oplog_ok file_oplog_eq)

lemma write_oplog:
  assumes "good \<sigma>" "good_oplog iid es" "put_compressed cd msg msg' S (oplog_key iid) (json_text cd (marshal_oplog es)) \<sigma> = (r, \<sigma>')"
  shows "r = None \<and> good \<sigma>' \<and> see \<sigma>' = (see \<sigma>)(iid := (see \<sigma> iid)\<lparr>i_oplog := es\<rparr>) \<and>
    s3_reg cd objs bucket \<sigma>' = s3_reg cd objs bucket \<sigma>"
proof -
  obtain z where z: "compressData cd (json_text cd (marshal_oplog es)) = Inr z" "file_oplog cd z = Some es"
    using encode_oplog[OF assms(2)] by blast
  note P = put_compressed_ok[OF goodD(1)[OF assms(1)] z(1) assms(3)]
  show ?thesis using P blobs.ok_put(3)[OF goodD(2)[OF assms(1)], of "Some z" iid]
      blobs.view_put(3)[of "objs \<sigma> bucket" iid "Some z"] blobs.reg_put(3)[of "objs \<sigma> bucket" iid "Some z"] z(2) assms(2)
    by (simp add: s3_inv_def s3_view_def s3_reg_def)
qed

lemma append_oplog:
  assumes "good \<sigma>" "good_oplog iid lst" "valid_utf8 (ApiName entry)" "s3_append_oplog cd S iid lst entry \<sigma> = (r, \<sigma>')"
  shows "r = None \<and> good \<sigma>' \<and> see \<sigma>' = (see \<sigma>)(iid := (see \<sigma> iid)\<lparr>i_oplog := lst @ [entry]\<rparr>) \<and>
    s3_reg cd objs bucket \<sigma>' = s3_reg cd objs bucket \<sigma>"
  using assms(2,3) by (intro write_oplog[OF assms(1) _ assms(4)[unfolded s3_append_oplog_def]]) (simp add: good_oplog_def)

lemma SaveOplog_law:
  assumes "good \<sigma>" "valid_utf8 api" "s3_SaveOplog cd S iid i api req resp \<sigma> = (r, \<sigma>')"
  shows "r = None \<and> good \<sigma>' \<and>
    see \<sigma>' = (see \<sigma>)(iid := (see \<sigma> iid)\<lparr>i_oplog := i_oplog (see \<sigma> iid) @ [mk_entry i api req resp]\<rparr>)"
  using append_oplog[OF assms(1), of iid "i_oplog (see \<sigma> iid)" "mk_entry i api req resp" r \<sigma>'] read_oplog[OF assms(1), of iid]
    assms(2,3) by (simp add: s3_SaveOplog_def)

lemma TruncateOplog_law:
  assumes "good \<sigma>" "s3_TruncateOplog cd S iid i \<sigma> = (r, \<sigma>')"
  shows "r = None \<and> good \<sigma>' \<and>
    see \<sigma>' = (see \<sigma>)(iid := (see \<sigma> iid)\<lparr>i_oplog := filter (\<lambda>e. CallIndex e > i) (i_oplog (see \<sigma> iid))\<rparr>)"
proof (cases "objs \<sigma> bucket (oplog_key iid)")
  case None
  then have "r = None" "\<sigma>' = \<sigma>" and e: "i_oplog (see \<sigma> iid) = []"
    using assms(2) readObject_eq(2)[OF goodD(1)[OF assms(1)], of "oplog_key iid"]
    by (auto simp: s3_TruncateOplog_def s3_view_def blob_view_def)
  moreover have "(see \<sigma>)(iid := (see \<sigma> iid)\<lparr>i_oplog := []\<rparr>) = see \<sigma>"
    using e by (intro fun_upd_idem) (cases "see \<sigma> iid", simp)
  ultimately show ?thesis using assms(1) by (simp add: e)
next
  case (Some z)
  then have "file_oplog cd z = Some (i_oplog (see \<sigma> iid))"
    using blobs.oplog_blob[OF goodD(2)[OF assms(1)], of iid] by (simp add: s3_view_def)
  then have "put_compressed cd ''failed to compress truncated oplog'' ''failed to write truncated oplog to S3'' S (oplog_key iid)
      (json_text cd (marshal_oplog (filter (\<lambda>e. CallIndex e > i) (i_oplog (see \<sigma> iid))))) \<sigma> = (r, \<sigma>')"
    using assms(2) readObject_eq(1)[OF goodD(1)[OF assms(1)] Some]
    by (auto simp: s3_TruncateOplog_def decode_object_def file_oplog_eq)
  note W = write_oplog[OF assms(1) _ this]
  show ?thesis using W read_oplog[OF assms(1), of iid] by (simp add: good_oplog_def list_all_iff)
qed

text \<open>The swap.\<close>

lemma meta_body:
  assumes "s3_ok_meta cd etag m" "0 \<le> Version m"
  shows "file_meta cd (json_text cd (marshal_meta (next_meta m))) = Some (m\<lparr>Version := Version m + 1, ETag := []\<rparr>)"
    "meta_utf8 (m\<lparr>Version := Version m + 1, ETag := []\<rparr>)"
proof -
  have n: "next_meta m = m\<lparr>Version := Version m + 1, ETag := []\<rparr>" by (simp add: next_meta_def)
  show u: "meta_utf8 (m\<lparr>Version := Version m + 1, ETag := []\<rparr>)" using assms(1) by (simp add: s3_ok_meta_def meta_utf8_def)
  show "file_meta cd (json_text cd (marshal_meta (next_meta m))) = Some (m\<lparr>Version := Version m + 1, ETag := []\<rparr>)"
    unfolding n by (rule file_meta_text[OF u])
qed

lemma meta_put_sel:
  "pi_Bucket (meta_put cd S m) = bucket" "pi_Key (meta_put cd S m) = meta_key (InstanceID m)"
  "pi_Body (meta_put cd S m) = json_text cd (marshal_meta (next_meta m))"
  "pi_IfNoneMatch (meta_put cd S m) = (if Version m = 0 then Some ''*'' else None)"
  "pi_IfMatch (meta_put cd S m) = (if Version m = 0 then None else Some (ETag m))"
  by (simp_all add: meta_put_def put_plain_def Let_def)

lemma stored_tag:
  assumes "good \<sigma>"
  shows "case i_meta (see \<sigma> iid) of
      None \<Rightarrow> objs \<sigma> bucket (meta_key iid) = None
    | Some ex \<Rightarrow> (\<exists>z m0. objs \<sigma> bucket (meta_key iid) = Some z \<and> ETag ex = etag z \<and> s3_good_meta cd etag iid ex \<and>
        unmarshal cd unmarshal_meta z = Inr m0 \<and> ex = m0\<lparr>ETag := etag z\<rparr>)"
proof (cases "objs \<sigma> bucket (meta_key iid)")
  case None
  then show ?thesis by (simp add: s3_view_def blob_view_def)
next
  case (Some z)
  then obtain m where m: "s3_meta cd etag z = Some m" "s3_good_meta cd etag iid m" "i_meta (see \<sigma> iid) = Some m"
    using blobs.meta_blob[OF goodD(2)[OF assms], of iid z] by (auto simp: s3_view_def)
  then obtain m0 where "file_meta cd z = Some m0" "m = m0\<lparr>ETag := etag z\<rparr>" by (auto simp: s3_meta_def)
  then show ?thesis using Some m(2,3) by (simp add: file_meta_def file_json_eq)
qed

lemma SaveMetadata_law:
  assumes "good \<sigma>" "0 \<le> Version m" "s3_ok_meta cd etag m" "s3_cas (i_meta (see \<sigma> (InstanceID m))) m"
    and run: "s3_SaveMetadata cd S m \<sigma> = (rb, m', \<sigma>')"
  shows "rb = Inr True \<and> good \<sigma>' \<and> m' = m\<lparr>Version := Version m + 1, ETag := ETag m'\<rparr> \<and>
    see \<sigma>' = (see \<sigma>)(InstanceID m := (see \<sigma> (InstanceID m))\<lparr>i_meta := Some m'\<rparr>) \<and>
    s3_reg cd objs bucket \<sigma>' = s3_reg cd objs bucket \<sigma>"
proof -
  let ?z = "json_text cd (marshal_meta (next_meta m))" and ?k = "meta_key (InstanceID m)"
  obtain x \<sigma>1 where p: "s3_PutObject C (meta_put cd S m) \<sigma> = (x, \<sigma>1)" by fastforce
  have P: "x = Inr (Some (etag ?z)) \<and> up \<sigma>1 \<and> objs \<sigma>1 = (objs \<sigma>)(bucket := (objs \<sigma> bucket)(?k \<mapsto> ?z))"
    using Put_ok[OF goodD(1)[OF assms(1)] _ _ p] assms(4) stored_tag[OF assms(1), of "InstanceID m"]
    by (auto simp: s3_cas_def meta_put_sel split: option.splits if_splits)
  have nv: "Version (next_meta m) = Version m + 1" by (simp add: next_meta_def)
  define m1 where "m1 = m\<lparr>Version := Version m + 1, ETag := etag ?z\<rparr>"
  have out: "rb = Inr True" "m' = m1" "\<sigma>' = \<sigma>1"
    using run p P nv by (auto simp: s3_SaveMetadata_def m1_def)
  have dm: "s3_meta cd etag ?z = Some m1" using meta_body[OF assms(3,2)] by (simp add: s3_meta_def m1_def)
  have "\<exists>h. valid_utf8 h \<and> ETag m1 = etag (json_text cd (marshal_meta (m1\<lparr>ETag := [], WasmHash := h\<rparr>)))"
    using meta_body(2)[OF assms(3,2)]
    by (intro exI[of _ "WasmHash m"]) (auto simp: m1_def next_meta_def meta_utf8_def)
  then have g: "s3_good_meta cd etag (InstanceID m) m1"
    using meta_body(2)[OF assms(3,2)] assms(2) by (simp add: s3_good_meta_def s3_ok_meta_def m1_def)
  show ?thesis
    using out P g dm blobs.ok_put(4)[OF goodD(2)[OF assms(1)], of "Some ?z" "InstanceID m"]
      blobs.view_put(4)[of "objs \<sigma> bucket" "InstanceID m" "Some ?z"]
      blobs.reg_put(4)[of "objs \<sigma> bucket" "InstanceID m" "Some ?z"]
    by (simp add: s3_inv_def s3_view_def s3_reg_def m1_def)
qed

lemma SaveMetadata_lost:
  assumes "good \<sigma>" "i_meta (see \<sigma> (InstanceID m)) = Some ex" "\<not> s3_cas (Some ex) m"
  shows "s3_SaveMetadata cd S m \<sigma> = (Inr False, m, \<sigma>)"
proof -
  obtain z where z: "objs \<sigma> bucket (meta_key (InstanceID m)) = Some z" "ETag ex = etag z"
    using stored_tag[OF assms(1), of "InstanceID m"] assms(2) by auto
  have "\<exists>text. s3_PutObject C (meta_put cd S m) \<sigma> = (Inl (ApiError ''PreconditionFailed'' text), \<sigma>)"
  proof (cases "Version m = 0")
    case True
    then show ?thesis using z(1) by (intro Put_exists[OF goodD(1)[OF assms(1)]]) (simp_all add: meta_put_sel)
  next
    case False
    then have "etag z \<noteq> ETag m" using assms(3) z(2) by (simp add: s3_cas_def)
    then show ?thesis using z(1) False
      by (intro Put_mismatch[OF goodD(1)[OF assms(1)], of _ "ETag m" z]) (simp_all add: meta_put_sel)
  qed
  then show ?thesis by (auto simp: s3_SaveMetadata_def)
qed

lemma SaveMetadata_deleted:
  assumes "good \<sigma>" "i_meta (see \<sigma> (InstanceID m)) = None" "Version m > 0"
  shows "\<exists>text. s3_SaveMetadata cd S m \<sigma> =
    (if isPreconditionFailed (Some (ApiError ''NoSuchKey'' text)) then (Inr False, m, \<sigma>)
     else (Inl (Wrap ''failed to save metadata to S3'' (ApiError ''NoSuchKey'' text)), m, \<sigma>))"
proof -
  have "objs \<sigma> bucket (meta_key (InstanceID m)) = None"
    using stored_tag[OF assms(1), of "InstanceID m"] assms(2) by simp
  then obtain msg where "s3_PutObject C (meta_put cd S m) \<sigma> = (Inl (ApiError ''NoSuchKey'' msg), \<sigma>)"
    using Put_gone[OF goodD(1)[OF assms(1)], of "meta_put cd S m" "ETag m"] assms(3) by (auto simp: meta_put_sel)
  then show ?thesis by (intro exI[of _ msg]) (simp add: s3_SaveMetadata_def)
qed

lemma LoadMetadata_law:
  assumes "good \<sigma>"
  shows "s3_LoadMetadata cd S iid \<sigma> = Inr (i_meta (see \<sigma> iid))"
  using stored_tag[OF assms, of iid] readObject_eq[OF goodD(1)[OF assms], of "meta_key iid"]
  by (auto simp: s3_LoadMetadata_def split: option.splits)

lemma cas_version_law:
  assumes "good \<sigma>" "0 \<le> Version m" "s3_ok_meta cd etag m" "s3_cas (i_meta (see \<sigma> (InstanceID m))) m"
  shows "Version m = version_of (i_meta (see \<sigma> (InstanceID m)))"
proof (cases "i_meta (see \<sigma> (InstanceID m))")
  case None
  then show ?thesis using assms(4) by (simp add: s3_cas_def version_of_def)
next
  case (Some ex)
  then have "s3_ok_meta cd etag ex" "Version ex > 0" "ETag ex = ETag m" "Version m > 0"
    using stored_tag[OF assms(1), of "InstanceID m"] assms(2,4) by (auto simp: s3_good_meta_def s3_cas_def)
  then obtain h h' where "valid_utf8 h" "valid_utf8 h'" "meta_utf8 (m\<lparr>ETag := []\<rparr>)" "meta_utf8 (ex\<lparr>ETag := []\<rparr>)"
    "etag (json_text cd (marshal_meta (m\<lparr>ETag := [], WasmHash := h\<rparr>))) =
     etag (json_text cd (marshal_meta (ex\<lparr>ETag := [], WasmHash := h'\<rparr>)))"
    using assms(3) by (auto simp: s3_ok_meta_def)
  then have "Version (m\<lparr>ETag := [], WasmHash := h\<rparr>) = Version (ex\<lparr>ETag := [], WasmHash := h'\<rparr>)"
    by (intro etag_version) (simp_all add: meta_utf8_def)
  then show ?thesis using Some by (simp add: version_of_def)
qed

lemma bins_law:
  "good \<sigma> \<Longrightarrow> i_snapshot (see \<sigma> iid) = Some b \<Longrightarrow> s3_Load cd S iid \<sigma> = Inr b"
  "good \<sigma> \<Longrightarrow> i_snapshot (see \<sigma> iid) = None \<Longrightarrow> \<exists>e. s3_Load cd S iid \<sigma> = Inl e"
  "good \<sigma> \<Longrightarrow> s3_reg cd objs bucket \<sigma> h = Some b \<Longrightarrow> s3_LoadWasm cd S h \<sigma> = Inr b"
  "good \<sigma> \<Longrightarrow> s3_reg cd objs bucket \<sigma> h = None \<Longrightarrow> \<exists>e. s3_LoadWasm cd S h \<sigma> = Inl e"
proof -
  assume g: "good \<sigma>"
  note R = readObject_eq[OF goodD(1)[OF g]]
  show "i_snapshot (see \<sigma> iid) = Some b \<Longrightarrow> s3_Load cd S iid \<sigma> = Inr b"
    "i_snapshot (see \<sigma> iid) = None \<Longrightarrow> \<exists>e. s3_Load cd S iid \<sigma> = Inl e"
    using R[of "snapshot_key iid"] blobs.bin_blob[OF goodD(2)[OF g], of iid]
    by (cases "objs \<sigma> bucket (snapshot_key iid)"; auto simp: s3_Load_def s3_view_def; simp add: blob_view_def)+
  show "s3_reg cd objs bucket \<sigma> h = Some b \<Longrightarrow> s3_LoadWasm cd S h \<sigma> = Inr b"
    "s3_reg cd objs bucket \<sigma> h = None \<Longrightarrow> \<exists>e. s3_LoadWasm cd S h \<sigma> = Inl e"
    using R[of "wasm_key h"] blobs.wasm_blob[OF goodD(2)[OF g], of h]
    by (cases "objs \<sigma> bucket (wasm_key h)"; auto simp: s3_LoadWasm_def s3_reg_def; simp add: blob_reg_def)+
qed

lemma SaveWasm_law:
  assumes "good \<sigma>" "s3_SaveWasm cd S h b \<sigma> = (r, \<sigma>')"
  shows "r = None \<and> good \<sigma>' \<and> see \<sigma>' = see \<sigma> \<and> s3_reg cd objs bucket \<sigma>' = (s3_reg cd objs bucket \<sigma>)(h \<mapsto> b)"
proof -
  obtain z where z: "compressData cd b = Inr z" "file_bin cd z = Some b" using compress_bin by blast
  note P = put_compressed_ok[OF goodD(1)[OF assms(1)] z(1) assms(2)[unfolded s3_SaveWasm_def]]
  show ?thesis using P blobs.ok_put(5)[OF goodD(2)[OF assms(1)], of "Some z" h]
      blobs.view_put(5)[of "objs \<sigma> bucket" h "Some z"] blobs.reg_put(5)[of "objs \<sigma> bucket" h "Some z"] z(2)
    by (simp add: s3_inv_def s3_view_def s3_reg_def)
qed

lemma delete_keys_ok:
  assumes "up \<sigma>" "delete_keys S ks \<sigma> = (r, \<sigma>')"
  shows "r = None \<and> up \<sigma>' \<and> objs \<sigma>' bucket = foldl (\<lambda>B k. B(k := None)) (objs \<sigma> bucket) ks"
  using assms
proof (induction ks arbitrary: \<sigma>)
  case (Cons k ks)
  obtain x \<sigma>1 where d: "delete_key (''failed to delete key '' @ k @ '' from S3'') S k \<sigma> = (x, \<sigma>1)" by fastforce
  note D = delete_key_ok[OF Cons.prems(1) d]
  show ?case using D Cons.IH[of \<sigma>1] Cons.prems(2) d by simp
qed simp

lemma Delete_law:
  assumes "good \<sigma>" "s3_Delete S iid \<sigma> = (r, \<sigma>')"
  shows "r = None \<and> good \<sigma>' \<and> see \<sigma>' = (see \<sigma>)(iid := empty_inst) \<and>
    s3_reg cd objs bucket \<sigma>' = s3_reg cd objs bucket \<sigma>"
  using delete_keys_ok[OF goodD(1)[OF assms(1)] assms(2)[unfolded s3_Delete_def]]
    blobs.foreign_put[OF active_foreign[of iid], of "(objs \<sigma> bucket)(snapshot_key iid := None, deltas_key iid := None,
       oplog_key iid := None, meta_key iid := None)" None]
    blobs.ok_delete[OF goodD(2)[OF assms(1)], of iid] blobs.view_delete[of "objs \<sigma> bucket" iid]
    blobs.reg_delete[of "objs \<sigma> bucket" iid]
  by (simp add: s3_inv_def s3_view_def s3_reg_def)

lemma s3_ops_sel [store_simps]:
  "st_Save (s3_ops cd arrival S) = s3_Save cd S" "st_Load (s3_ops cd arrival S) = s3_Load cd S"
  "st_Delete (s3_ops cd arrival S) = s3_Delete S" "st_SaveDeltas (s3_ops cd arrival S) = s3_SaveDeltas cd S"
  "st_LoadDeltas (s3_ops cd arrival S) = s3_LoadDeltas cd S" "st_TruncateDeltas (s3_ops cd arrival S) = s3_TruncateDeltas S"
  "st_SaveOplog (s3_ops cd arrival S) = s3_SaveOplog cd S" "st_LoadOplog (s3_ops cd arrival S) = s3_LoadOplog cd S"
  "st_TruncateOplog (s3_ops cd arrival S) = s3_TruncateOplog cd S" "st_SaveMetadata (s3_ops cd arrival S) = s3_SaveMetadata cd S"
  "st_LoadMetadata (s3_ops cd arrival S) = s3_LoadMetadata cd S" "st_SaveWasm (s3_ops cd arrival S) = s3_SaveWasm cd S"
  "st_LoadWasm (s3_ops cd arrival S) = s3_LoadWasm cd S"
  by (simp_all add: s3_ops_def)

lemma SaveMetadata_touches:
  assumes "good \<sigma>" "s3_SaveMetadata cd S m \<sigma> = (rb, m', \<sigma>')"
  shows "\<sigma>' = \<sigma> \<or> (\<exists>z. objs \<sigma>' bucket = (objs \<sigma> bucket)(meta_key (InstanceID m) \<mapsto> z))"
proof (cases "s3_cas (i_meta (see \<sigma> (InstanceID m))) m")
  case True
  obtain x \<sigma>1 where p: "s3_PutObject C (meta_put cd S m) \<sigma> = (x, \<sigma>1)" by fastforce
  have "x = Inr (Some (etag (pi_Body (meta_put cd S m)))) \<and>
      objs \<sigma>1 = (objs \<sigma>)(bucket := (objs \<sigma> bucket)(meta_key (InstanceID m) \<mapsto> pi_Body (meta_put cd S m)))"
    using Put_ok[OF goodD(1)[OF assms(1)] _ _ p] True stored_tag[OF assms(1), of "InstanceID m"]
    by (auto simp: s3_cas_def meta_put_sel split: option.splits if_splits)
  then show ?thesis using assms(2) p by (auto simp: s3_SaveMetadata_def)
next
  case False
  show ?thesis
  proof (cases "i_meta (see \<sigma> (InstanceID m))")
    case (Some ex)
    then show ?thesis using SaveMetadata_lost[OF assms(1) Some] False assms(2) by simp
  next
    case None
    then have "objs \<sigma> bucket (meta_key (InstanceID m)) = None" "Version m \<noteq> 0"
      using stored_tag[OF assms(1), of "InstanceID m"] False by (simp_all add: s3_cas_def)
    then show ?thesis
      using Put_gone[OF goodD(1)[OF assms(1)], of "meta_put cd S m" "ETag m"] assms(2)
      by (auto simp: meta_put_sel s3_SaveMetadata_def split: if_splits)
  qed
qed

lemma reg_writes:
  "good \<sigma> \<Longrightarrow> s3_SaveMetadata cd S m \<sigma> = (rb, m', \<sigma>') \<Longrightarrow> s3_reg cd objs bucket \<sigma>' = s3_reg cd objs bucket \<sigma>"
  "good \<sigma> \<Longrightarrow> s3_SaveOplog cd S iid i api req resp \<sigma> = (r, \<sigma>') \<Longrightarrow> s3_reg cd objs bucket \<sigma>' = s3_reg cd objs bucket \<sigma>"
  "good \<sigma> \<Longrightarrow> s3_Save cd S iid b \<sigma> = (r, \<sigma>') \<Longrightarrow> s3_reg cd objs bucket \<sigma>' = s3_reg cd objs bucket \<sigma>"
proof -
  assume g: "good \<sigma>"
  show "s3_Save cd S iid b \<sigma> = (r, \<sigma>') \<Longrightarrow> s3_reg cd objs bucket \<sigma>' = s3_reg cd objs bucket \<sigma>"
  proof -
    assume run: "s3_Save cd S iid b \<sigma> = (r, \<sigma>')"
    obtain z where z: "compressData cd b = Inr z" using compress_bin by blast
    from put_compressed_ok[OF goodD(1)[OF g] z run[unfolded s3_Save_def]] show ?thesis
      using blobs.reg_put(1)[of "objs \<sigma> bucket" iid "Some z"] by (simp add: s3_reg_def)
  qed
  show "s3_SaveMetadata cd S m \<sigma> = (rb, m', \<sigma>') \<Longrightarrow> s3_reg cd objs bucket \<sigma>' = s3_reg cd objs bucket \<sigma>"
    using SaveMetadata_touches[OF g, of m rb m' \<sigma>'] blobs.reg_put(4) by (auto simp: s3_reg_def)
  assume run: "s3_SaveOplog cd S iid i api req resp \<sigma> = (r, \<sigma>')"
  obtain z where z: "compressData cd (json_text cd (marshal_oplog (i_oplog (see \<sigma> iid) @ [mk_entry i api req resp]))) = Inr z"
    using compress_bin by blast
  have "put_compressed cd ''failed to compress oplog'' ''failed to write oplog to S3'' S (oplog_key iid)
      (json_text cd (marshal_oplog (i_oplog (see \<sigma> iid) @ [mk_entry i api req resp]))) \<sigma> = (r, \<sigma>')"
    using run read_oplog[OF g, of iid] by (simp add: s3_SaveOplog_def s3_append_oplog_def)
  from put_compressed_ok[OF goodD(1)[OF g] z this] show "s3_reg cd objs bucket \<sigma>' = s3_reg cd objs bucket \<sigma>"
    using blobs.reg_put(3)[of "objs \<sigma> bucket" iid "Some z"] by (simp add: s3_reg_def)
qed

text \<open>The index object of an instance is none of the others.\<close>

lemma UpdateActiveIndex_law:
  assumes "good \<sigma>" "s3_UpdateActiveIndex S iid info completed \<sigma> = (r, \<sigma>')"
  shows "r = None \<and> good \<sigma>' \<and> see \<sigma>' = see \<sigma> \<and>
    objs \<sigma>' bucket = (objs \<sigma> bucket)(active_key iid := (if completed then None else Some info))"
proof -
  have "r = None \<and> up \<sigma>' \<and> objs \<sigma>' bucket = (objs \<sigma> bucket)(active_key iid := (if completed then None else Some info))"
  proof (cases completed)
    case True
    then show ?thesis using assms(2) delete_key_ok[OF goodD(1)[OF assms(1)]] by (simp add: s3_UpdateActiveIndex_def)
  next
    case False
    obtain x \<sigma>1 where p: "s3_PutObject C (put_plain S (active_key iid) info) \<sigma> = (x, \<sigma>1)" by fastforce
    show ?thesis using Put_ok[OF goodD(1)[OF assms(1)] _ _ p] p assms(2) False
      by (auto simp: s3_UpdateActiveIndex_def put_plain_def)
  qed
  then show ?thesis using blobs.foreign_put[OF active_foreign[of iid]] goodD(2)[OF assms(1)]
    by (simp add: s3_inv_def s3_view_def)
qed

end

sublocale s3_bucket_store \<subseteq> s3: wasm_store "s3_ops cd arrival (the_store C bucket)" "s3_inv cd up objs etag bucket"
    "s3_view cd objs etag bucket" s3_cas valid_utf8 "s3_ok_meta cd etag" "s3_reg cd objs bucket"
proof (unfold_locales, unfold store_simps, goal_cases)
  case (1 s iid b r s') then show ?case by (rule Save_law)
next
  case (2 s iid b) then show ?case by (rule bins_law)
next
  case (3 s iid) then show ?case by (rule bins_law)
next
  case (4 s iid r s') then show ?case using Delete_law by blast
next
  case (5 s ds iid r s') then show ?case by (rule SaveDeltas_law)
next
  case (6 s iid) then show ?case by (rule LoadDeltas_law)
next
  case (7 s iid r s') then show ?case by (rule TruncateDeltas_law)
next
  case (8 s api iid i req resp r s') then show ?case by (rule SaveOplog_law)
next
  case (9 s iid) then show ?case using read_oplog by blast
next
  case (10 s iid i r s') then show ?case by (rule TruncateOplog_law)
next
  case (11 s m rb m' s') then show ?case using SaveMetadata_law by blast
next
  case (12 s m ex) then show ?case using SaveMetadata_lost by blast
next
  case (13 s m rb m' s') then show ?case using SaveMetadata_deleted[of s m] by (auto split: if_splits)
next
  case (14 s iid) then show ?case by (rule LoadMetadata_law)
next
  case (15 s iid m) then show ?case using stored_tag[of s iid] by (auto simp: s3_good_meta_def)
next
  case (17 m h) then show ?case by (auto simp: s3_ok_meta_def meta_utf8_def)
next
  case (22 s m) then show ?case by (rule cas_version_law)
next
  case (23 s h b r s') then show ?case using SaveWasm_law by blast
next
  case (24 s h b) then show ?case by (rule bins_law)
next
  case (25 s h) then show ?case by (rule bins_law)
next
  case (26 s m rb m' s') then show ?case by (rule reg_writes)
next
  case (27 s iid i api req resp r s') then show ?case by (rule reg_writes)
next
  case (28 s iid r s') then show ?case using Delete_law by blast
next
  case (29 s iid b r s') then show ?case by (rule reg_writes)
qed (simp_all add: meta_utf8_def s3_ok_meta_def s3_cas_def new_meta_def split: option.splits)

end
