(* ===== verification/S3_Engine.thy ===== *)
theory S3_Engine
  imports S3_Contract Crash_Resume Concurrency Json_Text
begin

text \<open>
  The engine over \<open>S3SnapshotStore\<close>: the interpretations that give the facts of \<open>Recovery\<close>,
  \<open>Crash_Resume\<close> and \<open>Concurrency\<close> for this store, what the index of active instances lists, and
  what goes wrong between the two requests of an update and with the classification of errors by
  their text. An object service over lists shows that the laws can be kept.
\<close>

section \<open>The active index\<close>

text \<open>The entries a bucket holds, by key.\<close>

definition s3_active :: "codec \<Rightarrow> (string \<rightharpoonup> bytes) \<Rightarrow> string \<rightharpoonup> index_entry" where
  "s3_active cd B k = (if prefix ''instances/'' k \<and> HasSuffix k ''/active.json''
     then Option.bind (B k) (file_json cd dec_info) else None)"

definition active_decodable :: "codec \<Rightarrow> (string \<rightharpoonup> bytes) \<Rightarrow> bool" where
  "active_decodable cd B \<longleftrightarrow> (\<forall>k d. prefix ''instances/'' k \<and> HasSuffix k ''/active.json'' \<and> B k = Some d \<longrightarrow>
     file_json cd dec_info d \<noteq> None)"

lemma active_key_listed [simp]: "prefix ''instances/'' (active_key iid)" "HasSuffix (active_key iid) ''/active.json''"
  by (simp_all add: active_key_def HasSuffix_def suffix_def)

lemma s3_active_update:
  "s3_active cd (B(active_key iid := zo)) = (s3_active cd B)(active_key iid := Option.bind zo (file_json cd dec_info))"
  by (rule ext) (simp add: s3_active_def)

lemma active_keys_pages:
  "active_keys (map Inr pages) =
     Inr [key. Some key \<leftarrow> concat pages, HasSuffix key ''/active.json'']"
proof (induction pages)
  case (Cons p ps)
  have "concat (map (\<lambda>k. case k of None \<Rightarrow> [] | Some key \<Rightarrow> if HasSuffix key ''/active.json'' then [key] else []) p) =
      [key. Some key \<leftarrow> p, HasSuffix key ''/active.json'']" by (rule refl)
  with Cons show ?case by simp
qed simp

lemma collect_active_ok:
  assumes "\<forall>(d, t)\<in>set rs. file_json cd dec_info d \<noteq> None"
  shows "collect_active cd (map Inr rs) = Inr (map (\<lambda>(d, t). the (file_json cd dec_info d)) rs)"
  using assms by (induction rs) (auto simp: file_json_def split: sum.splits)

lemma some_keys:
  "set [key. Some key \<leftarrow> xs, P key] = {k. Some k \<in> set xs \<and> P k}"
  "distinct xs \<Longrightarrow> distinct [key. Some key \<leftarrow> xs, P key]"
proof -
  show set: "set [key. Some key \<leftarrow> xs, P key] = {k. Some k \<in> set xs \<and> P k}" for xs
    by (auto split: option.splits)
  show "distinct xs \<Longrightarrow> distinct [key. Some key \<leftarrow> xs, P key]"
  proof (induction xs)
    case (Cons x xs)
    then show ?case using set[of xs] by (cases x) auto
  qed simp
qed

context s3_bucket_store
begin

lemma LoadActiveIndex_law:
  assumes "good \<sigma>" "active_decodable cd (objs \<sigma> bucket)"
  shows "\<exists>keys es. s3_LoadActiveIndex cd arrival S \<sigma> =
      Inr (if es = [] then bytes_of_string ''[]'' else json_text cd (JArr (map enc_entry es))) \<and>
    distinct keys \<and> set keys = dom (s3_active cd (objs \<sigma> bucket)) \<and>
    map Some es = map (s3_active cd (objs \<sigma> bucket)) (arrival keys)"
proof -
  let ?B = "objs \<sigma> bucket"
  let ?e = "\<lambda>k. the (file_json cd dec_info (the (?B k)))"
  obtain pages where pg: "s3_ListObjectsV2 C bucket ''instances/'' \<sigma> = map Inr pages" "distinct (concat pages)"
    "set (concat pages) = Some ` {k. prefix ''instances/'' k \<and> ?B k \<noteq> None}"
    using List_objects[OF goodD(1)[OF assms(1)], of bucket "''instances/''"] by blast
  define keys where "keys = [key. Some key \<leftarrow> concat pages, HasSuffix key ''/active.json'']"
  have keys: "set keys = dom (s3_active cd ?B)"
    unfolding keys_def some_keys(1) pg(3)
    using assms(2) by (fastforce simp: s3_active_def active_decodable_def bind_eq_Some_conv split: if_splits)
  have dist: "distinct keys" unfolding keys_def by (rule some_keys(2)[OF pg(2)])
  have arr: "set (arrival keys) = set keys" "length (arrival keys) = length keys"
    using arrival[of keys] by (metis set_mset_mset) (metis arrival size_mset)
  have rd: "map (\<lambda>k. readObject S k \<sigma>) (arrival keys) = map Inr (map (\<lambda>k. (the (?B k), etag (the (?B k)))) (arrival keys))"
  proof -
    have "readObject S k \<sigma> = Inr (the (?B k), etag (the (?B k)))" if "k \<in> set (arrival keys)" for k
    proof -
      have "k \<in> dom (s3_active cd ?B)" using that keys arr(1) by simp
      then obtain d where "?B k = Some d" by (auto simp: s3_active_def bind_eq_Some_conv split: if_splits)
      then show ?thesis using readObject_eq(1)[OF goodD(1)[OF assms(1)]] by simp
    qed
    then show ?thesis by simp
  qed
  have "\<forall>k\<in>set (arrival keys). file_json cd dec_info (the (?B k)) \<noteq> None"
    using keys arr(1) by (auto simp: s3_active_def bind_eq_Some_conv split: if_splits)
  then have col: "collect_active cd (map (\<lambda>k. readObject S k \<sigma>) (arrival keys)) = Inr (map ?e (arrival keys))"
    unfolding rd by (subst collect_active_ok) (auto simp: comp_def)
  have "s3_active cd ?B k = Some (?e k)" if "k \<in> dom (s3_active cd ?B)" for k
    using that by (auto simp: s3_active_def bind_eq_Some_conv split: if_splits)
  then have "map Some (map ?e (arrival keys)) = map (s3_active cd ?B) (arrival keys)" using keys arr(1) by simp
  moreover have "s3_LoadActiveIndex cd arrival S \<sigma> = Inr (if map ?e (arrival keys) = [] then bytes_of_string ''[]''
      else json_text cd (JArr (map enc_entry (map ?e (arrival keys)))))"
  proof -
    have ak: "active_keys (map Inr pages) = Inr keys" unfolding keys_def by (rule active_keys_pages)
    have "arrival keys = [] \<longleftrightarrow> length keys = 0" using arr(2) by auto
    then show ?thesis using col by (simp add: s3_LoadActiveIndex_def pg(1) ak)
  qed
  ultimately show ?thesis using keys dist by blast
qed

text \<open>
  Two hosts append to the oplog at the same time: both read it before either writes. The second write
  replaces the first, and both hosts are told that their entry was saved.
\<close>

lemma oplog_race:
  assumes "good \<sigma>" "valid_utf8 (ApiName a)" "valid_utf8 (ApiName b)"
    and "s3_read_oplog cd S iid \<sigma> = Inr lst" "s3_append_oplog cd S iid lst a \<sigma> = (ra, \<sigma>1)"
    and "s3_append_oplog cd S iid lst b \<sigma>1 = (rb, \<sigma>2)"
  shows "ra = None \<and> rb = None \<and> s3_LoadOplog cd S iid \<sigma>2 = Inr (lst @ [b])"
proof -
  have l: "lst = i_oplog (see \<sigma> iid)" "good_oplog iid lst" using read_oplog[OF assms(1), of iid] assms(4) by simp_all
  note A = append_oplog[OF assms(1) l(2) assms(2,5)]
  then have "good \<sigma>1" by blast
  note B = append_oplog[OF this l(2) assms(3,6)]
  then show ?thesis using A read_oplog[of \<sigma>2 iid] by auto
qed

text \<open>
  A read of the deltas that fails with an error that only looks like a missing object: the save goes
  through and the deltas saved before are lost.
\<close>

lemma SaveDeltas_misread:
  assumes "good \<sigma>" "distinct (map fst ds)" "\<forall>kv\<in>set ds. fst kv < 2 ^ 63" "isNotFound (Some err)"
    and run: "s3_SaveDeltas cd (the_store (C\<lparr>s3_GetObject := (\<lambda>b k \<sigma>. Inl err)\<rparr>) bucket) iid ds \<sigma> = (r, \<sigma>')"
  shows "r = None \<and> i_deltas (see \<sigma>' iid) = map_of ds"
proof -
  let ?S = "the_store (C\<lparr>s3_GetObject := (\<lambda>b k \<sigma>. Inl err)\<rparr>) bucket"
  have "writeObject ?S k z \<sigma> = writeObject S k z \<sigma>" for k z by (simp add: writeObject_def put_plain_def)
  then have "s3_write_deltas cd ?S iid [] ds \<sigma> = s3_write_deltas cd S iid [] ds \<sigma>"
    by (simp add: s3_write_deltas_def put_compressed_def split: sum.split)
  then have "s3_write_deltas cd S iid [] ds \<sigma> = (r, \<sigma>')"
    using run assms(4) by (simp add: s3_SaveDeltas_def s3_read_deltas_def readObject_def)
  from write_deltas_law[OF assms(1) good_deltas_empty assms(2,3) this] show ?thesis by simp
qed

lemma contract: "snapshot_store (s3_ops cd arrival S) good see s3_cas valid_utf8 (s3_ok_meta cd etag)"
  by (rule s3.snapshot_store_axioms)

end

section \<open>The engine\<close>

lemma s3_durable:
  "s3_bucket_store C up objs etag cd arrival \<Longrightarrow> linear_memory M contents valid \<Longrightarrow>
   durable (s3_ops cd arrival (the_store C bucket)) (s3_inv cd up objs etag bucket) (s3_view cd objs etag bucket)
     s3_cas valid_utf8 (s3_ok_meta cd etag) M contents valid"
  by (rule durable.intro[OF s3_bucket_store.contract])

section \<open>A service over lists\<close>

type_synonym list_bucket = "string \<Rightarrow> (string, bytes) gomap"

definition list_put :: "put_input \<Rightarrow> list_bucket \<Rightarrow> (go_error + string option) \<times> list_bucket" where
  "list_put i \<sigma> =
     (let b = pi_Bucket i; k = pi_Key i; cur = map_of (\<sigma> b) k;
          done = (Inr (Some (string_of_bytes (pi_Body i))), \<sigma>(b := AList.update k (pi_Body i) (\<sigma> b)));
          failed = (Inl (ApiError ''PreconditionFailed'' ''api error PreconditionFailed''), \<sigma>)
      in if pi_IfNoneMatch i \<noteq> None \<and> cur \<noteq> None then failed
         else case pi_IfMatch i of
                None \<Rightarrow> done
              | Some t \<Rightarrow>
                  (case cur of
                     None \<Rightarrow> (Inl (ApiError ''NoSuchKey'' ''api error NoSuchKey''), \<sigma>)
                   | Some d \<Rightarrow> if string_of_bytes d = t then done else failed))"

definition list_s3 :: "list_bucket s3_client" where
  "list_s3 =
     \<lparr> s3_GetObject = (\<lambda>b k \<sigma>. case map_of (\<sigma> b) k of
          None \<Rightarrow> Inl (ApiError ''NoSuchKey'' ''api error NoSuchKey'') | Some d \<Rightarrow> Inr (Inr d, Some (string_of_bytes d))),
       s3_PutObject = list_put,
       s3_DeleteObject = (\<lambda>b k \<sigma>. (None, \<sigma>(b := AList.delete k (\<sigma> b)))),
       s3_ListObjectsV2 = (\<lambda>b p \<sigma>. [Inr (map Some (filter (prefix p) (map fst (\<sigma> b))))]) \<rparr>"

definition list_up :: "list_bucket \<Rightarrow> bool" where
  "list_up \<sigma> \<longleftrightarrow> (\<forall>b. distinct (map fst (\<sigma> b)))"

definition list_objs :: "list_bucket \<Rightarrow> string \<Rightarrow> string \<rightharpoonup> bytes" where
  "list_objs \<sigma> b = map_of (\<sigma> b)"

lemma list_put_ok:
  assumes "list_up \<sigma>"
    and "case pi_IfNoneMatch i of None \<Rightarrow> True | Some x \<Rightarrow> x = ''*'' \<and> list_objs \<sigma> (pi_Bucket i) (pi_Key i) = None"
    and "case pi_IfMatch i of None \<Rightarrow> True | Some t \<Rightarrow> (\<exists>d. list_objs \<sigma> (pi_Bucket i) (pi_Key i) = Some d \<and> string_of_bytes d = t)"
    and "list_put i \<sigma> = (r, \<sigma>')"
  shows "r = Inr (Some (string_of_bytes (pi_Body i))) \<and> list_up \<sigma>' \<and>
    list_objs \<sigma>' = (list_objs \<sigma>)(pi_Bucket i := (list_objs \<sigma> (pi_Bucket i))(pi_Key i \<mapsto> pi_Body i))"
proof -
  have "r = Inr (Some (string_of_bytes (pi_Body i)))"
    "\<sigma>' = \<sigma>(pi_Bucket i := AList.update (pi_Key i) (pi_Body i) (\<sigma> (pi_Bucket i)))"
    using assms(2-4) by (auto simp: list_put_def list_objs_def Let_def split: option.splits if_splits)
  then show ?thesis using assms(1) by (auto simp: list_up_def list_objs_def fun_eq_iff distinct_update update_conv')
qed

interpretation list_service: object_service list_s3 list_up list_objs string_of_bytes
proof (unfold_locales, goal_cases)
  case (3 \<sigma> i r \<sigma>')
  then show ?case by (intro list_put_ok) (simp_all add: list_s3_def)
next
  case (7 \<sigma> b k x \<sigma>')
  then have "x = None" "\<sigma>' = \<sigma>(b := AList.delete k (\<sigma> b))" by (auto simp: list_s3_def)
  then show ?case using 7(1) by (auto simp: list_up_def list_objs_def fun_eq_iff delete_conv' distinct_delete)
next
  case (8 \<sigma> b p)
  then show ?case
    by (intro exI[of _ "[map Some (filter (prefix p) (map fst (\<sigma> b)))]"])
       (auto simp: list_s3_def list_up_def list_objs_def distinct_map map_of_eq_None_iff)
qed (auto simp: list_s3_def list_objs_def list_put_def Let_def)

lemma string_of_bytes_inj: "string_of_bytes a = string_of_bytes b \<longleftrightarrow> a = b"
  by (metis bytes_of_string_of_bytes)

interpretation list_bucket: s3_bucket_store list_s3 list_up list_objs string_of_bytes compact_codec bucket "\<lambda>ks. ks"
  for bucket
proof (unfold_locales, goal_cases)
  case (1 m m')
  then have "file_meta compact_codec (json_text compact_codec (marshal_meta m)) =
      file_meta compact_codec (json_text compact_codec (marshal_meta m'))" by (simp add: string_of_bytes_inj)
  then show ?case using 1 by (simp add: codec_laws.file_meta_text[OF compact.codec_laws_axioms])
qed simp

definition empty_bucket :: list_bucket where
  "empty_bucket = (\<lambda>_. [])"

lemma empty_bucket_inv [simp]: "s3_inv cd list_up list_objs etag bucket empty_bucket"
  by (simp add: s3_inv_def empty_bucket_def list_up_def list_objs_def)

lemma empty_bucket_view [simp]: "s3_view cd list_objs etag bucket empty_bucket iid = empty_inst"
  by (simp add: s3_view_def empty_bucket_def list_objs_def)

interpretation s3_engine: durable_engine "s3_ops compact_codec (\<lambda>ks. ks) (the_store list_s3 bucket)"
    "s3_inv compact_codec list_up list_objs string_of_bytes bucket" "s3_view compact_codec list_objs string_of_bytes bucket"
    s3_cas valid_utf8 "s3_ok_meta compact_codec string_of_bytes" list_memory "\<lambda>m. m" list_memory_valid
    "list_runtime mem0 exports" "\<lambda>r. r" "\<lambda>_. True" "\<lambda>_. mem0" for bucket mem0 exports
  by (rule durable_engine.intro[OF s3_durable[OF list_bucket.s3_bucket_store_axioms lm.linear_memory_axioms]
        list_rt.wazero_runtime_axioms])

end
