(* ===== verification/Client_Spec.thy ===== *)
theory Client_Spec
  imports Concurrency
begin

text \<open>
  What the sessions of any number of hosts can observe of a store. A client loads metadata and holds it,
  swaps it, saves data and reads it back; the entity tag inside the metadata is none of its business. Every
  store that keeps the contract of \<open>snapshot_store\<close>, whether it compares versions or entity tags, answers a
  client program as one abstract machine does that compares versions, as long as no instance is deleted:
  so two such stores cannot be told apart.
\<close>

section \<open>Client programs\<close>

datatype client_cmd =
    KLoad nat string string      \<comment> \<open>client, instance, module hash of its engine\<close>
  | KSwap nat string
  | KData store_cmd
  | KRead string

datatype observation =
    OMeta "instance_meta option"
  | OSwap bool
  | ORead "bytes option" "nat \<rightharpoonup> bytes" "oplog_entry list"
  | ODone
  | OFail

text \<open>Metadata without its tag.\<close>

definition untag :: "instance_meta \<Rightarrow> instance_meta" where
  "untag m = m\<lparr>ETag := []\<rparr>"

text \<open>A command on a store, with the metadata the clients hold.\<close>

fun run_client :: "'s store_ops \<Rightarrow> client_cmd \<Rightarrow> (nat \<rightharpoonup> instance_meta) \<times> 's \<Rightarrow>
    observation \<times> (nat \<rightharpoonup> instance_meta) \<times> 's" where
  "run_client st (KLoad p iid h) (held, \<sigma>) =
     (case st_LoadMetadata st iid \<sigma> of
        Inl err \<Rightarrow> (OFail, held, \<sigma>)
      | Inr mo \<Rightarrow> (OMeta (map_option untag mo), held(p \<mapsto> loaded_meta iid h mo), \<sigma>))"
| "run_client st (KSwap p h) (held, \<sigma>) =
     (case held p of
        None \<Rightarrow> (ODone, held, \<sigma>)
      | Some m \<Rightarrow>
          (case st_SaveMetadata st (m\<lparr>WasmHash := h\<rparr>) \<sigma> of
             (rb, m', \<sigma>') \<Rightarrow> (OSwap (rb = Inr True), held(p \<mapsto> m'), \<sigma>')))"
| "run_client st (KData c) (held, \<sigma>) = (ODone, held, run_cmd st c \<sigma>)"
| "run_client st (KRead iid) (held, \<sigma>) =
     ((case st_LoadDeltas st iid \<sigma> of
         Inl err \<Rightarrow> OFail
       | Inr ds \<Rightarrow>
           (case st_LoadOplog st iid \<sigma> of
              Inl err \<Rightarrow> OFail
            | Inr es \<Rightarrow> ORead (case st_Load st iid \<sigma> of Inl err \<Rightarrow> None | Inr b \<Rightarrow> Some b) (map_of ds) es)),
      held, \<sigma>)"

text \<open>The abstract machine: a swap goes through if the version held is the version stored.\<close>

fun spec_client :: "client_cmd \<Rightarrow> (nat \<rightharpoonup> instance_meta) \<times> (string \<Rightarrow> inst) \<Rightarrow>
    observation \<times> (nat \<rightharpoonup> instance_meta) \<times> (string \<Rightarrow> inst)" where
  "spec_client (KLoad p iid h) (held, v) =
     (OMeta (i_meta (v iid)), held(p \<mapsto> loaded_meta iid h (i_meta (v iid))), v)"
| "spec_client (KSwap p h) (held, v) =
     (case held p of
        None \<Rightarrow> (ODone, held, v)
      | Some m0 \<Rightarrow>
          (let m = m0\<lparr>WasmHash := h\<rparr>; iid = InstanceID m; m' = m\<lparr>Version := Version m + 1\<rparr>
           in if Version m = version_of (i_meta (v iid))
              then (OSwap True, held(p \<mapsto> m'), v(iid := (v iid)\<lparr>i_meta := Some m'\<rparr>))
              else (OSwap False, held(p \<mapsto> m), v)))"
| "spec_client (KData c) (held, v) = (ODone, held, spec_cmd c v)"
| "spec_client (KRead iid) (held, v) = (ORead (i_snapshot (v iid)) (i_deltas (v iid)) (i_oplog (v iid)), held, v)"

text \<open>A program with its observations.\<close>

fun observe :: "(client_cmd \<Rightarrow> 'x \<Rightarrow> observation \<times> 'x) \<Rightarrow> client_cmd list \<Rightarrow> 'x \<Rightarrow> observation list" where
  "observe step [] x = []"
| "observe step (c # cs) x = (case step c x of (ob, x') \<Rightarrow> ob # observe step cs x')"

fun ok_client :: "(string \<Rightarrow> bool) \<Rightarrow> (instance_meta \<Rightarrow> bool) \<Rightarrow> client_cmd \<Rightarrow> bool" where
  "ok_client ok_str ok_meta (KLoad p iid h) \<longleftrightarrow> ok_str iid \<and> ok_str h"
| "ok_client ok_str ok_meta (KSwap p h) \<longleftrightarrow> ok_str h"
| "ok_client ok_str ok_meta (KData c) \<longleftrightarrow> data_cmd c \<and> ok_cmd ok_str ok_meta c"
| "ok_client ok_str ok_meta (KRead iid) \<longleftrightarrow> True"

lemma ok_client_mono: "(\<And>x. p x \<Longrightarrow> q x) \<Longrightarrow> ok_client p f c \<Longrightarrow> ok_client q g c"
  by (cases c) (auto elim!: data_cmd.elims)

section \<open>Without tags\<close>

definition untag_inst :: "inst \<Rightarrow> inst" where
  "untag_inst x = x\<lparr>i_meta := map_option untag (i_meta x)\<rparr>"

lemma untag_sel [simp]:
  "Version (untag m) = Version m" "InstanceID (untag m) = InstanceID m" "ETag (untag m) = []"
  "untag (m\<lparr>WasmHash := h\<rparr>) = (untag m)\<lparr>WasmHash := h\<rparr>" "untag (m\<lparr>Version := n\<rparr>) = (untag m)\<lparr>Version := n\<rparr>"
  "untag (m\<lparr>ETag := t\<rparr>) = untag m"
  by (simp_all add: untag_def)

lemma untag_new [simp]: "untag (new_meta iid h) = new_meta iid h"
  by (simp add: untag_def new_meta_def)

lemma untag_loaded: "untag (loaded_meta iid h mo) = loaded_meta iid h (map_option untag mo)"
  by (cases mo) (simp_all add: loaded_meta_def)

lemma untag_inst_sel [simp]:
  "i_meta (untag_inst x) = map_option untag (i_meta x)" "i_snapshot (untag_inst x) = i_snapshot x"
  "i_deltas (untag_inst x) = i_deltas x" "i_oplog (untag_inst x) = i_oplog x"
  by (simp_all add: untag_inst_def)

lemma untag_inst_upd [simp]:
  "untag_inst (x\<lparr>i_snapshot := a\<rparr>) = (untag_inst x)\<lparr>i_snapshot := a\<rparr>"
  "untag_inst (x\<lparr>i_deltas := b\<rparr>) = (untag_inst x)\<lparr>i_deltas := b\<rparr>"
  "untag_inst (x\<lparr>i_oplog := c\<rparr>) = (untag_inst x)\<lparr>i_oplog := c\<rparr>"
  "untag_inst (x\<lparr>i_meta := d\<rparr>) = (untag_inst x)\<lparr>i_meta := map_option untag d\<rparr>"
  by (simp_all add: untag_inst_def)

lemma version_of_untag [simp]: "version_of (map_option untag mo) = version_of mo"
  by (cases mo) (simp_all add: version_of_def)

lemma untag_data: "data_cmd c \<Longrightarrow> untag_inst \<circ> spec_cmd c v = spec_cmd c (untag_inst \<circ> v)"
  by (cases c) (auto simp: fun_eq_iff)

lemma data_meta: "data_cmd c \<Longrightarrow> i_meta (spec_cmd c v iid) = i_meta (v iid)"
  by (cases c) auto

section \<open>Every store is the abstract machine\<close>

context snapshot_store
begin

text \<open>
  The metadata a client holds is not newer than what is stored, and if it has the stored version, the
  store accepts it.
\<close>

definition holds :: "(nat \<rightharpoonup> instance_meta) \<Rightarrow> 's \<Rightarrow> bool" where
  "holds held \<sigma> \<longleftrightarrow> inv \<sigma> \<and> (\<forall>p m. held p = Some m \<longrightarrow> 0 \<le> Version m \<and> ok_meta m \<and>
     Version m \<le> version_of (i_meta (view \<sigma> (InstanceID m))) \<and>
     (Version m = version_of (i_meta (view \<sigma> (InstanceID m))) \<longrightarrow> cas (i_meta (view \<sigma> (InstanceID m))) m))"

definition seen :: "(nat \<rightharpoonup> instance_meta) \<times> 's \<Rightarrow> (nat \<rightharpoonup> instance_meta) \<times> (string \<Rightarrow> inst)" where
  "seen x = (map_option untag \<circ> fst x, untag_inst \<circ> view (snd x))"

lemma holdsD:
  assumes "holds held \<sigma>" "held p = Some m"
  shows "inv \<sigma>" "0 \<le> Version m" "ok_meta m"
    "cas (i_meta (view \<sigma> (InstanceID m))) m \<longleftrightarrow> Version m = version_of (i_meta (view \<sigma> (InstanceID m)))"
  using assms cas_version[of \<sigma> m] unfolding holds_def by blast+

lemma holds_update:
  "holds held \<sigma> \<Longrightarrow> 0 \<le> Version m \<Longrightarrow> ok_meta m \<Longrightarrow> Version m \<le> version_of (i_meta (view \<sigma> (InstanceID m))) \<Longrightarrow>
   (Version m = version_of (i_meta (view \<sigma> (InstanceID m))) \<Longrightarrow> cas (i_meta (view \<sigma> (InstanceID m))) m) \<Longrightarrow>
   holds (held(p \<mapsto> m)) \<sigma>"
  by (simp add: holds_def)

lemma load_client:
  assumes "holds held \<sigma>" "ok_str iid" "ok_str h"
  shows "holds (held(p \<mapsto> loaded_meta iid h (i_meta (view \<sigma> iid)))) \<sigma>"
proof (cases "i_meta (view \<sigma> iid)")
  case None
  then show ?thesis
    using assms(1) ok_new[OF assms(2,3)] cas_new[of "new_meta iid h"]
    by (intro holds_update) (simp_all add: loaded_meta_def new_meta_def version_of_def)
next
  case (Some m)
  have "inv \<sigma>" using assms(1) by (simp add: holds_def)
  from meta_wf[OF this Some] show ?thesis
    using assms(1) Some cas_current[of m] by (intro holds_update) (simp_all add: loaded_meta_def version_of_def)
qed

lemma swap_client:
  assumes H: "holds held \<sigma>" "held p = Some m0" "ok_str h"
    and run: "st_SaveMetadata st (m0\<lparr>WasmHash := h\<rparr>) \<sigma> = (rb, m', \<sigma>')"
  shows "holds (held(p \<mapsto> m')) \<sigma>' \<and>
    (if Version m0 = version_of (i_meta (view \<sigma> (InstanceID m0)))
     then rb = Inr True \<and> untag m' = (untag m0)\<lparr>WasmHash := h, Version := Version m0 + 1\<rparr> \<and>
       view \<sigma>' = (view \<sigma>)(InstanceID m0 := (view \<sigma> (InstanceID m0))\<lparr>i_meta := Some m'\<rparr>)
     else rb \<noteq> Inr True \<and> m' = m0\<lparr>WasmHash := h\<rparr> \<and> \<sigma>' = \<sigma>)"
proof -
  let ?m = "m0\<lparr>WasmHash := h\<rparr>" and ?iid = "InstanceID m0"
  note h = holdsD[OF H(1,2)]
  have m: "0 \<le> Version ?m" "ok_meta ?m" using h(2) ok_hash[OF h(3) H(3)] by simp_all
  show ?thesis
  proof (cases "Version m0 = version_of (i_meta (view \<sigma> ?iid))")
    case True
    then have "cas (i_meta (view \<sigma> (InstanceID ?m))) ?m" using h(4) cas_hash by simp
    from SaveMetadata_ok[OF h(1) m this run] have eq: "m' = ?m\<lparr>Version := Version ?m + 1, ETag := ETag m'\<rparr>" and inv': "inv \<sigma>'" and "rb = Inr True"
      and v': "view \<sigma>' = (view \<sigma>)(?iid := (view \<sigma> ?iid)\<lparr>i_meta := Some m'\<rparr>)" by simp_all
    have m': "Version m' = Version m0 + 1" "InstanceID m' = ?iid" by (subst eq, simp)+
    have tag: "untag m' = (untag m0)\<lparr>WasmHash := h, Version := Version m0 + 1\<rparr>" by (subst eq) simp
    have wf: "ok_meta m'" "Version m' > 0" using meta_wf[OF inv', of ?iid m'] v' by simp_all
    have old: "0 \<le> Version m2 \<and> ok_meta m2 \<and> Version m2 \<le> version_of (i_meta (view \<sigma>' (InstanceID m2))) \<and>
        (Version m2 = version_of (i_meta (view \<sigma>' (InstanceID m2))) \<longrightarrow> cas (i_meta (view \<sigma>' (InstanceID m2))) m2)"
      if "held q = Some m2" for q m2
      using H(1) that True m'(1) v' unfolding holds_def by (cases "InstanceID m2 = ?iid") (force simp: version_of_def)+
    then have "holds (held(p \<mapsto> m')) \<sigma>'"
      using inv' wf m'(2) v' cas_current[OF wf(2)] by (simp add: holds_def version_of_def)
    then show ?thesis using True \<open>rb = Inr True\<close> tag v' by simp
  next
    case False
    then have "\<not> cas (i_meta (view \<sigma> (InstanceID ?m))) ?m" using h(4) cas_hash by simp
    from SaveMetadata_refused[OF h(1) m this run] have r: "rb \<noteq> Inr True" "m' = ?m" "\<sigma>' = \<sigma>" by blast+
    have "Version m0 \<le> version_of (i_meta (view \<sigma> ?iid))" using H(1,2) by (simp add: holds_def)
    then have "holds (held(p \<mapsto> ?m)) \<sigma>" using H(1) m False by (intro holds_update) simp_all
    then show ?thesis using False r by simp
  qed
qed

lemma client_step:
  assumes H: "holds held \<sigma>" and ok: "ok_client ok_str ok_meta c" and run: "run_client st c (held, \<sigma>) = (ob, held', \<sigma>')"
  shows "holds held' \<sigma>' \<and> spec_client c (seen (held, \<sigma>)) = (ob, seen (held', \<sigma>'))"
proof -
  have I: "inv \<sigma>" using H by (simp add: holds_def)
  show ?thesis
  proof (cases c)
    case (KLoad p iid h)
    then have r: "ob = OMeta (map_option untag (i_meta (view \<sigma> iid)))"
      "held' = held(p \<mapsto> loaded_meta iid h (i_meta (view \<sigma> iid)))" "\<sigma>' = \<sigma>"
      using run LoadMetadata[OF I, of iid] by auto
    have "holds held' \<sigma>'" unfolding r using H ok KLoad by (intro load_client) simp_all
    then show ?thesis using KLoad r by (simp add: seen_def untag_loaded map_option_o_map_upd)
  next
    case (KSwap p h)
    show ?thesis
    proof (cases "held p")
      case None
      then show ?thesis using KSwap run H by (auto simp: seen_def)
    next
      case (Some m0)
      obtain rb m' \<tau> where x: "st_SaveMetadata st (m0\<lparr>WasmHash := h\<rparr>) \<sigma> = (rb, m', \<tau>)" by (metis prod_cases3)
      then have r: "ob = OSwap (rb = Inr True)" "held' = held(p \<mapsto> m')" "\<sigma>' = \<tau>" using run KSwap Some by auto
      have "ok_str h" using ok KSwap by simp
      note S = swap_client[OF H Some this x]
      then have "holds held' \<sigma>'" using r by simp
      moreover have "spec_client c (seen (held, \<sigma>)) = (ob, seen (held', \<sigma>'))"
        using S r KSwap Some by (cases "Version m0 = version_of (i_meta (view \<sigma> (InstanceID m0)))") (simp_all add: seen_def fun_upd_comp Let_def)
      ultimately show ?thesis by simp
    qed
  next
    case (KData d)
    then have d: "data_cmd d" "ok_cmd ok_str ok_meta d" using ok by simp_all
    have r: "ob = ODone" "held' = held" "\<sigma>' = run_cmd st d \<sigma>" using run KData by auto
    have V: "inv \<sigma>' \<and> view \<sigma>' = spec_cmd d (view \<sigma>)"
      unfolding r(3) by (rule run_other_refines[OF I d(2)]) (use d(1) in auto)
    then have "i_meta (view \<sigma>' i) = i_meta (view \<sigma> i)" for i using data_meta[OF d(1)] by simp
    then have "holds held \<sigma>'" using H V by (simp add: holds_def)
    then show ?thesis using KData r V untag_data[OF d(1)] by (simp add: seen_def)
  next
    case (KRead iid)
    obtain ds where "st_LoadDeltas st iid \<sigma> = Inr ds" "map_of ds = i_deltas (view \<sigma> iid)" using LoadDeltas[OF I, of iid] by blast
    moreover have "(case st_Load st iid \<sigma> of Inl err \<Rightarrow> None | Inr b \<Rightarrow> Some b) = i_snapshot (view \<sigma> iid)"
      using Load_None[OF I, of iid] Load_Some[OF I, of iid] by (cases "i_snapshot (view \<sigma> iid)") auto
    ultimately show ?thesis using run KRead H LoadOplog[OF I, of iid] by (auto simp: seen_def)
  qed
qed

lemma client_observations:
  assumes "holds held \<sigma>" "list_all (ok_client ok_str ok_meta) cs"
  shows "observe (run_client st) cs (held, \<sigma>) = observe spec_client cs (seen (held, \<sigma>))"
  using assms
proof (induction cs arbitrary: held \<sigma>)
  case (Cons c cs)
  obtain ob held' \<sigma>' where x: "run_client st c (held, \<sigma>) = (ob, held', \<sigma>')" by (metis prod_cases3)
  have "holds held' \<sigma>' \<and> spec_client c (seen (held, \<sigma>)) = (ob, seen (held', \<sigma>'))"
    using Cons.prems by (intro client_step[OF _ _ x]) simp_all
  then show ?case using x Cons by simp
qed simp

lemma holds_empty: "inv \<sigma> \<Longrightarrow> holds Map.empty \<sigma>"
  by (simp add: holds_def)

end

text \<open>Two stores with the same content answer every client program alike.\<close>

lemma stores_indistinguishable:
  assumes "snapshot_store st1 inv1 view1 cas1 ok_str1 ok_meta1" "snapshot_store st2 inv2 view2 cas2 ok_str2 ok_meta2"
    and "inv1 \<sigma>1" "inv2 \<sigma>2" "untag_inst \<circ> view1 \<sigma>1 = untag_inst \<circ> view2 \<sigma>2"
    and "list_all (ok_client ok_str1 ok_meta1) cs" "list_all (ok_client ok_str2 ok_meta2) cs"
  shows "observe (run_client st1) cs (Map.empty, \<sigma>1) = observe (run_client st2) cs (Map.empty, \<sigma>2)"
proof -
  note h1 = snapshot_store.holds_empty[OF assms(1,3)] and h2 = snapshot_store.holds_empty[OF assms(2,4)]
  show ?thesis
    using snapshot_store.client_observations[OF assms(1) h1 assms(6)] snapshot_store.client_observations[OF assms(2) h2 assms(7)] assms(5)
    by (simp add: snapshot_store.seen_def[OF assms(1)] snapshot_store.seen_def[OF assms(2)])
qed

end
