(* ===== verification/S3_Properties.thy ===== *)
theory S3_Properties
  imports S3_Engine Memory_Engine Client_Spec
begin

text \<open>
  The properties of the engine over the S3 store, for any object service that behaves as documented
  (\<open>s3_bucket_store\<close>), each with an instance over the list service.
\<close>

section \<open>Durable execution over S3\<close>

text \<open>
  C26. Checkpoint and restore through an object store: if a session is new or in step with the bucket,
  a checkpoint goes through on the entity tag it loaded, leaves every other instance alone, and a
  restore from the bucket writes back the memory of the checkpoint. The metadata the session holds is
  new or carries the tag of its object (\<open>s3_ok_meta\<close>).
\<close>

theorem s3_checkpoint_restore:
  assumes "s3_bucket_store C up objs etag cd arrival" "linear_memory M contents valid"
    and "s3_inv cd up objs etag bucket \<sigma>"
    and "valid m" "contents m \<noteq> []" "length (contents m) < page_size * max_pages"
    and "s3_ok_meta cd etag (ses_meta s)" "valid_utf8 h"
    and "fresh_session (s3_view cd objs etag bucket \<sigma> (ses_instanceID s)) s \<or>
      in_step (s3_view cd objs etag bucket \<sigma> (ses_instanceID s)) s img \<and> length img \<le> length (contents m) \<and>
      no_collision img (contents m)"
    and "valid m0" "length (contents m0) \<le> length (contents m)" "growable M contents valid (length (contents m))"
    and "checkpoint (s3_ops cd arrival (the_store C bucket)) M h m s \<sigma> = (r, s', \<sigma>')"
  shows "r = passed s \<and> Version (ses_meta s') = Version (ses_meta s) + 1 \<and>
    (\<forall>k. k \<noteq> ses_instanceID s \<longrightarrow> s3_view cd objs etag bucket \<sigma>' k = s3_view cd objs etag bucket \<sigma> k) \<and>
    (\<exists>m' g. restore (s3_ops cd arrival (the_store C bucket)) M (ses_instanceID s) \<sigma>' m0 Map.empty = (Ret None, m', g) \<and>
       contents m' = contents m \<and> hashes_sound g (contents m))"
  by (rule durable.checkpoint_then_restore[OF s3_durable[OF assms(1,2)] assms(3-13)])

theorem s3_checkpoint_restore_witness:
  "\<exists>r s' \<sigma>' m' g. checkpoint (s3_ops compact_codec (\<lambda>ks. ks) (the_store list_s3 ''b'')) list_memory ''h1'' (one_page 1)
      (demo_session (new_meta ''i'' ''h1'') Map.empty) empty_bucket = (r, s', \<sigma>') \<and> r = Ret () \<and>
    restore (s3_ops compact_codec (\<lambda>ks. ks) (the_store list_s3 ''b'')) list_memory ''i'' \<sigma>' (one_page 0) Map.empty =
      (Ret None, m', g) \<and> m' = one_page 1"
proof -
  let ?s = "demo_session (new_meta ''i'' ''h1'') Map.empty"
  obtain r s' \<sigma>' where x: "checkpoint (s3_ops compact_codec (\<lambda>ks. ks) (the_store list_s3 ''b'')) list_memory ''h1''
      (one_page 1) ?s empty_bucket = (r, s', \<sigma>')" by (metis prod_cases3)
  have u: "valid_utf8 ''h1''" "valid_utf8 ''i''" by (simp_all add: valid_utf8_def)
  then have "s3_ok_meta compact_codec string_of_bytes (ses_meta ?s)"
    by (simp add: s3_ok_meta_def meta_utf8_def new_meta_def)
  moreover have "fresh_session (s3_view compact_codec list_objs string_of_bytes ''b'' empty_bucket (ses_instanceID ?s)) ?s"
    by (simp add: fresh_session_def empty_inst_def)
  ultimately show ?thesis
    using s3_checkpoint_restore[OF list_bucket.s3_bucket_store_axioms lm.linear_memory_axioms empty_bucket_inv
        one_page_valid one_page_ne _ _ u(1) _ one_page_valid[of 0] _ one_page_growable x, where img = "[]"] x
    by (auto simp: passed_def)
qed

section \<open>Concurrent executions over S3\<close>

text \<open>
  C27. However the accesses of any number of hosts to a bucket interleave, the conditional writes of the
  metadata object commit the versions of an instance one after another, each exactly once.
\<close>

theorem s3_versions_committed_once:
  assumes "s3_bucket_store C up objs etag cd arrival"
    and "occ_reach (s3_ops cd arrival (the_store C bucket)) hs iid \<sigma> c" "s3_inv cd up objs etag bucket \<sigma>"
    and "valid_utf8 iid" "\<forall>h\<in>hs. valid_utf8 h"
  shows "map snd (occ_log c) = map (\<lambda>k. version_of (i_meta (s3_view cd objs etag bucket \<sigma> iid)) + 1 + int k)
      [0..<length (occ_log c)] \<and>
    distinct (map snd (occ_log c)) \<and>
    version_of (i_meta (s3_view cd objs etag bucket (occ_store c) iid)) =
      version_of (i_meta (s3_view cd objs etag bucket \<sigma> iid)) + int (length (occ_log c))"
proof -
  have I: "occ_inv (s3_inv cd up objs etag bucket) (s3_view cd objs etag bucket) (s3_ok_meta cd etag) iid
      (version_of (i_meta (s3_view cd objs etag bucket \<sigma> iid))) c"
    by (rule snapshot_store.occ_reach_inv[OF s3_bucket_store.contract[OF assms(1)] assms(2-5)])
  then show ?thesis by (simp add: occ_inv_def distinct_map inj_on_def)
qed

theorem s3_versions_committed_once_witness:
  "\<exists>c. occ_reach (s3_ops compact_codec (\<lambda>ks. ks) (the_store list_s3 ''b'')) {''h1''} ''i'' empty_bucket c \<and>
     length (occ_log c) = 1 \<and> occ_held c 1 = None \<and>
     version_of (i_meta (s3_view compact_codec list_objs string_of_bytes ''b'' (occ_store c) ''i'')) = 1"
proof -
  let ?st = "s3_ops compact_codec (\<lambda>ks. ks) (the_store list_s3 ''b'')" and ?m = "new_meta ''i'' ''h1''"
  let ?see = "s3_view compact_codec list_objs string_of_bytes ''b''"
  have u: "valid_utf8 ''h1''" "valid_utf8 ''i''" by (simp_all add: valid_utf8_def)
  have ok: "s3_ok_meta compact_codec string_of_bytes ?m" using u by (simp add: s3_ok_meta_def meta_utf8_def new_meta_def)
  have v0: "?see empty_bucket ''i'' = empty_inst" by simp
  obtain rb m1 \<sigma>1 where sv: "st_SaveMetadata ?st ?m empty_bucket = (rb, m1, \<sigma>1)" by (metis prod_cases3)
  have cas: "s3_cas (i_meta (?see empty_bucket (InstanceID ?m))) ?m" by (simp add: s3_cas_def empty_inst_def)
  have C: "rb = Inr True" "s3_inv compact_codec list_up list_objs string_of_bytes ''b'' \<sigma>1"
    "i_meta (?see \<sigma>1 ''i'') = Some m1" "\<not> s3_cas (Some m1) ?m"
    using list_bucket.s3.SaveMetadata_ok[OF empty_bucket_inv _ ok cas sv]
      list_bucket.s3.swap_once[OF empty_bucket_inv _ ok cas _ ok _ cas sv] by simp_all
  have lost: "st_SaveMetadata ?st ?m \<sigma>1 = (Inr False, ?m, \<sigma>1)"
    using list_bucket.s3.SaveMetadata_conflict[OF C(2) _ ok, of m1] C(3,4) by simp
  have hash: "?m\<lparr>WasmHash := ''h1''\<rparr> = ?m" by (simp add: new_meta_def)
  let ?c0 = "occ_init empty_bucket"
  let ?c1 = "?c0\<lparr>occ_held := (occ_held ?c0)(0 \<mapsto> loaded_meta ''i'' ''h1'' None)\<rparr>"
  let ?c2 = "?c1\<lparr>occ_held := (occ_held ?c1)(1 \<mapsto> loaded_meta ''i'' ''h1'' None)\<rparr>"
  let ?c3 = "?c2\<lparr>occ_held := (occ_held ?c2)(0 \<mapsto> m1), occ_store := \<sigma>1, occ_log := occ_log ?c2 @ [(0, Version m1)]\<rparr>"
  let ?c4 = "?c3\<lparr>occ_held := (occ_held ?c3)(1 := None), occ_store := \<sigma>1\<rparr>"
  have ld: "st_LoadMetadata ?st ''i'' empty_bucket = Inr None"
    using list_bucket.s3.LoadMetadata[OF empty_bucket_inv, of "''b''" "''i''"] by (simp add: empty_inst_def)
  have s01: "occ_step ?st {''h1''} ''i'' ?c0 ?c1" and s12: "occ_step ?st {''h1''} ''i'' ?c1 ?c2"
    by (rule occ_step.Load; simp add: occ_init_def ld)+
  have s23: "occ_step ?st {''h1''} ''i'' ?c2 ?c3"
    using sv C(1) by (intro occ_step.Commit[where h = "''h1''" and m = ?m]) (simp_all add: hash occ_init_def loaded_meta_def)
  have s34: "occ_step ?st {''h1''} ''i'' ?c3 ?c4"
    using lost by (intro occ_step.Conflict[where h = "''h1''" and m = ?m]) (simp_all add: hash occ_init_def loaded_meta_def)
  have r: "occ_reach ?st {''h1''} ''i'' empty_bucket ?c4"
    by (rule occ_reach.step[OF occ_reach.step[OF occ_reach.step[OF occ_reach.step[OF occ_reach.start s01] s12] s23] s34])
  have "version_of (i_meta (?see (occ_store ?c4) ''i'')) = 1"
    using s3_versions_committed_once[OF list_bucket.s3_bucket_store_axioms r empty_bucket_inv u(2)] u(1)
    by (simp add: occ_init_def version_of_def empty_inst_def)
  then show ?thesis using r by (intro exI[of _ ?c4]) (simp add: occ_init_def)
qed

text \<open>
  C28. Fencing by entity tags: two hosts hold the same metadata of an instance, with the same tag. After
  the checkpoint of the first went through, the conditional write of the second is refused, its
  checkpoint panics and the bucket stays as the first left it.
\<close>

theorem s3_second_session_is_fenced:
  assumes "s3_bucket_store C up objs etag cd arrival" "linear_memory M contents valid"
    and "s3_inv cd up objs etag bucket \<sigma>"
    and "valid m" "contents m \<noteq> []" "length (contents m) < page_size * max_pages"
    and "s3_ok_meta cd etag (ses_meta s)" "valid_utf8 h" "valid_utf8 h2"
    and "fresh_session (s3_view cd objs etag bucket \<sigma> (ses_instanceID s)) s \<or>
      in_step (s3_view cd objs etag bucket \<sigma> (ses_instanceID s)) s img \<and> length img \<le> length (contents m) \<and>
      no_collision img (contents m)"
    and "ses_meta t = ses_meta s"
    and "checkpoint (s3_ops cd arrival (the_store C bucket)) M h m s \<sigma> = (r, s', \<sigma>')"
    and "checkpoint (s3_ops cd arrival (the_store C bucket)) M h2 m2 t \<sigma>' = (r2, t', \<sigma>2)"
  shows "r2 = Panic ''concurrent_execution_detected'' \<and> \<sigma>2 = \<sigma>'"
  by (rule durable.second_fenced[OF s3_durable[OF assms(1,2)] assms(3-8,10,12,11,9,13)])

theorem s3_second_session_is_fenced_witness:
  "\<exists>r s' \<sigma>' r2 t' \<sigma>2.
     checkpoint (s3_ops compact_codec (\<lambda>ks. ks) (the_store list_s3 ''b'')) list_memory ''h1'' (one_page 1)
       (demo_session (new_meta ''i'' ''h1'') Map.empty) empty_bucket = (r, s', \<sigma>') \<and>
     checkpoint (s3_ops compact_codec (\<lambda>ks. ks) (the_store list_s3 ''b'')) list_memory ''h1'' (one_page 2)
       (demo_session (new_meta ''i'' ''h1'') Map.empty) \<sigma>' = (r2, t', \<sigma>2) \<and>
     r2 = Panic ''concurrent_execution_detected'' \<and> \<sigma>2 = \<sigma>'"
proof -
  let ?s = "demo_session (new_meta ''i'' ''h1'') Map.empty" and ?st = "s3_ops compact_codec (\<lambda>ks. ks) (the_store list_s3 ''b'')"
  obtain r s' \<sigma>' where x: "checkpoint ?st list_memory ''h1'' (one_page 1) ?s empty_bucket = (r, s', \<sigma>')" by (metis prod_cases3)
  obtain r2 t' \<sigma>2 where y: "checkpoint ?st list_memory ''h1'' (one_page 2) ?s \<sigma>' = (r2, t', \<sigma>2)" by (metis prod_cases3)
  have u: "valid_utf8 ''h1''" "valid_utf8 ''i''" by (simp_all add: valid_utf8_def)
  then have ok: "s3_ok_meta compact_codec string_of_bytes (ses_meta ?s)"
    by (simp add: s3_ok_meta_def meta_utf8_def new_meta_def)
  have "fresh_session (s3_view compact_codec list_objs string_of_bytes ''b'' empty_bucket (ses_instanceID ?s)) ?s"
    by (simp add: fresh_session_def empty_inst_def)
  then have "r2 = Panic ''concurrent_execution_detected'' \<and> \<sigma>2 = \<sigma>'"
    using s3_second_session_is_fenced[OF list_bucket.s3_bucket_store_axioms lm.linear_memory_axioms empty_bucket_inv
        one_page_valid one_page_ne _ ok u(1) u(1) _ refl x y, of "[]"] by simp
  then show ?thesis using x y by blast
qed

section \<open>What S3 does not protect\<close>

text \<open>
  C29. An error is taken for a missing object if its text contains the digits 404, and the text of every
  SDK error carries a request identifier. A throttled read of the deltas whose identifier has these
  digits makes \<open>SaveDeltas\<close> succeed and lose the deltas saved before.
\<close>

theorem s3_error_text_loses_deltas:
  assumes "s3_bucket_store C up objs etag cd arrival" "s3_inv cd up objs etag bucket \<sigma>"
    and "distinct (map fst ds)" "\<forall>kv\<in>set ds. fst kv < 2 ^ 63"
    and "Contains (ToLower (Error err)) ''404''"
    and "s3_SaveDeltas cd (the_store (C\<lparr>s3_GetObject := (\<lambda>b k \<sigma>. Inl err)\<rparr>) bucket) iid ds \<sigma> = (r, \<sigma>')"
  shows "r = None \<and> i_deltas (s3_view cd objs etag bucket \<sigma>' iid) = map_of ds"
proof -
  have "isNotFound (Some err)" using assms(5) by (simp add: isNotFound_def Let_def)
  then show ?thesis by (rule s3_bucket_store.SaveDeltas_misread[OF assms(1-4) _ assms(6)])
qed

theorem s3_error_text_loses_deltas_witness:
  "\<exists>\<sigma>1 r \<sigma>2. s3_SaveDeltas compact_codec (the_store list_s3 ''b'') ''i'' [(3, [1])] empty_bucket = (None, \<sigma>1) \<and>
    i_deltas (s3_view compact_codec list_objs string_of_bytes ''b'' \<sigma>1 ''i'') = [3 \<mapsto> [1]] \<and>
    s3_SaveDeltas compact_codec (the_store (list_s3\<lparr>s3_GetObject :=
      (\<lambda>b k \<sigma>. Inl (ApiError ''SlowDown'' ''StatusCode: 503, RequestID: 7A4041B, api error SlowDown''))\<rparr>) ''b'') ''i'' [(5, [2])] \<sigma>1 = (r, \<sigma>2) \<and>
    r = None \<and> i_deltas (s3_view compact_codec list_objs string_of_bytes ''b'' \<sigma>2 ''i'') = [5 \<mapsto> [2]]"
proof -
  let ?err = "ApiError ''SlowDown'' ''StatusCode: 503, RequestID: 7A4041B, api error SlowDown''"
  obtain r1 \<sigma>1 where x: "s3_SaveDeltas compact_codec (the_store list_s3 ''b'') ''i'' [(3, [1])] empty_bucket = (r1, \<sigma>1)" by fastforce
  have 1: "r1 = None" "s3_inv compact_codec list_up list_objs string_of_bytes ''b'' \<sigma>1"
    "i_deltas (s3_view compact_codec list_objs string_of_bytes ''b'' \<sigma>1 ''i'') = [3 \<mapsto> [1]]"
    using list_bucket.SaveDeltas_law[OF empty_bucket_inv _ _ x] by (simp_all add: empty_inst_def)
  obtain r \<sigma>2 where y: "s3_SaveDeltas compact_codec (the_store (list_s3\<lparr>s3_GetObject := (\<lambda>b k \<sigma>. Inl ?err)\<rparr>) ''b'') ''i'' [(5, [2])] \<sigma>1
      = (r, \<sigma>2)" by fastforce
  have "Contains (ToLower (Error ?err)) ''404''" by code_simp
  then have "r = None \<and> i_deltas (s3_view compact_codec list_objs string_of_bytes ''b'' \<sigma>2 ''i'') = map_of [(5, [2])]"
    by (intro s3_error_text_loses_deltas[OF list_bucket.s3_bucket_store_axioms 1(2) _ _ _ y]) simp_all
  then show ?thesis using 1 x y by auto
qed

text \<open>
  C30. Saving an oplog entry reads the oplog and writes it back, and nothing fences it. Two hosts that
  both read before either writes are both told that their entry was saved, but only the entry of the
  one that wrote last is left; one after the other both are kept.
\<close>

theorem s3_oplog_race_loses_entry:
  assumes "s3_bucket_store C up objs etag cd arrival" "s3_inv cd up objs etag bucket \<sigma>" "valid_utf8 api" "valid_utf8 api2"
    and "s3_read_oplog cd (the_store C bucket) iid \<sigma> = Inr lst"
    and "s3_append_oplog cd (the_store C bucket) iid lst (mk_entry i api req resp) \<sigma> = (ra, \<sigma>1)"
    and "s3_append_oplog cd (the_store C bucket) iid lst (mk_entry j api2 req2 resp2) \<sigma>1 = (rb, \<sigma>2)"
    and "s3_SaveOplog cd (the_store C bucket) iid j api2 req2 resp2 \<sigma>1 = (rc, \<sigma>3)"
  shows "ra = None \<and> rb = None \<and> rc = None \<and>
    s3_LoadOplog cd (the_store C bucket) iid \<sigma>2 = Inr (lst @ [mk_entry j api2 req2 resp2]) \<and>
    s3_LoadOplog cd (the_store C bucket) iid \<sigma>3 = Inr (lst @ [mk_entry i api req resp, mk_entry j api2 req2 resp2]) \<and>
    s3_SaveOplog cd (the_store C bucket) iid i api req resp \<sigma> = (ra, \<sigma>1)"
proof -
  have R: "ra = None \<and> rb = None \<and> s3_LoadOplog cd (the_store C bucket) iid \<sigma>2 = Inr (lst @ [mk_entry j api2 req2 resp2])"
    using assms(3,4) by (intro s3_bucket_store.oplog_race[OF assms(1,2) _ _ assms(5-7)]) simp_all
  have l: "lst = i_oplog (s3_view cd objs etag bucket \<sigma> iid)" "good_oplog iid lst"
    using s3_bucket_store.read_oplog[OF assms(1,2), of iid] assms(5) by simp_all
  have A: "s3_inv cd up objs etag bucket \<sigma>1"
    "i_oplog (s3_view cd objs etag bucket \<sigma>1 iid) = lst @ [mk_entry i api req resp]"
    using s3_bucket_store.append_oplog[OF assms(1,2) l(2) _ assms(6)] assms(3) by simp_all
  have B: "rc = None" "s3_inv cd up objs etag bucket \<sigma>3"
    "i_oplog (s3_view cd objs etag bucket \<sigma>3 iid) = lst @ [mk_entry i api req resp, mk_entry j api2 req2 resp2]"
    using s3_bucket_store.SaveOplog_law[OF assms(1) A(1) assms(4,8)] A(2) by simp_all
  show ?thesis using R B s3_bucket_store.read_oplog[OF assms(1) B(2), of iid] assms(5,6) by (simp add: s3_SaveOplog_def)
qed

theorem s3_oplog_race_loses_entry_witness:
  "\<exists>\<sigma>1 \<sigma>2. s3_append_oplog compact_codec (the_store list_s3 ''b'') ''i'' [] (mk_entry 1 ''pay'' [1] [2]) empty_bucket = (None, \<sigma>1) \<and>
    s3_append_oplog compact_codec (the_store list_s3 ''b'') ''i'' [] (mk_entry 1 ''mail'' [3] [4]) \<sigma>1 = (None, \<sigma>2) \<and>
    s3_LoadOplog compact_codec (the_store list_s3 ''b'') ''i'' \<sigma>2 = Inr [mk_entry 1 ''mail'' [3] [4]]"
proof -
  let ?S = "the_store list_s3 ''b''"
  obtain ra \<sigma>1 where x: "s3_append_oplog compact_codec ?S ''i'' [] (mk_entry 1 ''pay'' [1] [2]) empty_bucket = (ra, \<sigma>1)" by fastforce
  obtain rb \<sigma>2 where y: "s3_append_oplog compact_codec ?S ''i'' [] (mk_entry 1 ''mail'' [3] [4]) \<sigma>1 = (rb, \<sigma>2)" by fastforce
  obtain rc \<sigma>3 where z: "s3_SaveOplog compact_codec ?S ''i'' 1 ''mail'' [3] [4] \<sigma>1 = (rc, \<sigma>3)" by fastforce
  have u: "valid_utf8 ''pay''" "valid_utf8 ''mail''" by (simp_all add: valid_utf8_def)
  have e: "s3_read_oplog compact_codec ?S ''i'' empty_bucket = Inr []"
    using list_bucket.read_oplog[OF empty_bucket_inv, of "''b''" "''i''"] by (simp add: empty_inst_def)
  show ?thesis
    using s3_oplog_race_loses_entry[OF list_bucket.s3_bucket_store_axioms empty_bucket_inv u e x y z] x y by auto
qed

section \<open>The active index of a bucket\<close>

text \<open>
  C31. The index compiled from a bucket lists exactly the entries of the active instances, each once, in the
  order in which the parallel reads of their objects arrive: the objects listed are distinct, they are those of
  the active instances, and the entries are theirs, one by one. After an update of an instance the entries are
  those of the other index objects and, unless it completed, its own; the instances themselves are untouched.
\<close>

theorem s3_active_index_lists_active:
  assumes "s3_bucket_store C up objs etag cd arrival" "s3_inv cd up objs etag bucket \<sigma>"
    and "active_decodable cd (objs \<sigma> bucket)" "file_json cd dec_info info = Some entry"
    and "s3_UpdateActiveIndex (the_store C bucket) iid info completed \<sigma> = (r, \<sigma>')"
  shows "r = None \<and> s3_view cd objs etag bucket \<sigma>' = s3_view cd objs etag bucket \<sigma> \<and>
    (\<exists>keys es. s3_LoadActiveIndex cd arrival (the_store C bucket) \<sigma>' =
        Inr (if es = [] then bytes_of_string ''[]'' else json_text cd (JArr (map enc_entry es))) \<and>
      distinct keys \<and> set keys = dom ((s3_active cd (objs \<sigma> bucket))(active_key iid := (if completed then None else Some entry))) \<and>
      map Some es = map ((s3_active cd (objs \<sigma> bucket))(active_key iid := (if completed then None else Some entry))) (arrival keys))"
proof -
  have U: "r = None" "s3_inv cd up objs etag bucket \<sigma>'" "s3_view cd objs etag bucket \<sigma>' = s3_view cd objs etag bucket \<sigma>"
    "objs \<sigma>' bucket = (objs \<sigma> bucket)(active_key iid := (if completed then None else Some info))"
    using s3_bucket_store.UpdateActiveIndex_law[OF assms(1,2,5)] by blast+
  have "active_decodable cd (objs \<sigma>' bucket)" using assms(3,4) by (auto simp: U(4) active_decodable_def)
  note L = s3_bucket_store.LoadActiveIndex_law[OF assms(1) U(2) this]
  have "s3_active cd (objs \<sigma>' bucket) =
      (s3_active cd (objs \<sigma> bucket))(active_key iid := (if completed then None else Some entry))"
    using assms(4) by (simp add: U(4) s3_active_update)
  then show ?thesis using L U(1,3) by simp
qed

theorem s3_active_index_lists_active_witness:
  "\<exists>\<sigma>'. s3_UpdateActiveIndex (the_store list_s3 ''b'') ''i'' (json_text compact_codec (JObj [])) False empty_bucket = (None, \<sigma>') \<and>
    s3_LoadActiveIndex compact_codec (\<lambda>ks. ks) (the_store list_s3 ''b'') \<sigma>' = Inr (json_text compact_codec (JArr [JObj []]))"
proof -
  let ?info = "json_text compact_codec (JObj [])" and ?S = "the_store list_s3 ''b''"
  obtain r \<sigma>' where x: "s3_UpdateActiveIndex ?S ''i'' ?info False empty_bucket = (r, \<sigma>')" by fastforce
  have i: "file_json compact_codec dec_info ?info = Some (Some [])"
    using codec_laws.file_json_text[OF compact.codec_laws_axioms, of "JObj []" dec_info "Some []"] by (simp add: gomap_of_def)
  have d: "active_decodable compact_codec (list_objs empty_bucket ''b'')"
    by (simp add: active_decodable_def list_objs_def empty_bucket_def)
  have e: "s3_active compact_codec (list_objs empty_bucket ''b'') = Map.empty"
    by (rule ext) (simp add: s3_active_def list_objs_def empty_bucket_def)
  note T = s3_active_index_lists_active[OF list_bucket.s3_bucket_store_axioms empty_bucket_inv d i x]
  then obtain keys es where es: "s3_LoadActiveIndex compact_codec (\<lambda>ks. ks) ?S \<sigma>' =
        Inr (if es = [] then bytes_of_string ''[]'' else json_text compact_codec (JArr (map enc_entry es)))"
      and ks: "distinct keys" "set keys = {active_key ''i''}" "map Some es = map [active_key ''i'' \<mapsto> Some []] keys"
    by (auto simp: e)
  have "keys = [active_key ''i'']"
    using ks(1,2) by (cases keys) (auto dest!: subset_singletonD)
  then have "es = [Some []]" using ks(3) by auto
  then show ?thesis using es(1) T x by auto
qed

section \<open>Interchangeable stores\<close>

text \<open>
  C38. The S3 store, which compares entity tags, and the in-memory store, which compares versions, cannot be
  told apart by their clients. From the same content, let any number of sessions load and swap metadata, save
  and truncate snapshots, deltas and oplogs, and read them back, in any order: both stores give the same
  answers, among them which swaps go through. Deleting an instance while sessions hold its metadata is left
  out: versions start again then, and entity tags need not.
\<close>

theorem s3_indistinguishable_from_memory:
  assumes "s3_bucket_store C up objs etag cd arrival" "s3_inv cd up objs etag bucket \<sigma>" "ms_inv \<tau>"
    and "untag_inst \<circ> s3_view cd objs etag bucket \<sigma> = untag_inst \<circ> ms_view \<tau>"
    and "list_all (ok_client valid_utf8 (\<lambda>_. True)) cs"
  shows "observe (run_client (s3_ops cd arrival (the_store C bucket))) cs (Map.empty, \<sigma>) =
    observe (run_client (memory_ops cd)) cs (Map.empty, \<tau>)"
proof -
  have "list_all (ok_client valid_utf8 (s3_ok_meta cd etag)) cs" "list_all (ok_client (\<lambda>_. True) (\<lambda>_. True)) cs"
    using assms(5) by (rule list.pred_mono_strong, simp add: ok_client_mono)+
  then show ?thesis
    by (intro stores_indistinguishable[OF s3_bucket_store.contract[OF assms(1)] mem_store.snapshot_store_axioms assms(2-4)])
qed

theorem s3_indistinguishable_from_memory_witness:
  "observe (run_client (s3_ops compact_codec (\<lambda>ks. ks) (the_store list_s3 ''b'')))
     [KLoad 0 ''i'' ''h1'', KLoad 1 ''i'' ''h1'', KSwap 0 ''h1'', KSwap 1 ''h1'', KData (CSave ''i'' [1]), KRead ''i''] (Map.empty, empty_bucket) =
   [OMeta None, OMeta None, OSwap True, OSwap False, ODone, ORead (Some [1]) Map.empty []]"
proof -
  let ?cs = "[KLoad 0 ''i'' ''h1'', KLoad 1 ''i'' ''h1'', KSwap 0 ''h1'', KSwap 1 ''h1'', KData (CSave ''i'' [1]), KRead ''i'']"
  have "untag_inst \<circ> s3_view compact_codec list_objs string_of_bytes ''b'' empty_bucket = untag_inst \<circ> ms_view NewMemorySnapshotStore"
    by (rule ext) (simp add: ms_view_def NewMemorySnapshotStore_def empty_inst_def ms_oplog_of_def)
  moreover have "list_all (ok_client valid_utf8 (\<lambda>_. True)) ?cs" by (simp add: valid_utf8_def)
  ultimately have "observe (run_client (s3_ops compact_codec (\<lambda>ks. ks) (the_store list_s3 ''b''))) ?cs (Map.empty, empty_bucket) =
      observe (run_client (memory_ops compact_codec)) ?cs (Map.empty, NewMemorySnapshotStore)"
    by (intro s3_indistinguishable_from_memory[OF list_bucket.s3_bucket_store_axioms empty_bucket_inv ms_inv_init])
  also have "\<dots> = [OMeta None, OMeta None, OSwap True, OSwap False, ODone, ORead (Some [1]) Map.empty []]"
    by (simp add: store_simps ms_LoadMetadata_def ms_SaveMetadata_eq version_cas_def loaded_meta_def new_meta_def ms_Save_def
        ms_Load_def ms_LoadDeltas_def ms_LoadOplog_def NewMemorySnapshotStore_def ms_oplog_of_def)
  finally show ?thesis .
qed

end
