(* ===== verification/Guest_Runner.thy ===== *)
theory Guest_Runner
  imports Execution
begin

text \<open>
  \<open>runner/runner.go\<close>, the library linked into the guest: wrappers of the host functions and the
  workflow loop that checkpoints after every step. A guest function is written in continuation style:
  it takes what to do with its result and the state of the instance, and gives the tree of host calls
  of theory \<open>Engine\<close>. How the compiled program keeps its data in linear memory is a parameter, the
  record \<open>go_guest\<close>: where the package variable \<open>currentStep\<close> is, and where a byte slice that is passed
  to the host lies.
\<close>

section \<open>The compiled guest\<close>

text \<open>
  \<open>gg_place\<close> allocates the backing array of a slice with some content and gives its address;
  \<open>gg_bytes\<close> reads so many bytes at an address.
\<close>

record 'm go_guest =
  gg_currentStep :: "'m \<Rightarrow> i32"
  gg_setCurrentStep :: "i32 \<Rightarrow> 'm \<Rightarrow> 'm"
  gg_place :: "bytes \<Rightarrow> 'm \<Rightarrow> u32 \<times> 'm"
  gg_bytes :: "u32 \<Rightarrow> nat \<Rightarrow> 'm \<Rightarrow> bytes"

type_synonym ('a, 'm) prog = "('a \<Rightarrow> 'm \<Rightarrow> 'm guest) \<Rightarrow> 'm \<Rightarrow> 'm guest"
type_synonym 'm step = "(go_error option, 'm) prog"

definition io_EOF :: go_error where
  "io_EOF = Err ''EOF''"

section \<open>Wrappers of the host functions\<close>

definition gr_Checkpoint :: "(unit, 'm) prog" where
  "gr_Checkpoint k m = Checkpoint m (k ())"

definition gr_GetTime :: "(int, 'm) prog" where
  "gr_GetTime k m = GetTime m k"

text \<open>An empty slice has no address: its pointer is zero.\<close>

definition place_nonempty :: "'m go_guest \<Rightarrow> bytes \<Rightarrow> 'm \<Rightarrow> u32 \<times> 'm" where
  "place_nonempty G b m = (if length b > 0 then gg_place G b m else (0, m))"

definition CallAPI :: "'m go_guest \<Rightarrow> string \<Rightarrow> bytes \<Rightarrow> (go_error + bytes, 'm) prog" where
  "CallAPI G apiName request k m =
     (let apiBytes = bytes_of_string apiName;
          (apiPtr, m1) = place_nonempty G apiBytes m;
          (reqPtr, m2) = place_nonempty G request m1;
          (respPtr, m3) = gg_place G (replicate 65536 0) m2
      in CallApi m3 apiPtr (word_of_nat (length apiBytes)) reqPtr (word_of_nat (length request)) respPtr 65536
           (\<lambda>n m4.
              if sint n < 0 then
                (if n = -2 then k (Inl (Err ''response buffer too small'')) m4
                 else k (Inl (Err ''host api call failed'')) m4)
              else if nat (sint n) > 65536 then Trap m4 slice_panic
              else k (Inr (gg_bytes G respPtr (nat (sint n)) m4)) m4))"

text \<open>\<open>StreamReader.Read\<close> into the buffer of \<open>len\<close> bytes at \<open>ptr\<close>, and \<open>StreamWriter.Write\<close> from one.\<close>

definition Read :: "u32 \<Rightarrow> nat \<Rightarrow> (int \<times> go_error option, 'm) prog" where
  "Read ptr len k m =
     (if len = 0 then k (0, None) m
      else StreamData m 0 ptr (word_of_nat len)
             (\<lambda>res m1.
                if sint res < 0 then k (0, Some (Err ''stream read error'')) m1
                else if res = 0 then k (0, Some io_EOF) m1
                else k (sint res, None) m1))"

definition Write :: "u32 \<Rightarrow> nat \<Rightarrow> (int \<times> go_error option, 'm) prog" where
  "Write ptr len k m =
     (if len = 0 then k (0, None) m
      else StreamData m 1 ptr (word_of_nat len)
             (\<lambda>res m1.
                if res \<noteq> word_of_nat len then k (sint res, Some (Err ''stream write error'')) m1
                else k (int len, None) m1))"

definition Close :: "(go_error option, 'm) prog" where
  "Close k m = StreamData m 1 0 0 (\<lambda>_ m1. k None m1)"

section \<open>Workflows\<close>

text \<open>
  The loop of \<open>Run\<close>. Its fuel bounds the number of steps taken in one call, and \<open>out\<close> is what happens
  when it runs out: for a workflow that leaves \<open>currentStep\<close> to the runner it never does.
\<close>

fun run_loop :: "'m go_guest \<Rightarrow> ('m \<Rightarrow> 'm guest) \<Rightarrow> 'm step list \<Rightarrow> nat \<Rightarrow> (i32, 'm) prog" where
  "run_loop G out steps 0 k m = out m"
| "run_loop G out steps (Suc fuel) k m =
     (if sint (gg_currentStep G m) < int (length steps)
      then if sint (gg_currentStep G m) < 0 then Trap m index_panic
           else (steps ! nat (sint (gg_currentStep G m)))
                  (\<lambda>err m1. case err of
                      Some e \<Rightarrow> k (-1) m1
                    | None \<Rightarrow> gr_Checkpoint (\<lambda>_ m3. run_loop G out steps fuel k m3)
                                (gg_setCurrentStep G (gg_currentStep G m1 + 1) m1)) m
      else k 0 m)"

definition gr_Run :: "'m go_guest \<Rightarrow> 'm step list \<Rightarrow> (i32, 'm) prog" where
  "gr_Run G steps = run_loop G (\<lambda>m. Trap m ''out of fuel'') steps (Suc (length steps))"

record 'm workflow =
  wf_steps :: "'m step list"

definition NewWorkflow :: "'m workflow" where
  "NewWorkflow = \<lparr> wf_steps = [] \<rparr>"

definition wf_Step :: "'m step \<Rightarrow> 'm workflow \<Rightarrow> 'm workflow" where
  "wf_Step step w = w\<lparr>wf_steps := wf_steps w @ [step]\<rparr>"

definition wf_Run :: "'m go_guest \<Rightarrow> 'm workflow \<Rightarrow> (i32, 'm) prog" where
  "wf_Run G w = gr_Run G (wf_steps w)"

section \<open>API calls\<close>

record api_call =
  ac_name :: string
  ac_payload :: bytes

definition api_Call :: "string \<Rightarrow> api_call" where
  "api_Call apiName = \<lparr> ac_name = apiName, ac_payload = [] \<rparr>"

definition WithPayload :: "bytes \<Rightarrow> api_call \<Rightarrow> api_call" where
  "WithPayload payload c = c\<lparr>ac_payload := payload\<rparr>"

definition Send :: "'m go_guest \<Rightarrow> api_call \<Rightarrow> (go_error + bytes, 'm) prog" where
  "Send G c = CallAPI G (ac_name c) (ac_payload c)"

section \<open>The exported function of a worker\<close>

text \<open>\<open>//export run\<close>: the function returns the result of the workflow as an \<open>i32\<close>.\<close>

definition exported_run :: "'m go_guest \<Rightarrow> 'm workflow \<Rightarrow> u64 list \<Rightarrow> 'm \<Rightarrow> 'm guest" where
  "exported_run G w params m = wf_Run G w (\<lambda>r m1. Return m1 [ucast r]) m"

section \<open>Enough fuel\<close>

text \<open>
  A step leaves \<open>currentStep\<close> alone under a host: run on a good state it hands on good states with the
  value it was called with, so two continuations that agree on those cannot be told apart.
\<close>

definition keeps_step :: "('c, 'm, 'r, 's, 'e) host \<Rightarrow> 'm go_guest \<Rightarrow> ('m \<Rightarrow> bool) \<Rightarrow> 'm step \<Rightarrow> bool" where
  "keeps_step H G good step \<longleftrightarrow> (\<forall>k k' m. good m \<longrightarrow>
     (\<forall>err m1 s \<sigma> e. good m1 \<and> gg_currentStep G m1 = gg_currentStep G m \<longrightarrow>
        Call H (k err m1) s \<sigma> e = Call H (k' err m1) s \<sigma> e) \<longrightarrow>
     (\<forall>s \<sigma> e. Call H (step k m) s \<sigma> e = Call H (step k' m) s \<sigma> e))"

lemma keeps_stepD:
  assumes "keeps_step H G good step" "good m"
    and "\<And>err m1 s \<sigma> e. good m1 \<Longrightarrow> gg_currentStep G m1 = gg_currentStep G m \<Longrightarrow> Call H (k err m1) s \<sigma> e = Call H (k' err m1) s \<sigma> e"
  shows "Call H (step k m) s \<sigma> e = Call H (step k' m) s \<sigma> e"
  using assms unfolding keeps_step_def by blast

lemma keeps_step_local:
  "(\<And>m. good m \<Longrightarrow> good (f m) \<and> gg_currentStep G (f m) = gg_currentStep G m) \<Longrightarrow> keeps_step H G good (\<lambda>k m. k (r m) (f m))"
  by (simp add: keeps_step_def)

lemma keeps_step_time: "keeps_step H G good (\<lambda>k. gr_GetTime (\<lambda>t. k None))"
  by (simp add: keeps_step_def gr_GetTime_def split: prod.split)

lemma sint_incr:
  fixes w :: i32
  assumes "sint w < 2 ^ 31 - 1"
  shows "sint (w + 1) = sint w + 1"
proof -
  have "- (2 ^ 31) \<le> sint w" using sint_greater_eq[of w] by simp
  then show ?thesis using assms by (simp add: sint_word_ariths signed_take_bit_int_eq_self)
qed

lemma run_loop_fuel:
  assumes steps: "\<forall>st\<in>set steps. keeps_step H G good st" and len: "length steps < 2 ^ 31"
    and var: "\<And>v m. good m \<Longrightarrow> good (gg_setCurrentStep G v m) \<and> gg_currentStep G (gg_setCurrentStep G v m) = v"
    and "good m" "int (length steps) - sint (gg_currentStep G m) < int n" "int (length steps) - sint (gg_currentStep G m) < int n'"
    and "0 < n" "0 < n'"
  shows "Call H (run_loop G out steps n k m) s \<sigma> e = Call H (run_loop G out' steps n' k m) s \<sigma> e"
  using assms(4-8)
proof (induction n arbitrary: n' m s \<sigma> e)
  case (Suc n)
  obtain l where n': "n' = Suc l" using Suc.prems(5) by (cases n') auto
  let ?i = "sint (gg_currentStep G m)"
  show ?case
  proof (cases "?i < int (length steps) \<and> 0 \<le> ?i")
    case True
    then have st: "steps ! nat ?i \<in> set steps" by (intro nth_mem) linarith
    let ?next = "\<lambda>m1. gg_setCurrentStep G (gg_currentStep G m1 + 1) m1"
    let ?k = "\<lambda>o1 x err m1. case err of Some e \<Rightarrow> k (-1) m1
      | None \<Rightarrow> gr_Checkpoint (\<lambda>_ m3. run_loop G o1 steps x k m3) (?next m1)"
    have "Call H (?k out n err m1) s \<sigma> e = Call H (?k out' l err m1) s \<sigma> e"
      if g: "good m1" "gg_currentStep G m1 = gg_currentStep G m" for err m1 s \<sigma> e
    proof (cases err)
      case None
      have i1: "sint (gg_currentStep G (?next m1)) = ?i + 1"
        using g var sint_incr[of "gg_currentStep G m"] True len by simp
      have "Call H (run_loop G out steps n k (?next m1)) s1 \<sigma>1 e1 = Call H (run_loop G out' steps l k (?next m1)) s1 \<sigma>1 e1"
        for s1 \<sigma>1 e1
        using Suc.prems(2,3) True i1 n' var[OF g(1)] by (intro Suc.IH) auto
      then show ?thesis using None by (simp add: gr_Checkpoint_def split: prod.split outcome.split)
    qed simp
    from keeps_stepD[OF steps[rule_format, OF st] Suc.prems(1) this] show ?thesis using True n' by simp
  next
    case False
    then show ?thesis using n' by auto
  qed
qed simp

end
