(* ===== verification/Workflow_Resume.thy ===== *)
theory Workflow_Resume
  imports Guest_Runner Crash_Resume
begin

text \<open>
  The workflow loop of the guest library and the durable engine together: a workflow whose host
  crashes at every single checkpoint. Each execution restores the memory of the last checkpoint, finds
  \<open>currentStep\<close> there, takes one step and crashes again; after as many executions as there are steps
  the next one returns success. Every step has been applied exactly once.
\<close>

section \<open>Repeated executions\<close>

text \<open>A step that computes on the memory of the instance.\<close>

definition local_step :: "('m \<Rightarrow> 'm) \<Rightarrow> 'm step" where
  "local_step f k m = k None (f m)"

text \<open>The state after the first \<open>j\<close> steps, as the checkpoint after the last of them sees it.\<close>

primrec after_steps :: "'m go_guest \<Rightarrow> ('m \<Rightarrow> 'm) list \<Rightarrow> 'm \<Rightarrow> nat \<Rightarrow> 'm" where
  "after_steps G fs m 0 = m"
| "after_steps G fs m (Suc j) = gg_setCurrentStep G (word_of_nat (Suc j)) ((fs ! j) (after_steps G fs m j))"

text \<open>\<open>n\<close> executions one after another, with their results.\<close>

primrec runs :: "('x \<Rightarrow> 's \<Rightarrow> 'e \<Rightarrow> 'a \<times> 'x \<times> 's \<times> 'e) \<Rightarrow> nat \<Rightarrow> 'x \<Rightarrow> 's \<Rightarrow> 'e \<Rightarrow> 'a list \<times> 'x \<times> 's \<times> 'e" where
  "runs exec 0 x \<sigma> e = ([], x, \<sigma>, e)"
| "runs exec (Suc n) x \<sigma> e =
     (let (r, x1, \<sigma>1, e1) = exec x \<sigma> e; (rs, y) = runs exec n x1 \<sigma>1 e1 in (r # rs, y))"

section \<open>What the program promises\<close>

lemma sint_of_nat32: "j < 2 ^ 31 \<Longrightarrow> sint (word_of_nat j :: i32) = int j"
  by (simp add: sint_uint unsigned_of_nat take_bit_nat_eq_self signed_take_bit_int_eq_self)

text \<open>
  The variable lies in the first \<open>N\<close> bytes of the memory, and the memory is all of the state of an
  instance between two calls; steps do not shrink the memory and leave the variable alone.
\<close>

locale workflow_program = linear_memory M contents valid
  for M :: "'m memory_api" and contents and valid +
  fixes N :: nat and G :: "'m go_guest" and fs :: "('m \<Rightarrow> 'm) list"
  assumes var_get: "valid m \<Longrightarrow> N \<le> length (contents m) \<Longrightarrow> gg_currentStep G (gg_setCurrentStep G v m) = v"
    and var_valid: "valid m \<Longrightarrow> N \<le> length (contents m) \<Longrightarrow> valid (gg_setCurrentStep G v m)"
    and var_size: "valid m \<Longrightarrow> N \<le> length (contents m) \<Longrightarrow>
      length (contents (gg_setCurrentStep G v m)) = length (contents m)"
    and state_is_memory: "valid m \<Longrightarrow> valid m' \<Longrightarrow> contents m = contents m' \<Longrightarrow> m = m'"
    and step_valid: "f \<in> set fs \<Longrightarrow> valid m \<Longrightarrow> N \<le> length (contents m) \<Longrightarrow> valid (f m)"
    and step_size: "f \<in> set fs \<Longrightarrow> valid m \<Longrightarrow> N \<le> length (contents m) \<Longrightarrow>
      length (contents m) \<le> length (contents (f m))"
    and step_var: "f \<in> set fs \<Longrightarrow> valid m \<Longrightarrow> N \<le> length (contents m) \<Longrightarrow> gg_currentStep G (f m) = gg_currentStep G m"
    and few_steps: "length fs < 2 ^ 31"
begin

abbreviation flow :: "'m workflow" where "flow \<equiv> \<lparr> wf_steps = map local_step fs \<rparr>"

text \<open>The memory an execution starts with: as large as the program needs, the variable zero.\<close>

abbreviation initial :: "'m \<Rightarrow> bool" where
  "initial m \<equiv> valid m \<and> N \<le> length (contents m) \<and> gg_currentStep G m = 0"

lemma after_steps_ok:
  assumes "initial m0" "j \<le> length fs"
  shows "valid (after_steps G fs m0 j) \<and> N \<le> length (contents (after_steps G fs m0 j)) \<and>
    gg_currentStep G (after_steps G fs m0 j) = word_of_nat j"
  using assms(2)
proof (induction j)
  case (Suc j)
  then have f: "fs ! j \<in> set fs" by simp
  let ?m = "after_steps G fs m0 j"
  have m: "valid ?m" "N \<le> length (contents ?m)" using Suc by simp_all
  note f' = step_valid[OF f m] order_trans[OF m(2) step_size[OF f m]]
  show ?case using var_valid[OF f'] var_size[OF f'] var_get[OF f'] f'(2) by simp
qed (use assms in simp)

lemma after_steps_mono:
  assumes "initial m0" "j < length fs"
  shows "length (contents (after_steps G fs m0 j)) \<le> length (contents (after_steps G fs m0 (Suc j)))"
proof -
  have f: "fs ! j \<in> set fs" using assms(2) by simp
  let ?m = "after_steps G fs m0 j"
  have m: "valid ?m" "N \<le> length (contents ?m)" using after_steps_ok[OF assms(1), of j] assms(2) by simp_all
  show ?thesis using var_size[OF step_valid[OF f m] order_trans[OF m(2) step_size[OF f m]]] step_size[OF f m] by simp
qed

lemma after_steps_le:
  assumes "initial m0" "i \<le> j" "j \<le> length fs"
  shows "length (contents (after_steps G fs m0 i)) \<le> length (contents (after_steps G fs m0 j))"
  using assms(2,3)
proof (induction j rule: dec_induct)
  case (step j)
  then show ?case using after_steps_mono[OF assms(1), of j] by simp
qed simp

text \<open>On the memory of checkpoint \<open>j\<close> the workflow takes step \<open>j\<close> and checkpoints; on the last it is done.\<close>

lemma run_takes_step:
  assumes "initial m0" "j < length fs"
  shows "\<exists>k. exported_run G flow params (after_steps G fs m0 j) = Checkpoint (after_steps G fs m0 (Suc j)) k"
proof -
  let ?m = "after_steps G fs m0 j"
  have m: "valid ?m" "N \<le> length (contents ?m)" "gg_currentStep G ?m = word_of_nat j"
    using after_steps_ok[OF assms(1), of j] assms(2) by simp_all
  have i: "sint (gg_currentStep G ?m) = int j" using m(3) sint_of_nat32 few_steps assms(2) by simp
  have "gg_currentStep G ((fs ! j) ?m) = word_of_nat j" using step_var[OF nth_mem[OF assms(2)] m(1,2)] m(3) by simp
  then show ?thesis
    using i assms(2) by (simp add: exported_run_def wf_Run_def gr_Run_def local_step_def gr_Checkpoint_def add.commute)
qed

lemma run_finishes:
  assumes "initial m0"
  shows "exported_run G flow params (after_steps G fs m0 (length fs)) = Return (after_steps G fs m0 (length fs)) [0]"
proof -
  have "sint (gg_currentStep G (after_steps G fs m0 (length fs))) = int (length fs)"
    using after_steps_ok[OF assms, of "length fs"] sint_of_nat32 few_steps by simp
  then show ?thesis by (simp add: exported_run_def wf_Run_def gr_Run_def)
qed

end

section \<open>A crash at every checkpoint\<close>

lemma runs_snoc: "runs exec n x \<sigma> e = (rs, x1, \<sigma>1, e1) \<Longrightarrow> exec x1 \<sigma>1 e1 = (r, y) \<Longrightarrow> runs exec (Suc n) x \<sigma> e = (rs @ [r], y)"
proof (induction n arbitrary: x \<sigma> e rs)
  case 0
  then show ?case by (auto split: prod.splits)
next
  case (Suc n)
  obtain r0 x0 \<sigma>0 e0 where e0: "exec x \<sigma> e = (r0, x0, \<sigma>0, e0)" by (metis prod_cases4)
  obtain rs0 where rs0: "runs exec n x0 \<sigma>0 e0 = (rs0, x1, \<sigma>1, e1)" "rs = r0 # rs0"
    using Suc.prems(1) e0 by (auto split: prod.splits)
  have "runs exec (Suc n) x0 \<sigma>0 e0 = (rs0 @ [r], y)" by (rule Suc.IH[OF rs0(1) Suc.prems(2)])
  then show ?case using e0 rs0(2) by (subst runs.simps(2)) simp
qed

lemma growable_mono: "growable M contents valid n \<Longrightarrow> k \<le> n \<Longrightarrow> growable M contents valid k"
  unfolding growable_def using le_trans by blast

locale durable_workflow =
    durable_engine st inv view cas ok_str ok_meta M contents valid W modules instantiable init +
    workflow_program M contents valid N G fs
  for st :: "'s store_ops" and inv and view and cas and ok_str and ok_meta
    and M :: "'m memory_api" and contents and valid
    and W :: "('c, 'm, 'r) wazero" and modules and instantiable and init
    and N and G :: "'m go_guest" and fs
begin

text \<open>The engine and the store after \<open>j\<close> executions that crashed.\<close>

definition crashed_at :: "string \<Rightarrow> 'm \<Rightarrow> ('c, 'm, 'r, 'e) engine \<Rightarrow> nat \<Rightarrow> ('c, 'm, 'r, 'e) engine \<Rightarrow> 's \<Rightarrow> bool" where
  "crashed_at iid m0 eng j eng' \<sigma>' \<longleftrightarrow> inv \<sigma>' \<and> durable_image (view \<sigma>' iid) (contents (after_steps G fs m0 j)) \<and>
     (\<exists>meta. i_meta (view \<sigma>' iid) = Some meta \<and> WasmHash meta = eng_wasmHash eng \<and> Version meta = int j) \<and>
     modules (eng_runtime eng') (modName iid) = None \<and> eng_wasmHash eng' = eng_wasmHash eng \<and>
     eng_compiled eng' = eng_compiled eng"

lemma one_more_crash:
  assumes j: "0 < j" "j < length fs" and at: "crashed_at iid m0 eng j eng1 \<sigma>1"
    and ok: "ok_str (eng_wasmHash eng)" "instantiable (eng_compiled eng)" "boot W (init (eng_compiled eng)) = Some m0" "initial m0"
    and prog: "\<And>m. rt_ExportedFunction W m entrypoint = Some (exported_run G flow)" "entrypoint \<noteq> ''_start''"
    and size: "0 < N" "length (contents (after_steps G fs m0 (length fs))) < page_size * max_pages"
      "growable M contents valid (length (contents (after_steps G fs m0 (length fs))))"
    and sha: "no_collision (contents (after_steps G fs m0 j)) (contents (after_steps G fs m0 (Suc j)))"
    and run: "ctx_Err ctx e = None"
      "ExecuteWithArgs st M W clock ctx iid entrypoint addr True params eng1 \<sigma>1 e = (res, eng', \<sigma>', e')"
  shows "res = Ret (True, Some (rt_recovered W ''simulated_host_crash'')) \<and> crashed_at iid m0 eng (Suc j) eng' \<sigma>' \<and> e' = e"
proof -
  let ?A = "after_steps G fs m0"
  obtain meta where at': "inv \<sigma>1" "durable_image (view \<sigma>1 iid) (contents (?A j))" "i_meta (view \<sigma>1 iid) = Some meta"
    "WasmHash meta = eng_wasmHash eng1" "Version meta = int j" "modules (eng_runtime eng1) (modName iid) = None"
    "eng_wasmHash eng1 = eng_wasmHash eng" "eng_compiled eng1 = eng_compiled eng"
    using at unfolding crashed_at_def by force
  have le: "length (contents m0) \<le> length (contents (?A j))" "length (contents (?A j)) \<le> length (contents (?A (length fs)))"
    "length (contents (?A j)) \<le> length (contents (?A (Suc j)))" "length (contents (?A (Suc j))) \<le> length (contents (?A (length fs)))"
    using j after_steps_le[OF ok(4), of 0 j] after_steps_le[OF ok(4)] by (simp_all del: after_steps.simps(2))
  have A: "valid (?A j)" "valid (?A (Suc j))" "N \<le> length (contents (?A (Suc j)))"
    using after_steps_ok[OF ok(4), of j] after_steps_ok[OF ok(4), of "Suc j"] j by simp_all
  have ne: "contents (?A (Suc j)) \<noteq> []" using A(3) size(1) by auto
  have step: "\<exists>runFunc mC k. rt_ExportedFunction W m1 entrypoint = Some runFunc \<and> runFunc params m1 = Checkpoint mC k \<and>
      valid mC \<and> contents mC = contents (?A (Suc j))" if "valid m1" "contents m1 = contents (?A j)" for m1
    using state_is_memory[OF that(1) A(1) that(2)] run_takes_step[OF ok(4) j(2), of params] prog(1) A(2) by auto
  have mod: "instantiable (eng_compiled eng1)" "ok_str (eng_wasmHash eng1)" "boot W (init (eng_compiled eng1)) = Some m0"
    "valid m0" using ok at' by simp_all
  have "res = Ret (True, Some (rt_recovered W ''simulated_host_crash'')) \<and> inv \<sigma>' \<and>
    durable_image (view \<sigma>' iid) (contents (?A (Suc j))) \<and>
    (\<exists>meta'. i_meta (view \<sigma>' iid) = Some meta' \<and> WasmHash meta' = eng_wasmHash eng1 \<and> Version meta' = Version meta + 1) \<and>
    modules (eng_runtime eng') (modName iid) = None \<and> eng_wasmHash eng' = eng_wasmHash eng1 \<and>
    eng_compiled eng' = eng_compiled eng1 \<and> e' = e"
    by (rule execute_crashes_again[OF at'(1,3,4) mod(2,1) at'(6) mod(3,4) at'(2) le(1) growable_mono[OF size(3) le(2)] _
          step ne _ le(3) sha prog(2) run]) (use le size(2) in linarith)+
  then show ?thesis using at' by (auto simp: crashed_at_def)
qed

lemma first_crash:
  assumes "0 < length fs" "inv \<sigma>" and new: "i_meta (view \<sigma> iid) = None" "i_snapshot (view \<sigma> iid) = None"
      "i_deltas (view \<sigma> iid) = Map.empty" "ok_str iid"
    and ok: "ok_str (eng_wasmHash eng)" "instantiable (eng_compiled eng)" "boot W (init (eng_compiled eng)) = Some m0" "initial m0"
    and mod: "modules (eng_runtime eng) (modName iid) = None"
    and prog: "\<And>m. rt_ExportedFunction W m entrypoint = Some (exported_run G flow)" "entrypoint \<noteq> ''_start''"
    and size: "0 < N" "length (contents (after_steps G fs m0 (length fs))) < page_size * max_pages"
    and run: "ctx_Err ctx e = None"
      "ExecuteWithArgs st M W clock ctx iid entrypoint addr True params eng \<sigma> e = (res, eng', \<sigma>', e')"
  shows "res = Ret (True, Some (rt_recovered W ''simulated_host_crash'')) \<and> crashed_at iid m0 eng 1 eng' \<sigma>' \<and> e' = e"
proof -
  let ?A = "after_steps G fs m0"
  obtain k where k: "exported_run G flow params m0 = Checkpoint (?A (Suc 0)) k"
    using run_takes_step[OF ok(4) assms(1), of params] by auto
  have A: "valid (?A (Suc 0))" "N \<le> length (contents (?A (Suc 0)))" using after_steps_ok[OF ok(4), of "Suc 0"] Suc_leI[OF assms(1)] by simp_all
  have ne: "contents (?A (Suc 0)) \<noteq> []" using A(2) size(1) by auto
  have "length (contents (?A (Suc 0))) \<le> length (contents (?A (length fs)))"
    by (rule after_steps_le[OF ok(4) Suc_leI[OF assms(1)] order_refl])
  then have lt: "length (contents (?A (Suc 0))) < page_size * max_pages" using size(2) by linarith
  show ?thesis
    using execute_crashes[OF assms(2) new ok(1,2) mod ok(3) prog(1) k A(1) ne lt prog(2) run] by (simp add: crashed_at_def)
qed

lemma crashes_everywhere:
  assumes "inv \<sigma>" and new: "i_meta (view \<sigma> iid) = None" "i_snapshot (view \<sigma> iid) = None"
      "i_deltas (view \<sigma> iid) = Map.empty" "ok_str iid"
    and ok: "ok_str (eng_wasmHash eng)" "instantiable (eng_compiled eng)" "boot W (init (eng_compiled eng)) = Some m0" "initial m0"
    and mod: "modules (eng_runtime eng) (modName iid) = None"
    and prog: "\<And>m. rt_ExportedFunction W m entrypoint = Some (exported_run G flow)" "entrypoint \<noteq> ''_start''"
    and size: "0 < N" "length (contents (after_steps G fs m0 (length fs))) < page_size * max_pages"
      "growable M contents valid (length (contents (after_steps G fs m0 (length fs))))"
    and sha: "\<And>i. i < length fs \<Longrightarrow> no_collision (contents (after_steps G fs m0 i)) (contents (after_steps G fs m0 (Suc i)))"
    and ctx: "ctx_Err ctx e = None" and j: "0 < j" "j \<le> length fs"
  shows "\<exists>eng' \<sigma>'. runs (ExecuteWithArgs st M W clock ctx iid entrypoint addr True params) j eng \<sigma> e =
      (replicate j (Ret (True, Some (rt_recovered W ''simulated_host_crash''))), eng', \<sigma>', e) \<and>
    crashed_at iid m0 eng j eng' \<sigma>'"
  using j
proof (induction j)
  case (Suc j)
  let ?exec = "ExecuteWithArgs st M W clock ctx iid entrypoint addr True params"
  let ?crash = "Ret (True, Some (rt_recovered W ''simulated_host_crash''))"
  show ?case
  proof (cases "j = 0")
    case True
    obtain res eng' \<sigma>' e' where x: "?exec eng \<sigma> e = (res, eng', \<sigma>', e')" by (metis prod_cases4)
    have l: "0 < length fs" using Suc.prems(2) by linarith
    show ?thesis using first_crash[OF l assms(1) new ok mod prog size(1,2) ctx x] x True by simp
  next
    case False
    then obtain eng1 \<sigma>1 where r: "runs ?exec j eng \<sigma> e = (replicate j ?crash, eng1, \<sigma>1, e)" "crashed_at iid m0 eng j eng1 \<sigma>1"
      using Suc by fastforce
    obtain res eng' \<sigma>' e' where x: "?exec eng1 \<sigma>1 e = (res, eng', \<sigma>', e')" by (metis prod_cases4)
    have lt: "j < length fs" "0 < j" using Suc.prems(2) False by simp_all
    have "res = ?crash \<and> crashed_at iid m0 eng (Suc j) eng' \<sigma>' \<and> e' = e"
      by (rule one_more_crash[OF lt(2,1) r(2) ok prog size sha[OF lt(1)] ctx x])
    then show ?thesis using runs_snoc[OF r(1) x] by (simp add: replicate_append_same flip: replicate_Suc)
  qed
qed simp

text \<open>The execution after the last crash finds nothing left to do.\<close>

lemma finishes_after_crashes:
  assumes "0 < length fs" and at: "crashed_at iid m0 eng (length fs) eng1 \<sigma>1"
    and ok: "instantiable (eng_compiled eng)" "boot W (init (eng_compiled eng)) = Some m0" "initial m0"
    and prog: "\<And>m. rt_ExportedFunction W m entrypoint = Some (exported_run G flow)" "entrypoint \<noteq> ''_start''"
    and size: "length (contents (after_steps G fs m0 (length fs))) < page_size * max_pages"
      "growable M contents valid (length (contents (after_steps G fs m0 (length fs))))"
    and run: "ctx_Err ctx e = None"
      "ExecuteWithArgs st M W clock ctx iid entrypoint addr crash params eng1 \<sigma>1 e = (res, eng', \<sigma>', e')"
  shows "res = Ret (False, None) \<and> \<sigma>' = \<sigma>1 \<and> e' = e"
proof -
  let ?A = "after_steps G fs m0"
  obtain meta where at': "inv \<sigma>1" "durable_image (view \<sigma>1 iid) (contents (?A (length fs)))" "i_meta (view \<sigma>1 iid) = Some meta"
    "WasmHash meta = eng_wasmHash eng1" "modules (eng_runtime eng1) (modName iid) = None" "eng_compiled eng1 = eng_compiled eng"
    using at unfolding crashed_at_def by force
  have A: "valid (?A (length fs))" "length (contents m0) \<le> length (contents (?A (length fs)))"
    using after_steps_ok[OF ok(3), of "length fs"] after_steps_le[OF ok(3), of 0 "length fs"] by simp_all
  have mod: "instantiable (eng_compiled eng1)" "boot W (init (eng_compiled eng1)) = Some m0" "valid m0" using ok at' by simp_all
  obtain m1 f1 where m1: "valid m1" "contents m1 = contents (?A (length fs))"
    and E: "(res, \<sigma>', e') = run_entry
      \<lparr> h_store = st, h_mem = M, h_rt = W, h_clock = clock, h_wasmHash = eng_wasmHash eng1 \<rparr> ctx entrypoint params m1
      (new_session ctx iid addr crash meta (Some f1) m1) \<sigma>1 e"
    using execute_resumes[OF at'(1,3,4) mod(1) at'(5) mod(2,3) at'(2) A(2) size(2,1) prog(2) run(2)] by blast
  have "m1 = ?A (length fs)" by (rule state_is_memory[OF m1(1) A(1) m1(2)])
  then show ?thesis using E run_finishes[OF ok(3), of params] prog(1) run(1) by (simp add: run_entry_def classify_def)
qed

end

end
