(* ===== verification/Guest_Calls.thy ===== *)
theory Guest_Calls
  imports Guest_Runner Recovery
begin

text \<open>
  What the guest library relies on when it passes buffers to the host: the host writes nowhere but
  into the buffer, and \<open>CallAPI\<close> of \<open>runner/runner.go\<close> returns the response of the handler, the first
  time and on every replay.
\<close>

section \<open>The host stays inside the buffer\<close>

text \<open>Two memories that may differ in the \<open>n\<close> bytes at \<open>lo\<close> only.\<close>

definition same_outside :: "nat \<Rightarrow> nat \<Rightarrow> bytes \<Rightarrow> bytes \<Rightarrow> bool" where
  "same_outside lo n xs ys \<longleftrightarrow> length xs = length ys \<and> take lo xs = take lo ys \<and> drop (lo + n) xs = drop (lo + n) ys"

lemma same_outside_refl [simp]: "same_outside lo n xs xs"
  by (simp add: same_outside_def)

lemma same_outside_overwrite: "lo + length bs \<le> length xs \<Longrightarrow> length bs \<le> n \<Longrightarrow> same_outside lo n xs (overwrite xs lo bs)"
  by (auto simp: same_outside_def overwrite_def add.commute)

lemma same_outside_slice:
  assumes "same_outside lo n xs ys" "i + l \<le> lo \<or> lo + n \<le> i"
  shows "go_slice i l xs = go_slice i l ys"
  using assms(2)
proof
  assume "i + l \<le> lo"
  then have "go_slice i l zs = take l (drop i (take lo zs))" for zs :: bytes by (simp add: go_slice_def drop_take min_def)
  then show ?thesis using assms(1) by (simp add: same_outside_def)
next
  assume "lo + n \<le> i"
  then have "go_slice i l zs = take l (drop (i - (lo + n)) (drop (lo + n) zs))" for zs :: bytes by (simp add: go_slice_def)
  then show ?thesis using assms(1) unfolding same_outside_def by metis
qed

context linear_memory
begin

lemma Write_same_outside:
  assumes "valid m" "length bs \<le> n"
  shows "valid (fst (mem_Write M m p bs)) \<and> same_outside (unat p) n (contents m) (contents (fst (mem_Write M m p bs)))"
proof (cases "unat p + length bs \<le> length (contents m)")
  case True
  then show ?thesis
    using Write_in[OF assms(1) True, of "fst (mem_Write M m p bs)" "snd (mem_Write M m p bs)"] assms(2)
    by (simp add: same_outside_overwrite)
next
  case False
  then show ?thesis using Write_out[OF assms(1) False] assms(1) by simp
qed

lemma deliver_confined:
  assumes "valid (ses_memory s)" "deliver M rp rm resp s = (n, s')"
  shows "valid (ses_memory s') \<and> same_outside (unat rp) (nat (sint rm)) (contents (ses_memory s)) (contents (ses_memory s')) \<and>
    (n = -2 \<or> 0 \<le> sint n \<and> sint n \<le> sint rm)"
proof (cases "sint rm < int (length resp)")
  case False
  then have l: "length resp \<le> nat (sint rm)" "int (length resp) \<le> sint rm" by linarith+
  have "int (length resp) < 2 ^ 31" using l(2) sint_lt[of rm] by simp
  then have "sint (word_of_nat (length resp) :: i32) = int (length resp)"
    by (simp add: sint_uint unsigned_of_nat take_bit_nat_eq_self signed_take_bit_int_eq_self)
  then show ?thesis using assms False l Write_same_outside[OF assms(1) l(1)] by (auto simp: deliver_def)
qed (use assms in \<open>auto simp: deliver_def\<close>)

lemma call_logged_confined:
  assumes "valid (ses_memory s)" "call_logged st M nm req rp rm s \<sigma> e = (n, s', \<sigma>', e')"
  shows "valid (ses_memory s') \<and> same_outside (unat rp) (nat (sint rm)) (contents (ses_memory s)) (contents (ses_memory s')) \<and>
    (n = -1 \<or> n = -2 \<or> 0 \<le> sint n \<and> sint n \<le> sint rm)"
proof -
  let ?s = "s\<lparr>ses_callIndex := ses_callIndex s + 1\<rparr>"
  have s1: "valid (ses_memory ?s)" "ses_memory ?s = ses_memory s" using assms(1) by simp_all
  consider "n = -1" "ses_memory s' = ses_memory s" | resp where "deliver M rp rm resp ?s = (n, s')"
    using assms(2) by (auto simp: call_logged_def Let_def split: option.splits prod.splits)
  then show ?thesis by cases (use assms(1) deliver_confined[OF s1(1)] in auto)
qed

lemma host_call_api_confined:
  assumes "valid m" "host_call_api st M m ap al rp rl wp wl s \<sigma> e = (r, s', \<sigma>', e')"
  shows "valid (ses_memory s') \<and> same_outside (unat wp) (nat (sint wl)) (contents m) (contents (ses_memory s')) \<and>
    (r = Panic slice_panic \<or> r = Ret (-1) \<or> r = Ret (-2) \<or> (\<exists>n. r = Ret n \<and> 0 \<le> sint n \<and> sint n \<le> sint wl))"
proof -
  consider "ses_memory s' = m" "r = Ret (-1) \<or> r = Panic slice_panic"
    | nm req n where "call_logged st M nm req wp wl (s\<lparr>ses_memory := m\<rparr>) \<sigma> e = (n, s', \<sigma>', e')" "r = Ret n"
    using assms(2) by (auto simp: host_call_api_def Let_def split: option.splits prod.splits if_splits)
  then show ?thesis
  proof cases
    case 1
    then show ?thesis using assms(1) by auto
  next
    case 2
    then show ?thesis using call_logged_confined[OF _ 2(1)] assms(1) by auto
  qed
qed

lemma download_read_confined:
  assumes "valid (ses_memory s)" "0 \<le> sint len" "download_read M ptr len reader s = (n, s')"
  shows "valid (ses_memory s') \<and> same_outside (unat ptr) (nat (sint len)) (contents (ses_memory s)) (contents (ses_memory s')) \<and>
    0 \<le> sint n \<and> sint n \<le> sint len"
proof -
  let ?buf = "take (nat (sint len)) reader"
  have l: "length ?buf \<le> nat (sint len)" by simp
  have "int (length ?buf) < 2 ^ 31" using sint_lt[of len] assms(2) by simp
  then have "sint (word_of_nat (length ?buf) :: i32) = int (length ?buf)"
    by (simp add: sint_uint unsigned_of_nat take_bit_nat_eq_self signed_take_bit_int_eq_self del: length_take)
  moreover have "n = word_of_nat (length ?buf)"
    "ses_memory s' = (if ?buf = [] then ses_memory s else fst (mem_Write M (ses_memory s) ptr ?buf))"
    using assms(3) by (auto simp: download_read_def reader_read_def Let_def split: if_splits)
  ultimately show ?thesis using Write_same_outside[OF assms(1) l, of ptr] assms(1,2) l by (auto simp del: length_take)
qed

lemma stream_data_confined:
  assumes "valid m" "stream_data M m dir ptr len s e = (r, s', e')"
  shows "valid (ses_memory s') \<and> same_outside (unat ptr) (if dir = 0 then nat (sint len) else 0) (contents m) (contents (ses_memory s')) \<and>
    (r = Panic slice_panic \<or> r = Ret (-1) \<or> (\<exists>n. r = Ret n \<and> 0 \<le> sint n \<and> sint n \<le> max 0 (sint len)))"
proof -
  let ?s = "s\<lparr>ses_memory := m\<rparr>"
  consider "ses_memory s' = m" "r = Panic slice_panic \<or> r = Ret (-1) \<or> r = Ret 0 \<or> (r = Ret len \<and> 0 \<le> sint len)"
    | reader n where "dir = 0" "0 \<le> sint len" "download_read M ptr len reader ?s = (n, s')" "r = Ret n"
    using assms(2) by (auto simp: stream_data_def handleUpload_def handleDownload_def out_of_bounds_def Let_def
        split: option.splits prod.splits if_splits sum.splits)
  then show ?thesis by cases (use assms(1) download_read_confined[of ?s] in auto)
qed

end

section \<open>CallAPI\<close>

text \<open>
  The slices of the call when the host function is entered: the name, the request and the response
  buffer lie in the memory, below 2 GiB, and a slice reads the bytes of the memory.
\<close>

definition call_slices :: "'m go_guest \<Rightarrow> string \<Rightarrow> bytes \<Rightarrow> 'm \<Rightarrow> u32 \<times> u32 \<times> u32 \<times> 'm" where
  "call_slices G apiName request m =
     (let (apiPtr, m1) = place_nonempty G (bytes_of_string apiName) m;
          (reqPtr, m2) = place_nonempty G request m1;
          (respPtr, m3) = gg_place G (replicate 65536 0) m2
      in (apiPtr, reqPtr, respPtr, m3))"

definition holds_at :: "bytes \<Rightarrow> u32 \<Rightarrow> bytes \<Rightarrow> bool" where
  "holds_at mem p b \<longleftrightarrow> unat p + length b \<le> length mem \<and> unat p + length b < 2 ^ 31 \<and> go_slice (unat p) (length b) mem = b"

lemma small_nonneg:
  assumes "unat (w::i32) < 2147483648"
  shows "0 \<le> sint w"
proof -
  have "int (unat w) < 2147483648" using assms by linarith
  then have "uint w < 2147483648" by (simp only: uint_nat)
  then show ?thesis by (simp add: sint32_cases)
qed

lemma holds_at_slice:
  assumes "holds_at mem p b"
  shows "\<not> out_of_bounds p (word_of_nat (length b)) mem \<and> slice32 p (word_of_nat (length b)) mem = Some b"
proof -
  have lt: "length b < 2147483648" "unat p < 2147483648" using assms by (simp_all add: holds_at_def)
  then have u: "unat (word_of_nat (length b) :: u32) = length b" by (simp add: unat_of_nat)
  have "0 \<le> sint p" "0 \<le> sint (word_of_nat (length b) :: u32)"
    using lt u by (simp_all only: small_nonneg)
  then have b: "\<not> out_of_bounds p (word_of_nat (length b)) mem"
    using assms u by (simp add: in_bounds_iff holds_at_def)
  then show ?thesis using slice32_in_bounds[OF b] assms u by (simp add: holds_at_def)
qed

text \<open>The part of \<open>CallAPI\<close> after the host function returned.\<close>

definition api_result :: "'m go_guest \<Rightarrow> u32 \<Rightarrow> (go_error + bytes \<Rightarrow> 'm \<Rightarrow> 'm guest) \<Rightarrow> i32 \<Rightarrow> 'm \<Rightarrow> 'm guest" where
  "api_result G respPtr k n m4 =
     (if sint n < 0 then
        (if n = -2 then k (Inl (Err ''response buffer too small'')) m4
         else k (Inl (Err ''host api call failed'')) m4)
      else if nat (sint n) > 65536 then Trap m4 slice_panic
      else k (Inr (gg_bytes G respPtr (nat (sint n)) m4)) m4)"

lemma CallAPI_slices:
  "call_slices G apiName request m = (ap, rp, wp, m3) \<Longrightarrow>
   CallAPI G apiName request k m =
     CallApi m3 ap (word_of_nat (length apiName)) rp (word_of_nat (length request)) wp 65536 (api_result G wp k)"
  by (auto simp: CallAPI_def call_slices_def api_result_def fun_eq_iff Let_def split: prod.splits)

text \<open>What the guest gets for a response, and the memory it is left with.\<close>

definition api_response :: "bytes \<Rightarrow> go_error + bytes" where
  "api_response resp = (if length resp \<le> 65536 then Inr resp else Inl (Err ''response buffer too small''))"

context linear_memory
begin

lemma deliver_response:
  assumes "valid m3" "unat wp + 65536 \<le> length (contents m3)"
    and slices: "\<And>m n. valid m \<Longrightarrow> gg_bytes G wp n m = go_slice (unat wp) n (contents m)"
  shows "\<exists>m4 n. (\<forall>s. ses_memory s = m3 \<longrightarrow> deliver M wp 65536 resp s = (n, s\<lparr>ses_memory := m4\<rparr>)) \<and>
    (\<forall>k. api_result G wp k n m4 = k (api_response resp) m4) \<and> n \<noteq> -1 \<and> valid m4"
proof (cases "length resp \<le> 65536")
  case True
  let ?m4 = "fst (mem_Write M m3 wp resp)" and ?n = "word_of_nat (length resp) :: i32"
  have w: "valid ?m4 \<and> contents ?m4 = overwrite (contents m3) (unat wp) resp"
    using Write_in[OF assms(1), of wp resp "fst (mem_Write M m3 wp resp)" "snd (mem_Write M m3 wp resp)"] assms(2) True by simp
  have n: "sint ?n = int (length resp)"
    using True by (simp add: sint_uint unsigned_of_nat take_bit_nat_eq_self signed_take_bit_int_eq_self)
  have big: "sint (65536 :: i32) = 65536" by simp
  have "gg_bytes G wp (length resp) ?m4 = resp"
    using slices w assms(2) True by (simp add: go_slice_overwrite_same)
  then have "api_result G wp k ?n ?m4 = k (api_response resp) ?m4" for k
    using n True by (simp add: api_result_def api_response_def)
  moreover have "?n \<noteq> -1" using n by (metis of_nat_0_le_iff not_less sint_n1 zero_less_one neg_less_0_iff_less)
  ultimately show ?thesis using w True big by (intro exI[of _ ?m4] exI[of _ ?n]) (simp add: deliver_def)
next
  case False
  have "sint (65536 :: i32) = 65536" by simp
  moreover have "sint (-2 :: i32) = -2" by simp
  ultimately show ?thesis using False assms(1)
    by (intro exI[of _ m3] exI[of _ "-2"]) (simp add: deliver_def api_result_def api_response_def)
qed

end

context durable
begin

lemma CallAPI_once:
  fixes s :: "('m, 'e) session"
  assumes "inv \<sigma>" "ok_str apiName" and H: "h_store H = st" "h_mem H = M"
    and sl: "call_slices G apiName request m = (ap, rp, wp, m3)" "valid m3" "length (contents m3) < page_size * max_pages"
      "holds_at (contents m3) ap (bytes_of_string apiName)" "holds_at (contents m3) rp request"
      "unat wp + 65536 \<le> length (contents m3)"
    and slices: "\<And>m n. valid m \<Longrightarrow> gg_bytes G wp n m = go_slice (unat wp) n (contents m)"
    and new: "find_entry (ses_callIndex s + 1) apiName (i_oplog (view \<sigma> (ses_instanceID s))) = None"
    and perf: "perform (ses_ApiHandler s) apiName request (ses_callIndex s + 1) e = (Some resp, e1)"
  shows "\<exists>m4 \<sigma>1. inv \<sigma>1 \<and> valid m4 \<and>
    view \<sigma>1 = (view \<sigma>)(ses_instanceID s := view \<sigma> (ses_instanceID s)
      \<lparr>i_oplog := i_oplog (view \<sigma> (ses_instanceID s)) @ [mk_entry (ses_callIndex s + 1) apiName request resp]\<rparr>) \<and>
    (\<forall>k. Call H (CallAPI G apiName request k m) s \<sigma> e =
       Call H (k (api_response resp) m4) (s\<lparr>ses_callIndex := ses_callIndex s + 1, ses_memory := m4\<rparr>) \<sigma>1 e1) \<and>
    (\<forall>k H2 (s2 :: ('m, 'e) session) e2. h_store H2 = st \<and> h_mem H2 = M \<and> ses_instanceID s2 = ses_instanceID s \<and> ses_callIndex s2 = ses_callIndex s \<longrightarrow>
       Call H2 (CallAPI G apiName request k m) s2 \<sigma>1 e2 =
       Call H2 (k (api_response resp) m4) (s2\<lparr>ses_callIndex := ses_callIndex s + 1, ses_memory := m4\<rparr>) \<sigma>1 e2)"
proof -
  let ?iid = "ses_instanceID s" and ?i = "ses_callIndex s + 1"
  obtain r \<sigma>1 where so: "st_SaveOplog st ?iid ?i apiName request resp \<sigma> = (r, \<sigma>1)" by fastforce
  note S = SaveOplog[OF assms(1,2) so]
  obtain m4 n where d: "\<And>x :: ('m, 'e) session. ses_memory x = m3 \<Longrightarrow> deliver M wp 65536 resp x = (n, x\<lparr>ses_memory := m4\<rparr>)"
    "\<And>k. api_result G wp k n m4 = k (api_response resp) m4" "valid m4"
    using deliver_response[OF sl(2,6) slices] by blast
  note hs = holds_at_slice[OF sl(4), simplified] holds_at_slice[OF sl(5)]
  have host: "host_call_api st M m3 ap (word_of_nat (length apiName)) rp (word_of_nat (length request)) wp 65536 s2 \<tau> x =
      (Ret n, s2\<lparr>ses_callIndex := ?i, ses_memory := m4\<rparr>, \<tau>', x')"
    if "call_logged st M apiName request wp 65536 (s2\<lparr>ses_memory := m3\<rparr>) \<tau> x =
      (n, s2\<lparr>ses_callIndex := ?i, ses_memory := m4\<rparr>, \<tau>', x')" for s2 :: "('m, 'e) session" and \<tau> \<tau>' x x'
    using that Read_all[OF sl(2,3)] hs by (simp add: host_call_api_def Let_def)
  have first: "call_logged st M apiName request wp 65536 (s\<lparr>ses_memory := m3\<rparr>) \<sigma> e =
      (n, s\<lparr>ses_callIndex := ?i, ses_memory := m4\<rparr>, \<sigma>1, e1)"
    using new perf so S LoadOplog[OF assms(1)] d(1) by (simp add: call_logged_def Let_def)
  have "find_entry ?i apiName (i_oplog (view \<sigma>1 ?iid)) = Some (mk_entry ?i apiName request resp)"
    using S new by (simp add: find_entry_append) (simp add: find_entry_def)
  then have again: "call_logged st M apiName request wp 65536 (s2\<lparr>ses_memory := m3\<rparr>) \<sigma>1 e2 =
      (n, s2\<lparr>ses_callIndex := ?i, ses_memory := m4\<rparr>, \<sigma>1, e2)"
    if "ses_instanceID s2 = ?iid" "ses_callIndex s2 = ses_callIndex s" for s2 :: "('m, 'e) session" and e2
    using that S LoadOplog[of \<sigma>1] d(1) by (simp add: call_logged_def Let_def)
  show ?thesis
    using S d(2,3) host[OF first] host[OF again] H
    by (intro exI[of _ m4] exI[of _ \<sigma>1]) (simp add: CallAPI_slices[OF sl(1)])
qed

end

end
