(* ===== verification/Stream_Worker.thy ===== *)
theory Stream_Worker
  imports Guest_Calls
begin

text \<open>
  \<open>examples/s3-store/worker/main.go\<close>, a worker that reads the download stream through a buffer of 4096
  bytes, turns lower case letters into upper case and writes each chunk to the upload stream, and the
  composition of its loop with the stream wrappers of the guest library and the stream handlers of the
  host.
\<close>

section \<open>The worker\<close>

text \<open>How the compiled worker writes a slice and where it keeps the field \<open>ProcessedBytes\<close> of its state.\<close>

record 'm stream_guest = "'m go_guest" +
  sg_store :: "u32 \<Rightarrow> bytes \<Rightarrow> 'm \<Rightarrow> 'm"
  sg_ProcessedBytes :: "'m \<Rightarrow> i32"
  sg_setProcessedBytes :: "i32 \<Rightarrow> 'm \<Rightarrow> 'm"

definition upper_byte :: "byte \<Rightarrow> byte" where
  "upper_byte b = (if 97 \<le> b \<and> b \<le> 122 then b - 97 + 65 else b)"

definition worker_initialize :: "'m step" where
  "worker_initialize k m = k None m"

text \<open>
  The loop over the stream with the buffer at \<open>p\<close>; its fuel bounds the number of reads, and \<open>out\<close> is
  what happens when it runs out.
\<close>

fun stream_loop :: "'m stream_guest \<Rightarrow> ('m \<Rightarrow> 'm guest) \<Rightarrow> u32 \<Rightarrow> nat \<Rightarrow> 'm step" where
  "stream_loop G out p 0 k m = out m"
| "stream_loop G out p (Suc fuel) k m =
     Guest_Runner.Read p 4096
       (\<lambda>(n, err) m1.
          if err = Some io_EOF then Guest_Runner.Close k m1
          else case err of
            Some e \<Rightarrow> k (Some (Wrap ''failed to read from network stream'' e)) m1
          | None \<Rightarrow>
              if n > 4096 then Trap m1 index_panic
              else Guest_Runner.Write p (nat n)
                (\<lambda>(wn, err) m3. case err of
                   Some e \<Rightarrow> k (Some (Wrap ''failed to write to network stream'' e)) m3
                 | None \<Rightarrow>
                     if wn \<noteq> n
                     then k (Some (Err (''mismatch in bytes written: expected '' @ FormatInt n @ '', got '' @ FormatInt wn))) m3
                     else stream_loop G out p fuel k
                            (sg_setProcessedBytes G (sg_ProcessedBytes G m3 + word_of_int n) m3))
                (sg_store G p (map upper_byte (gg_bytes G p (nat n) m1)) m1)) m"

definition processStream :: "'m stream_guest \<Rightarrow> nat \<Rightarrow> 'm step" where
  "processStream G fuel k m =
     (let (p, m1) = gg_place G (replicate 4096 0) m in stream_loop G (\<lambda>m. Trap m ''out of fuel'') p fuel k m1)"

definition finalizeWorkflow :: "'m step" where
  "finalizeWorkflow k m = k None m"

definition worker_run :: "'m stream_guest \<Rightarrow> nat \<Rightarrow> u64 list \<Rightarrow> 'm \<Rightarrow> 'm guest" where
  "worker_run G fuel = exported_run (go_guest.truncate G)
     (wf_Step finalizeWorkflow (wf_Step (processStream G fuel) (wf_Step worker_initialize NewWorkflow)))"

section \<open>One call on a stream\<close>

context linear_memory
begin

text \<open>A read through a buffer of \<open>l\<close> bytes.\<close>

lemma Read_into:
  fixes s :: "('m, 'e) session"
  assumes "h_mem H = M" "valid m" "length (contents m) < page_size * max_pages"
    and p: "unat p + l \<le> length (contents m)" "unat p + l < 2 ^ 31" "0 < l" and st: "streaming s rest"
  shows "\<exists>m1 r eof. valid m1 \<and> same_outside (unat p) l (contents m) (contents m1) \<and>
    go_slice (unat p) (length (take l rest)) (contents m1) = take l rest \<and>
    streaming (s\<lparr>ses_downloadReader := r, ses_downloadEOF := eof, ses_memory := m1\<rparr>) (drop l rest) \<and>
    (rest = [] \<longrightarrow> eof \<and> m1 = m) \<and>
    (\<forall>k. Call H (Guest_Runner.Read p l k m) s \<sigma> e =
       Call H (k (if rest = [] then (0, Some io_EOF) else (int (length (take l rest)), None)) m1)
         (s\<lparr>ses_downloadReader := r, ses_downloadEOF := eof, ses_memory := m1\<rparr>) \<sigma> e)"
proof -
  let ?s = "s\<lparr>ses_memory := m\<rparr>" and ?c = "take l rest" and ?l = "word_of_nat l :: i32"
  have u: "unat ?l = l" "0 \<le> sint ?l" using p(2) by (auto simp: unat_of_nat intro!: small_nonneg)
  have ptr: "0 \<le> sint p" using p(2) by (intro small_nonneg) simp
  have b: "\<not> out_of_bounds p ?l (contents m)" using ptr p(1) u by (simp add: in_bounds_iff)
  have sl: "nat (sint ?l) = l" using u nat_sint_nonneg[of ?l] by simp
  have n: "sint (word_of_nat (length ?c) :: i32) = int (length ?c)" if "length ?c \<le> l"
    using that p(2) by (simp add: sint_uint unsigned_of_nat take_bit_nat_eq_self signed_take_bit_int_eq_self del: length_take)
  have rd: "mem_Read M m 0 (mem_Size M m) = Some (contents m)" by (rule Read_all[OF assms(2,3)])
  show ?thesis
  proof (cases "rest = []")
    case True
    have "handleDownload M p ?l ?s e = (0, s\<lparr>ses_downloadReader := r, ses_downloadEOF := True, ses_memory := m\<rparr>, e)"
      if "r = (if ses_downloadEOF s then ses_downloadReader s else None)" for r
      using st True that rd b sl p(3)
      by (auto simp: handleDownload_def streaming_def download_read_def reader_read_def Let_def split: if_splits)
    then show ?thesis using True assms(1,2) p(3)
      by (intro exI[of _ m] exI[of _ "if ses_downloadEOF s then ses_downloadReader s else None"] exI[of _ True])
         (simp add: Guest_Runner.Read_def stream_data_def streaming_def go_slice_def)
  next
    case False
    then have r: "ses_downloadReader s = Some rest" "\<not> ses_downloadEOF s" using st by (auto simp: streaming_def split: if_splits)
    let ?m1 = "fst (mem_Write M m p ?c)" and ?n = "word_of_nat (length ?c) :: i32"
    let ?s1 = "s\<lparr>ses_downloadReader := Some (drop l rest), ses_downloadEOF := False, ses_memory := ?m1\<rparr>"
    have l: "length ?c \<le> l" by simp
    have fits: "unat p + length ?c \<le> length (contents m)" using p(1) l by linarith
    have w: "valid ?m1 \<and> contents ?m1 = overwrite (contents m) (unat p) ?c"
      using Write_in[OF assms(2) fits, of "fst (mem_Write M m p ?c)" "snd (mem_Write M m p ?c)"] by simp
    have ne: "?c \<noteq> []" using False p(3) by simp
    have "download_read M p ?l rest ?s = (?n, ?s1)"
      using ne False r p(3) unfolding download_read_def sl by (simp add: reader_read_def Let_def)
    then have h: "handleDownload M p ?l ?s e = (?n, ?s1, e)" using r rd b by (simp add: handleDownload_def)
    have nz: "sint ?n \<noteq> 0" "\<not> sint ?n < 0" using n[OF l] ne by auto
    then have "?n \<noteq> 0" by auto
    then have "Call H (Guest_Runner.Read p l k m) s \<sigma> e = Call H (k (int (length ?c), None) ?m1) ?s1 \<sigma> e" for k
      using h nz n[OF l] assms(1) p(3) by (simp add: Guest_Runner.Read_def stream_data_def del: length_take)
    moreover have "go_slice (unat p) (length ?c) (contents ?m1) = ?c" using w fits by (simp only: go_slice_overwrite_same)
    moreover have "same_outside (unat p) l (contents m) (contents ?m1)" using w same_outside_overwrite[OF fits l] by simp
    ultimately show ?thesis using w False
      by (intro exI[of _ ?m1] exI[of _ "Some (drop l rest)"] exI[of _ False]) (simp add: streaming_def)
  qed
qed

text \<open>The first read of a download asks the handler for the data.\<close>

lemma Read_first:
  fixes s :: "('m, 'e) session"
  assumes "h_mem H = M" "valid m" "length (contents m) < page_size * max_pages"
    and p: "unat p + l \<le> length (contents m)" "unat p + l < 2 ^ 31"
    and s: "\<not> ses_downloadEOF s" "ses_downloadReader s = None" "ses_DownloadHandler s = Some dl" "dl e = (Inr d, e1)"
    and l: "0 < l"
  shows "Call H (Guest_Runner.Read p l k m) s \<sigma> e = Call H (Guest_Runner.Read p l k m) (s\<lparr>ses_downloadReader := Some d\<rparr>) \<sigma> e1"
proof -
  let ?l = "word_of_nat l :: i32"
  have "unat ?l = l" "0 \<le> sint ?l" "0 \<le> sint p" using p(2) by (auto simp: unat_of_nat intro!: small_nonneg)
  then have b: "\<not> out_of_bounds p ?l (contents m)" using p(1) by (simp add: in_bounds_iff)
  have comm: "s\<lparr>ses_downloadReader := Some d, ses_memory := m\<rparr> = s\<lparr>ses_memory := m, ses_downloadReader := Some d\<rparr>" by simp
  have "handleDownload M p ?l (s\<lparr>ses_memory := m\<rparr>) e = handleDownload M p ?l (s\<lparr>ses_downloadReader := Some d, ses_memory := m\<rparr>) e1"
    unfolding comm using assms(2,3) b s by (intro download_first[where h = dl]) simp_all
  then show ?thesis using assms(1) l by (simp add: Guest_Runner.Read_def stream_data_def)
qed

text \<open>A write of a part of the buffer.\<close>

lemma Write_chunk:
  fixes s :: "('m, 'e) session"
  assumes "h_mem H = M" "valid m" "length (contents m) < page_size * max_pages"
    and p: "unat p + l \<le> length (contents m)" "unat p + l < 2 ^ 31" "0 < l"
  shows "Call H (Guest_Runner.Write p l k m) s \<sigma> e = Call H (k (int l, None) m)
    (s\<lparr>ses_uploadBuffer := ses_uploadBuffer s @ go_slice (unat p) l (contents m), ses_memory := m\<rparr>) \<sigma> e"
proof -
  let ?l = "word_of_nat l :: i32" and ?s = "s\<lparr>ses_memory := m\<rparr>"
  have u: "unat ?l = l" using p(2) by (simp add: unat_of_nat)
  have pos: "0 \<le> sint p" "0 \<le> sint ?l" using p(2) u by (auto intro!: small_nonneg)
  have "\<not> out_of_bounds p ?l (contents (ses_memory ?s))" "?l \<noteq> 0" "unat p + unat ?l < 2147483648"
    using pos p u by (auto simp: in_bounds_iff)
  then have "handleUpload M p ?l ?s e = (Ret ?l, s\<lparr>ses_uploadBuffer := ses_uploadBuffer s @ go_slice (unat p) l (contents m),
      ses_memory := m\<rparr>, e)"
    using handleUpload_chunk[of ?s p ?l e] assms(2,3) u by simp
  then show ?thesis using assms(1) p(3) by (simp add: Guest_Runner.Write_def stream_data_def)
qed

text \<open>The end of the upload: the handler gets the buffer, and the guest does not see its answer.\<close>

lemma Close_upload:
  assumes "h_mem H = M" "valid m" "length (contents m) < page_size * max_pages"
    and "ses_uploadBuffer s \<noteq> []" "ses_UploadHandler s = Some hu" "hu (ses_uploadBuffer s) e = (err, e1)"
  shows "Call H (Guest_Runner.Close k m) s \<sigma> e = Call H (k None m)
    (s\<lparr>ses_memory := m, ses_uploadBuffer := [], ses_downloadReader := None, ses_downloadEOF := False\<rparr>) \<sigma> e1"
  using assms(1,4-6) Read_all[OF assms(2,3)]
  by (cases err) (simp_all add: Guest_Runner.Close_def stream_data_def handleUpload_def out_of_bounds_def Let_def)

end

section \<open>The whole stream\<close>

text \<open>
  What the program promises: the buffer lies at \<open>p\<close> in the first \<open>N\<close> bytes, a store into it writes
  these bytes, and the counter is outside of it.
\<close>

locale stream_program = linear_memory M contents valid
  for M :: "'m memory_api" and contents and valid +
  fixes N :: nat and G :: "'m stream_guest" and p :: u32
  assumes room: "unat p + 4096 \<le> N" "unat p + 4096 < 2 ^ 31"
    and store: "valid m \<Longrightarrow> N \<le> length (contents m) \<Longrightarrow> length bs \<le> 4096 \<Longrightarrow>
      valid (sg_store G p bs m) \<and> contents (sg_store G p bs m) = overwrite (contents m) (unat p) bs"
    and read: "valid m \<Longrightarrow> gg_bytes G p n m = go_slice (unat p) n (contents m)"
    and counter: "valid m \<Longrightarrow> N \<le> length (contents m) \<Longrightarrow> valid (sg_setProcessedBytes G v m) \<and>
      length (contents (sg_setProcessedBytes G v m)) = length (contents m) \<and> sg_ProcessedBytes G (sg_setProcessedBytes G v m) = v"
    and apart: "valid m \<Longrightarrow> valid m' \<Longrightarrow> N \<le> length (contents m) \<Longrightarrow>
      same_outside (unat p) 4096 (contents m) (contents m') \<Longrightarrow> sg_ProcessedBytes G m' = sg_ProcessedBytes G m"
begin

lemma stream_step:
  fixes s :: "('m, 'e) session"
  assumes H: "h_mem H = M" and m: "valid m" "N \<le> length (contents m)" "length (contents m) < page_size * max_pages"
    and st: "streaming s rest" "rest \<noteq> []"
  shows "\<exists>m1 s1. valid m1 \<and> length (contents m1) = length (contents m) \<and>
    sg_ProcessedBytes G m1 = sg_ProcessedBytes G m + word_of_nat (length (take 4096 rest)) \<and>
    streaming s1 (drop 4096 rest) \<and> ses_uploadBuffer s1 = ses_uploadBuffer s @ map upper_byte (take 4096 rest) \<and>
    ses_UploadHandler s1 = ses_UploadHandler s \<and>
    Call H (stream_loop G out p (Suc fuel) k m) s \<sigma> e = Call H (stream_loop G out p fuel k m1) s1 \<sigma> e"
proof -
  let ?c = "take 4096 rest"
  have fit: "unat p + 4096 \<le> length (contents m)" using room(1) m(2) by linarith
  obtain m1 r eof where R: "valid m1" "same_outside (unat p) 4096 (contents m) (contents m1)"
    "go_slice (unat p) (length ?c) (contents m1) = ?c"
    "streaming (s\<lparr>ses_downloadReader := r, ses_downloadEOF := eof, ses_memory := m1\<rparr>) (drop 4096 rest)"
    "\<And>k. Call H (Guest_Runner.Read p 4096 k m) s \<sigma> e = Call H (k (int (length ?c), None) m1)
       (s\<lparr>ses_downloadReader := r, ses_downloadEOF := eof, ses_memory := m1\<rparr>) \<sigma> e"
    using Read_into[OF H m(1,3) fit room(2) zero_less_numeral st(1), of \<sigma> e] st(2) by auto
  let ?s1 = "s\<lparr>ses_downloadReader := r, ses_downloadEOF := eof, ses_memory := m1\<rparr>" and ?u = "map upper_byte ?c"
  have l: "0 < length ?c" "length ?c \<le> 4096" using st(2) by simp_all
  have len1: "length (contents m1) = length (contents m)" using R(2) by (simp add: same_outside_def)
  let ?m2 = "sg_store G p ?u m1"
  have s2: "valid ?m2" "contents ?m2 = overwrite (contents m1) (unat p) ?u" using store[OF R(1)] len1 m(2) l(2) by simp_all
  have fit2: "unat p + length ?u \<le> length (contents m1)" using fit len1 l(2) by (simp del: length_take)
  have len2: "length (contents ?m2) = length (contents m)" using s2(2) fit2 len1 by (simp del: length_take)
  have buf: "go_slice (unat p) (length ?c) (contents ?m2) = ?u"
    using go_slice_overwrite_same[OF fit2] s2(2) by (simp del: length_take)
  have "unat p + length ?c \<le> length (contents ?m2)" "unat p + length ?c < 2 ^ 31"
    using fit len2 l(2) room(2) by linarith+
  then have W: "Call H (Guest_Runner.Write p (length ?c) k ?m2) ?s1 \<sigma> e = Call H (k (int (length ?c), None) ?m2)
      (?s1\<lparr>ses_uploadBuffer := ses_uploadBuffer s @ ?u, ses_memory := ?m2\<rparr>) \<sigma> e" for k
    using Write_chunk[OF H s2(1), of p "length ?c" k ?s1 \<sigma> e] buf len2 m(3) l(1) by (simp del: length_take)
  have "same_outside (unat p) 4096 (contents m1) (contents ?m2)"
    using same_outside_overwrite[OF fit2] s2(2) l(2) by (simp del: length_take)
  then have "sg_ProcessedBytes G ?m2 = sg_ProcessedBytes G m"
    using apart[OF R(1) s2(1)] apart[OF m(1) R(1) m(2) R(2)] len1 m(2) by simp
  then have cnt: "valid (sg_setProcessedBytes G (sg_ProcessedBytes G ?m2 + word_of_nat (length ?c)) ?m2)"
    "length (contents (sg_setProcessedBytes G (sg_ProcessedBytes G ?m2 + word_of_nat (length ?c)) ?m2)) = length (contents m)"
    "sg_ProcessedBytes G (sg_setProcessedBytes G (sg_ProcessedBytes G ?m2 + word_of_nat (length ?c)) ?m2) =
      sg_ProcessedBytes G m + word_of_nat (length ?c)"
    using counter[OF s2(1)] len2 m(2) by simp_all
  have "Call H (stream_loop G out p (Suc fuel) k m) s \<sigma> e =
      Call H (stream_loop G out p fuel k (sg_setProcessedBytes G (sg_ProcessedBytes G ?m2 + word_of_nat (length ?c)) ?m2))
        (?s1\<lparr>ses_uploadBuffer := ses_uploadBuffer s @ ?u, ses_memory := ?m2\<rparr>) \<sigma> e"
    using W l read[OF R(1), of "length ?c"] R(3) by (simp add: R(5) del: length_take)
  moreover have "streaming (?s1\<lparr>ses_uploadBuffer := ses_uploadBuffer s @ ?u, ses_memory := ?m2\<rparr>) (drop 4096 rest)"
    using R(4) by (auto simp: streaming_def split: if_splits)
  ultimately show ?thesis using cnt
    by (intro exI[of _ "sg_setProcessedBytes G (sg_ProcessedBytes G ?m2 + word_of_nat (length ?c)) ?m2"]
        exI[of _ "?s1\<lparr>ses_uploadBuffer := ses_uploadBuffer s @ ?u, ses_memory := ?m2\<rparr>"]) simp
qed

lemma stream_end:
  fixes s :: "('m, 'e) session"
  assumes H: "h_mem H = M" and m: "valid m" "N \<le> length (contents m)" "length (contents m) < page_size * max_pages"
    and st: "streaming s []"
  shows "\<exists>m1 s1. valid m1 \<and> length (contents m1) = length (contents m) \<and> sg_ProcessedBytes G m1 = sg_ProcessedBytes G m \<and>
    ses_uploadBuffer s1 = ses_uploadBuffer s \<and> ses_UploadHandler s1 = ses_UploadHandler s \<and>
    Call H (stream_loop G out p (Suc fuel) k m) s \<sigma> e = Call H (Guest_Runner.Close k m1) s1 \<sigma> e"
proof -
  have fit: "unat p + 4096 \<le> length (contents m)" using room(1) m(2) by linarith
  from Read_into[OF H m(1,3) fit room(2) zero_less_numeral st, of \<sigma> e]
  obtain m1 r eof where R: "valid m1" "same_outside (unat p) 4096 (contents m) (contents m1)"
    "\<And>k. Call H (Guest_Runner.Read p 4096 k m) s \<sigma> e = Call H (k (0, Some io_EOF) m1)
       (s\<lparr>ses_downloadReader := r, ses_downloadEOF := eof, ses_memory := m1\<rparr>) \<sigma> e" by auto
  have "length (contents m1) = length (contents m)" using R(2) by (simp add: same_outside_def)
  then show ?thesis using R(1) apart[OF m(1) R(1) m(2) R(2)]
    by (intro exI[of _ m1] exI[of _ "s\<lparr>ses_downloadReader := r, ses_downloadEOF := eof, ses_memory := m1\<rparr>"]) (simp add: R(3))
qed

lemma stream_loop_all:
  fixes s :: "('m, 'e) session"
  assumes H: "h_mem H = M"
    and "valid m" "N \<le> length (contents m)" "length (contents m) < page_size * max_pages"
    and "streaming s rest" "length rest \<le> 4096 * fuel"
  shows "\<exists>m1 s1. valid m1 \<and> length (contents m1) = length (contents m) \<and>
    sg_ProcessedBytes G m1 = sg_ProcessedBytes G m + word_of_nat (length rest) \<and>
    ses_uploadBuffer s1 = ses_uploadBuffer s @ map upper_byte rest \<and> ses_UploadHandler s1 = ses_UploadHandler s \<and>
    Call H (stream_loop G out p (Suc fuel) k m) s \<sigma> e = Call H (Guest_Runner.Close k m1) s1 \<sigma> e"
  using assms(2-6)
proof (induction fuel arbitrary: m s rest)
  case 0
  then show ?case using stream_end[OF H, of m s out 0 k \<sigma> e] by simp
next
  case (Suc fuel)
  show ?case
  proof (cases "rest = []")
    case True
    then show ?thesis using stream_end[OF H Suc.prems(1-3), of s out "Suc fuel" k \<sigma> e] Suc.prems(4) by simp
  next
    case False
    obtain m1 s1 where S: "valid m1" "length (contents m1) = length (contents m)"
      "sg_ProcessedBytes G m1 = sg_ProcessedBytes G m + word_of_nat (length (take 4096 rest))"
      "streaming s1 (drop 4096 rest)" "ses_uploadBuffer s1 = ses_uploadBuffer s @ map upper_byte (take 4096 rest)"
      "ses_UploadHandler s1 = ses_UploadHandler s"
      "Call H (stream_loop G out p (Suc (Suc fuel)) k m) s \<sigma> e = Call H (stream_loop G out p (Suc fuel) k m1) s1 \<sigma> e"
      using stream_step[OF H Suc.prems(1-4) False, of out "Suc fuel" k \<sigma> e] by blast
    have pre: "N \<le> length (contents m1)" "length (contents m1) < page_size * max_pages" "length (drop 4096 rest) \<le> 4096 * fuel"
      using S(2) Suc.prems(2,3,5) by simp_all
    obtain m2 s2 where T: "valid m2" "length (contents m2) = length (contents m1)"
      "sg_ProcessedBytes G m2 = sg_ProcessedBytes G m1 + word_of_nat (length (drop 4096 rest))"
      "ses_uploadBuffer s2 = ses_uploadBuffer s1 @ map upper_byte (drop 4096 rest)" "ses_UploadHandler s2 = ses_UploadHandler s1"
      "Call H (stream_loop G out p (Suc fuel) k m1) s1 \<sigma> e = Call H (Guest_Runner.Close k m2) s2 \<sigma> e"
      using Suc.IH[OF S(1) pre(1,2) S(4) pre(3)] by blast
    have "length rest = length (take 4096 rest) + length (drop 4096 rest)" by simp
    then have "(word_of_nat (length rest) :: i32) = word_of_nat (length (take 4096 rest)) + word_of_nat (length (drop 4096 rest))"
      by (simp only: of_nat_add)
    then have cnt: "sg_ProcessedBytes G m2 = sg_ProcessedBytes G m + word_of_nat (length rest)" using S(3) T(3) by simp
    have "ses_uploadBuffer s2 = ses_uploadBuffer s @ map upper_byte (take 4096 rest @ drop 4096 rest)"
      using S(5) T(4) by (simp only: map_append append_assoc)
    then have up: "ses_uploadBuffer s2 = ses_uploadBuffer s @ map upper_byte rest" by (simp only: append_take_drop_id)
    show ?thesis using T(1,2) S(2) cnt up T(5) S(6) S(7) T(6) by (intro exI[of _ m2] exI[of _ s2]) (simp del: stream_loop.simps)
  qed
qed

text \<open>From the first read, which asks the handler for the data, to the end of the upload.\<close>

lemma processStream_all:
  fixes s :: "('m, 'e) session"
  assumes H: "h_mem H = M" and place: "gg_place G (replicate 4096 0) m0 = (p, m)"
    and m: "valid m" "N \<le> length (contents m)" "length (contents m) < page_size * max_pages"
    and s: "\<not> ses_downloadEOF s" "ses_downloadReader s = None" "ses_uploadBuffer s = []"
      "ses_DownloadHandler s = Some dl" "ses_UploadHandler s = Some hu"
    and data: "dl e = (Inr payload, e1)" "payload \<noteq> []" "hu (map upper_byte payload) e1 = (err, e2)"
    and fuel: "length payload \<le> 4096 * fuel"
  shows "\<exists>m2 s2. valid m2 \<and> length (contents m2) = length (contents m) \<and>
    sg_ProcessedBytes G m2 = sg_ProcessedBytes G m + word_of_nat (length payload) \<and>
    ses_uploadBuffer s2 = [] \<and> ses_downloadReader s2 = None \<and> \<not> ses_downloadEOF s2 \<and>
    Call H (processStream G (Suc fuel) k m0) s \<sigma> e = Call H (k None m2) s2 \<sigma> e2"
proof -
  let ?s = "s\<lparr>ses_downloadReader := Some payload\<rparr>" and ?out = "\<lambda>m. Trap m ''out of fuel''"
  have fit: "unat p + 4096 \<le> length (contents m)" using room(1) m(2) by linarith
  have first: "Call H (stream_loop G ?out p (Suc fuel) k m) s \<sigma> e = Call H (stream_loop G ?out p (Suc fuel) k m) ?s \<sigma> e1"
    using Read_first[OF H m(1,3) fit room(2) s(1,2,4) data(1)] by simp
  have "streaming ?s payload" using s(1) by (simp add: streaming_def)
  from stream_loop_all[OF H m this fuel, of ?out k \<sigma> e1]
  obtain m1 s1 where L: "valid m1" "length (contents m1) = length (contents m)"
    "sg_ProcessedBytes G m1 = sg_ProcessedBytes G m + word_of_nat (length payload)"
    "ses_uploadBuffer s1 = map upper_byte payload" "ses_UploadHandler s1 = Some hu"
    "Call H (stream_loop G ?out p (Suc fuel) k m) ?s \<sigma> e1 = Call H (Guest_Runner.Close k m1) s1 \<sigma> e1"
    using s(3,5) by auto
  have "Call H (Guest_Runner.Close k m1) s1 \<sigma> e1 = Call H (k None m1)
      (s1\<lparr>ses_memory := m1, ses_uploadBuffer := [], ses_downloadReader := None, ses_downloadEOF := False\<rparr>) \<sigma> e2"
    using L(2,4) m(3) data(2,3) by (intro Close_upload[OF H L(1) _ _ L(5)]) simp_all
  then show ?thesis using first L place
    by (intro exI[of _ m1] exI[of _ "s1\<lparr>ses_memory := m1, ses_uploadBuffer := [], ses_downloadReader := None, ses_downloadEOF := False\<rparr>"])
       (simp add: processStream_def del: stream_loop.simps)
qed

end

end
