(* ===== verification/List_Guest.thy ===== *)
theory List_Guest
  imports Workflow_Resume Stream_Worker Memory_Engine
begin

text \<open>
  A guest over byte lists: the variable \<open>currentStep\<close> is the little-endian word at address zero, and a
  slice is allocated in fresh pages at the end of the memory. The locales of theory \<open>Workflow_Resume\<close>
  are interpreted on it, over the in-memory store.
\<close>

section \<open>Words in memory\<close>

unbundle bit_operations_syntax

definition read32 :: "nat \<Rightarrow> bytes \<Rightarrow> i32" where
  "read32 a m = ucast (m ! a) OR push_bit 8 (ucast (m ! (a + 1))) OR push_bit 16 (ucast (m ! (a + 2))) OR
     push_bit 24 (ucast (m ! (a + 3)))"

definition write32 :: "nat \<Rightarrow> i32 \<Rightarrow> bytes \<Rightarrow> bytes" where
  "write32 a v m = m[a := ucast v, a + 1 := ucast (drop_bit 8 v), a + 2 := ucast (drop_bit 16 v), a + 3 := ucast (drop_bit 24 v)]"

lemma word_of_bytes:
  "ucast (ucast v :: byte) OR push_bit 8 (ucast (ucast (drop_bit 8 v) :: byte)) OR
   push_bit 16 (ucast (ucast (drop_bit 16 v) :: byte)) OR push_bit 24 (ucast (ucast (drop_bit 24 v) :: byte)) = (v :: i32)"
  (is "?bytes = v")
proof (rule bit_word_eqI)
  fix n assume "n < LENGTH(32)"
  then consider "n < 8" | "8 \<le> n" "n < 16" | "16 \<le> n" "n < 24" | "24 \<le> n" "n < 32" by fastforce
  then show "bit ?bytes n = bit v n" by cases (auto simp: bit_simps)
qed

lemma length_write32 [simp]: "length (write32 a v m) = length m"
  by (simp add: write32_def)

lemma read32_write32 [simp]: "a + 3 < length m \<Longrightarrow> read32 a (write32 a v m) = v"
  by (simp add: read32_def write32_def word_of_bytes)

lemma read32_update [simp]: "a + 3 < k \<Longrightarrow> read32 a (m[k := b]) = read32 a m"
  by (simp add: read32_def)

text \<open>Writing a byte-sized number over another one changes one byte.\<close>

lemma write32_small:
  assumes "a + 3 < length m" "drop_bit 8 v = 0" "drop_bit 16 v = 0" "drop_bit 24 v = 0"
    and "m ! (a + 1) = 0" "m ! (a + 2) = 0" "m ! (a + 3) = 0"
  shows "write32 a v m = m[a := ucast v]"
proof -
  have "xs[i := 0] = xs" if "xs ! i = 0" for xs :: bytes and i using list_update_id[of xs i] that by simp
  then show ?thesis using assms by (simp add: write32_def)
qed

section \<open>The guest\<close>

text \<open>The padding of an allocation to whole pages.\<close>

definition page_pad :: "bytes \<Rightarrow> bytes" where
  "page_pad b = b @ replicate (page_size * ((length b + 65535) div page_size) - length b) 0"

lemma length_page_pad: "length (page_pad b) = page_size * ((length b + 65535) div page_size)"
proof -
  have "length b \<le> page_size * ((length b + 65535) div page_size)"
    using div_mult_mod_eq[of "length b + 65535" page_size] mod_less_divisor[of page_size "length b + 65535"] by linarith
  then show ?thesis by (simp add: page_pad_def)
qed

definition list_guest :: "bytes go_guest" where
  "list_guest = \<lparr> gg_currentStep = read32 0, gg_setCurrentStep = write32 0,
     gg_place = (\<lambda>b m. (word_of_nat (length m), m @ page_pad b)),
     gg_bytes = (\<lambda>p n m. go_slice (unat p) n m) \<rparr>"

lemma list_guest_simps [simp]:
  "gg_currentStep list_guest = read32 0" "gg_setCurrentStep list_guest = write32 0"
  "gg_place list_guest b m = (word_of_nat (length m), m @ page_pad b)"
  "gg_bytes list_guest p n m = go_slice (unat p) n m"
  by (simp_all add: list_guest_def)

text \<open>Two steps that each write a byte in the third block.\<close>

definition poke_steps :: "(bytes \<Rightarrow> bytes) list" where
  "poke_steps = [\<lambda>m. m[8192 := 7], \<lambda>m. m[8192 := 9]]"

lemma poke_steps_mem: "f \<in> set poke_steps \<Longrightarrow> \<exists>b. f = (\<lambda>m. m[8192 := b])"
  by (auto simp: poke_steps_def)

interpretation poke_flow: workflow_program list_memory "\<lambda>m. m" list_memory_valid 4 list_guest poke_steps
  by unfold_locales (auto simp: list_memory_valid_def poke_steps_def)

text \<open>Writing one byte in each of two blocks is noticed in both.\<close>

lemma block_at_update_other:
  assumes "k div 4096 \<noteq> i"
  shows "block_at i (m[k := v]) = block_at i m"
proof (cases "i * 4096 \<le> k")
  case True
  then have "Suc i \<le> k div 4096" using assms by (simp add: Suc_le_eq less_le less_eq_div_iff_mult_less_eq)
  then have "Suc i * 4096 \<le> k" by (simp add: less_eq_div_iff_mult_less_eq)
  then have "4096 \<le> k - i * 4096" by simp
  then show ?thesis by (simp add: block_at_def go_slice_def drop_update_swap[OF True] take_update_swap list_update_beyond)
next
  case False
  then show ?thesis by (simp add: block_at_def go_slice_def)
qed

lemma no_collision_update2:
  assumes "k < length m" "l < length m" "k div 4096 \<noteq> l div 4096"
  shows "no_collision m (m[k := v, l := w])"
  unfolding no_collision_def
proof (intro allI impI)
  fix i assume i: "i < num_blocks m" and h: "fnv64a (block_at i (m[k := v, l := w])) = fnv64a (block_at i m)"
  have "block_at i (m[k := v, l := w]) = block_at i (m[k := v]) \<or> block_at i (m[k := v, l := w]) = block_at i (m[l := w])"
  proof (cases "l div 4096 = i")
    case True
    then have "k \<noteq> l" "k div 4096 \<noteq> i" using assms(3) by auto
    then show ?thesis using block_at_update_other[of k i "m[l := w]" v] by (simp add: list_update_swap)
  qed (simp add: block_at_update_other)
  then show "block_at i (m[k := v, l := w]) = block_at i m"
    using no_collision_update[OF assms(1), of v] no_collision_update[OF assms(2), of w] i h
    unfolding no_collision_def by metis
qed

lemma poke_states:
  "after_steps list_guest poke_steps (one_page 0) 1 = (one_page 0)[8192 := 7, 0 := 1]"
  "after_steps list_guest poke_steps (one_page 0) 2 = (one_page 0)[8192 := 7, 0 := 1, 8192 := 9, 0 := 2]"
proof -
  have z: "one_page 0 ! i = 0" if "i < 65536" for i using that by (simp only: one_page_def nth_replicate)
  have 1: "write32 0 1 ((one_page 0)[8192 := 7]) = (one_page 0)[8192 := 7, 0 := 1]"
    by (subst write32_small) (simp_all add: z)
  have 2: "write32 0 2 ((one_page 0)[8192 := 7, 0 := 1, 8192 := 9]) = (one_page 0)[8192 := 7, 0 := 1, 8192 := 9, 0 := 2]"
    by (subst write32_small) (simp_all add: z)
  show A: "after_steps list_guest poke_steps (one_page 0) 1 = (one_page 0)[8192 := 7, 0 := 1]"
    using 1 by (simp add: poke_steps_def)
  show "after_steps list_guest poke_steps (one_page 0) 2 = (one_page 0)[8192 := 7, 0 := 1, 8192 := 9, 0 := 2]"
    using 1 2 by (simp add: poke_steps_def numeral_2_eq_2)
qed

text \<open>The engine over the in-memory store, running a workflow.\<close>

lemma mem_durable_workflow:
  "workflow_program M contents valid N G fs \<Longrightarrow> wazero_runtime W modules instantiable init \<Longrightarrow>
   durable_workflow (memory_ops cd) ms_inv ms_view version_cas (\<lambda>_. True) (\<lambda>_. True) M contents valid
     W modules instantiable init N G fs"
  by (rule durable_workflow.intro[OF mem_durable_engine[OF workflow_program.axioms(1)]])

interpretation mem_flow: durable_workflow "memory_ops cd" ms_inv ms_view version_cas "\<lambda>_. True" "\<lambda>_. True"
    list_memory "\<lambda>m. m" list_memory_valid "list_runtime mem0 exports" "\<lambda>r. r" "\<lambda>_. True" "\<lambda>_. mem0" 4 list_guest poke_steps
  by (rule mem_durable_workflow[OF poke_flow.workflow_program_axioms list_rt.wazero_runtime_axioms])

lemma read32_one_page: "read32 0 (one_page 0) = 0"
proof -
  have "one_page 0 ! i = 0" if "i < 65536" for i using that by (simp only: one_page_def nth_replicate)
  then show ?thesis by (simp add: read32_def)
qed

text \<open>A worker whose entrypoint \<open>run\<close> runs the two steps.\<close>

definition poke_exports :: "string \<Rightarrow> (u64 list \<Rightarrow> bytes \<Rightarrow> bytes guest) option" where
  "poke_exports n = (if n = ''run'' then Some (exported_run list_guest \<lparr> wf_steps = map local_step poke_steps \<rparr>) else None)"

lemma poke_boot: "boot (list_runtime m poke_exports) m' = Some m'"
  by (simp add: boot_def list_runtime_def poke_exports_def)

lemma poke_run: "rt_ExportedFunction (list_runtime m poke_exports) m' ''run'' =
    Some (exported_run list_guest \<lparr> wf_steps = map local_step poke_steps \<rparr>)"
  by (simp add: list_runtime_def poke_exports_def)

text \<open>A slice in fresh pages.\<close>

lemma holds_at_page:
  assumes "length xs + length b < 2 ^ 31"
  shows "holds_at (xs @ page_pad b @ ys) (word_of_nat (length xs)) b"
proof -
  have "unat (word_of_nat (length xs) :: u32) = length xs" using assms by (simp add: unat_of_nat)
  then show ?thesis using assms by (simp add: holds_at_def go_slice_def page_pad_def)
qed

lemma length_page_pad_one:
  assumes "0 < length b" "length b \<le> 65536"
  shows "length (page_pad b) = 65536"
proof -
  have "length b + 65535 = (length b - 1) + 65536" using assms by simp
  then have "(length b + 65535) div 65536 = (length b - 1) div 65536 + 1" by (simp only: div_add_self2)
  also have "(length b - 1) div 65536 = 0" using assms by simp
  finally have "(length b + 65535) div 65536 = 1" by simp
  then show ?thesis by (simp add: length_page_pad)
qed

text \<open>The streaming worker over byte lists: its buffer is the second page, its counter at address four.\<close>

definition list_stream :: "bytes stream_guest" where
  "list_stream = \<lparr> gg_currentStep = read32 0, gg_setCurrentStep = write32 0,
     gg_place = (\<lambda>b m. (word_of_nat (length m), m @ page_pad b)),
     gg_bytes = (\<lambda>p n m. go_slice (unat p) n m),
     sg_store = (\<lambda>p bs m. overwrite m (unat p) bs), sg_ProcessedBytes = read32 4, sg_setProcessedBytes = write32 4 \<rparr>"

lemma list_stream_simps [simp]:
  "gg_place list_stream b m = (word_of_nat (length m), m @ page_pad b)"
  "gg_bytes list_stream p n m = go_slice (unat p) n m" "sg_store list_stream p bs m = overwrite m (unat p) bs"
  "sg_ProcessedBytes list_stream = read32 4" "sg_setProcessedBytes list_stream = write32 4"
  by (simp_all add: list_stream_def)

interpretation list_stream: stream_program list_memory "\<lambda>m. m" list_memory_valid 131072 list_stream 65536
proof (unfold_locales, goal_cases)
  case (3 m bs)
  then show ?case by (simp add: list_memory_valid_def)
next
  case (6 m m')
  have "m ! i = m' ! i" if "i < 65536" for i
  proof -
    have "take 65536 m = take 65536 m'" using 6(4) by (simp add: same_outside_def)
    then have "take 65536 m ! i = take 65536 m' ! i" by simp
    then show ?thesis using that by simp
  qed
  then show ?case by (simp add: read32_def)
qed (auto simp: list_memory_valid_def)

text \<open>A word is the same where its four bytes are.\<close>

lemma read32_cong: "(\<And>i. a \<le> i \<Longrightarrow> i \<le> a + 3 \<Longrightarrow> m ! i = m' ! i) \<Longrightarrow> read32 a m = read32 a m'"
  by (simp add: read32_def)

lemma read32_write32_other: "a + 3 < b \<or> b + 3 < a \<Longrightarrow> read32 a (write32 b v m) = read32 a m"
  by (rule read32_cong) (auto simp: write32_def)

lemma nth_overwrite_below: "i < lo \<Longrightarrow> lo + length b \<le> length m \<Longrightarrow> overwrite m lo b ! i = m ! i"
  by (simp add: overwrite_def nth_append)

lemma read32_overwrite: "a + 3 < lo \<Longrightarrow> lo + length b \<le> length m \<Longrightarrow> read32 a (overwrite m lo b) = read32 a m"
  by (rule read32_cong) (simp add: nth_overwrite_below)

lemma slice_write32: "a + 3 < i \<Longrightarrow> go_slice i l (write32 a v m) = go_slice i l m"
  by (simp add: go_slice_def write32_def drop_update_cancel)

lemma same_outside_nth: "same_outside lo n m m' \<Longrightarrow> i < lo \<Longrightarrow> m ! i = m' ! i"
  unfolding same_outside_def by (metis nth_take)

lemma slice_extend:
  assumes "lo + l + length b \<le> length m"
  shows "go_slice lo (l + length b) (overwrite m (lo + l) b) = go_slice lo l m @ b"
proof -
  have d: "drop lo (take (lo + l) m) = take l (drop lo m)" by (simp add: drop_take)
  have "drop lo (overwrite m (lo + l) b) = take l (drop lo m) @ b @ drop (lo + l + length b) m"
    using assms by (simp add: overwrite_def d)
  moreover have "length (take l (drop lo m)) = l" using assms by simp
  ultimately show ?thesis by (simp add: go_slice_def)
qed

lemma slice_overwrite_apart:
  fixes m b :: bytes
  assumes "lo + length b \<le> length m" "i + l \<le> lo \<or> lo + length b \<le> i"
  shows "go_slice i l (overwrite m lo b) = go_slice i l m"
  using same_outside_slice[OF same_outside_overwrite[OF assms(1), of "length b"], of i l] assms(2) by simp

lemma unat_grow:
  fixes w :: u32
  assumes "unat w + n < 2 ^ 32"
  shows "unat (w + word_of_nat n) = unat w + n"
  using assms by (simp add: unat_word_ariths unat_of_nat)

end
