(* ===== verification/Live_Steps.thy ===== *)
theory Live_Steps
  imports Stream_Worker
begin

text \<open>
  The steps of a workflow on a live session: what a step and a checkpoint leave of the session, and one
  turn of the loop of \<open>Run\<close>, for any worker whose steps end without an error.
\<close>

section \<open>What a step leaves\<close>

text \<open>What a step leaves of a session: everything but the streams and the memory.\<close>

definition same_core :: "('m, 'e) session \<Rightarrow> ('m, 'e) session \<Rightarrow> bool" where
  "same_core s s' \<longleftrightarrow> ses_instanceID s' = ses_instanceID s \<and> ses_shouldCrashOnCheckpoint s' = ses_shouldCrashOnCheckpoint s \<and>
     ses_meta s' = ses_meta s \<and> ses_pageHashes s' = ses_pageHashes s \<and>
     ses_DownloadHandler s' = ses_DownloadHandler s \<and> ses_UploadHandler s' = ses_UploadHandler s"

lemma same_core_trans [trans]: "same_core s s1 \<Longrightarrow> same_core s1 s2 \<Longrightarrow> same_core s s2"
  by (simp add: same_core_def)

lemma same_core_upd [simp]:
  "same_core s (s1\<lparr>ses_memory := m\<rparr>) = same_core s s1" "same_core s (s1\<lparr>ses_downloadReader := r\<rparr>) = same_core s s1"
  "same_core s (s1\<lparr>ses_downloadEOF := b\<rparr>) = same_core s s1" "same_core s (s1\<lparr>ses_uploadBuffer := u\<rparr>) = same_core s s1"
  "same_core s s"
  by (simp_all add: same_core_def)

text \<open>Two sessions with the same streams; a session whose streams are at their start.\<close>

definition same_streams :: "('m, 'e) session \<Rightarrow> ('m, 'e) session \<Rightarrow> bool" where
  "same_streams s s' \<longleftrightarrow> ses_downloadEOF s' = ses_downloadEOF s \<and> ses_downloadReader s' = ses_downloadReader s \<and>
     ses_uploadBuffer s' = ses_uploadBuffer s"

abbreviation at_start :: "('m, 'e) session \<Rightarrow> bool" where
  "at_start s \<equiv> \<not> ses_downloadEOF s \<and> ses_downloadReader s = None \<and> ses_uploadBuffer s = []"

section \<open>Checkpoints between the steps\<close>

text \<open>
  A session that can checkpoint: in order with the store, new or current, with its hashes recorded, and
  not asked to simulate a crash.
\<close>

context durable
begin

definition live :: "('m, 'e) session \<Rightarrow> 's \<Rightarrow> bool" where
  "live s \<sigma> \<longleftrightarrow> inv \<sigma> \<and> ok_meta (ses_meta s) \<and> ses_pageHashes s \<noteq> None \<and> \<not> ses_shouldCrashOnCheckpoint s \<and>
     (fresh_session (view \<sigma> (ses_instanceID s)) s \<or> current_session (view \<sigma> (ses_instanceID s)) s)"

lemma live_same_core: "live s \<sigma> \<Longrightarrow> same_core s s' \<Longrightarrow> live s' \<sigma>"
  by (simp add: live_def same_core_def fresh_session_def current_session_def)

text \<open>A checkpoint leaves the streams and the handlers alone.\<close>

lemma checkpoint_streams:
  assumes "checkpoint st M h m s \<sigma> = (r, s', \<sigma>')"
  shows "ses_downloadEOF s' = ses_downloadEOF s \<and> ses_downloadReader s' = ses_downloadReader s \<and>
    ses_uploadBuffer s' = ses_uploadBuffer s \<and> ses_DownloadHandler s' = ses_DownloadHandler s \<and>
    ses_UploadHandler s' = ses_UploadHandler s \<and> ses_shouldCrashOnCheckpoint s' = ses_shouldCrashOnCheckpoint s"
  using assms by (auto simp: checkpoint_def write_memory_def Let_def split: sum.splits bool.splits option.splits if_splits prod.splits)

lemma live_checkpoint:
  assumes "live s \<sigma>" "valid m" "contents m \<noteq> []" "length (contents m) < page_size * max_pages" "ok_str h"
  shows "\<exists>s' \<sigma>'. checkpoint st M h m s \<sigma> = (Ret (), s', \<sigma>') \<and> live s' \<sigma>' \<and>
    ses_instanceID s' = ses_instanceID s \<and> Version (ses_meta s') = Version (ses_meta s) + 1 \<and>
    i_meta (view \<sigma>' (ses_instanceID s)) = Some (ses_meta s')"
proof -
  obtain r s' \<sigma>' where c: "checkpoint st M h m s \<sigma> = (r, s', \<sigma>')" by (metis prod_cases3)
  obtain f where f: "ses_pageHashes s = Some f" using assms(1) by (auto simp: live_def)
  have L: "inv \<sigma>" "ok_meta (ses_meta s)" "\<not> ses_shouldCrashOnCheckpoint s"
    "fresh_session (view \<sigma> (ses_instanceID s)) s \<or> current_session (view \<sigma> (ses_instanceID s)) s"
    using assms(1) by (simp_all add: live_def)
  have D: "r = passed s \<and> inv \<sigma>' \<and> Version (ses_meta s') = Version (ses_meta s) + 1 \<and>
      current_session (view \<sigma>' (ses_instanceID s)) s' \<and> ses_instanceID s' = ses_instanceID s \<and> ses_pageHashes s' \<noteq> None"
  proof (cases "isFullSnapshot (Version (ses_meta s) + 1)")
    case True
    show ?thesis using checkpoint_full[OF L(1) assms(2-4) L(2) assms(5) L(4) True c] f by simp
  next
    case False
    then have "current_session (view \<sigma> (ses_instanceID s)) s" using L(4) by (auto simp: fresh_session_def isFullSnapshot_def)
    from checkpoint_deltas[OF L(1) assms(2-4) L(2) assms(5) this False f c] show ?thesis by auto
  qed
  have "ok_meta (ses_meta s')" using D meta_wf[of \<sigma>' "ses_instanceID s" "ses_meta s'"] by (simp add: current_session_def)
  then show ?thesis using c D L(3) checkpoint_streams[OF c]
    by (intro exI[of _ s'] exI[of _ \<sigma>']) (auto simp: live_def passed_def current_session_def)
qed

text \<open>A session between two steps, \<open>n\<close> checkpoints after it started.\<close>

definition ready :: "string \<Rightarrow> int \<Rightarrow> 'e download_handler \<Rightarrow> 'e upload_handler \<Rightarrow> ('m, 'e) session \<Rightarrow> 's \<Rightarrow> bool" where
  "ready iid v dl hu s \<sigma> \<longleftrightarrow> live s \<sigma> \<and> ses_instanceID s = iid \<and> Version (ses_meta s) = v \<and>
     ses_DownloadHandler s = Some dl \<and> ses_UploadHandler s = Some hu"

end

section \<open>One turn of the loop\<close>

text \<open>A guest with more than the runner needs.\<close>

lemma truncated:
  "gg_currentStep (go_guest.truncate G) = gg_currentStep G" "gg_setCurrentStep (go_guest.truncate G) = gg_setCurrentStep G"
  "gg_place (go_guest.truncate G) = gg_place G" "gg_bytes (go_guest.truncate G) = gg_bytes G"
  by (simp_all add: go_guest.truncate_def)

text \<open>\<open>good\<close> is what the worker keeps of its memory between two steps.\<close>

locale live_steps = durable st inv view cas ok_str ok_meta M contents valid
  for st :: "'s store_ops" and inv and view and cas and ok_str and ok_meta
    and M :: "'m memory_api" and contents and valid +
  fixes G :: "'m go_guest" and good :: "'m \<Rightarrow> bool"
  assumes good_valid: "good m \<Longrightarrow> valid m \<and> contents m \<noteq> [] \<and> length (contents m) < page_size * max_pages"
    and good_step: "good m \<Longrightarrow> good (gg_setCurrentStep G v m)"
begin

text \<open>One turn of the loop: a step that hands on \<open>m1\<close>, \<open>s1\<close> and \<open>e1\<close>, and the checkpoint.\<close>

lemma advance:
  fixes s s1 :: "('m, 'e) session"
  assumes H: "h_store H = st" "h_mem H = M" "ok_str (h_wasmHash H)"
    and i: "gg_currentStep G m = of_nat i" "i < length steps" "length steps < 2 ^ 31"
    and r: "ready iid v dl hu s \<sigma>"
    and step: "\<And>k. Call H ((steps ! i) k m) s \<sigma> e = Call H (k None m1) s1 \<sigma> e1"
    and m1: "good m1" "gg_currentStep G m1 = gg_currentStep G m" and s1: "same_core s s1" and j: "j = Suc i"
  shows "\<exists>s2 \<sigma>2. ready iid (v + 1) dl hu s2 \<sigma>2 \<and> same_streams s1 s2 \<and> version_of (i_meta (view \<sigma>2 iid)) = v + 1 \<and>
    (\<forall>out fuel k. Call H (run_loop G out steps (Suc fuel) k m) s \<sigma> e =
      Call H (run_loop G out steps fuel k (gg_setCurrentStep G (of_nat j) m1)) s2 \<sigma>2 e1)"
proof -
  let ?m2 = "gg_setCurrentStep G (of_nat (Suc i)) m1"
  have w: "sint (of_nat i :: i32) = int i"
    using i(2,3) by (simp add: sint_uint unsigned_of_nat take_bit_nat_eq_self signed_take_bit_int_eq_self)
  have inc: "(of_nat i + 1 :: i32) = of_nat (Suc i)" by (simp add: add.commute)
  have m2: "valid ?m2" "contents ?m2 \<noteq> []" "length (contents ?m2) < page_size * max_pages"
    using good_valid[OF good_step[OF m1(1)]] by auto
  have "live s1 \<sigma>" using live_same_core[OF _ s1] r by (simp add: ready_def)
  then obtain s2 \<sigma>2 where C: "checkpoint st M (h_wasmHash H) ?m2 s1 \<sigma> = (Ret (), s2, \<sigma>2)" "live s2 \<sigma>2"
    "ses_instanceID s2 = ses_instanceID s1" "Version (ses_meta s2) = Version (ses_meta s1) + 1"
    "i_meta (view \<sigma>2 (ses_instanceID s1)) = Some (ses_meta s2)"
    using live_checkpoint[OF _ m2 H(3)] by blast
  note S = checkpoint_streams[OF C(1)]
  have "Call H (run_loop G out steps (Suc fuel) k m) s \<sigma> e =
      Call H (run_loop G out steps fuel k ?m2) s2 \<sigma>2 e1" for out fuel k
    using i w H m1(2) C(1)
    by (simp add: step gr_Checkpoint_def inc del: of_nat_Suc)
  then show ?thesis using C(2-5) S s1 r
    by (intro exI[of _ s2] exI[of _ \<sigma>2]) (simp add: same_core_def ready_def same_streams_def version_of_def j del: run_loop.simps of_nat_Suc)
qed

end

end
