(* ===== verification/Engine_Laws.thy ===== *)
theory Engine_Laws
  imports Memory_Engine Json_Text
begin

text \<open>
  Executions as a whole, over any store and a runtime that keeps its contract: which instance the body of
  \<open>ExecuteWithArgs\<close> runs on, what \<open>RunBPMN\<close> makes of a call on a new instance, and the end of an execution whose
  guest panics in \<open>_start\<close> or in its entrypoint.
\<close>

section \<open>The instance that is run\<close>

context wazero_runtime
begin

lemma ExecuteWithArgs_body:
  assumes "select_module st W iid eng \<sigma> = (Inr (meta, c), eng1)" and "instantiable c"
    and "modules (eng_runtime eng1) (modName iid) = None"
    and "ExecuteWithArgs st M W clock ctx iid ep addr cr ps eng \<sigma> e = (res, eng', \<sigma>', e')"
  shows "(\<exists>m' s'. execute_body \<lparr> h_store = st, h_mem = M, h_rt = W, h_clock = clock, h_wasmHash = eng_wasmHash eng1 \<rparr>
      ctx ep ps (init c) (new_session ctx iid addr cr meta None (init c)) \<sigma> e = (res, m', s', \<sigma>', e')) \<and>
    eng_compiledCache eng' = eng_compiledCache eng1 \<and> eng_wasmHash eng' = eng_wasmHash eng1 \<and>
    modules (eng_runtime eng') (modName iid) = None"
proof -
  obtain x r1 where i: "rt_InstantiateModule W c (modName iid) (eng_runtime eng1) = (x, r1)" by fastforce
  have "x = Inr (init c)" using Instantiate_new[OF assms(3,2) i] by simp
  then show ?thesis using assms(1,4) i by (auto simp: ExecuteWithArgs_def Let_def Close_snd split: prod.splits)
qed

text \<open>The call of the entrypoint on the booted and restored instance decides the result.\<close>

lemma ExecuteWithArgs_call:
  assumes "select_module st W iid eng \<sigma> = (Inr (meta, c), eng1)" and "instantiable c"
    and "modules (eng_runtime eng1) (modName iid) = None"
    and "boot W (init c) = Some m0" "restore st M iid \<sigma> m0 Map.empty = (Ret None, m1, f1)"
    and "ep \<noteq> ''_start''" "rt_ExportedFunction W m1 ep = Some f"
    and "Call \<lparr> h_store = st, h_mem = M, h_rt = W, h_clock = clock, h_wasmHash = eng_wasmHash eng1 \<rparr> (f ps m1)
      (new_session ctx iid addr cr meta (Some f1) m1) \<sigma> e = (r, m2, s2, \<sigma>2, e2)"
  shows "\<exists>eng'. ExecuteWithArgs st M W clock ctx iid ep addr cr ps eng \<sigma> e =
    (Ret (classify ctx (ses_crashed s2) r e2), eng', \<sigma>2, e2)"
proof -
  let ?H = "\<lparr> h_store = st, h_mem = M, h_rt = W, h_clock = clock, h_wasmHash = eng_wasmHash eng1 \<rparr>"
    and ?s0 = "new_session ctx iid addr cr meta None (init c)"
  have "run_start ?H (init c) ?s0 \<sigma> e = (None, m0, ?s0, \<sigma>, e)" by (rule run_start_boot) (simp add: assms(4))
  then have X: "execute_body ?H ctx ep ps (init c) ?s0 \<sigma> e = (Ret (classify ctx (ses_crashed s2) r e2), m2, s2, \<sigma>2, e2)"
    using assms(5-8) by (simp add: execute_body_def new_session_def)
  obtain res eng' \<sigma>' e' where E: "ExecuteWithArgs st M W clock ctx iid ep addr cr ps eng \<sigma> e = (res, eng', \<sigma>', e')"
    by (metis prod_cases4)
  show ?thesis using ExecuteWithArgs_body[OF assms(1-3) E] X E by auto
qed

text \<open>\<open>RunBPMN\<close> on an instance that is not alive: boot, restore, and the body.\<close>

lemma RunBPMN_body:
  assumes "select_module st W iid eng \<sigma> = (Inr (meta, c), eng1)" and "instantiable c"
    and "modules (eng_runtime eng1) (modName iid) = None" "eng_activeSessions eng1 iid = None"
    and "boot W (init c) = Some m0" "restore st M iid \<sigma> m0 Map.empty = (Ret None, m1, f1)"
  shows "fst (RunBPMN st M W clock ctx iid ep g i task addr eng \<sigma> e) =
    fst (bpmn_body \<lparr> h_store = st, h_mem = M, h_rt = W, h_clock = clock, h_wasmHash = eng_wasmHash eng1 \<rparr> ctx ep g i task m1
      (new_session ctx iid addr False meta (Some f1) m1) \<sigma> e)"
proof -
  let ?H = "\<lparr> h_store = st, h_mem = M, h_rt = W, h_clock = clock, h_wasmHash = eng_wasmHash eng1 \<rparr>"
  let ?s = "new_session ctx iid addr False meta (Some Map.empty) (init c)"
  obtain x r1 where x: "rt_InstantiateModule W c (modName iid) (eng_runtime eng1) = (x, r1)" by fastforce
  have "x = Inr (init c)" using Instantiate_new[OF assms(3,2) x] by simp
  moreover have "run_start ?H (init c) ?s \<sigma> e = (None, m0, ?s, \<sigma>, e)" using assms(5) by (intro run_start_boot) simp
  moreover have "bpmn_restore st M iid \<sigma> m0 ?s = (Ret None, m1, new_session ctx iid addr False meta (Some f1) m1)"
    using assms(6) by (simp add: bpmn_restore_def new_session_def)
  ultimately show ?thesis using assms(1,3,4) x
    by (simp add: RunBPMN_def Let_def Module bpmn_session_def split: prod.split)
qed

end

text \<open>The body for the entrypoint \<open>execute\<close>, when the exchange buffer takes the inputs.\<close>

lemma bpmn_body_execute:
  assumes "rt_ExportedFunction (h_rt H) m ''get_exchange_buffer_pointer'' = Some gb" "gb [] m = Return m1 (p # ps)"
    and "length g + length i + length task \<le> 1024 * 1024" "write_inputs (h_mem H) (ucast p) g i m1 = (None, m2)"
    and "rt_ExportedFunction (h_rt H) m2 ''execute'' = Some f"
    and "Call H (f [word_of_nat (length g), word_of_nat (length i)] m2) s \<sigma> e = (r, m4, s4, \<sigma>4, e4)"
  shows "fst (bpmn_body H ctx ''execute'' g i task m s \<sigma> e) = Ret (bpmn_result (h_mem H) ctx (ucast p) (ses_crashed s4) r m4 e4)"
  using assms by (simp add: bpmn_body_def bpmn_call_def Let_def)

section \<open>Calls that end at once\<close>

text \<open>A guest whose first host call is a checkpoint that loses the race for the version.\<close>

lemma Call_conflict:
  assumes "fst (st_SaveMetadata (h_store H) ((ses_meta s)\<lparr>WasmHash := h_wasmHash H\<rparr>) \<sigma>) = Inr False"
  shows "\<exists>m' s' \<sigma>'. Call H (Checkpoint m k) s \<sigma> e =
    (Inl (rt_recovered (h_rt H) ''concurrent_execution_detected''), m', s', \<sigma>', e) \<and> ses_crashed s' = ses_crashed s"
  using assms by (cases "st_SaveMetadata (h_store H) ((ses_meta s)\<lparr>WasmHash := h_wasmHash H\<rparr>) \<sigma>") (auto simp: checkpoint_def Let_def)

text \<open>\<open>ExecuteWithArgs\<close> when \<open>_start\<close> ends with an error that is not the exit code 0.\<close>

lemma execute_body_start_fails:
  assumes "ep \<noteq> ''_start''" "rt_ExportedFunction (h_rt H) m ''_start'' = Some startFunc"
    and "Call H (startFunc [] m) s \<sigma> e = (Inl err, m1, s1, \<sigma>1, e1)" "as_exit_code err \<noteq> Some 0"
  shows "execute_body H ctx ep ps m s \<sigma> e = (Ret (False, Some (Wrap ''_start failed'' err)), m1, s1, \<sigma>1, e1)"
  using assms by (simp add: execute_body_def run_start_def)

text \<open>An incremental checkpoint of a session without a map of hashes: the swap is done, then the panic.\<close>

lemma checkpoint_nil_hashes:
  assumes "linear_memory M contents valid" "valid m" "contents m \<noteq> []" "length (contents m) < page_size * max_pages"
    and "ms_meta \<sigma> (InstanceID (ses_meta s)) = Some (ses_meta s)" "Version (ses_meta s) > 0"
    and "\<not> isFullSnapshot (Version (ses_meta s) + 1)" "ses_pageHashes s = None"
  shows "\<exists>s'. checkpoint (memory_ops cd) M h m s \<sigma> = (Panic nil_map_panic, s', \<sigma>\<lparr>ms_meta :=
      (ms_meta \<sigma>)(InstanceID (ses_meta s) \<mapsto> (ses_meta s)\<lparr>WasmHash := h, Version := Version (ses_meta s) + 1\<rparr>)\<rparr>)"
proof -
  have rd: "mem_Read M m 0 (mem_Size M m) = Some (contents m)" "mem_Size M m \<noteq> 0"
    using linear_memory.Read_all[OF assms(1,2,4)] linear_memory.Size_zero_iff[OF assms(1,2,4)] assms(3) by simp_all
  have "0 < num_blocks (contents m)"
    using length_num_blocks[OF linear_memory.pages[OF assms(1,2)]] assms(3) by (metis gr0I length_0_conv mult_0_right)
  then obtain n where "[0..<num_blocks (contents m)] = 0 # [Suc 0..<n]" by (metis upt_conv_Cons)
  then have d: "dirty_loop (contents m) [0..<num_blocks (contents m)] (None, []) = None" by (simp add: Let_def)
  show ?thesis using assms(5-8) rd d
    by (simp add: checkpoint_def store_simps ms_SaveMetadata_eq version_cas_def Let_def write_memory_def write_deltas_def)
qed

section \<open>Example guests and stores\<close>

text \<open>A guest that checkpoints in \<open>_start\<close>; a BPMN core that exits or checkpoints; a store whose version swap is always lost.\<close>

definition start_exports :: "string \<Rightarrow> (u64 list \<Rightarrow> bytes \<Rightarrow> bytes guest) option" where
  "start_exports n = (if n = ''_start'' then Some (\<lambda>_ m. Checkpoint m (\<lambda>m. Return m [])) else demo_exports n)"

definition bpmn_exports :: "bool \<Rightarrow> string \<Rightarrow> (u64 list \<Rightarrow> bytes \<Rightarrow> bytes guest) option" where
  "bpmn_exports exits n =
     (if n = ''get_exchange_buffer_pointer'' then Some (\<lambda>_ m. Return m [16])
      else if n = ''execute'' then Some (\<lambda>_ m. if exits then ProcExit m 0 else Checkpoint m (\<lambda>m. Return m [0]))
      else None)"

definition overtaken :: "memory_store store_ops" where
  "overtaken = (memory_ops compact_codec)\<lparr>st_SaveMetadata := \<lambda>meta \<sigma>. (Inr False, meta, \<sigma>)\<rparr>"

end
