(* ===== verification/Failed_Step.thy ===== *)
theory Failed_Step
  imports List_Guest Live_Steps Engine_Laws
begin

text \<open>
  The turns that one call of \<open>Run\<close> makes: a step without an error followed by a checkpoint that goes through, and
  what the call returns when a later step fails. A worker whose second step fails, over byte lists.
\<close>

section \<open>Turns of the loop\<close>

text \<open>\<open>turns H G steps n c c'\<close>: \<open>n\<close> steps succeed one after another, each with its checkpoint.\<close>

inductive turns :: "('c, 'm, 'r, 's, 'e) host \<Rightarrow> 'm go_guest \<Rightarrow> 'm step list \<Rightarrow> nat \<Rightarrow>
    ('m, 's, 'e) call_state \<Rightarrow> ('m, 's, 'e) call_state \<Rightarrow> bool" for H G steps where
  no_turn: "turns H G steps 0 c c"
| turn: "turns H G steps (Suc n) (m, s, \<sigma>, e) c"
    if "sint (gg_currentStep G m) = int j" "j < length steps"
      "\<forall>k. Call H ((steps ! j) k m) s \<sigma> e = Call H (k None m1) s1 \<sigma>1 e1"
      "m2 = gg_setCurrentStep G (gg_currentStep G m1 + 1) m1"
      "checkpoint (h_store H) (h_mem H) (h_wasmHash H) m2 s1 \<sigma>1 = (Ret (), s2, \<sigma>2)"
      "turns H G steps n (m2, s2, \<sigma>2, e1) c"

inductive_cases turns_SucE: "turns H G steps (Suc n) (m, s, \<sigma>, e) c"

lemma run_loop_turns:
  assumes "turns H G steps n c c'"
  shows "c = (m, s, \<sigma>, e) \<Longrightarrow> c' = (m', s', \<sigma>', e') \<Longrightarrow>
    Call H (run_loop G out steps (n + fuel) k m) s \<sigma> e = Call H (run_loop G out steps fuel k m') s' \<sigma>' e'"
  using assms
proof (induction arbitrary: m s \<sigma> e rule: turns.induct)
  case (turn m0 j s0 \<sigma>0 e0 m1 s1 \<sigma>1 e1 m2 s2 \<sigma>2 n c)
  then show ?case by (simp add: gr_Checkpoint_def)
qed simp

text \<open>A failing step after some turns: \<open>Run\<close> returns -1, with everything as that step left it.\<close>

lemma run_fails:
  assumes "turns H G (wf_steps w) n (m, s, \<sigma>, e) (m1, s1, \<sigma>1, e1)" "n \<le> length (wf_steps w)"
    and "sint (gg_currentStep G m1) = int j" "j < length (wf_steps w)"
    and "\<And>k. Call H ((wf_steps w ! j) k m1) s1 \<sigma>1 e1 = Call H (k (Some err) m2) s2 \<sigma>2 e2"
  shows "Call H (exported_run G w params m) s \<sigma> e = (Inr [ucast (-1 :: i32)], m2, s2, \<sigma>2, e2)"
proof -
  obtain l where l: "Suc (length (wf_steps w)) = n + Suc l"
    using assms(2) by (metis add_Suc_right le_add_diff_inverse)
  show ?thesis unfolding exported_run_def wf_Run_def gr_Run_def l run_loop_turns[OF assms(1) refl refl]
    using assms(3,4) by (simp add: assms(5))
qed

section \<open>A worker whose second step fails\<close>

definition half_workflow :: "bytes workflow" where
  "half_workflow = wf_Step (\<lambda>k. k (Some (Err ''boom''))) (wf_Step (local_step (\<lambda>m. m[8192 := 7])) NewWorkflow)"

definition half_exports :: "string \<Rightarrow> (u64 list \<Rightarrow> bytes \<Rightarrow> bytes guest) option" where
  "half_exports n = (if n = ''run'' then Some (exported_run list_guest half_workflow) else None)"

lemma half_boot: "boot (list_runtime m half_exports) m' = Some m'"
  by (simp add: boot_def list_runtime_def half_exports_def)

lemma half_run: "rt_ExportedFunction (list_runtime m half_exports) m' ''run'' = Some (exported_run list_guest half_workflow)"
  by (simp add: list_runtime_def half_exports_def)

text \<open>The checkpoint after its first step goes through.\<close>

lemma half_checkpoint:
  "\<exists>s2 \<sigma>2. checkpoint (memory_ops cd) list_memory ''h1'' (write32 0 1 ((one_page 0)[8192 := 7]))
      (new_session Background ''i'' [] False (new_meta ''i'' ''h1'') (Some Map.empty) (one_page 0) :: (bytes, unit) session) NewMemorySnapshotStore =
      (Ret (), s2, \<sigma>2) \<and> version_of (ms_meta \<sigma>2 ''i'') = 1"
proof -
  let ?s = "new_session Background ''i'' [] False (new_meta ''i'' ''h1'') (Some Map.empty) (one_page 0) :: (bytes, unit) session"
    and ?m = "write32 0 1 ((one_page 0)[8192 := 7])"
  have new: "ms_view NewMemorySnapshotStore ''i'' = empty_inst"
    by (simp add: ms_view_def NewMemorySnapshotStore_def empty_inst_def ms_oplog_of_def)
  note D = mem_engine.durable_axioms[of cd]
  have "durable.live ms_inv ms_view (\<lambda>_. True) ?s NewMemorySnapshotStore"
    by (simp add: durable.live_def[OF D] fresh_session_def new_session_def new new_meta_def, simp add: empty_inst_def)
  moreover have "list_memory_valid ?m" using one_page_valid[of 0] by (simp add: list_memory_valid_def)
  moreover have "?m \<noteq> []" using one_page_ne[of 0] by (metis length_0_conv length_list_update length_write32)
  ultimately obtain s2 \<sigma>2 where C: "checkpoint (memory_ops cd) list_memory ''h1'' ?m ?s NewMemorySnapshotStore = (Ret (), s2, \<sigma>2)"
    and v: "Version (ses_meta s2) = Version (ses_meta ?s) + 1" "i_meta (ms_view \<sigma>2 (ses_instanceID ?s)) = Some (ses_meta s2)"
    using durable.live_checkpoint[OF D, of ?s NewMemorySnapshotStore ?m "''h1''"] by auto
  from v have "version_of (ms_meta \<sigma>2 ''i'') = 1" by (simp add: new_session_def new_meta_def version_of_def)
  with C show ?thesis by blast
qed

end
