(* ===== verification/Guest_Properties.thy ===== *)
theory Guest_Properties
  imports List_Guest Json_Text Failed_Step
begin

text \<open>
  The properties of the guest library and of the interface between guest and host, each with an
  instance over the byte-list guest.
\<close>

section \<open>Workflows\<close>

text \<open>
  C32. A workflow survives a crash of its host at every single checkpoint. A new instance of a worker
  that runs a workflow of \<open>n\<close> steps over its memory is executed \<open>n\<close> times over the in-memory store, each
  time with the simulated crash switched on. Every one of these executions crashes; together they leave
  in the store the memory in which every step has been applied exactly once, in order, and any further
  execution returns success and changes nothing.
\<close>

theorem workflow_survives_every_crash:
  assumes "workflow_program M contents valid N G fs" "wazero_runtime W modules instantiable init"
    and "ms_inv \<sigma>" "ms_view \<sigma> iid = empty_inst"
    and "instantiable (eng_compiled eng)" "modules (eng_runtime eng) (modName iid) = None"
    and "boot W (init (eng_compiled eng)) = Some m0" "valid m0" "N \<le> length (contents m0)" "gg_currentStep G m0 = 0"
    and "\<And>m. rt_ExportedFunction W m entrypoint = Some (exported_run G \<lparr> wf_steps = map local_step fs \<rparr>)"
    and "entrypoint \<noteq> ''_start''" "0 < N" "0 < length fs"
    and "length (contents (after_steps G fs m0 (length fs))) < page_size * max_pages"
    and "growable M contents valid (length (contents (after_steps G fs m0 (length fs))))"
    and "\<And>i. i < length fs \<Longrightarrow> no_collision (contents (after_steps G fs m0 i)) (contents (after_steps G fs m0 (Suc i)))"
    and "ctx_Err ctx e = None"
  shows "\<exists>eng' \<sigma>'. runs (ExecuteWithArgs (memory_ops cd) M W clock ctx iid entrypoint addr True params) (length fs) eng \<sigma> e =
      (replicate (length fs) (Ret (True, Some (rt_recovered W ''simulated_host_crash''))), eng', \<sigma>', e) \<and>
    durable_image (ms_view \<sigma>' iid) (contents (after_steps G fs m0 (length fs))) \<and>
    (\<forall>crash params2. \<exists>eng2. ExecuteWithArgs (memory_ops cd) M W clock ctx iid entrypoint addr crash params2 eng' \<sigma>' e =
      (Ret (False, None), eng2, \<sigma>', e))"
proof -
  note D = mem_durable_workflow[OF assms(1,2), of cd]
  let ?exec = "ExecuteWithArgs (memory_ops cd) M W clock ctx iid entrypoint addr"
  have new: "i_meta (ms_view \<sigma> iid) = None" "i_snapshot (ms_view \<sigma> iid) = None"
    "i_deltas (ms_view \<sigma> iid) = Map.empty" using assms(4) by (simp_all add: empty_inst_def)
  have m0: "valid m0 \<and> N \<le> length (contents m0) \<and> gg_currentStep G m0 = 0" using assms(8-10) by simp
  obtain eng' \<sigma>' where R: "runs (?exec True params) (length fs) eng \<sigma> e =
      (replicate (length fs) (Ret (True, Some (rt_recovered W ''simulated_host_crash''))), eng', \<sigma>', e)"
    and at: "durable_workflow.crashed_at ms_inv ms_view contents modules G fs iid m0 eng (length fs) eng' \<sigma>'"
    using durable_workflow.crashes_everywhere[OF D assms(3) new TrueI TrueI assms(5,7) m0 assms(6,11-13,15-18) assms(14) order_refl]
    by blast
  have "\<exists>eng2. ?exec crash params2 eng' \<sigma>' e = (Ret (False, None), eng2, \<sigma>', e)" for crash params2
  proof -
    obtain res eng2 \<sigma>2 e2 where x: "?exec crash params2 eng' \<sigma>' e = (res, eng2, \<sigma>2, e2)" by (metis prod_cases4)
    show ?thesis using durable_workflow.finishes_after_crashes[OF D assms(14) at assms(5,7) m0 assms(11,12,15,16,18) x] x by simp
  qed
  moreover have "durable_image (ms_view \<sigma>' iid) (contents (after_steps G fs m0 (length fs)))"
    using at by (simp add: durable_workflow.crashed_at_def[OF D])
  ultimately show ?thesis using R by blast
qed

theorem workflow_survives_every_crash_witness:
  "\<exists>eng' \<sigma>' eng2.
     runs (ExecuteWithArgs (memory_ops compact_codec) list_memory (list_runtime (one_page 0) poke_exports) demo_clock
       Background ''i'' ''run'' [] True []) 2 demo_engine NewMemorySnapshotStore () =
       (replicate 2 (Ret (True, Some (Err ''simulated_host_crash (recovered by wazero)''))), eng', \<sigma>', ()) \<and>
     durable_image (ms_view \<sigma>' ''i'') ((one_page 0)[8192 := 7, 0 := 1, 8192 := 9, 0 := 2]) \<and>
     ExecuteWithArgs (memory_ops compact_codec) list_memory (list_runtime (one_page 0) poke_exports) demo_clock
       Background ''i'' ''run'' [] False [] eng' \<sigma>' () = (Ret (False, None), eng2, \<sigma>', ())"
proof -
  let ?W = "list_runtime (one_page 0) poke_exports"
  have len: "length poke_steps = 2" by (simp add: poke_steps_def)
  have a0: "after_steps list_guest poke_steps (one_page 0) 0 = one_page 0" by simp
  have sha: "no_collision (after_steps list_guest poke_steps (one_page 0) i) (after_steps list_guest poke_steps (one_page 0) (Suc i))"
    if "i < length poke_steps" for i
    using that len poke_states a0 no_collision_update2[of 8192 "one_page 0" 0 7 1]
      no_collision_update2[of 8192 "(one_page 0)[8192 := 7, 0 := 1]" 0 9 2]
    by (cases i) (auto simp: numeral_2_eq_2 less_Suc_eq simp del: after_steps.simps)
  have "ms_view NewMemorySnapshotStore ''i'' = empty_inst"
    by (simp add: ms_view_def NewMemorySnapshotStore_def empty_inst_def ms_oplog_of_def)
  note W = workflow_survives_every_crash[OF poke_flow.workflow_program_axioms list_rt.wazero_runtime_axioms ms_inv_init this
      TrueI _ poke_boot one_page_valid[of 0] _ _ poke_run, unfolded len poke_states, OF _ _ _ _ _ _ _ _ sha,
      where eng = demo_engine and ctx = Background and e = "()" and cd = compact_codec and clock = demo_clock and addr = "[]" and params = "[]"]
  have "growable list_memory (\<lambda>m. m) list_memory_valid 65536" by (rule list_memory_growable) simp
  moreover have "rt_recovered ?W ''simulated_host_crash'' = Err ''simulated_host_crash (recovered by wazero)''"
    by (simp add: list_runtime_def)
  ultimately show ?thesis using W by (auto simp: len read32_one_page demo_engine_def Background_def)
qed

text \<open>
  C33. The loop of \<open>Run\<close> ends: if no step touches \<open>currentStep\<close>, one call of \<open>Run\<close> takes at most as many
  steps as the workflow has. With any fuel above that number the loop gives the result of \<open>Run\<close>,
  whatever would happen when the fuel ran out.
\<close>

theorem gr_Run_terminates:
  assumes "\<forall>st\<in>set steps. keeps_step H G good st" "length steps < 2 ^ 31"
    and "\<And>v m. good m \<Longrightarrow> good (gg_setCurrentStep G v m) \<and> gg_currentStep G (gg_setCurrentStep G v m) = v"
    and "good m" "length steps < fuel"
  shows "Call H (run_loop G out steps fuel k m) s \<sigma> e = Call H (gr_Run G steps k m) s \<sigma> e"
proof (cases "0 \<le> sint (gg_currentStep G m)")
  case True
  then have "int (length steps) - sint (gg_currentStep G m) < int fuel"
    "int (length steps) - sint (gg_currentStep G m) < int (Suc (length steps))" using assms(5) by linarith+
  then show ?thesis unfolding gr_Run_def using assms(5) by (intro run_loop_fuel[OF assms(1-4)]) auto
next
  case False
  obtain f where "fuel = Suc f" using assms(5) by (cases fuel) auto
  then show ?thesis using False by (simp add: gr_Run_def)
qed

theorem gr_Run_terminates_witness:
  "\<exists>H :: (bytes, bytes, string \<rightharpoonup> bytes, memory_store, unit) host. Call H (run_loop list_guest (\<lambda>m. Trap m ''never'') [local_step (\<lambda>m. m[8192 := 7]), \<lambda>k. gr_GetTime (\<lambda>t. k None)] 7
       (\<lambda>r m1. Return m1 [ucast r]) (one_page 0)) (demo_session (new_meta ''i'' ''h1'') Map.empty) NewMemorySnapshotStore () =
     Call H (gr_Run list_guest [local_step (\<lambda>m. m[8192 := 7]), \<lambda>k. gr_GetTime (\<lambda>t. k None)]
       (\<lambda>r m1. Return m1 [ucast r]) (one_page 0)) (demo_session (new_meta ''i'' ''h1'') Map.empty) NewMemorySnapshotStore ()"
proof -
  let ?H = "\<lparr> h_store = memory_ops compact_codec, h_mem = list_memory, h_rt = list_runtime (one_page 0) poke_exports,
    h_clock = demo_clock, h_wasmHash = ''h1'' \<rparr>"
  let ?steps = "[local_step (\<lambda>m. m[8192 := 7]), \<lambda>k. gr_GetTime (\<lambda>t. k None)] :: bytes step list"
  have "keeps_step ?H list_guest (\<lambda>m. 4 \<le> length m) (local_step (\<lambda>m. m[8192 := 7]))"
    by (simp add: keeps_step_def local_step_def)
  then have "\<forall>st\<in>set ?steps. keeps_step ?H list_guest (\<lambda>m. 4 \<le> length m) st" by (simp add: keeps_step_time)
  from gr_Run_terminates[OF this] show ?thesis by (intro exI[of _ ?H]) simp
qed

text \<open>
  C34. A failed step is reported as success. In an execution of any instance over any store, some steps of the
  workflow succeed, each with its checkpoint, and then step \<open>j\<close> returns an error, possibly after host calls of its
  own. \<open>Run\<close> returns -1 to its caller in the worker; the engine does not look at the result of the exported
  function, so the execution returns no error and no crash, and the store is left as the failing step found it
  and changed it.
\<close>

theorem failed_step_is_success:
  assumes "wazero_runtime W modules instantiable init"
    and "select_module st W iid eng \<sigma> = (Inr (meta, c), eng1)" "instantiable c" "modules (eng_runtime eng1) (modName iid) = None"
    and "boot W (init c) = Some m0" "restore st M iid \<sigma> m0 Map.empty = (Ret None, m1, f1)"
    and "entrypoint \<noteq> ''_start''" "rt_ExportedFunction W m1 entrypoint = Some (exported_run G w)"
    and "H = \<lparr> h_store = st, h_mem = M, h_rt = W, h_clock = clock, h_wasmHash = eng_wasmHash eng1 \<rparr>"
    and "s = new_session ctx iid addr crash meta (Some f1) m1"
    and "turns H G (wf_steps w) n (m1, s, \<sigma>, e) (m2, s2, \<sigma>2, e2)" "n \<le> length (wf_steps w)"
    and "sint (gg_currentStep G m2) = int j" "j < length (wf_steps w)"
    and "\<And>k. Call H ((wf_steps w ! j) k m2) s2 \<sigma>2 e2 = Call H (k (Some err) m3) s3 \<sigma>3 e3"
    and "ctx_Err ctx e3 = None"
  shows "Call H (exported_run G w params m1) s \<sigma> e = (Inr [ucast (-1 :: i32)], m3, s3, \<sigma>3, e3) \<and>
    (\<exists>eng'. ExecuteWithArgs st M W clock ctx iid entrypoint addr crash params eng \<sigma> e = (Ret (False, None), eng', \<sigma>3, e3))"
proof -
  have R: "Call H (exported_run G w params m1) s \<sigma> e = (Inr [ucast (-1 :: i32)], m3, s3, \<sigma>3, e3)"
    using assms(11-15) by (rule run_fails)
  show ?thesis
    using R wazero_runtime.ExecuteWithArgs_call[OF assms(1-8) R[unfolded assms(9,10)]] assms(16) by (simp add: classify_def)
qed

theorem failed_step_is_success_witness:
  "\<exists>eng' \<sigma>'. ExecuteWithArgs (memory_ops compact_codec) list_memory (list_runtime (one_page 0) half_exports) demo_clock
     Background ''i'' ''run'' [] False [] demo_engine NewMemorySnapshotStore () = (Ret (False, None), eng', \<sigma>', ()) \<and>
     version_of (ms_meta \<sigma>' ''i'') = 1"
proof -
  let ?W = "list_runtime (one_page 0) half_exports" and ?meta = "new_meta ''i'' ''h1''" and ?st = "memory_ops compact_codec"
  let ?H = "\<lparr> h_store = ?st, h_mem = list_memory, h_rt = ?W, h_clock = demo_clock, h_wasmHash = eng_wasmHash demo_engine \<rparr>"
  let ?s = "new_session Background ''i'' [] False ?meta (Some Map.empty) (one_page 0) :: (bytes, unit) session"
  let ?m2 = "write32 0 1 ((one_page 0)[8192 := 7])"
  obtain s2 \<sigma>2 where C: "checkpoint ?st list_memory ''h1'' ?m2 ?s NewMemorySnapshotStore = (Ret (), s2, \<sigma>2)"
    "version_of (ms_meta \<sigma>2 ''i'') = 1"
    using half_checkpoint by blast
  have T: "turns ?H list_guest (wf_steps half_workflow) 1 (one_page 0, ?s, NewMemorySnapshotStore, ()) (?m2, s2, \<sigma>2, ())"
    using C(1) unfolding One_nat_def
    by (intro turns.turn[OF _ _ _ _ _ turns.no_turn, where j = 0 and ?m1.0 = "(one_page 0)[8192 := 7]"])
      (simp_all add: half_workflow_def wf_Step_def NewWorkflow_def local_step_def read32_one_page demo_engine_def)
  have "\<exists>eng'. ExecuteWithArgs ?st list_memory ?W demo_clock Background ''i'' ''run'' [] False [] demo_engine NewMemorySnapshotStore () =
      (Ret (False, None), eng', \<sigma>2, ())"
    by (rule failed_step_is_success[where j = 1 and err = "Err ''boom''" and ?m3.0 = ?m2 and ?s3.0 = s2,
        OF list_rt.wazero_runtime_axioms _ TrueI _ half_boot _ _ half_run refl refl T, THEN conjunct2])
      (simp_all add: half_workflow_def wf_Step_def NewWorkflow_def demo_engine_def Background_def select_module_def store_simps
        ms_LoadMetadata_def NewMemorySnapshotStore_def restore_def restore_snapshot_def restore_deltas_def ms_Load_def ms_LoadDeltas_def)
  then show ?thesis using C(2) by blast
qed

section \<open>Buffers of the guest\<close>

text \<open>
  C35. The host never writes outside the buffer a guest passed to it. \<open>host_call_api\<close> changes at most the
  \<open>respMaxLen\<close> bytes at \<open>respPtr\<close>, and a count it returns is at most \<open>respMaxLen\<close>; \<open>stream_data\<close> changes
  at most the \<open>length\<close> bytes at \<open>ptr\<close> when it reads from the stream, and nothing when it writes to it, and a
  count it returns is at most \<open>length\<close> (zero, when the length is negative).
  The size of the memory stays. This holds for every pointer and length, also negative ones and ones
  outside the memory, and for every behaviour of the store and the handlers.
\<close>

theorem host_stays_in_buffer:
  assumes "linear_memory M contents valid" "valid m"
    and "host_call_api st M m apiPtr apiLen reqPtr reqLen respPtr respMaxLen s \<sigma> e = (r, s1, \<sigma>1, e1)"
    and "stream_data M m direction ptr len s e = (r2, s2, e2)"
  shows "valid (ses_memory s1) \<and> same_outside (unat respPtr) (nat (sint respMaxLen)) (contents m) (contents (ses_memory s1)) \<and>
    (r = Panic slice_panic \<or> r = Ret (-1) \<or> r = Ret (-2) \<or> (\<exists>n. r = Ret n \<and> 0 \<le> sint n \<and> sint n \<le> sint respMaxLen)) \<and>
    valid (ses_memory s2) \<and>
    same_outside (unat ptr) (if direction = 0 then nat (sint len) else 0) (contents m) (contents (ses_memory s2)) \<and>
    (r2 = Panic slice_panic \<or> r2 = Ret (-1) \<or> (\<exists>n. r2 = Ret n \<and> 0 \<le> sint n \<and> sint n \<le> max 0 (sint len)))"
  using linear_memory.host_call_api_confined[OF assms(1-3)] linear_memory.stream_data_confined[OF assms(1,2,4)] by blast

theorem host_stays_in_buffer_witness:
  "\<exists>s1 \<sigma>1 s2. host_call_api (memory_ops compact_codec) list_memory (one_page 0) 0 0 0 0 16 8
      (new_session (WithApiHandler Background (Some (\<lambda>nm req e. (Inr (Some [7]), e + 1)))) ''i'' [] False
         (new_meta ''i'' ''h1'') (Some Map.empty) (one_page 0)) NewMemorySnapshotStore (0::nat) = (Ret 1, s1, \<sigma>1, 1) \<and>
    same_outside 16 8 (one_page 0) (ses_memory s1) \<and>
    stream_data list_memory (one_page 0) 0 (-4) 8
      (new_session (WithApiHandler Background (Some (\<lambda>nm req e. (Inr (Some [7]), e + 1)))) ''i'' [] False
         (new_meta ''i'' ''h1'') (Some Map.empty) (one_page 0)) (0::nat) = (Ret (-1), s2, 0) \<and> length (ses_memory s2) = 65536"
proof -
  let ?s = "new_session (WithApiHandler Background (Some (\<lambda>nm req e. (Inr (Some [7]), e + (1::nat))))) ''i'' [] False
         (new_meta ''i'' ''h1'') (Some Map.empty) (one_page 0)"
  have rd: "mem_Read list_memory (one_page 0) 0 (mem_Size list_memory (one_page 0)) = Some (one_page 0)"
    by (rule lm.Read_all) simp_all
  obtain s1 \<sigma>1 where x: "host_call_api (memory_ops compact_codec) list_memory (one_page 0) 0 0 0 0 16 8 ?s
      NewMemorySnapshotStore 0 = (Ret 1, s1, \<sigma>1, 1)"
    by (simp add: host_call_api_def rd out_of_bounds_def slice32_def go_slice_def call_logged_def store_simps
        ms_LoadOplog_def ms_SaveOplog_def NewMemorySnapshotStore_def find_entry_def perform_def deliver_def new_session_def
        WithApiHandler_def getApiHandler_def Let_def)
  obtain s2 where y: "stream_data list_memory (one_page 0) 0 (-4) 8 ?s 0 = (Ret (-1), s2, 0)"
    by (simp add: stream_data_def handleDownload_def rd out_of_bounds_def new_session_def Let_def)
  from host_stays_in_buffer[OF lm.linear_memory_axioms one_page_valid x y] show ?thesis
    using x y by (auto simp: same_outside_def)
qed

text \<open>
  C36. \<open>CallAPI\<close> reaches the handler once. On its first run the call hands the name and the request to the
  handler, logs the response, and returns it to the guest, or the error that the buffer is too small when it
  is longer than 64 KiB. Any later session of the instance that makes the call again on the same memory and
  at the same place of its call sequence, with any handler and environment, gets the same answer and the
  same memory, and its environment is not touched.
\<close>

theorem CallAPI_reaches_handler_once:
  fixes s :: "('m, 'e) session" and H :: "('c, 'm, 'r, memory_store, 'e) host"
  assumes "linear_memory M contents valid" "ms_inv \<sigma>" "h_store H = memory_ops cd" "h_mem H = M"
    and "call_slices G apiName request m = (apiPtr, reqPtr, respPtr, m3)" "valid m3" "length (contents m3) < page_size * max_pages"
    and "holds_at (contents m3) apiPtr (bytes_of_string apiName)" "holds_at (contents m3) reqPtr request"
    and "unat respPtr + 65536 \<le> length (contents m3)"
    and "\<And>m n. valid m \<Longrightarrow> gg_bytes G respPtr n m = go_slice (unat respPtr) n (contents m)"
    and "find_entry (ses_callIndex s + 1) apiName (ms_oplog_of \<sigma> (ses_instanceID s)) = None"
    and "ses_ApiHandler s = Some h" "h apiName request e = (Inr (Some resp), e1)"
  shows "\<exists>m4 \<sigma>1. ms_oplog_of \<sigma>1 (ses_instanceID s) =
      ms_oplog_of \<sigma> (ses_instanceID s) @ [mk_entry (ses_callIndex s + 1) apiName request resp] \<and>
    (\<forall>k. Call H (CallAPI G apiName request k m) s \<sigma> e =
       Call H (k (api_response resp) m4) (s\<lparr>ses_callIndex := ses_callIndex s + 1, ses_memory := m4\<rparr>) \<sigma>1 e1) \<and>
    (\<forall>k (H2 :: ('c, 'm, 'r, memory_store, 'e) host) (s2 :: ('m, 'e) session) e2. h_store H2 = memory_ops cd \<and> h_mem H2 = M \<and>
         ses_instanceID s2 = ses_instanceID s \<and> ses_callIndex s2 = ses_callIndex s \<longrightarrow>
       Call H2 (CallAPI G apiName request k m) s2 \<sigma>1 e2 =
       Call H2 (k (api_response resp) m4) (s2\<lparr>ses_callIndex := ses_callIndex s + 1, ses_memory := m4\<rparr>) \<sigma>1 e2)"
proof -
  have v: "i_oplog (ms_view \<tau> i) = ms_oplog_of \<tau> i" for \<tau> i by (simp add: ms_view_def)
  have p: "perform (ses_ApiHandler s) apiName request (ses_callIndex s + 1) e = (Some resp, e1)"
    using assms(13,14) by (simp add: perform_def)
  have n: "find_entry (ses_callIndex s + 1) apiName (i_oplog (ms_view \<sigma> (ses_instanceID s))) = None" using assms(12) by (simp add: v)
  from durable.CallAPI_once[OF mem_durable[OF assms(1), of cd] assms(2) TrueI assms(3-11) n p]
  obtain m4 \<sigma>1 where R: "ms_view \<sigma>1 = (ms_view \<sigma>)(ses_instanceID s := ms_view \<sigma> (ses_instanceID s)
      \<lparr>i_oplog := i_oplog (ms_view \<sigma> (ses_instanceID s)) @ [mk_entry (ses_callIndex s + 1) apiName request resp]\<rparr>)"
    "\<forall>k. Call H (CallAPI G apiName request k m) s \<sigma> e =
       Call H (k (api_response resp) m4) (s\<lparr>ses_callIndex := ses_callIndex s + 1, ses_memory := m4\<rparr>) \<sigma>1 e1"
    "\<forall>k (H2 :: ('c, 'm, 'r, memory_store, 'e) host) (s2 :: ('m, 'e) session) e2. h_store H2 = memory_ops cd \<and> h_mem H2 = M \<and>
         ses_instanceID s2 = ses_instanceID s \<and> ses_callIndex s2 = ses_callIndex s \<longrightarrow>
       Call H2 (CallAPI G apiName request k m) s2 \<sigma>1 e2 =
       Call H2 (k (api_response resp) m4) (s2\<lparr>ses_callIndex := ses_callIndex s + 1, ses_memory := m4\<rparr>) \<sigma>1 e2"
    by blast
  have "ms_oplog_of \<sigma>1 (ses_instanceID s) = ms_oplog_of \<sigma> (ses_instanceID s) @ [mk_entry (ses_callIndex s + 1) apiName request resp]"
    using R(1) v[of \<sigma>1 "ses_instanceID s"] v[of \<sigma> "ses_instanceID s"] by (metis fun_upd_same inst.select_convs inst.update_convs inst.surjective)
  then show ?thesis using R(2,3) by blast
qed

theorem CallAPI_reaches_handler_once_witness:
  "\<exists>(H :: (bytes, bytes, string \<rightharpoonup> bytes, memory_store, nat) host) m4 \<sigma>1 s1 s3.
     Call H (CallAPI list_guest ''pay'' [1, 2] (\<lambda>r m. if r = Inr [7] then Return m [] else Trap m ''wrong'') (one_page 0))
      (new_session (WithApiHandler Background (Some (\<lambda>nm req e. (Inr (Some [7]), e + 1)))) ''i'' [] False
         (new_meta ''i'' ''h1'') (Some Map.empty) (one_page 0)) NewMemorySnapshotStore 0 = (Inr [], m4, s1, \<sigma>1, 1) \<and>
     Call H (CallAPI list_guest ''pay'' [1, 2] (\<lambda>r m. if r = Inr [7] then Return m [] else Trap m ''wrong'') (one_page 0))
      (new_session Background ''i'' [] False (new_meta ''i'' ''h1'') (Some Map.empty) (one_page 0)) \<sigma>1 5 =
      (Inr [], m4, s3, \<sigma>1, 5)"
proof -
  let ?H = "\<lparr> h_store = memory_ops compact_codec, h_mem = list_memory, h_rt = list_runtime (one_page 0) poke_exports,
    h_clock = \<lambda>e :: nat. (42, e), h_wasmHash = ''h1'' \<rparr>"
  let ?s = "new_session (WithApiHandler Background (Some (\<lambda>nm req e. (Inr (Some [7]), e + (1::nat))))) ''i'' [] False
         (new_meta ''i'' ''h1'') (Some Map.empty) (one_page 0)"
  let ?s2 = "new_session Background ''i'' [] False (new_meta ''i'' ''h1'') (Some Map.empty) (one_page 0) :: (bytes, nat) session"
  let ?n = "page_pad (bytes_of_string ''pay'')" and ?r = "page_pad [1, 2]" and ?b = "page_pad (replicate 65536 0)"
  have l: "length ?n = 65536" "length ?r = 65536" "length ?b = 65536"
    by (rule length_page_pad_one; simp)+
  have sl: "call_slices list_guest ''pay'' [1, 2] (one_page 0) = (65536, 131072, 196608, one_page 0 @ ?n @ ?r @ ?b)"
    using l by (simp add: call_slices_def place_nonempty_def bytes_of_string_def)
  have n: "holds_at (one_page 0 @ ?n @ ?r @ ?b) 65536 (bytes_of_string ''pay'')"
    using holds_at_page[of "one_page 0" "bytes_of_string ''pay''" "?r @ ?b"] by simp
  have r: "holds_at (one_page 0 @ ?n @ ?r @ ?b) 131072 [1, 2]"
    using holds_at_page[of "one_page 0 @ ?n" "[1, 2]" ?b] l by simp
  have v: "list_memory_valid (one_page 0 @ ?n @ ?r @ ?b)" using l by (simp add: list_memory_valid_def)
  have s: "ses_callIndex ?s = 0" "ses_instanceID ?s = ''i''" "ses_callIndex ?s2 = 0" "ses_instanceID ?s2 = ''i''"
    "ses_ApiHandler ?s = Some (\<lambda>nm req e. (Inr (Some [7]), e + 1))"
    by (simp_all add: new_session_def WithApiHandler_def getApiHandler_def)
  have new: "find_entry (ses_callIndex ?s + 1) ''pay'' (ms_oplog_of NewMemorySnapshotStore (ses_instanceID ?s)) = None"
    by (simp add: NewMemorySnapshotStore_def ms_oplog_of_def find_entry_def)
  have H: "h_store ?H = memory_ops compact_codec" "h_mem ?H = list_memory" by simp_all
  have fits: "length (one_page 0 @ ?n @ ?r @ ?b) < page_size * max_pages"
    "unat (196608 :: u32) + 65536 \<le> length (one_page 0 @ ?n @ ?r @ ?b)" using l by simp_all
  note C = CallAPI_reaches_handler_once[OF lm.linear_memory_axioms ms_inv_init H sl v fits(1) n r fits(2) list_guest_simps(4) new s(5) refl,
      where e = "0 :: nat"]
  then obtain m4 \<sigma>1 where R: "\<forall>k. Call ?H (CallAPI list_guest ''pay'' [1, 2] k (one_page 0)) ?s NewMemorySnapshotStore 0 =
       Call ?H (k (api_response [7]) m4) (?s\<lparr>ses_callIndex := ses_callIndex ?s + 1, ses_memory := m4\<rparr>) \<sigma>1 (0 + 1)"
     "\<forall>k s2 e2. ses_instanceID s2 = ses_instanceID ?s \<and> ses_callIndex s2 = ses_callIndex ?s \<longrightarrow>
        Call ?H (CallAPI list_guest ''pay'' [1, 2] k (one_page 0)) s2 \<sigma>1 e2 =
        Call ?H (k (api_response [7]) m4) (s2\<lparr>ses_callIndex := ses_callIndex ?s + 1, ses_memory := m4\<rparr>) \<sigma>1 e2"
    using H by blast
  show ?thesis using R(1) R(2)[rule_format, of ?s2] s by (intro exI[of _ ?H]) (simp add: api_response_def)
qed

section \<open>A streaming worker\<close>

text \<open>
  C37. The worker of the S3 example transforms the whole stream. For any data of the download handler, read
  in chunks through its buffer of 4096 bytes, \<open>processStream\<close> hands to the upload handler, once, the data with
  its lower case letters turned into upper case, adds their number to its 32-bit counter, leaves both
  streams reset and returns no error. It does so whatever the upload handler answers: an error of the upload
  is not seen by the worker. The loop ends after one read more than there are chunks.
\<close>

theorem processStream_uppercases:
  fixes s :: "('m, 'e) session"
  assumes "stream_program M contents valid N G p" "h_mem H = M" "gg_place G (replicate 4096 0) m0 = (p, m)"
    and "valid m" "N \<le> length (contents m)" "length (contents m) < page_size * max_pages"
    and "\<not> ses_downloadEOF s" "ses_downloadReader s = None" "ses_uploadBuffer s = []"
    and "ses_DownloadHandler s = Some dl" "ses_UploadHandler s = Some hu"
    and "dl e = (Inr payload, e1)" "payload \<noteq> []" "hu (map upper_byte payload) e1 = (err, e2)"
    and "length payload \<le> 4096 * fuel"
  shows "\<exists>m2 s2. valid m2 \<and> length (contents m2) = length (contents m) \<and>
    sg_ProcessedBytes G m2 = sg_ProcessedBytes G m + word_of_nat (length payload) \<and>
    ses_uploadBuffer s2 = [] \<and> ses_downloadReader s2 = None \<and> \<not> ses_downloadEOF s2 \<and>
    Call H (processStream G (Suc fuel) k m0) s \<sigma> e = Call H (k None m2) s2 \<sigma> e2"
  by (rule stream_program.processStream_all[OF assms])

theorem processStream_uppercases_witness:
  "\<exists>(H :: (bytes, bytes, string \<rightharpoonup> bytes, memory_store, bytes list) host) m2 s2.
     Call H (processStream list_stream 2 (\<lambda>err m. if err = None then Return m [] else Trap m ''failed'') (one_page 0))
       (new_session (WithUploadHandler (WithDownloadHandler Background (Some (\<lambda>e. (Inr (bytes_of_string ''ab1''), e))))
          (Some (\<lambda>b e. (Some (Err ''503''), e @ [b])))) ''i'' [] False (new_meta ''i'' ''h1'') (Some Map.empty) (one_page 0))
       NewMemorySnapshotStore [] = (Inr [], m2, s2, NewMemorySnapshotStore, [bytes_of_string ''AB1'']) \<and>
     sg_ProcessedBytes list_stream m2 = 3"
proof -
  let ?H = "\<lparr> h_store = memory_ops compact_codec, h_mem = list_memory, h_rt = list_runtime (one_page 0) poke_exports,
    h_clock = \<lambda>e :: bytes list. (42, e), h_wasmHash = ''h1'' \<rparr>"
  let ?s = "new_session (WithUploadHandler (WithDownloadHandler Background (Some (\<lambda>e. (Inr (bytes_of_string ''ab1''), e))))
      (Some (\<lambda>b (e :: bytes list). (Some (Err ''503''), e @ [b])))) ''i'' [] False (new_meta ''i'' ''h1'') (Some Map.empty) (one_page 0)"
  let ?m = "one_page 0 @ page_pad (replicate 4096 0)"
  have l: "length (page_pad (replicate 4096 0)) = 65536" by (rule length_page_pad_one) simp_all
  have place: "gg_place list_stream (replicate 4096 0) (one_page 0) = (65536, ?m)" by simp
  have m: "list_memory_valid ?m" "131072 \<le> length ?m" "length ?m < page_size * max_pages"
    using l by (simp_all add: list_memory_valid_def)
  have up: "map upper_byte (bytes_of_string ''ab1'') = bytes_of_string ''AB1''"
    by (simp add: upper_byte_def bytes_of_string_def byte_of_char_def)
  have s: "\<not> ses_downloadEOF ?s" "ses_downloadReader ?s = None" "ses_uploadBuffer ?s = []"
    "ses_DownloadHandler ?s = Some (\<lambda>e. (Inr (bytes_of_string ''ab1''), e))"
    "ses_UploadHandler ?s = Some (\<lambda>b e. (Some (Err ''503''), e @ [b]))"
    by (simp_all add: new_session_def WithUploadHandler_def WithDownloadHandler_def getDownloadHandler_def getUploadHandler_def)
  have z: "read32 4 ?m = 0"
  proof -
    have "one_page 0 ! i = 0" if "i < 65536" for i using that by (simp only: one_page_def nth_replicate)
    then show ?thesis by (simp add: read32_def nth_append)
  qed
  have h: "h_mem ?H = list_memory" "bytes_of_string ''ab1'' \<noteq> []" "length (bytes_of_string ''ab1'') \<le> 4096 * 1"
    by (simp_all add: bytes_of_string_def)
  let ?k = "\<lambda>err m. if err = None then Return m [] else Trap m ''failed''"
  from processStream_uppercases[OF list_stream.stream_program_axioms h(1) place m s refl h(2) refl h(3),
      where e = "[]" and k = ?k and \<sigma> = NewMemorySnapshotStore]
  show ?thesis
  proof (elim exE conjE)
    fix m2 s2
    assume n: "sg_ProcessedBytes list_stream m2 = sg_ProcessedBytes list_stream ?m + word_of_nat (length (bytes_of_string ''ab1''))"
      and R: "Call ?H (processStream list_stream (Suc 1) ?k (one_page 0)) ?s NewMemorySnapshotStore [] =
        Call ?H (?k None m2) s2 NewMemorySnapshotStore ([] @ [map upper_byte (bytes_of_string ''ab1'')])"
    have "sg_ProcessedBytes list_stream m2 = 3" using n z by simp
    then show ?thesis using R up by (intro exI[of _ ?H] exI[of _ m2] exI[of _ s2]) (simp add: numeral_2_eq_2)
  qed
qed

end
