(* ===== verification/Example_Hosts.thy ===== *)
theory Example_Hosts
  imports Fs_Engine S3_Engine Runner_Builder Stream_Worker
begin

text \<open>
  The host programs under \<open>examples/\<close>: the three \<open>main\<close> functions that run a worker twice, first with
  the simulated crash and then to its end, the workflow and activity of the Temporal example and the task
  handler of the Camunda example, all through the chained calls of \<open>runner_builder.go\<close>; and the routes of
  their mock servers. The Camunda and Temporal clients are parameters. The mock servers of these two examples
  write files of the working directory, so their state, with these files, is part of the environment that
  handlers act on; the directory \<open>snapshots\<close>, where the store writes, is the state of the store. Sleeping, logging, listening on
  a port and shutting down are left out; a Go panic ends a program with exit status 2.
\<close>

section \<open>One run of a worker\<close>

text \<open>What a host program runs on: linear memory, wazero, the clock, the module file and SHA-256.\<close>

record ('c, 'm, 'r, 'e) platform =
  pf_mem :: "'m memory_api"
  pf_rt :: "('c, 'm, 'r) wazero"
  pf_clock :: "'e \<Rightarrow> int \<times> 'e"
  pf_ReadFile :: "string \<Rightarrow> go_error + bytes"
  pf_sha :: "bytes \<Rightarrow> string"

text \<open>The chain \<open>NewTestRunner().WithWasmPath(..).WithStore(..).WithSessionID(..).WithServer(..).WithCrash(..).Run()\<close>.\<close>

definition run_worker :: "('c, 'm, 'r, 'e) platform \<Rightarrow> 's store_ops \<Rightarrow> string \<Rightarrow> string \<Rightarrow> string \<Rightarrow> bool \<Rightarrow> 's \<Rightarrow> 'e \<Rightarrow>
    (bool \<times> go_error option) outcome \<times> 's \<times> 'e" where
  "run_worker P st wasmPath addr iid shouldCrash \<sigma> e =
     (let tr = tr_WithCrash shouldCrash (tr_WithServer addr (tr_WithSessionID iid
                 (tr_WithStore (Some (st, \<sigma>)) (tr_WithWasmPath wasmPath NewTestRunner))));
          (res, tr', e') = tr_Run (pf_mem P) (pf_rt P) (pf_clock P) (pf_ReadFile P) (pf_sha P) tr e
      in (res, (case rn_store (tr_runner tr') of Some (_, \<sigma>') \<Rightarrow> \<sigma>' | None \<Rightarrow> \<sigma>), e'))"

text \<open>
  Both runs with the check of the snapshot between them. \<open>Some code\<close> is an early end of the program with
  that exit status; \<open>accept\<close> is what the program asks of the snapshot it loads.
\<close>

definition two_runs :: "('c, 'm, 'r, 'e) platform \<Rightarrow> 's store_ops \<Rightarrow> string \<Rightarrow> string \<Rightarrow> string \<Rightarrow> (bytes \<Rightarrow> bool) \<Rightarrow>
    's \<Rightarrow> 'e \<Rightarrow> nat option \<times> 's \<times> 'e" where
  "two_runs P st wasmPath addr iid accept \<sigma> e =
     (case run_worker P st wasmPath addr iid True \<sigma> e of
        (Panic msg, \<sigma>1, e1) \<Rightarrow> (Some 2, \<sigma>1, e1)
      | (Ret (crashed, err), \<sigma>1, e1) \<Rightarrow>
          if err \<noteq> None \<and> \<not> crashed then (Some 1, \<sigma>1, e1)
          else case st_Load st iid \<sigma>1 of
            Inl err \<Rightarrow> (Some 1, \<sigma>1, e1)
          | Inr snapshot \<Rightarrow>
              if \<not> accept snapshot then (Some 1, \<sigma>1, e1)
              else case run_worker P st wasmPath addr iid False \<sigma>1 e1 of
                (Panic msg, \<sigma>2, e2) \<Rightarrow> (Some 2, \<sigma>2, e2)
              | (Ret (crashed, err), \<sigma>2, e2) \<Rightarrow>
                  if err \<noteq> None then (Some 1, \<sigma>2, e2)
                  else if crashed then (Some 1, \<sigma>2, e2)
                  else (None, \<sigma>2, e2))"

section \<open>examples/s3-store\<close>

text \<open>
  \<open>getenv\<close> gives the environment variables, empty when unset. \<open>connect\<close> stands for the SDK: the
  configuration it loads from the environment and the client it makes for an endpoint;
  \<open>CreateBucket\<close> acts on the service, and its error is only logged.
\<close>

definition or_default :: "string \<Rightarrow> string \<Rightarrow> string" where
  "or_default v d = (if v = [] then d else v)"

definition s3_host_main :: "('c, 'm, 'r, 'e) platform \<Rightarrow> codec \<Rightarrow> (string list \<Rightarrow> string list) \<Rightarrow> (string \<Rightarrow> string) \<Rightarrow>
    ((string \<Rightarrow> string) \<Rightarrow> go_error + 'cfg) \<Rightarrow> (string \<Rightarrow> 'cfg \<Rightarrow> 'o s3_client) \<Rightarrow> (string \<Rightarrow> 'o \<Rightarrow> go_error option \<times> 'o) \<Rightarrow>
    'o \<Rightarrow> 'e \<Rightarrow> nat \<times> 'o \<times> 'e" where
  "s3_host_main P cd arrival getenv LoadDefaultConfig NewFromConfig CreateBucket \<sigma> e =
     (let bucket = or_default (getenv ''S3_BUCKET'') ''wasman-demo'';
          endpoint = or_default (getenv ''S3_ENDPOINT'') ''http://localhost:9000'';
          env1 = getenv(''AWS_ACCESS_KEY_ID'' := or_default (getenv ''AWS_ACCESS_KEY_ID'') ''minioadmin'');
          env2 = env1(''AWS_SECRET_ACCESS_KEY'' := or_default (env1 ''AWS_SECRET_ACCESS_KEY'') ''minioadmin'')
      in case NewS3SnapshotStore (LoadDefaultConfig env2) (NewFromConfig endpoint) bucket of
           Inl err \<Rightarrow> (1, \<sigma>, e)
         | Inr S \<Rightarrow>
             (let st = s3_ops cd arrival S;
                  \<sigma>1 = snd (CreateBucket bucket \<sigma>);
                  wasmPath = or_default (env2 ''WASM_PATH'') ''../worker/worker.wasm'';
                  \<sigma>2 = snd (st_Delete st ''s3-demo-instance'' \<sigma>1)
              in case two_runs P st wasmPath ''localhost:18080'' ''s3-demo-instance'' (\<lambda>snapshot. length snapshot \<noteq> 0) \<sigma>2 e of
                   (Some code, \<sigma>3, e3) \<Rightarrow> (code, \<sigma>3, e3)
                 | (None, \<sigma>3, e3) \<Rightarrow> (0, \<sigma>3, e3)))"

text \<open>
  The routes of the mock server: a download of 500 lines, and an upload that counts the bytes of the
  request body and looks for a lower case letter. The body is the list of what its reads return, ended
  by the error of the last one.
\<close>

definition s3_mock_line :: bytes where
  "s3_mock_line = bytes_of_string
     (''durable execution engine based on webassembly and tinygo native S3 store test line.'' @ [CHR 0x0A])"

definition s3_mock_download :: bytes where
  "s3_mock_download = concat (replicate 500 s3_mock_line)"

definition lower_case :: "byte \<Rightarrow> bool" where
  "lower_case b \<longleftrightarrow> 97 \<le> b \<and> b \<le> 122"

fun s3_mock_upload :: "bytes list \<Rightarrow> go_error \<Rightarrow> nat \<Rightarrow> bool \<Rightarrow> go_error + nat \<times> bool" where
  "s3_mock_upload (buf # bufs) final totalBytes allUppercase =
     s3_mock_upload bufs final (totalBytes + length buf) (allUppercase \<and> \<not> list_ex lower_case buf)"
| "s3_mock_upload [] final totalBytes allUppercase =
     (if final = io_EOF then Inr (totalBytes, allUppercase) else Inl final)"

section \<open>examples/gotenberg-telegram and examples/process-csv\<close>

text \<open>
  \<open>os.RemoveAll\<close> of the snapshot directory: a file whose removal fails stays. \<open>MkdirAll\<close> is the error of
  creating the directory.
\<close>

definition RemoveAll :: "string \<Rightarrow> fs \<Rightarrow> fs" where
  "RemoveAll dir f = f\<lparr>fs_files := (\<lambda>p. if (p = dir \<or> prefix (dir @ ''/'') p) \<and> \<not> fs_remove_fault f p
                                           then None else fs_files f p)\<rparr>"

definition gotenberg_host_main :: "('c, 'm, 'r, 'e) platform \<Rightarrow> codec \<Rightarrow> (string \<Rightarrow> fs \<Rightarrow> go_error option) \<Rightarrow> fs \<Rightarrow> 'e \<Rightarrow>
    nat \<times> fs \<times> 'e" where
  "gotenberg_host_main P cd MkdirAll f e =
     (let wasmPath = ''../worker/worker.wasm'';
          f1 = RemoveAll ''snapshots'' f
      in case MkdirAll ''snapshots'' f1 of
           Some err \<Rightarrow> (1, f1, e)
         | None \<Rightarrow>
             (let st = fs_ops cd ''snapshots''; iid = ''gotenberg-telegram-pipeline'';
                  f2 = snd (st_Delete st iid f1)
              in case two_runs P st wasmPath ''localhost:18084'' iid (\<lambda>_. True) f2 e of
                   (Some code, f3, e3) \<Rightarrow> (code, f3, e3)
                 | (None, f3, e3) \<Rightarrow> (0, snd (st_Delete st iid f3), e3)))"

definition csv_host_main :: "('c, 'm, 'r, 'e) platform \<Rightarrow> codec \<Rightarrow> (string \<Rightarrow> fs \<Rightarrow> go_error option) \<Rightarrow> fs \<Rightarrow> 'e \<Rightarrow>
    nat \<times> fs \<times> 'e" where
  "csv_host_main P cd MkdirAll f e =
     (let wasmPath = ''../worker/worker.wasm'';
          f1 = RemoveAll ''snapshots'' f
      in case MkdirAll ''snapshots'' f1 of
           Some err \<Rightarrow> (1, f1, e)
         | None \<Rightarrow>
             (let st = fs_ops cd ''snapshots''; iid = ''csv-worker-instance'';
                  f2 = snd (st_Delete st iid f1)
              in case two_runs P st wasmPath ''localhost:18082'' iid (\<lambda>_. True) f2 e of
                   (Some code, f3, e3) \<Rightarrow> (code, f3, e3)
                 | (None, f3, e3) \<Rightarrow> (0, snd (st_Delete st iid f3), e3)))"

text \<open>
  The routes of the mock server of the Gotenberg example, with its two counters and what it logs. An
  upload gets what reading the request body gave.
\<close>

record gotenberg_mock =
  gm_downloadCount :: int
  gm_uploadCount :: int
  gm_log :: "(string \<times> bytes) list"

definition gotenberg_download :: "gotenberg_mock \<Rightarrow> bytes \<times> gotenberg_mock" where
  "gotenberg_download s =
     (let s1 = s\<lparr>gm_downloadCount := gm_downloadCount s + 1\<rparr>
      in (bytes_of_string (if gm_downloadCount s1 = 1 then ''[MOCK DOCX INVOICE FILE CONTENTS]''
                           else ''[MOCK GENERATED PDF INVOICE CONTENTS]''), s1))"

definition gotenberg_upload :: "go_error + bytes \<Rightarrow> gotenberg_mock \<Rightarrow> gotenberg_mock" where
  "gotenberg_upload ReadAll s =
     (let s1 = s\<lparr>gm_uploadCount := gm_uploadCount s + 1\<rparr>
      in case ReadAll of
           Inl err \<Rightarrow> s1
         | Inr body \<Rightarrow>
             s1\<lparr>gm_log := gm_log s1 @
               [(if gm_uploadCount s1 = 1 then ''[MOCK GOTENBERG SERVICE]'' else ''[MOCK TELEGRAM BOT API]'', body)]\<rparr>)"

text \<open>
  The routes of the mock server of the CSV example: five records to download, and an upload that copies the
  request body, the list of what its reads return, to the standard output.
\<close>

definition csv_mock_download :: bytes where
  "csv_mock_download = bytes_of_string (concat (map (\<lambda>l. l @ [CHR 0x0A])
     [''id,name,email,amount'',
      ''1,Alice Johnson,alice@example.com,120.50'',
      ''2,Bob Smith,bob-invalid-email,250.00'',
      ''3,Charlie Brown,charlie@example.com,invalid_amount_field'',
      ''4,David Miller,david@example.com,450.00'',
      ''5,Eve Adams,eve@example.com,90.25'']))"

definition csv_mock_upload :: "bytes list \<Rightarrow> go_error \<Rightarrow> bytes \<Rightarrow> bytes \<times> go_error option" where
  "csv_mock_upload bufs final stdout = (stdout @ concat bufs, if final = io_EOF then None else Some final)"

section \<open>examples/in-memory-channel\<close>

text \<open>
  \<open>notExist\<close> is \<open>os.IsNotExist\<close> of the error of \<open>os.Stat\<close>. The result is the exit status and the version that
  is printed.
\<close>

definition channel_api_handler :: "'e api_handler" where
  "channel_api_handler apiName request e = (Inr (Some (bytes_of_string ''mock-response-for-'' @ request)), e)"

definition channel_main :: "('c, 'm, 'r, 'e) platform \<Rightarrow> codec \<Rightarrow> (string \<Rightarrow> bool) \<Rightarrow> 'e \<Rightarrow> (nat \<times> int option) \<times> 'e" where
  "channel_main P cd notExist e =
     (let path1 = ''../../testdata/dirty_page_oplog.wasm''; path2 = ''connectors/wasman/testdata/dirty_page_oplog.wasm'';
          wasmPath = (if notExist path1 then path2 else path1)
      in if notExist path1 \<and> notExist path2 then ((1, None), e)
         else
           (let iid = ''in-memory-session-demo'';
                r = rn_WithApiHandler (Some channel_api_handler) (rn_WithEntrypoint ''run_test'' (rn_WithSessionID iid
                      (rn_WithStore (Some (memory_ops cd, NewMemorySnapshotStore)) (rn_WithWasmPath wasmPath
                        (rn_WithContext (Some Background) NewRunner)))))
            in case rn_Run (pf_mem P) (pf_rt P) (pf_clock P) (pf_ReadFile P) (pf_sha P) r e of
                 (Panic msg, r1, e1) \<Rightarrow> ((2, None), e1)
               | (Ret (crashed, Some err), r1, e1) \<Rightarrow> ((1, None), e1)
               | (Ret (crashed, None), r1, e1) \<Rightarrow>
                   (case rn_store r1 of
                      None \<Rightarrow> ((0, None), e1)
                    | Some (st, \<sigma>) \<Rightarrow>
                        (case st_LoadMetadata st iid \<sigma> of
                           Inl err \<Rightarrow> ((1, None), e1)
                         | Inr (Some meta) \<Rightarrow> ((0, Some (Version meta)), e1)
                         | Inr None \<Rightarrow> ((0, None), e1)))))"

section \<open>examples/temporal\<close>

text \<open>
  The workflow: \<open>ExecuteActivity\<close> of the Temporal SDK runs the activity under the options and gives its
  result to \<open>Get\<close>, which leaves the empty string behind an error. Times are in seconds.
\<close>

record activity_options =
  ao_StartToCloseTimeout :: int
  ao_InitialInterval :: int
  ao_BackoffCoefficient :: int
  ao_MaximumAttempts :: int

definition DurableWasmWorkflow :: "(activity_options \<Rightarrow> string \<Rightarrow> string \<Rightarrow> 'e \<Rightarrow> (go_error + string) \<times> 'e) \<Rightarrow>
    string \<Rightarrow> string \<Rightarrow> 'e \<Rightarrow> (string \<times> go_error option) \<times> 'e" where
  "DurableWasmWorkflow ExecuteActivity iid serverAddr e =
     (case ExecuteActivity \<lparr> ao_StartToCloseTimeout = 30, ao_InitialInterval = 1, ao_BackoffCoefficient = 1,
              ao_MaximumAttempts = 2 \<rparr> iid serverAddr e of
        (Inl err, e1) \<Rightarrow> (([], Some err), e1)
      | (Inr result, e1) \<Rightarrow> ((result, None), e1))"

text \<open>
  The mock server persists the second upload to the file that the activity reads. Its state is the counter
  and the files of the working directory; an upload gets what reading the request body gave.
\<close>

datatype mock_request = Download | Upload "go_error + bytes"

record temporal_mock =
  tm_uploadCount :: int
  tm_files :: fs

definition temporal_download :: bytes where
  "temporal_download = bytes_of_string
     (''{'' @ [CHR 0x22] @ ''base_rate'' @ [CHR 0x22] @ '':1.5,'' @ [CHR 0x22] @ ''multiplier'' @ [CHR 0x22] @ '':8.0}'')"

definition temporal_upload :: "go_error + bytes \<Rightarrow> temporal_mock \<Rightarrow> temporal_mock" where
  "temporal_upload ReadAll s =
     (let s1 = s\<lparr>tm_uploadCount := tm_uploadCount s + 1\<rparr>
      in case ReadAll of
           Inl err \<Rightarrow> s1
         | Inr body \<Rightarrow>
             if tm_uploadCount s1 = 2 then s1\<lparr>tm_files := snd (WriteFile ''database_temporal.json'' body (tm_files s1))\<rparr>
             else s1)"

text \<open>The routes of the server, by request: the response and the new state.\<close>

definition temporal_routes :: "mock_request \<Rightarrow> temporal_mock \<Rightarrow> bytes \<times> temporal_mock" where
  "temporal_routes req s =
     (case req of Download \<Rightarrow> (temporal_download, s) | Upload ReadAll \<Rightarrow> ([], temporal_upload ReadAll s))"

text \<open>
  The activity: the attempt number comes from the Temporal SDK. The environment is the mock server and what
  else the program runs with.
\<close>

definition ExecuteDurableWasmActivity :: "('c, 'm, 'r, temporal_mock \<times> 'x) platform \<Rightarrow> codec \<Rightarrow> (string \<Rightarrow> fs \<Rightarrow> go_error option) \<Rightarrow>
    int \<Rightarrow> string \<Rightarrow> string \<Rightarrow> fs \<Rightarrow> temporal_mock \<times> 'x \<Rightarrow> (go_error + string) outcome \<times> fs \<times> temporal_mock \<times> 'x" where
  "ExecuteDurableWasmActivity P cd MkdirAll attempt iid addr f e =
     (let wasmPath = ''../worker/worker.wasm''
      in case MkdirAll ''snapshots'' f of
           Some err \<Rightarrow> (Ret (Inl (Wrap ''failed to create snapshots directory'' err)), f, e)
         | None \<Rightarrow>
             (let st = fs_ops cd ''snapshots'';
                  simulateCrash = (attempt = 1);
                  f1 = (if simulateCrash then snd (st_Delete st iid f) else f)
              in case run_worker P st wasmPath addr iid simulateCrash f1 e of
                   (Panic msg, f2, e2) \<Rightarrow> (Panic msg, f2, e2)
                 | (Ret (crashed, Some err), f2, e2) \<Rightarrow>
                     (Ret (Inl (if crashed then Wrap ''simulated crash'' err else Wrap ''wasm execution failed'' err)), f2, e2)
                 | (Ret (crashed, None), f2, e2) \<Rightarrow>
                     (case ReadFile ''database_temporal.json'' (tm_files (fst e2)) of
                        Inl err \<Rightarrow> (Ret (Inl (Wrap ''final database record not found'' err)), f2, e2)
                      | Inr dbBytes \<Rightarrow> (Ret (Inr (string_of_bytes dbBytes)), snd (st_Delete st iid f2), e2))))"

section \<open>examples/camunda\<close>

record external_task =
  et_ID :: string
  et_BusinessKey :: string

text \<open>
  The handler of the topic \<open>wasman-task\<close>: \<open>complete\<close> and \<open>fail\<close> report to Camunda, which is part of the
  environment.
\<close>

definition camunda_task_handler :: "('c, 'm, 'r, 'e) platform \<Rightarrow> codec \<Rightarrow> external_task \<Rightarrow>
    ('e \<Rightarrow> go_error option \<times> 'e) \<Rightarrow> (string \<Rightarrow> string \<Rightarrow> int \<Rightarrow> int \<Rightarrow> 'e \<Rightarrow> go_error option \<times> 'e) \<Rightarrow>
    fs \<Rightarrow> 'e \<Rightarrow> go_error option outcome \<times> fs \<times> 'e" where
  "camunda_task_handler P cd task complete fail f e =
     (let businessKey = or_default (et_BusinessKey task) (et_ID task);
          st = fs_ops cd ''snapshots'';
          shouldCrash = isl (st_Load st businessKey f)
      in case run_worker P st ''../worker/worker.wasm'' ''localhost:18086'' businessKey shouldCrash f e of
           (Panic msg, f1, e1) \<Rightarrow> (Panic msg, f1, e1)
         | (Ret (crashed, Some err), f1, e1) \<Rightarrow>
             (if crashed
              then (Ret None, f1, snd (fail ''simulated_host_crash'' ''WASM state snapshotted, waiting for restoration'' 1 1000 e1))
              else (Ret None, f1, snd (fail (Error err) ''execution error'' 0 0 e1)))
         | (Ret (crashed, None), f1, e1) \<Rightarrow>
             (case complete e1 of
                (Some err, e2) \<Rightarrow> (Ret (Some err), f1, e2)
              | (None, e2) \<Rightarrow> (Ret None, snd (st_Delete st businessKey f1), e2)))"

text \<open>\<open>deployProcess\<close>, over opening the file of the process definition and the client's deployment.\<close>

definition deployProcess :: "(string \<Rightarrow> go_error + bytes) \<Rightarrow> (string \<Rightarrow> bytes \<Rightarrow> string \<Rightarrow> 'e \<Rightarrow> (go_error + string) \<times> 'e) \<Rightarrow>
    'e \<Rightarrow> go_error option \<times> 'e" where
  "deployProcess Open DeployProcess e =
     (case Open ''../bpmn/process.bpmn'' of
        Inl err \<Rightarrow> (Some err, e)
      | Inr file \<Rightarrow>
          (case DeployProcess ''wasman-camunda-deployment'' file ''../bpmn/process.bpmn'' e of
             (Inl err, e1) \<Rightarrow> (Some err, e1)
           | (Inr deploymentID, e1) \<Rightarrow> (None, e1)))"

text \<open>The mock server of the Camunda example answers by the number of the request and persists the third upload.\<close>

record camunda_mock =
  km_downloadCount :: i32
  km_uploadCount :: i32
  km_files :: fs

definition camunda_download :: "camunda_mock \<Rightarrow> bytes \<times> camunda_mock" where
  "camunda_download s =
     (let s1 = s\<lparr>km_downloadCount := km_downloadCount s + 1\<rparr>
      in (bytes_of_string (''{'' @ [CHR 0x22] @ ''status'' @ [CHR 0x22] @ '':'' @ [CHR 0x22] @
            (if km_downloadCount s1 = 1 then ''available'' else ''success'') @ [CHR 0x22] @ ''}''), s1))"

definition camunda_upload :: "go_error + bytes \<Rightarrow> camunda_mock \<Rightarrow> camunda_mock" where
  "camunda_upload ReadAll s =
     (let s1 = s\<lparr>km_uploadCount := km_uploadCount s + 1\<rparr>
      in case ReadAll of
           Inl err \<Rightarrow> s1
         | Inr body \<Rightarrow>
             if km_uploadCount s1 = 3 then s1\<lparr>km_files := snd (WriteFile ''database_camunda.json'' body (km_files s1))\<rparr>
             else s1)"

definition camunda_routes :: "mock_request \<Rightarrow> camunda_mock \<Rightarrow> bytes \<times> camunda_mock" where
  "camunda_routes req s =
     (case req of Download \<Rightarrow> camunda_download s | Upload ReadAll \<Rightarrow> ([], camunda_upload ReadAll s))"

end
