(* ===== verification/Host_Runs.thy ===== *)
theory Host_Runs
  imports Example_Hosts
begin

text \<open>
  What the host programs of the examples do with a worker: the locale \<open>worker_host\<close> puts a store with
  a module registry and a runtime together, follows the two runs of \<open>two_runs\<close>, and is interpreted for the
  S3 store; then the streaming worker of the S3 example under its host, which binds no stream handler.
\<close>

section \<open>Two runs of a worker\<close>

text \<open>
  The module file can be read and compiled, and the two host modules can be instantiated; \<open>r\<close> is the
  state of the runtime after that.
\<close>

definition deployed :: "('c, 'm, 'r, 'e) platform \<Rightarrow> string \<Rightarrow> bytes \<Rightarrow> 'c \<Rightarrow> 'r \<Rightarrow> bool" where
  "deployed P wasmPath b c r \<longleftrightarrow> wasmPath \<noteq> [] \<and> pf_ReadFile P wasmPath = Inr b \<and> rt_CompileModule (pf_rt P) b = Inr c \<and>
     fst (rt_HostModule (pf_rt P) ''wasi_snapshot_preview1'' (rt_NewRuntime (pf_rt P))) = None \<and>
     rt_HostModule (pf_rt P) ''env'' (snd (rt_HostModule (pf_rt P) ''wasi_snapshot_preview1'' (rt_NewRuntime (pf_rt P)))) = (None, r)"

definition built_engine :: "string \<Rightarrow> 'c \<Rightarrow> 'r \<Rightarrow> ('c, 'm, 'r, 'e) engine" where
  "built_engine h c r = \<lparr> eng_runtime = r, eng_compiled = c, eng_wasmHash = h, eng_compiledCache = [h \<mapsto> c],
     eng_activeSessions = Map.empty \<rparr>"

lemma built_engine_sel [simp]:
  "eng_runtime (built_engine h c r) = r" "eng_compiled (built_engine h c r) = c" "eng_wasmHash (built_engine h c r) = h"
  by (simp_all add: built_engine_def)

text \<open>The chain sets what it is given; no handler is bound.\<close>

lemma run_worker_execute:
  fixes P :: "('c, 'm, 'r, 'e) platform"
  assumes "deployed P wasmPath b c r" "iid \<noteq> []" "st_SaveWasm st (pf_sha P b) b \<sigma> = (None, \<sigma>1)"
    and "ExecuteWithArgs st (pf_mem P) (pf_rt P) (pf_clock P) Background iid ''run'' addr crash []
      (built_engine (pf_sha P b) c r) \<sigma>1 e = (Ret x, eng', \<sigma>2, e2)"
  shows "run_worker P st wasmPath addr iid crash \<sigma> e = (Ret x, \<sigma>2, e2)"
proof -
  obtain r1 where r1: "rt_HostModule (pf_rt P) ''wasi_snapshot_preview1'' (rt_NewRuntime (pf_rt P)) = (None, r1)"
    "rt_HostModule (pf_rt P) ''env'' r1 = (None, r)"
    using assms(1) by (cases "rt_HostModule (pf_rt P) ''wasi_snapshot_preview1'' (rt_NewRuntime (pf_rt P))") (simp add: deployed_def)
  have "NewEngine (pf_ReadFile P) (pf_sha P) st (pf_rt P) wasmPath [] \<sigma> =
      (Inr (built_engine (pf_sha P b) c r :: ('c, 'm, 'r, 'e) engine), \<sigma>1)"
    using assms(1,3) r1 by (simp add: deployed_def NewEngine_def NewEngineWithBytes_def make_engine_def built_engine_def Let_def)
  then show ?thesis using assms(1,2,4)
    by (cases x) (simp add: run_worker_def tr_WithCrash_def tr_WithServer_def tr_WithSessionID_def tr_WithStore_def
        tr_WithWasmPath_def tr_delegate_def NewTestRunner_def setter_defs NewRunner_def tr_Run_def rn_Run_def
        run_ctx_def deployed_def Let_def)
qed

text \<open>A session without a download handler that has not read anything.\<close>

definition idle_session :: "('m, 'e) session \<Rightarrow> bool" where
  "idle_session s \<longleftrightarrow> ses_DownloadHandler s = None \<and> ses_downloadReader s = None \<and> \<not> ses_downloadEOF s"

locale worker_host =
    wasm_store st inv view cas ok_str ok_meta reg +
    durable_engine st inv view cas ok_str ok_meta M contents valid W modules instantiable init
  for st :: "'s store_ops" and inv and view and cas and ok_str and ok_meta and reg
    and M :: "'m memory_api" and contents and valid
    and W :: "('c, 'm, 'r) wazero" and modules and instantiable and init
begin

text \<open>The first checkpoint of an instance leaves the registry alone.\<close>

lemma first_checkpoint_reg:
  assumes "inv \<sigma>" "fresh_session (view \<sigma> (ses_instanceID s)) s" "ok_meta (ses_meta s)" "ok_str h"
    and run: "checkpoint st M h m s \<sigma> = (r, s', \<sigma>')"
  shows "reg \<sigma>' = reg \<sigma>"
proof -
  let ?meta = "(ses_meta s)\<lparr>WasmHash := h\<rparr>"
  obtain rb meta' \<sigma>1 where S: "st_SaveMetadata st ?meta \<sigma> = (rb, meta', \<sigma>1)" by (metis prod_cases3)
  have id: "InstanceID ?meta = ses_instanceID s" "Version ?meta = 0" "i_meta (view \<sigma> (InstanceID ?meta)) = None"
    using assms(2) by (simp_all add: fresh_session_def)
  then have "cas (i_meta (view \<sigma> (InstanceID ?meta))) ?meta" using cas_new[of ?meta] by simp
  then have C: "rb = Inr True" "inv \<sigma>1" "meta' = ?meta\<lparr>Version := Version ?meta + 1, ETag := ETag meta'\<rparr>"
    using SaveMetadata_ok[OF assms(1) _ ok_hash[OF assms(3,4)] _ S] id by simp_all
  have "Version meta' = 1" using id(2) by (subst C(3)) simp
  then have w: "reg \<sigma>2 = reg \<sigma>1"
    if "write_memory st mem (s\<lparr>ses_meta := meta', ses_memory := m\<rparr>) \<sigma>1 = (r2, s2, \<sigma>2)" for mem r2 s2 \<sigma>2
    using that reg_Save[OF C(2), of "ses_instanceID s" mem]
    by (auto simp: write_memory_def write_full_def isFullSnapshot_def Let_def split: prod.splits option.splits if_splits)
  show ?thesis using run S C(1) w reg_SaveMetadata[OF assms(1) S]
    by (auto simp: checkpoint_def Let_def split: if_splits option.splits)
qed

text \<open>What is known of the worker: its first checkpoint, and how it ends when it is run again from there.\<close>

definition stops_at :: "string \<Rightarrow> 'm \<Rightarrow> 'm \<Rightarrow> bool" where
  "stops_at iid m0 mC \<longleftrightarrow> (\<exists>runFunc k. rt_ExportedFunction W m0 ''run'' = Some runFunc \<and> runFunc [] m0 = Checkpoint mC k) \<and>
     valid m0 \<and> valid mC \<and> contents mC \<noteq> [] \<and> length (contents mC) < page_size * max_pages \<and>
     length (contents m0) \<le> length (contents mC) \<and> growable M contents valid (length (contents mC))"

lemma first_run:
  fixes P :: "('c, 'm, 'r, 'e) platform"
  assumes P: "pf_mem P = M" "pf_rt P = W" "deployed P wasmPath b c r" "modules r (modName iid) = None"
      "instantiable c" "boot W (init c) = Some m0"
    and iid: "iid \<noteq> []" "ok_str iid" "ok_str (pf_sha P b)"
    and \<sigma>: "inv \<sigma>" "view \<sigma> iid = empty_inst" "reg \<sigma> (pf_sha P b) = None \<or> reg \<sigma> (pf_sha P b) = Some b"
    and g: "stops_at iid m0 mC"
  shows "\<exists>\<sigma>1 meta. run_worker P st wasmPath addr iid True \<sigma> e =
      (Ret (True, Some (rt_recovered W ''simulated_host_crash'')), \<sigma>1, e) \<and> inv \<sigma>1 \<and>
    durable_image (view \<sigma>1 iid) (contents mC) \<and> i_meta (view \<sigma>1 iid) = Some meta \<and> WasmHash meta = pf_sha P b \<and>
    reg \<sigma>1 (pf_sha P b) = Some b"
proof -
  let ?h = "pf_sha P b" and ?eng = "built_engine (pf_sha P b) c r :: ('c, 'm, 'r, 'e) engine"
  obtain q \<sigma>0 where S: "st_SaveWasm st ?h b \<sigma> = (q, \<sigma>0)" by fastforce
  have S': "q = None" "inv \<sigma>0" "view \<sigma>0 = view \<sigma>" "reg \<sigma>0 ?h = Some b" using SaveWasm[OF \<sigma>(1,3) S] by simp_all
  have new: "i_meta (view \<sigma>0 iid) = None" "i_snapshot (view \<sigma>0 iid) = None" "i_deltas (view \<sigma>0 iid) = Map.empty"
    using S'(3) \<sigma>(2) by (simp_all add: empty_inst_def)
  obtain runFunc k where f: "rt_ExportedFunction W m0 ''run'' = Some runFunc" "runFunc [] m0 = Checkpoint mC k"
    using g by (auto simp: stops_at_def)
  have v: "valid mC" "contents mC \<noteq> []" "length (contents mC) < page_size * max_pages" using g by (simp_all add: stops_at_def)
  obtain res eng' \<sigma>1 e1 where X: "ExecuteWithArgs st M W (pf_clock P) Background iid ''run'' addr True [] ?eng \<sigma>0 e =
      (res, eng', \<sigma>1, e1)" by (metis prod_cases4)
  have ok: "ok_str (eng_wasmHash ?eng)" "instantiable (eng_compiled ?eng)" "modules (eng_runtime ?eng) (modName iid) = None"
    "boot W (init (eng_compiled ?eng)) = Some m0" "''run'' \<noteq> ''_start''" "ctx_Err Background e = None"
    using iid(3) P(4-6) by (simp_all add: Background_def)
  note C = execute_crashes[OF S'(2) new iid(2) ok(1-4) f v ok(5,6) X]
  let ?s = "new_session Background iid addr True (new_meta iid ?h) (Some Map.empty) m0 :: ('m, 'e) session"
  obtain r' s' where ck: "checkpoint st M ?h mC ?s \<sigma>0 = (r', s', \<sigma>1)" using C by auto
  have fresh: "fresh_session (view \<sigma>0 (ses_instanceID ?s)) ?s" using new by (simp add: fresh_session_def new_session_def)
  have "reg \<sigma>1 = reg \<sigma>0"
    using ok_new[OF iid(2,3)] iid(3) by (intro first_checkpoint_reg[OF S'(2) fresh _ _ ck]) (simp_all add: new_session_def)
  then show ?thesis
    using C S'(4) run_worker_execute[OF P(3) iid(1), of st \<sigma> \<sigma>0 addr True e] S S'(1) X P(1,2) by auto
qed

text \<open>A run that resumes and makes no effects ends without an error, whatever the guest returns.\<close>

lemma second_run:
  fixes P :: "('c, 'm, 'r, 'e) platform"
  assumes P: "pf_mem P = M" "pf_rt P = W" "deployed P wasmPath b c r" "modules r (modName iid) = None"
      "instantiable c" "boot W (init c) = Some m0"
    and iid: "iid \<noteq> []"
    and \<sigma>: "inv \<sigma>" "durable_image (view \<sigma> iid) (contents mC)" "i_meta (view \<sigma> iid) = Some meta"
      "WasmHash meta = pf_sha P b" "reg \<sigma> (pf_sha P b) = Some b"
    and g: "stops_at iid m0 mC"
    and ends: "\<And>m1 H (s :: ('m, 'e) session) \<tau> x. valid m1 \<Longrightarrow> contents m1 = contents mC \<Longrightarrow> h_mem H = M \<Longrightarrow> idle_session s \<Longrightarrow>
      \<exists>runFunc res m2 s2. rt_ExportedFunction W m1 ''run'' = Some runFunc \<and>
        Call (H :: ('c, 'm, 'r, 's, 'e) host) (runFunc [] m1) s \<tau> x = (Inr res, m2, s2, \<tau>, x)"
  shows "\<exists>\<sigma>2. run_worker P st wasmPath addr iid False \<sigma> e = (Ret (False, None), \<sigma>2, e) \<and> inv \<sigma>2 \<and> view \<sigma>2 = view \<sigma>"
proof -
  let ?h = "pf_sha P b" and ?eng = "built_engine (pf_sha P b) c r :: ('c, 'm, 'r, 'e) engine"
  let ?H = "\<lparr> h_store = st, h_mem = M, h_rt = W, h_clock = pf_clock P, h_wasmHash = ?h \<rparr> :: ('c, 'm, 'r, 's, 'e) host"
  obtain q \<sigma>0 where S: "st_SaveWasm st ?h b \<sigma> = (q, \<sigma>0)" by fastforce
  have S': "q = None" "inv \<sigma>0" "view \<sigma>0 = view \<sigma>" using SaveWasm[OF \<sigma>(1) disjI2[OF \<sigma>(5)] S] by simp_all
  obtain res eng' \<sigma>1 e1 where X: "ExecuteWithArgs st M W (pf_clock P) Background iid ''run'' addr False [] ?eng \<sigma>0 e =
      (res, eng', \<sigma>1, e1)" by (metis prod_cases4)
  have ok: "i_meta (view \<sigma>0 iid) = Some meta" "WasmHash meta = eng_wasmHash ?eng" "instantiable (eng_compiled ?eng)"
    "modules (eng_runtime ?eng) (modName iid) = None" "boot W (init (eng_compiled ?eng)) = Some m0" "valid m0"
    "durable_image (view \<sigma>0 iid) (contents mC)" "length (contents m0) \<le> length (contents mC)"
    "growable M contents valid (length (contents mC))" "length (contents mC) < page_size * max_pages" "''run'' \<noteq> ''_start''"
    using S'(3) \<sigma>(2-4) P(4-6) g by (simp_all add: stops_at_def)
  obtain m1 f1 where R: "valid m1" "contents m1 = contents mC"
    "(res, \<sigma>1, e1) = run_entry ?H Background ''run'' [] m1 (new_session Background iid addr False meta (Some f1) m1) \<sigma>0 e"
    using execute_resumes[OF S'(2) ok X] by auto
  let ?s = "new_session Background iid addr False meta (Some f1) m1 :: ('m, 'e) session"
  have "idle_session ?s" by (simp add: idle_session_def new_session_def getDownloadHandler_def Background_def)
  from ends[OF R(1,2) _ this, of ?H \<sigma>0 e] obtain runFunc rs m2 s2 where
    "rt_ExportedFunction W m1 ''run'' = Some runFunc" "Call ?H (runFunc [] m1) ?s \<sigma>0 e = (Inr rs, m2, s2, \<sigma>0, e)"
    by auto
  then have "res = Ret (False, None)" "\<sigma>1 = \<sigma>0" "e1 = e"
    using R(3) by (simp_all add: run_entry_def classify_def Background_def)
  then show ?thesis using run_worker_execute[OF P(3) iid, of st \<sigma> \<sigma>0 addr False e] S S' X P(1,2) by auto
qed

lemma two_runs_ends:
  fixes P :: "('c, 'm, 'r, 'e) platform"
  assumes P: "pf_mem P = M" "pf_rt P = W" "deployed P wasmPath b c r" "modules r (modName iid) = None"
      "instantiable c" "boot W (init c) = Some m0"
    and iid: "iid \<noteq> []" "ok_str iid" "ok_str (pf_sha P b)"
    and \<sigma>: "inv \<sigma>" "view \<sigma> iid = empty_inst" "reg \<sigma> (pf_sha P b) = None \<or> reg \<sigma> (pf_sha P b) = Some b"
    and g: "stops_at iid m0 mC" and accept: "\<And>b. b \<noteq> [] \<Longrightarrow> accept b"
    and ends: "\<And>m1 H (s :: ('m, 'e) session) \<tau> x. valid m1 \<Longrightarrow> contents m1 = contents mC \<Longrightarrow> h_mem H = M \<Longrightarrow> idle_session s \<Longrightarrow>
      \<exists>runFunc res m2 s2. rt_ExportedFunction W m1 ''run'' = Some runFunc \<and>
        Call (H :: ('c, 'm, 'r, 's, 'e) host) (runFunc [] m1) s \<tau> x = (Inr res, m2, s2, \<tau>, x)"
  shows "\<exists>\<sigma>2. two_runs P st wasmPath addr iid accept \<sigma> e = (None, \<sigma>2, e) \<and> inv \<sigma>2 \<and>
    durable_image (view \<sigma>2 iid) (contents mC)"
proof -
  obtain \<sigma>1 meta where F: "run_worker P st wasmPath addr iid True \<sigma> e =
      (Ret (True, Some (rt_recovered W ''simulated_host_crash'')), \<sigma>1, e)" "inv \<sigma>1"
    "durable_image (view \<sigma>1 iid) (contents mC)" "i_meta (view \<sigma>1 iid) = Some meta" "WasmHash meta = pf_sha P b"
    "reg \<sigma>1 (pf_sha P b) = Some b"
    using first_run[OF P iid \<sigma> g, of addr e] by blast
  obtain snap where snap: "i_snapshot (view \<sigma>1 iid) = Some snap" "snap \<noteq> []" using F(3) by (auto simp: durable_image_def)
  obtain \<sigma>2 where R: "run_worker P st wasmPath addr iid False \<sigma>1 e = (Ret (False, None), \<sigma>2, e)" "inv \<sigma>2" "view \<sigma>2 = view \<sigma>1"
    using second_run[OF P iid(1) F(2-6) g ends, of addr e] by blast
  show ?thesis using F(1,3) R Load_Some[OF F(2) snap(1)] accept[OF snap(2)] by (simp add: two_runs_def)
qed

end

section \<open>The streaming worker without handlers\<close>

lemma handleDownload_idle: "idle_session s \<Longrightarrow> handleDownload M ptr len s e = (-1, s, e)"
  by (simp add: handleDownload_def idle_session_def split: option.split)

text \<open>The step fails at its first read, so the workflow returns -1 before another checkpoint.\<close>

lemma worker_run_starts:
  assumes "gg_currentStep G m = 0"
  shows "\<exists>k. worker_run G fuel params m = Checkpoint (gg_setCurrentStep G 1 m) k"
  using assms
  by (simp add: worker_run_def exported_run_def wf_Run_def gr_Run_def wf_Step_def NewWorkflow_def worker_initialize_def
      gr_Checkpoint_def go_guest.truncate_def)

lemma worker_run_fails:
  assumes "gg_currentStep G m = 1" "idle_session s" "h_mem H = M"
  shows "\<exists>m2 s2. Call H (worker_run G (Suc fuel) params m) s \<sigma> e = (Inr [ucast (-1 :: i32)], m2, s2, \<sigma>, e)"
proof -
  obtain p m1 where p: "gg_place G (replicate 4096 0) m = (p, m1)" by fastforce
  have "idle_session (s\<lparr>ses_memory := m1\<rparr>)" using assms(2) by (simp add: idle_session_def)
  then show ?thesis using assms p
    by (simp add: worker_run_def exported_run_def wf_Run_def gr_Run_def wf_Step_def NewWorkflow_def go_guest.truncate_def
        processStream_def Guest_Runner.Read_def stream_data_def handleDownload_idle io_EOF_def)
qed

end
