(* ===== verification/Host_Properties.thy ===== *)
theory Host_Properties
  imports Host_Runs List_Guest
begin

text \<open>
  The interpretations of \<open>worker_host\<close> for the three stores, and what the example hosts report: the S3
  example exits with success although its worker could not read a byte.
\<close>

section \<open>Hosts over the three stores\<close>

interpretation mem_host: worker_host "memory_ops cd" ms_inv ms_view version_cas "\<lambda>_. True" "\<lambda>_. True" ms_wasm
    list_memory "\<lambda>m. m" list_memory_valid "list_runtime mem0 exports" "\<lambda>r. r" "\<lambda>_. True" "\<lambda>_. mem0" for cd mem0 exports
  by (rule worker_host.intro[OF mem_store.wasm_store_axioms mem_engine.durable_engine_axioms])

interpretation fs_host: worker_host "fs_ops compact_codec dir" "fs_inv compact_codec dir" "fs_view compact_codec dir"
    version_cas valid_utf8 meta_utf8 "fs_reg compact_codec dir" list_memory "\<lambda>m. m" list_memory_valid
    "list_runtime mem0 exports" "\<lambda>r. r" "\<lambda>_. True" "\<lambda>_. mem0" for dir mem0 exports
  by (rule worker_host.intro[OF compact_fs.fs.wasm_store_axioms fs_engine.durable_engine_axioms])

interpretation s3_host: worker_host "s3_ops compact_codec (\<lambda>ks. ks) (the_store list_s3 bucket)"
    "s3_inv compact_codec list_up list_objs string_of_bytes bucket" "s3_view compact_codec list_objs string_of_bytes bucket"
    s3_cas valid_utf8 "s3_ok_meta compact_codec string_of_bytes" "s3_reg compact_codec list_objs bucket"
    list_memory "\<lambda>m. m" list_memory_valid "list_runtime mem0 exports" "\<lambda>r. r" "\<lambda>_. True" "\<lambda>_. mem0" for bucket mem0 exports
  by (rule worker_host.intro[OF list_bucket.s3.wasm_store_axioms s3_engine.durable_engine_axioms])

context s3_bucket_store
begin

lemma host:
  assumes "linear_memory M contents valid" "wazero_runtime W modules instantiable init"
  shows "worker_host (s3_ops cd arrival S) good see s3_cas valid_utf8 (s3_ok_meta cd etag) (s3_reg cd objs bucket)
    M contents valid W modules instantiable init"
  by (rule worker_host.intro[OF s3.wasm_store_axioms
        durable_engine.intro[OF s3_durable[OF s3_bucket_store_axioms assms(1)] assms(2)]])

end

section \<open>The S3 example\<close>

text \<open>
  C39. The S3 example reports success for a stream that was never processed. The host of
  \<open>examples/s3-store\<close> binds no stream handlers to its runner: it only passes the address of its server, which
  nothing uses. With the worker of the example deployed and a bucket in order, \<open>main\<close> ends with
  exit status 0 although the second run stopped at its first read: the environment, which is all that
  handlers could act on, is the one it started with, and the bucket holds the memory after step 0.
\<close>

theorem s3_example_reports_success:
  fixes P :: "('c, 'm, 'r, 'e) platform"
  assumes "s3_bucket_store C up objs etag cd arrival" "linear_memory M contents valid"
    and "wazero_runtime W modules instantiable init" "pf_mem P = M" "pf_rt P = W"
    and "bucket = or_default (getenv ''S3_BUCKET'') ''wasman-demo''" "\<And>env. LoadDefaultConfig env = Inr cfg"
    and "\<And>endpoint. NewFromConfig endpoint cfg = C" "CreateBucket bucket \<sigma>0 = (x, \<sigma>)"
    and "s3_inv cd up objs etag bucket \<sigma>" "s3_reg cd objs bucket \<sigma> (pf_sha P b) = None \<or> s3_reg cd objs bucket \<sigma> (pf_sha P b) = Some b"
    and "deployed P (or_default (getenv ''WASM_PATH'') ''../worker/worker.wasm'') b c r" "valid_utf8 (pf_sha P b)"
    and "modules r (modName ''s3-demo-instance'') = None" "instantiable c" "boot W (init c) = Some m0"
    and "\<And>m. rt_ExportedFunction W m ''run'' = Some (worker_run G (Suc fuel))" "gg_currentStep G m0 = 0"
    and "valid m0" "valid (gg_setCurrentStep G 1 m0)" "contents m0 \<noteq> []"
    and "length (contents (gg_setCurrentStep G 1 m0)) = length (contents m0)"
    and "\<And>m. valid m \<Longrightarrow> contents m = contents (gg_setCurrentStep G 1 m0) \<Longrightarrow> gg_currentStep G m = 1"
    and "length (contents m0) < page_size * max_pages" "growable M contents valid (length (contents m0))"
  shows "\<exists>\<sigma>'. s3_host_main P cd arrival getenv LoadDefaultConfig NewFromConfig CreateBucket \<sigma>0 e = (0, \<sigma>', e) \<and>
    durable_image (s3_view cd objs etag bucket \<sigma>' ''s3-demo-instance'') (contents (gg_setCurrentStep G 1 m0))"
proof -
  let ?iid = "''s3-demo-instance''" and ?mC = "gg_setCurrentStep G 1 m0" and ?st = "s3_ops cd arrival (the_store C bucket)"
  let ?path = "or_default (getenv ''WASM_PATH'') ''../worker/worker.wasm''"
  note H = s3_bucket_store.host[OF assms(1-3), where bucket = bucket]
  note WS = worker_host.axioms(1)[OF H]
  note SS = wasm_store.axioms(1)[OF WS]
  obtain y \<sigma>1 where D: "st_Delete ?st ?iid \<sigma> = (y, \<sigma>1)" by fastforce
  have \<sigma>1: "s3_inv cd up objs etag bucket \<sigma>1" "s3_view cd objs etag bucket \<sigma>1 ?iid = empty_inst"
    "s3_reg cd objs bucket \<sigma>1 (pf_sha P b) = None \<or> s3_reg cd objs bucket \<sigma>1 (pf_sha P b) = Some b"
    using snapshot_store.Delete[OF SS assms(10) D] wasm_store.reg_Delete[OF WS assms(10) D] assms(11) by simp_all
  have ne: "contents ?mC \<noteq> []" using assms(21,22) by (metis length_0_conv)
  have g: "worker_host.stops_at M contents valid W ?iid m0 ?mC"
    using worker_run_starts[of G m0 "Suc fuel" "[]"] assms(17-20,22,24,25) ne
    by (simp add: worker_host.stops_at_def[OF H])
  have u: "valid_utf8 ?iid" by (simp add: valid_utf8_def)
  have ends: "\<exists>runFunc res m2 s2. rt_ExportedFunction W m1 ''run'' = Some runFunc \<and>
      Call K (runFunc [] m1) s \<tau> z = (Inr res, m2, s2, \<tau>, z)"
    if "valid m1" "contents m1 = contents ?mC" "h_mem K = M" "idle_session s"
    for m1 and K :: "('c, 'm, 'r, 'o, 'e) host" and s \<tau> z
    using worker_run_fails[OF assms(23)[OF that(1,2)] that(4,3)] assms(17) by blast
  have "\<exists>\<sigma>2. two_runs P ?st ?path ''localhost:18080'' ?iid (\<lambda>snapshot. length snapshot \<noteq> 0) \<sigma>1 e = (None, \<sigma>2, e) \<and>
      s3_inv cd up objs etag bucket \<sigma>2 \<and> durable_image (s3_view cd objs etag bucket \<sigma>2 ?iid) (contents ?mC)"
  proof (rule worker_host.two_runs_ends[OF H, where P = P and b = b and c = c and r = r and ?m0.0 = m0 and mC = "?mC"])
    show "\<exists>runFunc res m2 s2. rt_ExportedFunction W m1 ''run'' = Some runFunc \<and>
        Call K (runFunc [] m1) s \<tau> z = (Inr res, m2, s2, \<tau>, z)"
      if "valid m1" "contents m1 = contents ?mC" "h_mem K = M" "idle_session s"
      for m1 and K :: "('c, 'm, 'r, 'o, 'e) host" and s \<tau> z
      by (rule ends[OF that])
  qed (use assms(4,5,12-16) u \<sigma>1 g in simp_all)
  then obtain \<sigma>2 where T: "two_runs P ?st ?path ''localhost:18080'' ?iid (\<lambda>snapshot. length snapshot \<noteq> 0) \<sigma>1 e = (None, \<sigma>2, e)"
    "durable_image (s3_view cd objs etag bucket \<sigma>2 ?iid) (contents ?mC)" by blast
  show ?thesis using T assms(6-9) D
    by (simp add: s3_host_main_def NewS3SnapshotStore_def the_store_def Let_def)
qed

text \<open>The worker over byte lists, and a platform that has it as its module file.\<close>

definition stream_exports :: "string \<Rightarrow> (u64 list \<Rightarrow> bytes \<Rightarrow> bytes guest) option" where
  "stream_exports n = (if n = ''run'' then Some (worker_run list_stream 20) else None)"

definition stream_platform :: "(bytes, bytes, string \<rightharpoonup> bytes, bytes list) platform" where
  "stream_platform = \<lparr> pf_mem = list_memory, pf_rt = list_runtime (one_page 0) stream_exports, pf_clock = (\<lambda>e. (42, e)),
     pf_ReadFile = (\<lambda>p. Inr [1]), pf_sha = (\<lambda>b. ''h1'') \<rparr>"

lemma stream_platform_sel [simp]:
  "pf_mem stream_platform = list_memory" "pf_rt stream_platform = list_runtime (one_page 0) stream_exports"
  "pf_sha stream_platform b = ''h1''"
  by (simp_all add: stream_platform_def)

lemma stream_deployed: "deployed stream_platform ''../worker/worker.wasm'' [1] [1] Map.empty"
  by (simp add: deployed_def stream_platform_def list_runtime_def)

lemma stream_boot: "boot (list_runtime m stream_exports) m' = Some m'"
  by (simp add: boot_def list_runtime_def stream_exports_def)

lemma list_stream_step: "gg_currentStep list_stream = read32 0" "gg_setCurrentStep list_stream = write32 0"
  by (simp_all add: list_stream_def)

theorem s3_example_reports_success_witness:
  "\<exists>\<sigma>'. s3_host_main stream_platform compact_codec (\<lambda>ks. ks) (\<lambda>v. []) (\<lambda>env. Inr ()) (\<lambda>endpoint cfg. list_s3)
      (\<lambda>b \<sigma>. (None, \<sigma>)) empty_bucket ([] :: bytes list) = (0, \<sigma>', []) \<and>
    durable_image (s3_view compact_codec list_objs string_of_bytes ''wasman-demo'' \<sigma>' ''s3-demo-instance'') (write32 0 1 (one_page 0))"
proof -
  have env: "''wasman-demo'' = or_default ((\<lambda>v. []) ''S3_BUCKET'') ''wasman-demo''"
    "or_default ((\<lambda>v. []) ''WASM_PATH'') ''../worker/worker.wasm'' = ''../worker/worker.wasm''" by (simp_all add: or_default_def)
  have reg: "s3_reg compact_codec list_objs ''wasman-demo'' empty_bucket (pf_sha stream_platform [1]) = None \<or>
      s3_reg compact_codec list_objs ''wasman-demo'' empty_bucket (pf_sha stream_platform [1]) = Some [1]"
    by (simp add: s3_reg_def blob_reg_def list_objs_def empty_bucket_def)
  have run: "rt_ExportedFunction (list_runtime (one_page 0) stream_exports) m ''run'' = Some (worker_run list_stream (Suc 19))" for m
    by (simp add: list_runtime_def stream_exports_def)
  have u: "valid_utf8 (pf_sha stream_platform [1])" by (simp add: valid_utf8_def)
  have m: "gg_currentStep list_stream (one_page 0) = 0" "list_memory_valid (gg_setCurrentStep list_stream 1 (one_page 0))"
    "length (gg_setCurrentStep list_stream 1 (one_page 0)) = length (one_page 0)"
    "\<And>x. list_memory_valid x \<Longrightarrow> x = gg_setCurrentStep list_stream 1 (one_page 0) \<Longrightarrow> gg_currentStep list_stream x = 1"
    "length (one_page 0) < page_size * max_pages"
    by (simp_all add: list_stream_step read32_one_page list_memory_valid_def)
  have "\<exists>\<sigma>'. s3_host_main stream_platform compact_codec (\<lambda>ks. ks) (\<lambda>v. []) (\<lambda>env. Inr ()) (\<lambda>endpoint cfg. list_s3)
      (\<lambda>b \<sigma>. (None, \<sigma>)) empty_bucket ([] :: bytes list) = (0, \<sigma>', []) \<and>
    durable_image (s3_view compact_codec list_objs string_of_bytes ''wasman-demo'' \<sigma>' ''s3-demo-instance'')
      (gg_setCurrentStep list_stream 1 (one_page 0))"
    by (rule s3_example_reports_success[where C = list_s3 and up = list_up and objs = list_objs and etag = string_of_bytes
        and M = list_memory and contents = "\<lambda>m. m" and valid = list_memory_valid
        and W = "list_runtime (one_page 0) stream_exports" and modules = "\<lambda>r. r" and instantiable = "\<lambda>_. True"
        and init = "\<lambda>_. one_page 0" and ?m0.0 = "one_page 0" and G = list_stream and cfg = "()" and b = "[1]" and c = "[1]"
        and r = Map.empty and fuel = 19 and bucket = "''wasman-demo''" and \<sigma> = empty_bucket and x = None])
      (use list_bucket.s3_bucket_store_axioms lm.linear_memory_axioms list_rt.wazero_runtime_axioms stream_deployed u stream_boot
         run m env reg one_page_growable in simp_all)
  then show ?thesis by (simp add: list_stream_step)
qed

end
