(* ===== verification/Gotenberg_Worker.thy ===== *)
theory Gotenberg_Worker
  imports Live_Steps
begin

text \<open>
  \<open>examples/gotenberg-telegram/worker/main.go\<close>: a workflow that reads a document from the download
  stream, uploads it to a converter, reads the answer and uploads that. Both documents are slices of the
  worker's state, in linear memory. The locale \<open>pipeline_program\<close> states what the compiled worker keeps
  there; its lemmas follow the transfers over the wrappers of the guest library and the stream handlers
  of the host, and the checkpoints between the steps.
\<close>

section \<open>The worker\<close>

text \<open>
  A slice in memory is its address and length. \<open>pg_append..\<close> is the assignment \<open>s.X = append(s.X, b...)\<close>.
\<close>

record 'm pipeline_guest = "'m go_guest" +
  pg_DocxBytes :: "'m \<Rightarrow> u32 \<times> nat"
  pg_PdfBytes :: "'m \<Rightarrow> u32 \<times> nat"
  pg_appendDocx :: "bytes \<Rightarrow> 'm \<Rightarrow> 'm"
  pg_appendPdf :: "bytes \<Rightarrow> 'm \<Rightarrow> 'm"

text \<open>The two fields of the state, for the code that is the same for both.\<close>

datatype field = Docx | Pdf

primrec pg_slice :: "'m pipeline_guest \<Rightarrow> field \<Rightarrow> 'm \<Rightarrow> u32 \<times> nat" where
  "pg_slice G Docx = pg_DocxBytes G"
| "pg_slice G Pdf = pg_PdfBytes G"

primrec pg_append :: "'m pipeline_guest \<Rightarrow> field \<Rightarrow> bytes \<Rightarrow> 'm \<Rightarrow> 'm" where
  "pg_append G Docx = pg_appendDocx G"
| "pg_append G Pdf = pg_appendPdf G"

text \<open>
  The loop that reads the stream into a field through the buffer at \<open>p\<close>. A slice beyond the buffer
  panics; the fuel bounds the number of reads.
\<close>

fun read_loop :: "'m pipeline_guest \<Rightarrow> field \<Rightarrow> string \<Rightarrow> u32 \<Rightarrow> nat \<Rightarrow> 'm step" where
  "read_loop G w msg p 0 k m = Trap m ''out of fuel''"
| "read_loop G w msg p (Suc fuel) k m =
     Guest_Runner.Read p 1024
       (\<lambda>(n, err) m1.
          if n > 1024 then Trap m1 slice_panic
          else
            (let m2 = (if n > 0 then pg_append G w (gg_bytes G p (nat n) m1) m1 else m1)
             in if err = Some io_EOF then k None m2
                else case err of
                  Some e \<Rightarrow> k (Some (Wrap msg e)) m2
                | None \<Rightarrow> read_loop G w msg p fuel k m2)) m"

definition read_all :: "'m pipeline_guest \<Rightarrow> field \<Rightarrow> string \<Rightarrow> nat \<Rightarrow> 'm step" where
  "read_all G w msg fuel k m = (let (p, m1) = gg_place G (replicate 1024 0) m in read_loop G w msg p fuel k m1)"

text \<open>The upload of a field and the end of the stream.\<close>

definition write_all :: "'m pipeline_guest \<Rightarrow> field \<Rightarrow> string \<Rightarrow> 'm step" where
  "write_all G w msg k m =
     (let (p, l) = pg_slice G w m
      in Guest_Runner.Write p l
           (\<lambda>(n, err) m1. case err of
              Some e \<Rightarrow> k (Some (Wrap msg e)) m1
            | None \<Rightarrow>
                (let len = int (snd (pg_slice G w m1))
                 in if n \<noteq> len
                    then k (Some (Err (''mismatch in bytes uploaded: expected '' @ FormatInt len @ '', got '' @ FormatInt n))) m1
                    else Guest_Runner.Close
                           (\<lambda>err m2. case err of
                              Some e \<Rightarrow> k (Some (Wrap ''failed to close writer'' e)) m2
                            | None \<Rightarrow> k None m2) m1)) m)"

definition pg_initialize :: "'m step" where
  "pg_initialize k m = k None m"

definition downloadDocx :: "'m pipeline_guest \<Rightarrow> nat \<Rightarrow> 'm step" where
  "downloadDocx G fuel = read_all G Docx ''download failed'' fuel"

definition convertToPdf :: "'m pipeline_guest \<Rightarrow> nat \<Rightarrow> 'm step" where
  "convertToPdf G fuel k m =
     write_all G Docx ''gotenberg upload failed''
       (\<lambda>err m1. case err of Some e \<Rightarrow> k (Some e) m1
          | None \<Rightarrow> read_all G Pdf ''gotenberg download failed'' fuel k m1) m"

definition sendPdfToUser :: "'m pipeline_guest \<Rightarrow> 'm step" where
  "sendPdfToUser G = write_all G Pdf ''telegram upload failed''"

definition pg_finalizeWorkflow :: "'m step" where
  "pg_finalizeWorkflow k m = k None m"

definition pipeline_steps :: "'m pipeline_guest \<Rightarrow> nat \<Rightarrow> 'm step list" where
  "pipeline_steps G fuel =
     [pg_initialize, downloadDocx G fuel, convertToPdf G fuel, sendPdfToUser G, pg_finalizeWorkflow]"

definition pipeline_run :: "'m pipeline_guest \<Rightarrow> nat \<Rightarrow> u64 list \<Rightarrow> 'm \<Rightarrow> 'm guest" where
  "pipeline_run G fuel = exported_run (go_guest.truncate G)
     (wf_Step pg_finalizeWorkflow (wf_Step (sendPdfToUser G) (wf_Step (convertToPdf G fuel)
       (wf_Step (downloadDocx G fuel) (wf_Step pg_initialize NewWorkflow)))))"

lemma pipeline_run_steps:
  "pipeline_run G fuel params m =
     run_loop (go_guest.truncate G) (\<lambda>m. Trap m ''out of fuel'') (pipeline_steps G fuel) 6 (\<lambda>r m1. Return m1 [ucast r]) m"
  by (simp add: pipeline_run_def exported_run_def wf_Run_def gr_Run_def wf_Step_def NewWorkflow_def pipeline_steps_def
      eval_nat_numeral del: run_loop.simps)

section \<open>What the compiled worker keeps in memory\<close>

text \<open>The content of a field.\<close>

definition field_data :: "'m pipeline_guest \<Rightarrow> ('m \<Rightarrow> bytes) \<Rightarrow> field \<Rightarrow> 'm \<Rightarrow> bytes" where
  "field_data G contents w m = (case pg_slice G w m of (p, l) \<Rightarrow> go_slice (unat p) l (contents m))"

text \<open>
  \<open>ok\<close> says that the heap is well formed and \<open>buf p\<close> that the buffer of a loop is live at \<open>p\<close>. The heap has
  room for one such buffer and for fields of up to \<open>L\<close> bytes; what the host writes into the buffer changes
  nothing else, and the fields and \<open>currentStep\<close> do not overlap.
\<close>

locale pipeline_program = linear_memory M contents valid
  for M :: "'m memory_api" and contents and valid +
  fixes G :: "'m pipeline_guest" and ok :: "'m \<Rightarrow> bool" and buf :: "u32 \<Rightarrow> 'm \<Rightarrow> bool" and L :: nat
  assumes ok_valid: "ok m \<Longrightarrow> valid m \<and> contents m \<noteq> [] \<and> length (contents m) < page_size * max_pages"
    and place: "ok m \<Longrightarrow> gg_place G (replicate 1024 0) m = (p, m') \<Longrightarrow> ok m' \<and> buf p m' \<and>
      field_data G contents w m' = field_data G contents w m \<and> gg_currentStep G m' = gg_currentStep G m"
    and buf_fits: "ok m \<Longrightarrow> buf p m \<Longrightarrow> unat p + 1024 \<le> length (contents m) \<and> unat p + 1024 < 2 ^ 31"
    and buf_apart: "ok m \<Longrightarrow> buf p m \<Longrightarrow> valid m' \<Longrightarrow> same_outside (unat p) 1024 (contents m) (contents m') \<Longrightarrow>
      ok m' \<and> buf p m' \<and> field_data G contents w m' = field_data G contents w m \<and> gg_currentStep G m' = gg_currentStep G m"
    and read: "ok m \<Longrightarrow> gg_bytes G p n m = go_slice (unat p) n (contents m)"
    and append_field: "ok m \<Longrightarrow> buf p m \<Longrightarrow> length (field_data G contents w m) + length bs \<le> L \<Longrightarrow>
      ok (pg_append G w bs m) \<and> buf p (pg_append G w bs m) \<and> gg_currentStep G (pg_append G w bs m) = gg_currentStep G m \<and>
      field_data G contents w' (pg_append G w bs m) =
        (if w' = w then field_data G contents w m @ bs else field_data G contents w' m)"
    and field_fits: "ok m \<Longrightarrow> pg_slice G w m = (p, l) \<Longrightarrow> unat p + l \<le> length (contents m) \<and> unat p + l < 2 ^ 31"
    and set_step: "ok m \<Longrightarrow> ok (gg_setCurrentStep G v m) \<and> gg_currentStep G (gg_setCurrentStep G v m) = v \<and>
      field_data G contents w (gg_setCurrentStep G v m) = field_data G contents w m"
begin

abbreviation data :: "field \<Rightarrow> 'm \<Rightarrow> bytes" where "data \<equiv> field_data G contents"

lemma slice_length: "ok m \<Longrightarrow> pg_slice G w m = (p, l) \<Longrightarrow> length (data w m) = l"
  using field_fits[of m w p l] by (auto simp: field_data_def go_slice_def)

end

section \<open>The transfers\<close>

context pipeline_program
begin

lemma read_loop_all:
  fixes s :: "('m, 'e) session"
  assumes H: "h_mem H = M" and m: "ok m" "buf p m" and st: "streaming s rest"
    and fits: "length (data w m) + length rest \<le> L" and fuel: "length rest \<le> 1024 * fuel"
  shows "\<exists>m1 s1. ok m1 \<and> gg_currentStep G m1 = gg_currentStep G m \<and>
    (\<forall>w'. data w' m1 = (if w' = w then data w m @ rest else data w' m)) \<and>
    same_core s s1 \<and> ses_uploadBuffer s1 = ses_uploadBuffer s \<and> ses_downloadEOF s1 \<and>
    (\<forall>k. Call H (read_loop G w msg p (Suc fuel) k m) s \<sigma> e = Call H (k None m1) s1 \<sigma> e)"
  using m st fits fuel
proof (induction fuel arbitrary: m s rest)
  case 0
  then have "rest = []" by simp
  note B = buf_fits[OF 0(1,2)] and V = ok_valid[OF 0(1)]
  have pos: "(0::nat) < 1024" by simp
  obtain r eof where R: "streaming (s\<lparr>ses_downloadReader := r, ses_downloadEOF := eof, ses_memory := m\<rparr>) []" "eof"
    "Call H (Guest_Runner.Read p 1024 c m) s \<sigma> e =
       Call H (c (0, Some io_EOF) m) (s\<lparr>ses_downloadReader := r, ses_downloadEOF := eof, ses_memory := m\<rparr>) \<sigma> e" for c
    using Read_into[OF H _ _ _ _ pos 0(3), of m p \<sigma> e] V B \<open>rest = []\<close> by auto
  show ?case
    using R 0(1) \<open>rest = []\<close>
    by (intro exI[of _ m] exI[of _ "s\<lparr>ses_downloadReader := r, ses_downloadEOF := eof, ses_memory := m\<rparr>"]) (simp add: io_EOF_def)
next
  case (Suc fuel)
  note B = buf_fits[OF Suc.prems(1,2)] and V = ok_valid[OF Suc.prems(1)]
  have pos: "(0::nat) < 1024" by simp
  let ?c = "take 1024 rest" and ?d = "drop 1024 rest"
  obtain m1 r eof where R: "valid m1" "same_outside (unat p) 1024 (contents m) (contents m1)"
    "go_slice (unat p) (length ?c) (contents m1) = ?c"
    "streaming (s\<lparr>ses_downloadReader := r, ses_downloadEOF := eof, ses_memory := m1\<rparr>) ?d"
    "rest = [] \<longrightarrow> eof \<and> m1 = m"
    "\<And>c. Call H (Guest_Runner.Read p 1024 c m) s \<sigma> e =
       Call H (c (if rest = [] then (0, Some io_EOF) else (int (length ?c), None)) m1)
         (s\<lparr>ses_downloadReader := r, ses_downloadEOF := eof, ses_memory := m1\<rparr>) \<sigma> e"
    using Read_into[OF H _ _ _ _ pos Suc.prems(3), of m p \<sigma> e] V B by auto
  let ?s1 = "s\<lparr>ses_downloadReader := r, ses_downloadEOF := eof, ses_memory := m1\<rparr>"
  show ?case
  proof (cases "rest = []")
    case True
    then show ?thesis using R(5) R(6) Suc.prems(1)
      by (intro exI[of _ m] exI[of _ ?s1]) (simp add: io_EOF_def)
  next
    case False
    note A = buf_apart[OF Suc.prems(1,2) R(1,2)]
    have l: "0 < length ?c" "length ?c \<le> 1024" using False by simp_all
    let ?m2 = "pg_append G w ?c m1"
    have "length (data w m1) + length ?c \<le> L" using A[of w] Suc.prems(4) l by (simp add: min_def split: if_splits)
    note P = append_field[OF conjunct1[OF A] conjunct1[OF conjunct2[OF A]] this]
    have fit: "length (data w ?m2) + length ?d \<le> L" using P[of w] A[of w] Suc.prems(4) by (simp add: min_def split: if_splits)
    have fuel: "length ?d \<le> 1024 * fuel" using Suc.prems(5) by simp
    obtain m3 s3 where I: "ok m3" "gg_currentStep G m3 = gg_currentStep G ?m2"
      "\<And>w'. data w' m3 = (if w' = w then data w ?m2 @ ?d else data w' ?m2)"
      "same_core ?s1 s3" "ses_uploadBuffer s3 = ses_uploadBuffer ?s1" "ses_downloadEOF s3"
      "\<And>k. Call H (read_loop G w msg p (Suc fuel) k ?m2) ?s1 \<sigma> e = Call H (k None m3) s3 \<sigma> e"
      using Suc.IH[OF conjunct1[OF P] conjunct1[OF conjunct2[OF P]] R(4) fit fuel] by blast
    have "Call H (read_loop G w msg p (Suc (Suc fuel)) k m) s \<sigma> e = Call H (k None m3) s3 \<sigma> e" for k
      unfolding I(7)[symmetric]
      using l R(3) read[OF conjunct1[OF A], of p "length ?c"] False
      by (subst read_loop.simps(2)) (simp add: R(6) Let_def del: read_loop.simps length_take)
    moreover have "data w' m3 = (if w' = w then data w m @ rest else data w' m)" for w'
      using I(3)[of w'] P[of w'] P[of w] A[of w'] A[of w] by simp
    moreover have "same_core s s3" using I(4) by (simp add: same_core_def)
    ultimately show ?thesis using I P[of w] A[of w] by (intro exI[of _ m3] exI[of _ s3]) simp
  qed
qed

lemma read_all_field:
  fixes s :: "('m, 'e) session"
  assumes H: "h_mem H = M" and m: "ok m" and s: "at_start s" "ses_DownloadHandler s = Some dl" "dl e = (Inr d, e1)"
    and fits: "length (data w m) + length d \<le> L" and fuel: "length d \<le> 1024 * fuel"
  shows "\<exists>m1 s1. ok m1 \<and> gg_currentStep G m1 = gg_currentStep G m \<and>
    (\<forall>w'. data w' m1 = (if w' = w then data w m @ d else data w' m)) \<and>
    same_core s s1 \<and> ses_uploadBuffer s1 = [] \<and>
    (\<forall>k. Call H (read_all G w msg (Suc fuel) k m) s \<sigma> e = Call H (k None m1) s1 \<sigma> e1)"
proof -
  obtain p m0 where p: "gg_place G (replicate 1024 0) m = (p, m0)" by fastforce
  note P = place[OF m p]
  have ok: "ok m0" "buf p m0" using P by blast+
  note B = buf_fits[OF ok] and V = ok_valid[OF ok(1)]
  let ?s = "s\<lparr>ses_downloadReader := Some d\<rparr>"
  have st: "streaming ?s d" using s(1) by (simp add: streaming_def)
  have first: "Call H (read_loop G w msg p (Suc fuel) k m0) s \<sigma> e = Call H (read_loop G w msg p (Suc fuel) k m0) ?s \<sigma> e1" for k
    using Read_first[OF H _ _ _ _ _ _ s(2,3), of m0 p 1024 _ \<sigma>] V B s(1) by simp
  have f: "length (data w m0) + length d \<le> L" using fits P[of w] by simp
  obtain m1 s1 where R: "ok m1" "gg_currentStep G m1 = gg_currentStep G m0"
    "\<And>w'. data w' m1 = (if w' = w then data w m0 @ d else data w' m0)"
    "same_core ?s s1" "ses_uploadBuffer s1 = ses_uploadBuffer ?s"
    "\<And>k. Call H (read_loop G w msg p (Suc fuel) k m0) ?s \<sigma> e1 = Call H (k None m1) s1 \<sigma> e1"
    using read_loop_all[OF H ok st f fuel] by blast
  have "same_core s s1" using R(4) by (simp add: same_core_def)
  then show ?thesis using R first p s(1) place[OF m p]
    by (intro exI[of _ m1] exI[of _ s1]) (simp add: read_all_def del: read_loop.simps)
qed

text \<open>An upload hands over the whole field, and makes the stream ready whatever the handler answers.\<close>

lemma write_all_field:
  fixes s :: "('m, 'e) session"
  assumes H: "h_mem H = M" and m: "ok m" "data w m \<noteq> []"
    and s: "ses_uploadBuffer s = []" "ses_UploadHandler s = Some hu" "hu (data w m) e = (err, e1)"
  shows "\<exists>s1. same_core s s1 \<and> at_start s1 \<and>
    (\<forall>k. Call H (write_all G w msg k m) s \<sigma> e = Call H (k None m) s1 \<sigma> e1)"
proof -
  obtain p l where p: "pg_slice G w m = (p, l)" by fastforce
  note F = field_fits[OF m(1) p] and V = ok_valid[OF m(1)]
  have "0 < length (data w m)" using m(2) by simp
  then have l: "0 < l" "data w m = go_slice (unat p) l (contents m)"
    using p by (simp only: slice_length[OF m(1) p]) (simp add: field_data_def p)
  let ?s1 = "s\<lparr>ses_uploadBuffer := data w m, ses_memory := m\<rparr>"
  have W: "Call H (Guest_Runner.Write p l c m) s \<sigma> e = Call H (c (int l, None) m) ?s1 \<sigma> e" for c
    using Write_chunk[OF H _ _ _ _ l(1), of m p c s \<sigma> e] F V s(1) l(2) by simp
  have C: "Call H (Guest_Runner.Close c m) ?s1 \<sigma> e = Call H (c None m)
      (?s1\<lparr>ses_memory := m, ses_uploadBuffer := [], ses_downloadReader := None, ses_downloadEOF := False\<rparr>) \<sigma> e1" for c
    using V s m(2) by (intro Close_upload[OF H, where hu = hu and err = err]) simp_all
  show ?thesis using p
    by (intro exI[of _ "?s1\<lparr>ses_memory := m, ses_uploadBuffer := [], ses_downloadReader := None, ses_downloadEOF := False\<rparr>"])
       (simp add: write_all_def W C)
qed

end

section \<open>The whole workflow\<close>

locale live_pipeline = durable st inv view cas ok_str ok_meta M contents valid + pipeline_program M contents valid G ok buf L
  for st :: "'s store_ops" and inv and view and cas and ok_str and ok_meta
    and M :: "'m memory_api" and contents and valid and G :: "'m pipeline_guest" and ok and buf and L

sublocale live_pipeline \<subseteq> steps: live_steps st inv view cas ok_str ok_meta M contents valid "go_guest.truncate G" ok
  by unfold_locales (use ok_valid set_step in \<open>auto simp: truncated\<close>)

context live_pipeline
begin

lemmas advance = steps.advance[unfolded truncated]

lemma pipeline_all:
  fixes s :: "('m, 'e) session"
  assumes H: "h_store H = st" "h_mem H = M" "ok_str (h_wasmHash H)"
    and m: "ok m" "gg_currentStep G m = 0" "data Docx m = []" "data Pdf m = []"
    and s: "ready iid v dl hu s \<sigma>" "at_start s"
    and env: "dl e = (Inr docx, e1)" "hu docx e1 = (err1, e2)" "dl e2 = (Inr pdf, e3)" "hu pdf e3 = (err2, e4)"
    and size: "docx \<noteq> []" "pdf \<noteq> []" "length docx \<le> L" "length pdf \<le> L" "length docx \<le> 1024 * fuel" "length pdf \<le> 1024 * fuel"
  shows "\<exists>m' s' \<sigma>'. Call H (pipeline_run G (Suc fuel) params m) s \<sigma> e = (Inr [0], m', s', \<sigma>', e4) \<and>
    data Docx m' = docx \<and> data Pdf m' = pdf \<and> version_of (i_meta (view \<sigma>' iid)) = v + 5"
proof -
  let ?steps = "pipeline_steps G (Suc fuel)"
  let ?set = "\<lambda>i m. gg_setCurrentStep G (of_nat i) m"
  have len: "length ?steps = 5" "length ?steps < 2 ^ 31" by (simp_all add: pipeline_steps_def)
  have nth: "?steps ! 0 = pg_initialize" "?steps ! 1 = downloadDocx G (Suc fuel)" "?steps ! 2 = convertToPdf G (Suc fuel)"
    "?steps ! 3 = sendPdfToUser G" "?steps ! 4 = pg_finalizeWorkflow" by (simp_all add: pipeline_steps_def)
  let ?loop = "run_loop (go_guest.truncate G) (\<lambda>m. Trap m ''out of fuel'') ?steps"
  define k where "k = (\<lambda>(r :: i32) m1 :: 'm. Return m1 [ucast r])"
  \<comment> \<open>initialize\<close>
  have "Call H ((?steps ! 0) c m) s \<sigma> e = Call H (c None m) s \<sigma> e" for c by (simp add: nth pg_initialize_def)
  from advance[OF H _ _ len(2) s(1) this m(1) refl _, of 1] obtain s1 \<sigma>1 where
    1: "ready iid (v + 1) dl hu s1 \<sigma>1" "same_streams s s1"
    "\<And>fuel. Call H (?loop (Suc fuel) k m) s \<sigma> e = Call H (?loop fuel k (?set 1 m)) s1 \<sigma>1 e"
    using m(2) len by (auto simp: same_core_def simp del: run_loop.simps)
  have m1: "ok (?set 1 m)" "gg_currentStep G (?set 1 m) = of_nat 1" "data w (?set 1 m) = []" for w
    using set_step[OF m(1)] m(3,4) by (cases w, auto)+
  have a1: "at_start s1" "ses_DownloadHandler s1 = Some dl"
    using 1(1,2) s(2) by (simp_all add: same_streams_def ready_def)
  have l1: "length (data Docx (?set 1 m)) + length docx \<le> L" using m1(3) size(3) by simp
  \<comment> \<open>downloadDocx\<close>
  obtain m2 t2 where t2: "ok m2" "gg_currentStep G m2 = gg_currentStep G (?set 1 m)"
    "data Docx m2 = docx" "data Pdf m2 = []" "same_core s1 t2" "ses_uploadBuffer t2 = []"
    "\<And>c. Call H ((?steps ! 1) c (?set 1 m)) s1 \<sigma>1 e = Call H (c None m2) t2 \<sigma>1 e1"
    using read_all_field[OF H(2) m1(1) a1 env(1) l1 size(5)] m1(3) unfolding nth downloadDocx_def by (metis append_Nil field.distinct(1))
  from advance[OF H m1(2) _ len(2) 1(1) t2(7) t2(1,2) t2(5), of 2] obtain s2 \<sigma>2 where
    2: "ready iid (v + 1 + 1) dl hu s2 \<sigma>2" "same_streams t2 s2"
    "\<And>fuel. Call H (?loop (Suc fuel) k (?set 1 m)) s1 \<sigma>1 e = Call H (?loop fuel k (?set 2 m2)) s2 \<sigma>2 e1"
    using len by (auto simp: same_core_def simp del: run_loop.simps)
  have m2: "ok (?set 2 m2)" "gg_currentStep G (?set 2 m2) = of_nat 2" "data Docx (?set 2 m2) = docx" "data Pdf (?set 2 m2) = []"
    using set_step[OF t2(1)] t2(3,4) by auto
  \<comment> \<open>convertToPdf\<close>
  have a2: "ses_uploadBuffer s2 = []" "ses_UploadHandler s2 = Some hu"
    using 2(1,2) t2(6) by (simp_all add: same_streams_def ready_def)
  have d2: "data Docx (?set 2 m2) \<noteq> []" "hu (data Docx (?set 2 m2)) e1 = (err1, e2)" using m2(3) size(1) env(2) by simp_all
  obtain u2 where u2: "same_core s2 u2" "at_start u2"
    "\<And>c. Call H (write_all G Docx ''gotenberg upload failed'' c (?set 2 m2)) s2 \<sigma>2 e1 = Call H (c None (?set 2 m2)) u2 \<sigma>2 e2"
    using write_all_field[OF H(2) m2(1) d2(1) a2 d2(2)] by blast
  have a3: "ses_DownloadHandler u2 = Some dl" using u2(1) 2(1) by (simp add: same_core_def ready_def)
  have l3: "length (data Pdf (?set 2 m2)) + length pdf \<le> L" using m2(4) size(4) by simp
  obtain m3 t3 where t3: "ok m3" "gg_currentStep G m3 = gg_currentStep G (?set 2 m2)"
    "data Docx m3 = docx" "data Pdf m3 = pdf" "same_core u2 t3" "ses_uploadBuffer t3 = []"
    "\<And>c. Call H (read_all G Pdf ''gotenberg download failed'' (Suc fuel) c (?set 2 m2)) u2 \<sigma>2 e2 = Call H (c None m3) t3 \<sigma>2 e3"
    using read_all_field[OF H(2) m2(1) u2(2) a3 env(3) l3 size(6)] m2(3,4) by (metis append_Nil field.distinct(1))
  have c3: "Call H ((?steps ! 2) c (?set 2 m2)) s2 \<sigma>2 e1 = Call H (c None m3) t3 \<sigma>2 e3" for c
    unfolding nth convertToPdf_def u2(3) option.case by (rule t3(7))
  from advance[OF H m2(2) _ len(2) 2(1) c3 t3(1,2) same_core_trans[OF u2(1) t3(5)], of 3] obtain s3 \<sigma>3 where
    3: "ready iid (v + 1 + 1 + 1) dl hu s3 \<sigma>3" "same_streams t3 s3"
    "\<And>fuel. Call H (?loop (Suc fuel) k (?set 2 m2)) s2 \<sigma>2 e1 = Call H (?loop fuel k (?set 3 m3)) s3 \<sigma>3 e3"
    using len by (auto simp: same_core_def simp del: run_loop.simps)
  have m3: "ok (?set 3 m3)" "gg_currentStep G (?set 3 m3) = of_nat 3" "data Docx (?set 3 m3) = docx" "data Pdf (?set 3 m3) = pdf"
    using set_step[OF t3(1)] t3(3,4) by auto
  \<comment> \<open>sendPdfToUser\<close>
  have a4: "ses_uploadBuffer s3 = []" "ses_UploadHandler s3 = Some hu"
    using 3(1,2) t3(6) by (simp_all add: same_streams_def ready_def)
  have d4: "data Pdf (?set 3 m3) \<noteq> []" "hu (data Pdf (?set 3 m3)) e3 = (err2, e4)" using m3(4) size(2) env(4) by simp_all
  obtain t4 where t4: "same_core s3 t4"
    "\<And>c. Call H ((?steps ! 3) c (?set 3 m3)) s3 \<sigma>3 e3 = Call H (c None (?set 3 m3)) t4 \<sigma>3 e4"
    using write_all_field[OF H(2) m3(1) d4(1) a4 d4(2)] unfolding nth sendPdfToUser_def by blast
  from advance[OF H m3(2) _ len(2) 3(1) t4(2) m3(1) refl t4(1), of 4] obtain s4 \<sigma>4 where
    4: "ready iid (v + 1 + 1 + 1 + 1) dl hu s4 \<sigma>4"
    "\<And>fuel. Call H (?loop (Suc fuel) k (?set 3 m3)) s3 \<sigma>3 e3 = Call H (?loop fuel k (?set 4 (?set 3 m3))) s4 \<sigma>4 e4"
    using len by (auto simp: same_core_def simp del: run_loop.simps)
  let ?m4 = "?set 4 (?set 3 m3)"
  have m4: "ok ?m4" "gg_currentStep G ?m4 = of_nat 4" "data Docx ?m4 = docx" "data Pdf ?m4 = pdf"
    using set_step[OF m3(1)] m3(3,4) by auto
  \<comment> \<open>finalizeWorkflow\<close>
  have c4: "Call H ((?steps ! 4) c ?m4) s4 \<sigma>4 e4 = Call H (c None ?m4) s4 \<sigma>4 e4" for c by (simp add: nth pg_finalizeWorkflow_def)
  have i4: "4 < length ?steps" "same_core s4 s4" "(5::nat) = Suc 4" using len(1) by simp_all
  obtain s5 \<sigma>5 where 5: "version_of (i_meta (view \<sigma>5 iid)) = v + 1 + 1 + 1 + 1 + 1"
    "\<And>fuel. Call H (?loop (Suc fuel) k ?m4) s4 \<sigma>4 e4 = Call H (?loop fuel k (?set 5 ?m4)) s5 \<sigma>5 e4"
    using advance[OF H m4(2) i4(1) len(2) 4(1) c4 m4(1) refl i4(2,3)] by blast
  have m5: "gg_currentStep G (?set 5 ?m4) = 5" "data Docx (?set 5 ?m4) = docx" "data Pdf (?set 5 ?m4) = pdf"
    using set_step[OF m4(1)] m4(3,4) by auto
  have sucs: "Suc 5 = 6" "Suc 4 = 5" "Suc 3 = 4" "Suc 2 = 3" "Suc 1 = 2" by simp_all
  have "Call H (?loop 6 k m) s \<sigma> e = Call H (?loop 1 k (?set 5 ?m4)) s5 \<sigma>5 e4"
    using 1(3)[of 5] 2(3)[of 4] 3(3)[of 3] 4(2)[of 2] 5(2)[of 1] by (simp only: sucs)
  also have "\<dots> = (Inr [0], ?set 5 ?m4, s5, \<sigma>5, e4)"
  proof -
    have "sint (gg_currentStep (go_guest.truncate G) (?set 5 ?m4)) = 5" using m5(1) by (simp add: go_guest.truncate_def)
    then show ?thesis using len(1) by (simp add: k_def)
  qed
  finally have "Call H (pipeline_run G (Suc fuel) params m) s \<sigma> e = (Inr [0], ?set 5 ?m4, s5, \<sigma>5, e4)"
    unfolding pipeline_run_steps k_def .
  moreover have "version_of (i_meta (view \<sigma>5 iid)) = v + 5" using 5(1) by simp
  ultimately show ?thesis using m5(2,3) by blast
qed

end

end
