(* ===== verification/Gotenberg_Properties.thy ===== *)
theory Gotenberg_Properties
  imports Gotenberg_Worker Example_Hosts List_Guest
begin

text \<open>
  The pipeline of the Gotenberg example from the first step to the last, and an instance of it: the worker
  over byte lists, the in-memory store and the mock server of the example.
\<close>

section \<open>The worker over byte lists\<close>

text \<open>
  Four pages: the words of the state (\<open>currentStep\<close> and the lengths of the two fields) in the first, the
  buffer of the loops in the second, and the fields in the others.
\<close>

definition list_pipeline :: "bytes pipeline_guest" where
  "list_pipeline = \<lparr> gg_currentStep = read32 0, gg_setCurrentStep = write32 0,
     gg_place = (\<lambda>b m. (65536, overwrite m 65536 b)), gg_bytes = (\<lambda>p n m. go_slice (unat p) n m),
     pg_DocxBytes = (\<lambda>m. (131072, unat (read32 4 m))), pg_PdfBytes = (\<lambda>m. (196608, unat (read32 8 m))),
     pg_appendDocx = (\<lambda>b m. write32 4 (read32 4 m + word_of_nat (length b)) (overwrite m (131072 + unat (read32 4 m)) b)),
     pg_appendPdf = (\<lambda>b m. write32 8 (read32 8 m + word_of_nat (length b)) (overwrite m (196608 + unat (read32 8 m)) b)) \<rparr>"

lemma list_pipeline_simps [simp]:
  "gg_currentStep list_pipeline = read32 0" "gg_setCurrentStep list_pipeline = write32 0"
  "gg_place list_pipeline b m = (65536, overwrite m 65536 b)" "gg_bytes list_pipeline p n m = go_slice (unat p) n m"
  "pg_DocxBytes list_pipeline m = (131072, unat (read32 4 m))" "pg_PdfBytes list_pipeline m = (196608, unat (read32 8 m))"
  by (simp_all add: list_pipeline_def)

definition list_heap :: "bytes \<Rightarrow> bool" where
  "list_heap m \<longleftrightarrow> length m = 262144 \<and> unat (read32 4 m) \<le> 65536 \<and> unat (read32 8 m) \<le> 65536"

definition list_buf :: "u32 \<Rightarrow> bytes \<Rightarrow> bool" where
  "list_buf p m \<longleftrightarrow> p = 65536"

lemma list_data:
  "field_data list_pipeline (\<lambda>m. m) Docx m = go_slice 131072 (unat (read32 4 m)) m"
  "field_data list_pipeline (\<lambda>m. m) Pdf m = go_slice 196608 (unat (read32 8 m)) m"
  by (simp_all add: field_data_def)

lemma list_append:
  assumes "length m = 262144"
  shows "unat (read32 4 m) + length b \<le> 65536 \<Longrightarrow> m' = pg_append list_pipeline Docx b m \<Longrightarrow>
      length m' = 262144 \<and> read32 0 m' = read32 0 m \<and> unat (read32 4 m') = unat (read32 4 m) + length b \<and>
      read32 8 m' = read32 8 m \<and> go_slice 131072 (unat (read32 4 m) + length b) m' = go_slice 131072 (unat (read32 4 m)) m @ b \<and>
      go_slice 196608 l m' = go_slice 196608 l m"
    and "unat (read32 8 m) + length b \<le> 65536 \<Longrightarrow> m' = pg_append list_pipeline Pdf b m \<Longrightarrow>
      length m' = 262144 \<and> read32 0 m' = read32 0 m \<and> unat (read32 8 m') = unat (read32 8 m) + length b \<and>
      read32 4 m' = read32 4 m \<and> go_slice 196608 (unat (read32 8 m) + length b) m' = go_slice 196608 (unat (read32 8 m)) m @ b \<and>
      (l \<le> 65536 \<longrightarrow> go_slice 131072 l m' = go_slice 131072 l m)"
  using assms by (simp_all add: list_pipeline_def read32_write32_other read32_overwrite unat_grow slice_write32
      slice_extend slice_overwrite_apart)

interpretation list_pipeline: pipeline_program list_memory "\<lambda>m. m" list_memory_valid list_pipeline list_heap list_buf 65536
proof (unfold_locales, goal_cases)
  case (1 m)
  then show ?case by (auto simp: list_heap_def list_memory_valid_def)
next
  case (2 m p m' w)
  then have m': "p = 65536" "m' = overwrite m 65536 (replicate 1024 0)" "length m = 262144" by (simp_all add: list_heap_def)
  then show ?case using 2(1)
    by (cases w) (simp_all add: list_heap_def list_buf_def list_data read32_overwrite slice_overwrite_apart)
next
  case (4 m p m' w)
  have p: "unat p = 65536" using 4(2) by (simp add: list_buf_def)
  have r: "read32 a m' = read32 a m" if "a + 3 < 65536" for a
    using same_outside_nth[OF 4(4)] that p by (intro read32_cong) auto
  have s: "go_slice i l m' = go_slice i l m" if "66560 \<le> i" for i l
    using same_outside_slice[OF 4(4), of i l] that p by simp
  have "length m' = length m" using 4(4) by (simp add: same_outside_def)
  then show ?case using 4(1,2) by (cases w) (simp_all add: list_heap_def list_buf_def list_data r s)
next
  case (6 m p w bs w')
  then have m: "length m = 262144" "unat (read32 4 m) \<le> 65536" "unat (read32 8 m) \<le> 65536" by (simp_all add: list_heap_def)
  have D: "length (field_data list_pipeline (\<lambda>m. m) Docx m) = unat (read32 4 m)"
    "length (field_data list_pipeline (\<lambda>m. m) Pdf m) = unat (read32 8 m)"
    using m by (simp_all add: list_data go_slice_def)
  show ?case
  proof (cases w)
    case Docx
    then have "unat (read32 4 m) + length bs \<le> 65536" using 6(3) D by simp
    from list_append(1)[OF m(1) this refl] show ?thesis using Docx m 6(2) D 6(3)
      by (cases w') (simp_all add: list_heap_def list_buf_def list_data del: pg_append.simps)
  next
    case Pdf
    then have "unat (read32 8 m) + length bs \<le> 65536" using 6(3) D by simp
    from list_append(2)[OF m(1) this refl, of "unat (read32 4 m)"] show ?thesis using Pdf m 6(2) D 6(3)
      by (cases w') (simp_all add: list_heap_def list_buf_def list_data del: pg_append.simps)
  qed
next
  case (7 m w p l)
  then show ?case by (cases w) (auto simp: list_heap_def)
next
  case (8 m v w)
  then show ?case by (cases w) (simp_all add: list_heap_def list_data read32_write32_other slice_write32)
qed (auto simp: list_heap_def list_buf_def)

interpretation mem_pipeline: live_pipeline "memory_ops cd" ms_inv ms_view version_cas "\<lambda>_. True" "\<lambda>_. True"
    list_memory "\<lambda>m. m" list_memory_valid list_pipeline list_heap list_buf 65536 for cd
  by (rule live_pipeline.intro[OF mem_durable[OF lm.linear_memory_axioms] list_pipeline.pipeline_program_axioms])

section \<open>The pipeline\<close>

text \<open>
  C40. The Gotenberg example, end to end over any store that keeps the contract: a worker that starts with
  empty fields asks the download handler for the document, hands exactly its bytes to the upload handler,
  asks the download handler again, hands exactly the second answer to the upload handler, and returns 0 after
  five checkpoints, with both documents in its memory. Each transfer goes through a buffer of 1024 bytes, and
  the loop ends after one read more than there are chunks. The answers of the upload handler are not seen.
\<close>

theorem pipeline_transfers_documents:
  fixes s :: "('m, 'e) session"
  assumes "durable st iv view cas ok_str ok_meta M contents valid" "pipeline_program M contents valid G ok buf L"
    and "h_store H = st" "h_mem H = M" "ok_str (h_wasmHash H)"
    and "ok m" "gg_currentStep G m = 0" "field_data G contents Docx m = []" "field_data G contents Pdf m = []"
    and "iv \<sigma>" "ok_meta (ses_meta s)" "ses_pageHashes s \<noteq> None" "\<not> ses_shouldCrashOnCheckpoint s"
    and "fresh_session (view \<sigma> (ses_instanceID s)) s \<or> current_session (view \<sigma> (ses_instanceID s)) s"
    and "\<not> ses_downloadEOF s" "ses_downloadReader s = None" "ses_uploadBuffer s = []"
    and "ses_DownloadHandler s = Some dl" "ses_UploadHandler s = Some hu"
    and "dl e = (Inr docx, e1)" "hu docx e1 = (err1, e2)" "dl e2 = (Inr pdf, e3)" "hu pdf e3 = (err2, e4)"
    and "docx \<noteq> []" "pdf \<noteq> []" "length docx \<le> L" "length pdf \<le> L" "length docx \<le> 1024 * fuel" "length pdf \<le> 1024 * fuel"
  shows "\<exists>m' s' \<sigma>'. Call H (pipeline_run G (Suc fuel) params m) s \<sigma> e = (Inr [0], m', s', \<sigma>', e4) \<and>
    field_data G contents Docx m' = docx \<and> field_data G contents Pdf m' = pdf \<and>
    version_of (i_meta (view \<sigma>' (ses_instanceID s))) = Version (ses_meta s) + 5"
proof -
  note P = live_pipeline.intro[OF assms(1,2)]
  have "durable.ready iv view ok_meta (ses_instanceID s) (Version (ses_meta s)) dl hu s \<sigma>"
    using assms(10-14,18,19) by (simp add: durable.ready_def[OF assms(1)] durable.live_def[OF assms(1)])
  from live_pipeline.pipeline_all[OF P assms(3-9) this _ assms(20-29)] show ?thesis using assms(15-17) by blast
qed

text \<open>The handlers that the mock server of the example would give.\<close>

definition mock_dl :: "gotenberg_mock download_handler" where
  "mock_dl e = (let (b, e') = gotenberg_download e in (Inr b, e'))"

definition mock_ul :: "gotenberg_mock upload_handler" where
  "mock_ul b e = (None, gotenberg_upload (Inr b) e)"

definition four_pages :: bytes where
  "four_pages = replicate 262144 0"

lemma four_pages_nth: "i < 262144 \<Longrightarrow> four_pages ! i = 0"
  by (simp only: four_pages_def nth_replicate)

lemma four_pages_words: "a < 65536 \<Longrightarrow> read32 a four_pages = 0"
  by (simp add: read32_def four_pages_nth)

lemma four_pages_heap: "list_heap four_pages"
proof -
  have "length four_pages = 262144" by (simp only: four_pages_def length_replicate)
  then show ?thesis by (simp add: list_heap_def four_pages_words)
qed

definition mock_start :: gotenberg_mock where
  "mock_start = \<lparr> gm_downloadCount = 0, gm_uploadCount = 0, gm_log = [] \<rparr>"

theorem pipeline_transfers_documents_witness:
  "\<exists>(H :: (bytes, bytes, string \<rightharpoonup> bytes, memory_store, gotenberg_mock) host) m' s' \<sigma>'.
     Call H (pipeline_run list_pipeline 2 [] four_pages)
       (new_session (WithUploadHandler (WithDownloadHandler Background (Some mock_dl)) (Some mock_ul)) ''i'' [] False
          (new_meta ''i'' ''h1'') (Some Map.empty) four_pages) NewMemorySnapshotStore mock_start =
       (Inr [0], m', s', \<sigma>', \<lparr> gm_downloadCount = 2, gm_uploadCount = 2,
          gm_log = [(''[MOCK GOTENBERG SERVICE]'', bytes_of_string ''[MOCK DOCX INVOICE FILE CONTENTS]''),
                    (''[MOCK TELEGRAM BOT API]'', bytes_of_string ''[MOCK GENERATED PDF INVOICE CONTENTS]'')] \<rparr>) \<and>
     version_of (ms_meta \<sigma>' ''i'') = 5"
proof -
  let ?H = "\<lparr> h_store = memory_ops compact_codec, h_mem = list_memory, h_rt = list_runtime four_pages poke_exports,
    h_clock = \<lambda>e :: gotenberg_mock. (42, e), h_wasmHash = ''h1'' \<rparr>"
  let ?s = "new_session (WithUploadHandler (WithDownloadHandler Background (Some mock_dl)) (Some mock_ul)) ''i'' [] False
      (new_meta ''i'' ''h1'') (Some Map.empty) four_pages"
  let ?docx = "bytes_of_string ''[MOCK DOCX INVOICE FILE CONTENTS]''" and ?pdf = "bytes_of_string ''[MOCK GENERATED PDF INVOICE CONTENTS]''"
  let ?l1 = "[(''[MOCK GOTENBERG SERVICE]'', ?docx)]" and ?l2 = "[(''[MOCK GOTENBERG SERVICE]'', ?docx), (''[MOCK TELEGRAM BOT API]'', ?pdf)]"
  have s: "ses_instanceID ?s = ''i''" "ses_meta ?s = new_meta ''i'' ''h1''" "ses_pageHashes ?s \<noteq> None" "\<not> ses_shouldCrashOnCheckpoint ?s"
    "\<not> ses_downloadEOF ?s" "ses_downloadReader ?s = None" "ses_uploadBuffer ?s = []"
    "ses_DownloadHandler ?s = Some mock_dl" "ses_UploadHandler ?s = Some mock_ul"
    by (simp_all add: new_session_def WithUploadHandler_def WithDownloadHandler_def getDownloadHandler_def getUploadHandler_def)
  have fresh: "fresh_session (ms_view NewMemorySnapshotStore (ses_instanceID ?s)) ?s \<or>
      current_session (ms_view NewMemorySnapshotStore (ses_instanceID ?s)) ?s"
    by (simp add: fresh_session_def s(1,2)) (simp add: new_session_def NewMemorySnapshotStore_def ms_view_def)
  have m: "gg_currentStep list_pipeline four_pages = 0" "field_data list_pipeline (\<lambda>m. m) Docx four_pages = []"
    "field_data list_pipeline (\<lambda>m. m) Pdf four_pages = []"
    by (simp_all add: list_data four_pages_words go_slice_def)
  have e: "mock_dl mock_start = (Inr ?docx, mock_start\<lparr>gm_downloadCount := 1\<rparr>)"
    "mock_ul ?docx (mock_start\<lparr>gm_downloadCount := 1\<rparr>) =
       (None, \<lparr> gm_downloadCount = 1, gm_uploadCount = 1, gm_log = ?l1 \<rparr>)"
    "mock_dl \<lparr> gm_downloadCount = 1, gm_uploadCount = 1, gm_log = ?l1 \<rparr> =
       (Inr ?pdf, \<lparr> gm_downloadCount = 2, gm_uploadCount = 1, gm_log = ?l1 \<rparr>)"
    "mock_ul ?pdf \<lparr> gm_downloadCount = 2, gm_uploadCount = 1, gm_log = ?l1 \<rparr> =
       (None, \<lparr> gm_downloadCount = 2, gm_uploadCount = 2, gm_log = ?l2 \<rparr>)"
    by (simp_all add: mock_dl_def mock_ul_def gotenberg_download_def gotenberg_upload_def mock_start_def)
  have l: "?docx \<noteq> []" "?pdf \<noteq> []" "length ?docx \<le> 65536" "length ?pdf \<le> 65536" "length ?docx \<le> 1024 * 1" "length ?pdf \<le> 1024 * 1"
    by (simp_all add: bytes_of_string_def)
  have H: "h_store ?H = memory_ops compact_codec" "h_mem ?H = list_memory" by simp_all
  note P = pipeline_transfers_documents[where st = "memory_ops compact_codec" and iv = ms_inv and view = ms_view and cas = version_cas
      and ok_str = "\<lambda>_. True" and ok_meta = "\<lambda>_. True" and M = list_memory and contents = "\<lambda>m. m" and valid = list_memory_valid
      and G = list_pipeline and ok = list_heap and buf = list_buf and L = 65536 and H = ?H and m = four_pages and s = ?s
      and \<sigma> = NewMemorySnapshotStore and dl = mock_dl and hu = mock_ul and e = mock_start and params = "[]"]
  from P[OF mem_durable[OF lm.linear_memory_axioms] list_pipeline.pipeline_program_axioms H TrueI
      four_pages_heap m ms_inv_init TrueI s(3,4) fresh s(5-9) e l]
  show ?thesis
  proof (elim exE conjE)
    fix m' s' \<sigma>'
    assume R: "Call ?H (pipeline_run list_pipeline (Suc 1) [] four_pages) ?s NewMemorySnapshotStore mock_start =
        (Inr [0], m', s', \<sigma>', \<lparr> gm_downloadCount = 2, gm_uploadCount = 2, gm_log = ?l2 \<rparr>)"
      and V: "version_of (i_meta (ms_view \<sigma>' (ses_instanceID ?s))) = Version (ses_meta ?s) + 5"
    have "version_of (ms_meta \<sigma>' ''i'') = 5" using V s(1,2) by simp
    then show ?thesis using R by (intro exI[of _ ?H] exI[of _ m'] exI[of _ s'] exI[of _ \<sigma>']) (simp add: numeral_2_eq_2)
  qed
qed

end
