(* ===== verification/Json_Scan.thy ===== *)
theory Json_Scan
  imports Json_Text
begin

text \<open>
  The scanner of \<open>encoding/json\<close>, with which a \<open>Decoder\<close> finds the end of a value in what it has read so
  far: a state machine over the bytes of the text, with a stack of the objects and arrays that are open.
  The lemmas run it over documents printed by \<open>print_json\<close>, so that the law of the locale
  \<open>json_stream\<close> is shown for the example codec.
\<close>

section \<open>The states\<close>

datatype parse_state = parseObjectKey | parseObjectValue | parseArrayValue

text \<open>\<open>Literal w r\<close> is inside the literal \<open>w\<close> with \<open>r\<close> to come.\<close>

datatype scan_state =
    BeginValue | BeginValueOrEmpty | BeginStringOrEmpty | BeginString | EndValue | EndTop
  | InString | InStringEsc | InStringEscU | InStringEscU1 | InStringEscU12 | InStringEscU123
  | Neg | State1 | State0 | Dot | Dot0 | StateE | ESign | E0 | Literal string string

type_synonym scanner = "scan_state \<times> parse_state list"

text \<open>What a step reports; the codes that a decoder does not tell apart are \<open>ScanContinue\<close>.\<close>

datatype scan_code = ScanContinue | ScanEnd | ScanEndObject | ScanEndArray | ScanError go_error

definition isSpace :: "char \<Rightarrow> bool" where
  "isSpace c \<longleftrightarrow> c \<in> {CHR '' '', CHR 0x09, CHR 0x0D, CHR 0x0A}"

definition is_hex :: "char \<Rightarrow> bool" where
  "is_hex c \<longleftrightarrow> is_digit c \<or> (97 \<le> (of_char c :: nat) \<and> of_char c \<le> (102 :: nat)) \<or>
     (65 \<le> (of_char c :: nat) \<and> of_char c \<le> (70 :: nat))"

text \<open>The character in an error message, as \<open>strconv.Quote\<close> writes it.\<close>

definition quoteChar :: "char \<Rightarrow> string" where
  "quoteChar c =
     (let n = of_char c; hex = [hex_char (n div 16), hex_char (n mod 16)];
          q = (if c = CHR 0x27 \<or> c = CHR 0x5C then [CHR 0x5C, c]
               else if c = CHR 0x07 then [CHR 0x5C, CHR ''a''] else if c = CHR 0x08 then [CHR 0x5C, CHR ''b'']
               else if c = CHR 0x0C then [CHR 0x5C, CHR ''f''] else if c = CHR 0x0A then [CHR 0x5C, CHR ''n'']
               else if c = CHR 0x0D then [CHR 0x5C, CHR ''r''] else if c = CHR 0x09 then [CHR 0x5C, CHR ''t'']
               else if c = CHR 0x0B then [CHR 0x5C, CHR ''v'']
               else if n < 32 \<or> n = 127 then CHR 0x5C # CHR ''x'' # hex
               else if n < 127 then [c]
               else if n < 161 \<or> n = 173 then CHR 0x5C # CHR ''u'' # CHR ''0'' # CHR ''0'' # hex
               else [char_of (192 + n div 64), char_of (128 + n mod 64)])
      in CHR 0x27 # q @ [CHR 0x27])"

definition scan_error :: "char \<Rightarrow> string \<Rightarrow> scan_code" where
  "scan_error c context = ScanError (Err (''invalid character '' @ quoteChar c @ '' '' @ context))"

text \<open>The stack has its innermost entry first.\<close>

definition pushParseState :: "scan_state \<Rightarrow> parse_state \<Rightarrow> parse_state list \<Rightarrow> char \<Rightarrow> scanner \<times> scan_code" where
  "pushParseState st p ps c =
     ((st, p # ps), if length (p # ps) \<le> 10000 then ScanContinue else scan_error c ''exceeded max depth'')"

definition popParseState :: "parse_state list \<Rightarrow> scanner" where
  "popParseState ps = (if tl ps = [] then EndTop else EndValue, tl ps)"

definition stateEndValue :: "parse_state list \<Rightarrow> char \<Rightarrow> scanner \<times> scan_code" where
  "stateEndValue ps c =
     (case ps of
        [] \<Rightarrow> ((EndTop, []), ScanEnd)
      | p # qs \<Rightarrow>
          if isSpace c then ((EndValue, ps), ScanContinue)
          else (case p of
              parseObjectKey \<Rightarrow>
                if c = CHR '':'' then ((BeginValue, parseObjectValue # qs), ScanContinue)
                else ((EndValue, ps), scan_error c ''after object key'')
            | parseObjectValue \<Rightarrow>
                if c = CHR '','' then ((BeginString, parseObjectKey # qs), ScanContinue)
                else if c = CHR ''}'' then (popParseState ps, ScanEndObject)
                else ((EndValue, ps), scan_error c ''after object key:value pair'')
            | parseArrayValue \<Rightarrow>
                if c = CHR '','' then ((BeginValue, ps), ScanContinue)
                else if c = CHR '']'' then (popParseState ps, ScanEndArray)
                else ((EndValue, ps), scan_error c ''after array element'')))"

definition stateBeginValue :: "parse_state list \<Rightarrow> char \<Rightarrow> scanner \<times> scan_code" where
  "stateBeginValue ps c =
     (if isSpace c then ((BeginValue, ps), ScanContinue)
      else if c = CHR ''{'' then pushParseState BeginStringOrEmpty parseObjectKey ps c
      else if c = CHR ''['' then pushParseState BeginValueOrEmpty parseArrayValue ps c
      else if c = CHR 0x22 then ((InString, ps), ScanContinue)
      else if c = CHR ''-'' then ((Neg, ps), ScanContinue)
      else if c = CHR ''0'' then ((State0, ps), ScanContinue)
      else if c = CHR ''t'' then ((Literal ''true'' ''rue'', ps), ScanContinue)
      else if c = CHR ''f'' then ((Literal ''false'' ''alse'', ps), ScanContinue)
      else if c = CHR ''n'' then ((Literal ''null'' ''ull'', ps), ScanContinue)
      else if is_digit c then ((State1, ps), ScanContinue)
      else ((BeginValue, ps), scan_error c ''looking for beginning of value''))"

definition stateBeginString :: "parse_state list \<Rightarrow> char \<Rightarrow> scanner \<times> scan_code" where
  "stateBeginString ps c =
     (if isSpace c then ((BeginString, ps), ScanContinue)
      else if c = CHR 0x22 then ((InString, ps), ScanContinue)
      else ((BeginString, ps), scan_error c ''looking for beginning of object key string''))"

definition state0 :: "parse_state list \<Rightarrow> char \<Rightarrow> scanner \<times> scan_code" where
  "state0 ps c =
     (if c = CHR ''.'' then ((Dot, ps), ScanContinue)
      else if c = CHR ''e'' \<or> c = CHR ''E'' then ((StateE, ps), ScanContinue)
      else stateEndValue ps c)"

definition stateESign :: "parse_state list \<Rightarrow> char \<Rightarrow> scanner \<times> scan_code" where
  "stateESign ps c =
     (if is_digit c then ((E0, ps), ScanContinue)
      else ((ESign, ps), scan_error c ''in exponent of numeric literal''))"

text \<open>A hexadecimal digit of an escape.\<close>

definition hex_step :: "scan_state \<Rightarrow> scan_state \<Rightarrow> parse_state list \<Rightarrow> char \<Rightarrow> scanner \<times> scan_code" where
  "hex_step st st' ps c =
     (if is_hex c then ((st', ps), ScanContinue)
      else ((st, ps), scan_error c (''in '' @ [CHR 0x5C] @ ''u hexadecimal character escape'')))"

fun scan_step :: "scanner \<Rightarrow> char \<Rightarrow> scanner \<times> scan_code" where
  "scan_step (BeginValue, ps) c = stateBeginValue ps c"
| "scan_step (BeginValueOrEmpty, ps) c =
     (if isSpace c then ((BeginValueOrEmpty, ps), ScanContinue)
      else if c = CHR '']'' then stateEndValue ps c else stateBeginValue ps c)"
| "scan_step (BeginStringOrEmpty, ps) c =
     (if isSpace c then ((BeginStringOrEmpty, ps), ScanContinue)
      else if c = CHR ''}'' then stateEndValue (parseObjectValue # tl ps) c else stateBeginString ps c)"
| "scan_step (BeginString, ps) c = stateBeginString ps c"
| "scan_step (EndValue, ps) c = stateEndValue ps c"
| "scan_step (EndTop, ps) c = ((EndTop, ps), ScanEnd)"
| "scan_step (InString, ps) c =
     (if c = CHR 0x22 then ((EndValue, ps), ScanContinue)
      else if c = CHR 0x5C then ((InStringEsc, ps), ScanContinue)
      else if of_char c < (32 :: nat) then ((InString, ps), scan_error c ''in string literal'')
      else ((InString, ps), ScanContinue))"
| "scan_step (InStringEsc, ps) c =
     (if c \<in> {CHR ''b'', CHR ''f'', CHR ''n'', CHR ''r'', CHR ''t'', CHR 0x5C, CHR ''/'', CHR 0x22}
      then ((InString, ps), ScanContinue)
      else if c = CHR ''u'' then ((InStringEscU, ps), ScanContinue)
      else ((InStringEsc, ps), scan_error c ''in string escape code''))"
| "scan_step (InStringEscU, ps) c = hex_step InStringEscU InStringEscU1 ps c"
| "scan_step (InStringEscU1, ps) c = hex_step InStringEscU1 InStringEscU12 ps c"
| "scan_step (InStringEscU12, ps) c = hex_step InStringEscU12 InStringEscU123 ps c"
| "scan_step (InStringEscU123, ps) c = hex_step InStringEscU123 InString ps c"
| "scan_step (Neg, ps) c =
     (if c = CHR ''0'' then ((State0, ps), ScanContinue)
      else if is_digit c then ((State1, ps), ScanContinue)
      else ((Neg, ps), scan_error c ''in numeric literal''))"
| "scan_step (State1, ps) c = (if is_digit c then ((State1, ps), ScanContinue) else state0 ps c)"
| "scan_step (State0, ps) c = state0 ps c"
| "scan_step (Dot, ps) c =
     (if is_digit c then ((Dot0, ps), ScanContinue)
      else ((Dot, ps), scan_error c ''after decimal point in numeric literal''))"
| "scan_step (Dot0, ps) c =
     (if is_digit c then ((Dot0, ps), ScanContinue)
      else if c = CHR ''e'' \<or> c = CHR ''E'' then ((StateE, ps), ScanContinue)
      else stateEndValue ps c)"
| "scan_step (StateE, ps) c =
     (if c = CHR ''+'' \<or> c = CHR ''-'' then ((ESign, ps), ScanContinue) else stateESign ps c)"
| "scan_step (ESign, ps) c = stateESign ps c"
| "scan_step (E0, ps) c = (if is_digit c then ((E0, ps), ScanContinue) else stateEndValue ps c)"
| "scan_step (Literal w r, ps) c =
     (if r = [] then stateEndValue ps c
      else if c = hd r then ((if tl r = [] then EndValue else Literal w (tl r), ps), ScanContinue)
      else ((Literal w r, ps), scan_error c (''in literal '' @ w @ '' (expecting '' @ quoteChar (hd r) @ '')'')))"

section \<open>Scanning a buffer\<close>

text \<open>
  The scan of \<open>readValue\<close> from a position on: the length of the value when its end was seen, which for an
  object or an array is at once, or the state when the buffer is used up.
\<close>

datatype scan_result = More scanner | Found nat | Failed go_error

fun scan_from :: "scanner \<Rightarrow> nat \<Rightarrow> string \<Rightarrow> scan_result" where
  "scan_from s i [] = More s"
| "scan_from s i (c # cs) =
     (case scan_step s c of
        (s', ScanEnd) \<Rightarrow> Found i
      | (s', ScanError e) \<Rightarrow> Failed e
      | (s', ScanContinue) \<Rightarrow> scan_from s' (i + 1) cs
      | (s', _) \<Rightarrow> if snd (stateEndValue (snd s') (CHR '' '')) = ScanEnd then Found (i + 1)
                   else scan_from s' (i + 1) cs)"

abbreviation scan_init :: scanner where
  "scan_init \<equiv> (BeginValue, [])"

lemma scan_from_append:
  "scan_from s i (xs @ ys) = (case scan_from s i xs of More s' \<Rightarrow> scan_from s' (i + length xs) ys | r \<Rightarrow> r)"
  by (induction xs arbitrary: s i) (auto split: prod.split scan_code.split scan_result.split)

lemma scan_from_Found: "scan_from s i xs = Found n \<Longrightarrow> n \<le> i + length xs"
proof (induction xs arbitrary: s i)
  case (Cons c cs)
  from Cons.prems show ?case
    by (auto split: prod.splits scan_code.splits if_splits dest!: Cons.IH)
qed simp

text \<open>A value whose end is seen at its last byte is not seen to end, or to be wrong, any earlier.\<close>

lemma scan_from_prefix:
  assumes "scan_from s 0 (xs @ ys) = Found (length (xs @ ys))" "ys \<noteq> []"
  obtains s' where "scan_from s 0 xs = More s'" "scan_from s' (length xs) ys = Found (length (xs @ ys))"
  using assms scan_from_Found[of s 0 xs] scan_from_append[of s 0 xs ys]
  by (cases "scan_from s 0 xs") auto

section \<open>Printed documents\<close>

text \<open>Steps that do not end the value.\<close>

fun goes_on :: "scanner \<Rightarrow> string \<Rightarrow> scanner option" where
  "goes_on s [] = Some s"
| "goes_on s (c # cs) =
     (case scan_step s c of
        (s', ScanContinue) \<Rightarrow> goes_on s' cs
      | (s', ScanEndObject) \<Rightarrow> if snd s' = [] then None else goes_on s' cs
      | (s', ScanEndArray) \<Rightarrow> if snd s' = [] then None else goes_on s' cs
      | _ \<Rightarrow> None)"

lemma goes_on_append [simp]:
  "goes_on s (xs @ ys) = (case goes_on s xs of None \<Rightarrow> None | Some s' \<Rightarrow> goes_on s' ys)"
  by (induction xs arbitrary: s) (auto split: prod.split scan_code.split)

lemma ends_top: "snd (stateEndValue ps (CHR '' '')) = ScanEnd \<longleftrightarrow> ps = []"
  by (simp add: stateEndValue_def isSpace_def split: list.split)

lemma goes_on_scan: "goes_on s xs = Some s' \<Longrightarrow> scan_from s i (xs @ ys) = scan_from s' (i + length xs) ys"
  by (induction xs arbitrary: s i) (auto simp: ends_top split: prod.splits scan_code.splits if_splits)

text \<open>Numbers: an integer has no superfluous zero in front.\<close>

lemma digit_char_zero: "digit_char 0 = CHR ''0''"
  by code_simp

lemma hd_format_nat_zero: "hd (format_nat n) = CHR ''0'' \<longleftrightarrow> n = 0"
proof (induction n rule: format_nat.induct)
  case (1 n)
  have "digit_char n = CHR ''0'' \<longleftrightarrow> n = 0" if "n < 10"
    using char_digit_digit_char[OF that] digit_char_zero by (auto simp: char_digit_def)
  then show ?case using 1 by (subst format_nat.simps) auto
qed

lemma goes_on_digits:
  "\<forall>c\<in>set ds. is_digit c \<Longrightarrow> goes_on (State1, ps) ds = Some (State1, ps)"
  "\<forall>c\<in>set ds. is_digit c \<Longrightarrow> goes_on (E0, ps) ds = Some (E0, ps)"
  by (induction ds) simp_all

lemma digit_not_other: "is_digit c \<Longrightarrow> c \<notin> {CHR 0x22, CHR ''{'', CHR ''['', CHR ''-'', CHR ''+'', CHR ''t'', CHR ''f'', CHR ''n''} \<and> \<not> isSpace c"
  by (auto simp: is_digit_def char_digit_def isSpace_def)

lemma goes_on_nat:
  assumes "st \<in> {BeginValue, Neg}"
  shows "goes_on (st, ps) (format_nat n) = Some (if n = 0 then State0 else State1, ps)"
proof (cases "n = 0")
  case True
  then have "format_nat n = ''0''" by (simp add: format_nat.simps digit_char_zero)
  then show ?thesis using assms True by (auto simp: stateBeginValue_def isSpace_def)
next
  case False
  obtain c cs where f: "format_nat n = c # cs" using format_nat_nonempty[of n] by (cases "format_nat n") auto
  have "is_digit c" "\<forall>c\<in>set cs. is_digit c" using format_nat_is_digit[of n] f by auto
  moreover have "c \<noteq> CHR ''0''" using hd_format_nat_zero[of n] False f by simp
  ultimately show ?thesis using assms False digit_not_other[of c] goes_on_digits(1)[of cs ps]
    by (auto simp: f stateBeginValue_def)
qed

lemma goes_on_int: "\<exists>st\<in>{State0, State1}. goes_on (BeginValue, ps) (FormatInt n) = Some (st, ps)"
proof (cases "n < 0")
  case True
  have "scan_step (BeginValue, ps) (CHR ''-'') = ((Neg, ps), ScanContinue)" by (simp add: stateBeginValue_def isSpace_def)
  then show ?thesis using True goes_on_nat[of Neg ps "nat (- n)"] by (auto simp: FormatInt_def)
qed (use goes_on_nat[of BeginValue ps "nat n"] in \<open>auto simp: FormatInt_def\<close>)

lemma goes_on_exponent: "st \<in> {State0, State1} \<Longrightarrow> goes_on (st, ps) (CHR ''e'' # FormatInt n) = Some (E0, ps)"
proof -
  assume st: "st \<in> {State0, State1}"
  obtain c cs where f: "format_nat (nat \<bar>n\<bar>) = c # cs" using format_nat_nonempty by (cases "format_nat (nat \<bar>n\<bar>)") auto
  have "is_digit c" "\<forall>c\<in>set cs. is_digit c" using format_nat_is_digit[of "nat \<bar>n\<bar>"] f by auto
  then have "goes_on (StateE, ps) (FormatInt n) = Some (E0, ps)"
    using f digit_not_other[of c] goes_on_digits(2)[of cs ps] by (auto simp: FormatInt_def stateESign_def)
  moreover have "scan_step (st, ps) (CHR ''e'') = ((StateE, ps), ScanContinue)"
    using st by (auto simp: state0_def is_digit_def char_digit_def)
  ultimately show ?thesis by simp
qed

text \<open>Strings: what is escaped goes through the escape states.\<close>

lemma is_hex_hex_char: "d < 16 \<Longrightarrow> is_hex (hex_char d)"
  by (auto simp: is_hex_def hex_char_def is_digit_def char_digit_def)

lemma goes_on_esc: "goes_on (InString, ps) (esc c) = Some (InString, ps)"
proof (cases "c = CHR 0x22 \<or> c = CHR 0x5C")
  case False
  show ?thesis
  proof (cases "of_char c < (32::nat)")
    case True
    then have "of_char c div 16 < (16::nat)" by (simp add: less_mult_imp_div_less)
    moreover have "is_hex (CHR ''0'')" by (simp add: is_hex_def is_digit_def char_digit_def)
    moreover have "esc c = [CHR 0x5C, CHR ''u'', CHR ''0'', CHR ''0'', hex_char (of_char c div 16), hex_char (of_char c mod 16)]"
      using True False by (simp add: esc_def)
    ultimately show ?thesis by (simp add: hex_step_def is_hex_hex_char)
  qed (use False in \<open>simp add: esc_def\<close>)
qed (auto simp: esc_def)

lemma goes_on_str: "goes_on (InString, ps) (concat (map esc s) @ [CHR 0x22]) = Some (EndValue, ps)"
  by (induction s) (simp_all add: goes_on_esc)

text \<open>A number ends with the byte after it, and that byte is handled as after any other value.\<close>

definition closes :: "char \<Rightarrow> bool" where
  "closes c \<longleftrightarrow> c \<in> {CHR '','', CHR ''}'', CHR '']''}"

lemma number_end:
  "closes c \<Longrightarrow> st \<in> {State0, State1, E0, EndValue} \<Longrightarrow> scan_step (st, ps) c = stateEndValue ps c"
  by (auto simp: closes_def state0_def is_digit_def char_digit_def)

text \<open>Nested values.\<close>

fun json_depth :: "json \<Rightarrow> nat" where
  "json_depth (JArr js) = Suc (foldr max (map json_depth js) 0)"
| "json_depth (JObj kvs) = Suc (foldr max (map (\<lambda>kv. json_depth (snd kv)) kvs) 0)"
| "json_depth _ = 0"

lemma foldr_max_le: "foldr max xs 0 \<le> (n::nat) \<longleftrightarrow> (\<forall>x\<in>set xs. x \<le> n)"
  by (induction xs) auto

text \<open>\<open>scans j\<close>: inside an open object or array the value is scanned up to a state that ends it.\<close>

definition scans :: "json \<Rightarrow> bool" where
  "scans j \<longleftrightarrow> (\<forall>ps. ps \<noteq> [] \<longrightarrow> length ps + json_depth j \<le> 10000 \<longrightarrow>
     (\<exists>st\<in>{State0, State1, E0, EndValue}. goes_on (BeginValue, ps) (print_json j) = Some (st, ps)))"

abbreviation ends_value :: "scan_state \<Rightarrow> bool" where
  "ends_value st \<equiv> st \<in> {State0, State1, E0, EndValue}"

lemma scansE:
  assumes "scans j" "ps \<noteq> []" "length ps + json_depth j \<le> 10000"
  obtains st where "ends_value st" "goes_on (BeginValue, ps) (print_json j) = Some (st, ps)"
  using assms unfolding scans_def by blast

lemma goes_on_elems:
  assumes "js \<noteq> []" "\<forall>j\<in>set js. scans j \<and> Suc (length ps) + json_depth j \<le> 10000"
  shows "\<exists>st. ends_value st \<and>
    goes_on (BeginValue, parseArrayValue # ps) (join (map print_json js)) = Some (st, parseArrayValue # ps)"
  using assms
proof (induction js rule: list_nonempty_induct)
  case (single j)
  then show ?case by (auto elim: scansE[of j "parseArrayValue # ps"])
next
  case (cons j js)
  obtain x xs where js: "js = x # xs" using cons.hyps by (cases js) auto
  obtain st where st: "ends_value st"
    "goes_on (BeginValue, parseArrayValue # ps) (print_json j) = Some (st, parseArrayValue # ps)"
    using cons.prems by (auto elim: scansE[of j "parseArrayValue # ps"])
  have "scan_step (st, parseArrayValue # ps) (CHR '','') = ((BeginValue, parseArrayValue # ps), ScanContinue)"
    using number_end[OF _ st(1)] by (simp add: closes_def stateEndValue_def isSpace_def)
  then show ?case using cons st js by simp
qed

lemma goes_on_key: "goes_on (BeginString, ps) (print_str k) = Some (EndValue, ps)"
  using goes_on_str[of ps k] by (simp add: print_str_def stateBeginString_def isSpace_def)

lemma goes_on_colon:
  "goes_on (EndValue, parseObjectKey # ps) (CHR '':'' # t) = goes_on (BeginValue, parseObjectValue # ps) t"
  by (simp add: stateEndValue_def isSpace_def)

lemma goes_on_members:
  assumes "kvs \<noteq> []" "\<forall>kv\<in>set kvs. scans (snd kv) \<and> Suc (length ps) + json_depth (snd kv) \<le> 10000"
  shows "\<exists>st. ends_value st \<and>
    goes_on (BeginString, parseObjectKey # ps) (join (map print_member kvs)) = Some (st, parseObjectValue # ps)"
  using assms
proof (induction kvs rule: list_nonempty_induct)
  case (single kv)
  then show ?case
    by (auto simp: goes_on_key goes_on_colon simp del: goes_on.simps elim: scansE[of "snd kv" "parseObjectValue # ps"])
next
  case (cons kv kvs)
  obtain x xs where kvs: "kvs = x # xs" using cons.hyps by (cases kvs) auto
  obtain st where st: "ends_value st"
    "goes_on (BeginValue, parseObjectValue # ps) (print_json (snd kv)) = Some (st, parseObjectValue # ps)"
    using cons.prems by (auto elim: scansE[of "snd kv" "parseObjectValue # ps"])
  have "scan_step (st, parseObjectValue # ps) (CHR '','') = ((BeginString, parseObjectKey # ps), ScanContinue)"
    using number_end[OF _ st(1)] by (simp add: closes_def stateEndValue_def isSpace_def)
  then have "goes_on (st, parseObjectValue # ps) (CHR '','' # t) = goes_on (BeginString, parseObjectKey # ps) t" for t
    by simp
  then show ?case using cons st kvs by (simp add: goes_on_key goes_on_colon del: goes_on.simps)
qed

text \<open>The empty and the other forms of an array and an object after their opening bracket.\<close>

lemma hd_print_json_space: "\<not> isSpace (hd (print_json j))"
proof (cases j)
  case (JNum n)
  then show ?thesis using hd_FormatInt[of n] by (auto simp: is_digit_def char_digit_def Let_def isSpace_def)
next
  case (JDec n e)
  then show ?thesis using hd_FormatInt[of n] by (auto simp: is_digit_def char_digit_def Let_def isSpace_def)
qed (auto simp: print_str_def isSpace_def)

lemma goes_on_first_elem:
  assumes "js \<noteq> []"
  shows "goes_on (BeginValueOrEmpty, ps) (join (map print_json js)) = goes_on (BeginValue, ps) (join (map print_json js))"
proof -
  have "join (map print_json js) \<noteq> [] \<and> hd (join (map print_json js)) = hd (print_json (hd js))"
    using assms hd_print_json by (cases js rule: remdups_adj.cases) (auto simp: hd_append)
  then show ?thesis using hd_print_json[of "hd js"] hd_print_json_space[of "hd js"]
    by (cases "join (map print_json js)") auto
qed

lemma goes_on_first_member:
  assumes "kvs \<noteq> []"
  shows "goes_on (BeginStringOrEmpty, ps) (join (map print_member kvs)) = goes_on (BeginString, ps) (join (map print_member kvs))"
proof -
  have "\<exists>t. join (map print_member kvs) = CHR 0x22 # t"
    using assms by (cases kvs rule: remdups_adj.cases) (auto simp: print_str_def)
  then show ?thesis by (auto simp: stateBeginString_def isSpace_def)
qed

text \<open>What is before the closing bracket of an object.\<close>

lemma goes_on_object:
  assumes "\<forall>kv\<in>set kvs. scans (snd kv)" "length ps + json_depth (JObj kvs) \<le> 10000"
  shows "\<exists>s. goes_on (BeginValue, ps) (CHR ''{'' # join (map print_member kvs)) = Some s \<and>
    scan_step s (CHR ''}'') = (popParseState (parseObjectValue # ps), ScanEndObject)"
proof -
  have open_step: "scan_step (BeginValue, ps) (CHR ''{'') = ((BeginStringOrEmpty, parseObjectKey # ps), ScanContinue)"
    using assms(2) by (simp add: stateBeginValue_def isSpace_def pushParseState_def)
  show ?thesis
  proof (cases "kvs = []")
    case True
    then show ?thesis using open_step by (simp add: stateEndValue_def isSpace_def popParseState_def)
  next
    case False
    have "\<forall>kv\<in>set kvs. scans (snd kv) \<and> Suc (length ps) + json_depth (snd kv) \<le> 10000"
      using assms foldr_max_le[of "map (\<lambda>kv. json_depth (snd kv)) kvs" "9999 - length ps"] by fastforce
    from goes_on_members[OF False this] obtain st where st: "ends_value st"
      "goes_on (BeginString, parseObjectKey # ps) (join (map print_member kvs)) = Some (st, parseObjectValue # ps)" by blast
    have "scan_step (st, parseObjectValue # ps) (CHR ''}'') = (popParseState (parseObjectValue # ps), ScanEndObject)"
      using number_end[OF _ st(1)] by (simp add: closes_def stateEndValue_def isSpace_def)
    then show ?thesis using open_step st(2) goes_on_first_member[OF False] by simp
  qed
qed

lemma goes_on_array:
  assumes "\<forall>j\<in>set js. scans j" "length ps + json_depth (JArr js) \<le> 10000"
  shows "\<exists>s. goes_on (BeginValue, ps) (CHR ''['' # join (map print_json js)) = Some s \<and>
    scan_step s (CHR '']'') = (popParseState (parseArrayValue # ps), ScanEndArray)"
proof -
  have open_step: "scan_step (BeginValue, ps) (CHR ''['') = ((BeginValueOrEmpty, parseArrayValue # ps), ScanContinue)"
    using assms(2) by (simp add: stateBeginValue_def isSpace_def pushParseState_def)
  show ?thesis
  proof (cases "js = []")
    case True
    then show ?thesis using open_step by (simp add: stateEndValue_def isSpace_def popParseState_def)
  next
    case False
    have "\<forall>j\<in>set js. scans j \<and> Suc (length ps) + json_depth j \<le> 10000"
      using assms foldr_max_le[of "map json_depth js" "9999 - length ps"] by fastforce
    from goes_on_elems[OF False this] obtain st where st: "ends_value st"
      "goes_on (BeginValue, parseArrayValue # ps) (join (map print_json js)) = Some (st, parseArrayValue # ps)" by blast
    have "scan_step (st, parseArrayValue # ps) (CHR '']'') = (popParseState (parseArrayValue # ps), ScanEndArray)"
      using number_end[OF _ st(1)] by (simp add: closes_def stateEndValue_def isSpace_def)
    then show ?thesis using open_step st(2) goes_on_first_elem[OF False] by simp
  qed
qed

lemma scans_all: "scans j"
proof (induction j)
  case (JNum n)
  show ?case using goes_on_int[of _ n] by (auto simp: scans_def)
next
  case (JDec n e)
  have "\<exists>st\<in>{State0, State1}. goes_on (BeginValue, ps) (FormatInt n) = Some (st, ps)" for ps by (rule goes_on_int)
  then have "goes_on (BeginValue, ps) (FormatInt n @ CHR ''e'' # FormatInt e) = Some (E0, ps)" for ps
    unfolding goes_on_append using goes_on_exponent[of _ ps e] by (metis option.simps(5))
  then show ?case by (simp add: scans_def del: goes_on_append)
next
  case (JStr s)
  show ?case using goes_on_str[of _ s] by (simp add: scans_def print_str_def stateBeginValue_def isSpace_def)
next
  case (JArr js)
  show ?case unfolding scans_def
  proof (intro allI impI)
    fix ps :: "parse_state list" assume ps: "ps \<noteq> []" "length ps + json_depth (JArr js) \<le> 10000"
    obtain s where "goes_on (BeginValue, ps) (CHR ''['' # join (map print_json js)) = Some s"
      "scan_step s (CHR '']'') = (popParseState (parseArrayValue # ps), ScanEndArray)"
      using goes_on_array[OF _ ps(2)] JArr by blast
    then show "\<exists>st\<in>{State0, State1, E0, EndValue}. goes_on (BeginValue, ps) (print_json (JArr js)) = Some (st, ps)"
      using ps(1) goes_on_append[of "(BeginValue, ps)" "CHR ''['' # join (map print_json js)" "'']''"]
      by (simp add: popParseState_def)
  qed
next
  case (JObj kvs)
  show ?case unfolding scans_def
  proof (intro allI impI)
    fix ps :: "parse_state list" assume ps: "ps \<noteq> []" "length ps + json_depth (JObj kvs) \<le> 10000"
    have "\<forall>kv\<in>set kvs. scans (snd kv)" using JObj by (auto intro: snds.intros)
    from goes_on_object[OF this ps(2)] obtain s where
      "goes_on (BeginValue, ps) (CHR ''{'' # join (map print_member kvs)) = Some s"
      "scan_step s (CHR ''}'') = (popParseState (parseObjectValue # ps), ScanEndObject)" by blast
    then show "\<exists>st\<in>{State0, State1, E0, EndValue}. goes_on (BeginValue, ps) (print_json (JObj kvs)) = Some (st, ps)"
      using ps(1) goes_on_append[of "(BeginValue, ps)" "CHR ''{'' # join (map print_member kvs)" "''}''"]
      by (simp add: popParseState_def)
  qed
qed (auto simp: scans_def stateBeginValue_def isSpace_def)

text \<open>The end of a printed object is found at its last byte, whatever follows.\<close>

lemma scan_printed_object:
  assumes "json_depth (JObj kvs) \<le> 10000"
  shows "scan_from scan_init 0 (print_json (JObj kvs) @ t) = Found (length (print_json (JObj kvs)))"
proof -
  obtain s where s: "goes_on scan_init (CHR ''{'' # join (map print_member kvs)) = Some s"
    "scan_step s (CHR ''}'') = (popParseState [parseObjectValue], ScanEndObject)"
    using goes_on_object[of kvs "[]"] assms scans_all by auto
  have p: "print_json (JObj kvs) @ t = (CHR ''{'' # join (map print_member kvs)) @ CHR ''}'' # t" by simp
  show ?thesis unfolding p goes_on_scan[OF s(1)] by (simp add: s(2) popParseState_def stateEndValue_def)
qed

section \<open>The law\<close>

text \<open>
  The text of an object is scanned to its end and no further. Deeper nesting than 10000 is refused by the
  scanner.
\<close>

locale json_stream = codec_laws +
  assumes scan_text: "json_utf8 (JObj kvs) \<Longrightarrow> json_depth (JObj kvs) \<le> 10000 \<Longrightarrow>
    scan_from scan_init 0 (string_of_bytes (json_text cd (JObj kvs)) @ t) = Found (length (json_text cd (JObj kvs)))"

interpretation compact_stream: json_stream compact_codec
  by unfold_locales (simp only: compact_codec_def codec.simps string_of_bytes_of_string scan_printed_object length_bytes_of_string)

end
