(* ===== verification/Guest_Task.thy ===== *)
theory Guest_Task
  imports Live_Steps Json_Scan "HOL-Library.Char_ord" "HOL-Library.List_Lexorder"
begin

text \<open>
  \<open>RunTask\<close> of \<open>runner/runner.go\<close>: a task gets its variables as a JSON document on the download stream and
  hands them back on the upload stream. The \<open>Decoder\<close> and the \<open>Encoder\<close> of \<open>encoding/json\<close> run over the
  stream wrappers; a decoder of this program decodes one value. The locale \<open>json_program\<close> states what the
  compiled guest promises of its heap, and its lemmas follow the decoder from the first read to the end of
  the value.
\<close>

section \<open>Reading a value\<close>

definition io_ErrUnexpectedEOF :: go_error where
  "io_ErrUnexpectedEOF = Err ''unexpected EOF''"

text \<open>
  The buffer of a decoder is a slice: address, length and capacity. \<open>refill\<close> makes room for 512 bytes
  and reads once; its result is the buffer and the error of the read.
\<close>

definition refill :: "'m go_guest \<Rightarrow> u32 \<Rightarrow> nat \<Rightarrow> nat \<Rightarrow> (u32 \<times> nat \<times> nat \<times> go_error option, 'm) prog" where
  "refill G buf len cap k m =
     (let (buf1, cap1, m1) =
        (if cap - len < 512
         then (let cap' = 2 * cap + 512; (p, m') = gg_place G (gg_bytes G buf len m @ replicate (cap' - len) 0) m
               in (p, cap', m'))
         else (buf, cap, m))
      in Guest_Runner.Read (buf1 + word_of_nat len) (cap1 - len)
           (\<lambda>(n, err) m2. if n > int (cap1 - len) then Trap m2 slice_panic
                           else k (buf1, len + nat n, cap1, err) m2) m1)"

text \<open>
  The loop of \<open>readValue\<close>: the error of the last read is looked at after the buffer was scanned. The
  result is the text of the value; the fuel bounds the number of reads.
\<close>

fun readValue :: "'m go_guest \<Rightarrow> nat \<Rightarrow> u32 \<times> nat \<times> nat \<times> go_error option \<Rightarrow> scanner \<Rightarrow> nat \<Rightarrow> (go_error + bytes, 'm) prog" where
  "readValue G 0 d s scanp k m = Trap m ''out of fuel''"
| "readValue G (Suc fuel) (buf, len, cap, err) s scanp k m =
     (let data = gg_bytes G buf len m
      in case scan_from s scanp (string_of_bytes (drop scanp data)) of
           Found n \<Rightarrow> k (Inr (take n data)) m
         | Failed e \<Rightarrow> k (Inl e) m
         | More s' \<Rightarrow>
             (case err of
                Some e \<Rightarrow>
                  if e = io_EOF \<and> snd (scan_step s' (CHR '' '')) = ScanEnd then k (Inr data) m
                  else if e = io_EOF \<and> list_ex (\<lambda>c. \<not> isSpace c) (string_of_bytes data) then k (Inl io_ErrUnexpectedEOF) m
                  else k (Inl e) m
              | None \<Rightarrow> refill G buf len cap (\<lambda>d' m1. readValue G fuel d' s' len k m1) m))"

definition Decode_text :: "'m go_guest \<Rightarrow> nat \<Rightarrow> (go_error + bytes, 'm) prog" where
  "Decode_text G fuel = readValue G fuel (0, 0, 0, None) scan_init 0"

section \<open>Variables\<close>

text \<open>
  A \<open>map[string]interface{}\<close> as an association list, nil as \<open>None\<close>. \<open>f64\<close> reads a number into a
  \<open>float64\<close>: the number that \<open>Marshal\<close> prints for it, or the error that it is out of range.
\<close>

type_synonym vars = "(string \<times> json) list option"

definition put_members :: "(string \<times> json) list \<Rightarrow> (string \<times> json) list" where
  "put_members kvs = foldl (\<lambda>m kv. AList.update (fst kv) (snd kv) m) [] kvs"

definition first_error :: "go_error option list \<Rightarrow> go_error option" where
  "first_error errs = (case filter (\<lambda>e. e \<noteq> None) errs of [] \<Rightarrow> None | e # _ \<Rightarrow> e)"

fun dec_interface :: "(json \<Rightarrow> go_error + json) \<Rightarrow> json \<Rightarrow> json \<times> go_error option" where
  "dec_interface f64 (JNum n) = (case f64 (JNum n) of Inl e \<Rightarrow> (JNull, Some e) | Inr j \<Rightarrow> (j, None))"
| "dec_interface f64 (JDec n d) = (case f64 (JDec n d) of Inl e \<Rightarrow> (JNull, Some e) | Inr j \<Rightarrow> (j, None))"
| "dec_interface f64 (JArr js) =
     (let rs = map (dec_interface f64) js in (JArr (map fst rs), first_error (map snd rs)))"
| "dec_interface f64 (JObj kvs) =
     (let rs = map (\<lambda>kv. (fst kv, dec_interface f64 (snd kv))) kvs
      in (JObj (put_members (map (\<lambda>r. (fst r, fst (snd r))) rs)), first_error (map (\<lambda>r. snd (snd r)) rs)))"
| "dec_interface f64 j = (j, None)"

definition type_error :: "string \<Rightarrow> string \<Rightarrow> go_error" where
  "type_error v ty = Err (''json: cannot unmarshal '' @ v @ '' into Go value of type '' @ ty)"

fun json_kind :: "json \<Rightarrow> string" where
  "json_kind JNull = ''null''" | "json_kind (JBool b) = ''bool''" | "json_kind (JNum n) = ''number''"
| "json_kind (JDec m e) = ''number''" | "json_kind (JStr s) = ''string''" | "json_kind (JArr js) = ''array''"
| "json_kind (JObj kvs) = ''object''"

text \<open>Text that was scanned has a document; a codec that finds none reports a syntax error.\<close>

definition syntax_error :: go_error where
  "syntax_error = Err ''unexpected end of JSON input''"

definition unmarshal_vars :: "codec \<Rightarrow> (json \<Rightarrow> go_error + json) \<Rightarrow> bytes \<Rightarrow> go_error + vars" where
  "unmarshal_vars cd f64 b =
     (case json_parse cd b of
        None \<Rightarrow> Inl syntax_error
      | Some JNull \<Rightarrow> Inr None
      | Some (JObj kvs) \<Rightarrow>
          (case dec_interface f64 (JObj kvs) of
             (_, Some e) \<Rightarrow> Inl e
           | (JObj m, None) \<Rightarrow> Inr (Some m)
           | (_, None) \<Rightarrow> Inr None)
      | Some j \<Rightarrow> Inl (type_error (json_kind j) ''map[string]interface {}''))"

text \<open>\<open>Marshal\<close> writes the members of a map sorted by their keys.\<close>

fun sorted_json :: "json \<Rightarrow> json" where
  "sorted_json (JArr js) = JArr (map sorted_json js)"
| "sorted_json (JObj kvs) = JObj (sort_key fst (map (\<lambda>kv. (fst kv, sorted_json (snd kv))) kvs))"
| "sorted_json j = j"

definition marshal_vars :: "vars \<Rightarrow> json" where
  "marshal_vars vars = (case vars of None \<Rightarrow> JNull | Some m \<Rightarrow> sorted_json (JObj m))"

text \<open>\<open>Encode\<close> writes the text of a document and a newline in one call.\<close>

definition Encode :: "codec \<Rightarrow> 'm go_guest \<Rightarrow> json \<Rightarrow> 'm step" where
  "Encode cd G j k m =
     (let b = json_text cd j @ [0x0A]; (p, m1) = gg_place G b m
      in Guest_Runner.Write p (length b) (\<lambda>(n, err). k err) m1)"

section \<open>RunTask\<close>

definition RunTask :: "codec \<Rightarrow> (json \<Rightarrow> go_error + json) \<Rightarrow> 'm go_guest \<Rightarrow> nat \<Rightarrow>
    (vars \<Rightarrow> (go_error option \<times> vars, 'm) prog) \<Rightarrow> (i32, 'm) prog" where
  "RunTask cd f64 G fuel handler k m =
     Decode_text G fuel
       (\<lambda>r m1. case r of
          Inl e \<Rightarrow> k (-1) m1
        | Inr b \<Rightarrow>
            (case unmarshal_vars cd f64 b of
               Inl e \<Rightarrow> k (-1) m1
             | Inr vars \<Rightarrow>
                 handler vars
                   (\<lambda>(err, vars') m2. case err of
                      Some e \<Rightarrow> k (-1) m2
                    | None \<Rightarrow>
                        Encode cd G (marshal_vars vars')
                          (\<lambda>err m3. case err of
                             Some e \<Rightarrow> k (-1) m3
                           | None \<Rightarrow>
                               Guest_Runner.Close
                                 (\<lambda>err m4. case err of Some e \<Rightarrow> k (-1) m4 | None \<Rightarrow> k 0 m4) m3) m2) m1)) m"

section \<open>examples/safe-task\<close>

text \<open>
  The handler of the task, and the program: \<open>main\<close> does nothing with the result of \<open>RunTask\<close>, and the Go
  runtime ends a program whose \<open>main\<close> has returned with exit code 0.
\<close>

definition safe_task :: "vars \<Rightarrow> (go_error option \<times> vars, 'm) prog" where
  "safe_task vars k m =
     (case (case vars of None \<Rightarrow> None | Some kvs \<Rightarrow> map_of kvs ''item'') of
        None \<Rightarrow> k (Some (Err (''missing variable '' @ [CHR 0x27] @ ''item'' @ [CHR 0x27])), vars) m
      | Some item \<Rightarrow>
          k (None, map_option (AList.update ''in_stock'' (JBool (item \<noteq> JStr ''out_of_stock_item''))) vars) m)"

definition safe_task_main :: "codec \<Rightarrow> (json \<Rightarrow> go_error + json) \<Rightarrow> 'm go_guest \<Rightarrow> nat \<Rightarrow> u64 list \<Rightarrow> 'm \<Rightarrow> 'm guest" where
  "safe_task_main cd f64 G fuel params m = RunTask cd f64 G fuel safe_task (\<lambda>_ m1. ProcExit m1 0) m"

text \<open>The handler of the example makes no host call, and writes the variable \<open>in_stock\<close>.\<close>

definition safe_vars :: "vars \<Rightarrow> go_error option \<times> vars" where
  "safe_vars vars =
     (case (case vars of None \<Rightarrow> None | Some kvs \<Rightarrow> map_of kvs ''item'') of
        None \<Rightarrow> (Some (Err (''missing variable '' @ [CHR 0x27] @ ''item'' @ [CHR 0x27])), vars)
      | Some item \<Rightarrow> (None, map_option (AList.update ''in_stock'' (JBool (item \<noteq> JStr ''out_of_stock_item''))) vars))"

lemma safe_task_vars: "safe_task = (\<lambda>vars k. k (safe_vars vars))"
  by (intro ext) (simp add: safe_task_def safe_vars_def split: option.split)

section \<open>The decoder over a stream\<close>

text \<open>
  \<open>ok R m\<close>: the heap is well formed and has room for \<open>R\<close> bytes; \<open>live p l m\<close>: a slice of \<open>l\<close> bytes lies
  at \<open>p\<close>. What the host writes into a live slice changes nothing else; \<open>kept m\<close> is what the program has in
  memory beside its slices.
\<close>

locale json_program = linear_memory M contents valid
  for M :: "'m memory_api" and contents and valid +
  fixes G :: "'m go_guest" and ok :: "nat \<Rightarrow> 'm \<Rightarrow> bool" and live :: "u32 \<Rightarrow> nat \<Rightarrow> 'm \<Rightarrow> bool"
    and kept :: "'m \<Rightarrow> 'x"
  assumes ok_valid: "ok R m \<Longrightarrow> valid m \<and> length (contents m) < page_size * max_pages"
    and place: "ok R m \<Longrightarrow> length bs \<le> R \<Longrightarrow> gg_place G bs m = (p, m') \<Longrightarrow>
      ok (R - length bs) m' \<and> live p (length bs) m' \<and> go_slice (unat p) (length bs) (contents m') = bs \<and> kept m' = kept m"
    and live_fits: "ok R m \<Longrightarrow> live p l m \<Longrightarrow> unat p + l \<le> length (contents m) \<and> unat p + l < 2 ^ 31"
    and live_apart: "ok R m \<Longrightarrow> live p l m \<Longrightarrow> i + j \<le> l \<Longrightarrow> valid m' \<Longrightarrow>
      same_outside (unat p + i) j (contents m) (contents m') \<Longrightarrow> ok R m' \<and> live p l m' \<and> kept m' = kept m"
    and read: "ok R m \<Longrightarrow> gg_bytes G p n m = go_slice (unat p) n (contents m)"
begin

text \<open>What reading leaves of the memory and the session.\<close>

abbreviation stays :: "'m \<Rightarrow> 'm \<Rightarrow> ('m, 'e) session \<Rightarrow> ('m, 'e) session \<Rightarrow> bool" where
  "stays m m1 s s1 \<equiv> kept m1 = kept m \<and> same_core s s1 \<and> ses_uploadBuffer s1 = ses_uploadBuffer s"

text \<open>The buffer holds \<open>data\<close>; an empty buffer need not have an array.\<close>

definition holds_data :: "u32 \<Rightarrow> nat \<Rightarrow> bytes \<Rightarrow> 'm \<Rightarrow> bool" where
  "holds_data buf cap data m \<longleftrightarrow> length data \<le> cap \<and> (0 < cap \<longrightarrow> live buf cap m) \<and>
     go_slice (unat buf) (length data) (contents m) = data"

lemma go_slice_extend:
  "go_slice (a + n) l xs = ys \<Longrightarrow> go_slice a n xs = zs \<Longrightarrow> go_slice a (n + l) xs = zs @ ys"
  by (metis add.commute drop_drop go_slice_def take_add)

lemma unat_plus_small: "unat (p :: u32) + n < 2 ^ 31 \<Longrightarrow> unat (p + word_of_nat n) = unat p + n"
  by (simp add: unat_word_ariths unat_of_nat)

text \<open>Making room.\<close>

lemma grow:
  assumes "ok R m" "holds_data buf cap data m" "2 * cap + 512 \<le> R"
    and "gg_place G (gg_bytes G buf (length data) m @ replicate (2 * cap + 512 - length data) 0) m = (p, m')"
  shows "ok (R - (2 * cap + 512)) m' \<and> live p (2 * cap + 512) m' \<and> holds_data p (2 * cap + 512) data m' \<and> kept m' = kept m"
proof -
  have d: "gg_bytes G buf (length data) m = data" using assms(2) read[OF assms(1)] by (simp add: holds_data_def)
  have l: "length (data @ replicate (2 * cap + 512 - length data) 0) = 2 * cap + 512"
    using assms(2) by (simp add: holds_data_def)
  have "length (data @ replicate (2 * cap + 512 - length data) 0) \<le> R" using l assms(3) by simp
  from place[OF assms(1) this assms(4)[unfolded d]] have P: "ok (R - (2 * cap + 512)) m'" "live p (2 * cap + 512) m'"
    "go_slice (unat p) (2 * cap + 512) (contents m') = data @ replicate (2 * cap + 512 - length data) 0" "kept m' = kept m"
    unfolding l by blast+
  have "go_slice (unat p) (length data) (contents m') = take (length data) (go_slice (unat p) (2 * cap + 512) (contents m'))"
    using assms(2) by (simp add: go_slice_def holds_data_def min_def)
  then show ?thesis using P assms(2) by (simp add: holds_data_def)
qed

text \<open>One read into the free part of the buffer.\<close>

lemma read_free:
  fixes s :: "('m, 'e) session"
  assumes H: "h_mem H = M" and m: "ok R m" "holds_data buf cap data m" and free: "length data < cap"
    and st: "streaming s rest" "rest \<noteq> []"
  shows "\<exists>m1 s1. ok R m1 \<and> holds_data buf cap (data @ take (cap - length data) rest) m1 \<and>
    streaming s1 (drop (cap - length data) rest) \<and> stays m m1 s s1 \<and>
    (\<forall>k. Call H (Guest_Runner.Read (buf + word_of_nat (length data)) (cap - length data) k m) s \<sigma> e =
      Call H (k (int (length (take (cap - length data) rest)), None) m1) s1 \<sigma> e)"
proof -
  let ?p = "buf + word_of_nat (length data)" and ?l = "cap - length data"
  have live: "live buf cap m" using m(2) free by (simp add: holds_data_def)
  note F = live_fits[OF m(1) live] and V = ok_valid[OF m(1)]
  have p: "unat ?p = unat buf + length data" using F free by (intro unat_plus_small) simp
  have b: "unat ?p + ?l \<le> length (contents m)" "unat ?p + ?l < 2 ^ 31" "0 < ?l" using F free p by simp_all
  obtain m1 r eof where X: "valid m1" "same_outside (unat ?p) ?l (contents m) (contents m1)"
    "go_slice (unat ?p) (length (take ?l rest)) (contents m1) = take ?l rest"
    "streaming (s\<lparr>ses_downloadReader := r, ses_downloadEOF := eof, ses_memory := m1\<rparr>) (drop ?l rest)"
    "\<And>k. Call H (Guest_Runner.Read ?p ?l k m) s \<sigma> e = Call H (k (int (length (take ?l rest)), None) m1)
      (s\<lparr>ses_downloadReader := r, ses_downloadEOF := eof, ses_memory := m1\<rparr>) \<sigma> e"
    using Read_into[OF H conjunct1[OF V] conjunct2[OF V] b st(1), of \<sigma> e] st(2) by auto
  have i: "length data + ?l \<le> cap" using free by simp
  have ok1: "ok R m1" "live buf cap m1" "kept m1 = kept m" using live_apart[OF m(1) live i X(1)] X(2) p by simp_all
  have "go_slice (unat buf) (length data) (contents m1) = data"
    using same_outside_slice[OF X(2), of "unat buf" "length data"] m(2) p by (simp add: holds_data_def)
  then have "go_slice (unat buf) (length data + length (take ?l rest)) (contents m1) = data @ take ?l rest"
    using X(3) p by (intro go_slice_extend) simp_all
  then have "holds_data buf cap (data @ take ?l rest) m1"
    using ok1(2) free by (simp add: holds_data_def)
  then show ?thesis using X(4,5) ok1(1,3)
    by (intro exI[of _ m1] exI[of _ "s\<lparr>ses_downloadReader := r, ses_downloadEOF := eof, ses_memory := m1\<rparr>"]) simp
qed

text \<open>A refill while there is more to come reads at least 512 bytes, or all of it.\<close>

lemma refill_stream:
  fixes s :: "('m, 'e) session"
  assumes H: "h_mem H = M" and m: "ok R m" "holds_data buf cap data m"
    and st: "streaming s rest" "rest \<noteq> []" and room: "4 * length (data @ rest) + 3072 \<le> R + 2 * cap"
    and cap: "cap \<le> 2 * length (data @ rest) + 1536"
  shows "\<exists>R1 m1 s1 buf1 cap1 l. 512 \<le> l \<and> ok R1 m1 \<and> holds_data buf1 cap1 (data @ take l rest) m1 \<and>
    R + 2 * cap \<le> R1 + 2 * cap1 \<and> cap1 \<le> 2 * length (data @ rest) + 1536 \<and> streaming s1 (drop l rest) \<and> stays m m1 s s1 \<and>
    (\<forall>k. Call H (refill G buf (length data) cap k m) s \<sigma> e =
      Call H (k (buf1, length (data @ take l rest), cap1, None) m1) s1 \<sigma> e)"
proof -
  obtain R1 m0 buf1 cap1 where 0: "ok R1 m0" "holds_data buf1 cap1 data m0" "512 \<le> cap1 - length data" "R + 2 * cap \<le> R1 + 2 * cap1"
    "cap1 \<le> 2 * length (data @ rest) + 1536" "kept m0 = kept m"
    "refill G buf (length data) cap k m = Guest_Runner.Read (buf1 + word_of_nat (length data)) (cap1 - length data)
       (\<lambda>(n, err) m2. if n > int (cap1 - length data) then Trap m2 slice_panic
                       else k (buf1, length data + nat n, cap1, err) m2) m0" for k
  proof (cases "cap - length data < 512")
    case True
    obtain p m' where p: "gg_place G (gg_bytes G buf (length data) m @ replicate (2 * cap + 512 - length data) 0) m = (p, m')"
      by fastforce
    have len: "length data \<le> cap" using m(2) by (simp add: holds_data_def)
    have "cap < length data + 512" "length (data @ rest) = length data + length rest" using True by simp_all
    then have R: "2 * cap + 512 \<le> R" "2 * cap + 512 \<le> 2 * length (data @ rest) + 1536" using room by linarith+
    from grow[OF m R(1) p] have "ok (R - (2 * cap + 512)) m'" "holds_data p (2 * cap + 512) data m'" "kept m' = kept m" by blast+
    then show ?thesis using p True R len
      by (intro that[of "R - (2 * cap + 512)" m' p "2 * cap + 512"]) (simp_all add: refill_def Let_def)
  next
    case False
    then show ?thesis using m cap by (intro that[of R m buf cap]) (simp_all add: refill_def)
  qed
  let ?l = "cap1 - length data"
  have free: "length data < cap1" using 0(3) by linarith
  obtain m1 s1 where 1: "ok R1 m1" "holds_data buf1 cap1 (data @ take ?l rest) m1" "streaming s1 (drop ?l rest)" "stays m0 m1 s s1"
    "\<And>k. Call H (Guest_Runner.Read (buf1 + word_of_nat (length data)) ?l k m0) s \<sigma> e =
      Call H (k (int (length (take ?l rest)), None) m1) s1 \<sigma> e"
    using read_free[OF H 0(1,2) free st, of \<sigma> e] by blast
  moreover have "int (length (take ?l rest)) \<le> int ?l" by simp
  ultimately show ?thesis using 0(3-6)
    by (rule_tac exI[of _ R1], rule_tac exI[of _ m1], rule_tac exI[of _ s1], rule_tac exI[of _ buf1], rule_tac exI[of _ cap1],
        rule_tac exI[of _ ?l]) (simp add: 0(7) del: length_take of_nat_diff)
qed

text \<open>
  From any point of the stream the loop finds the value \<open>t\<close>, if the scanner finds it in all that has been
  and will be read.
\<close>

lemma readValue_stream:
  fixes s :: "('m, 'e) session"
  assumes H: "h_mem H = M" and t: "\<And>y. scan_from scan_init 0 (string_of_bytes t @ y) = Found (length t)"
    and m: "ok R m" "holds_data buf cap data m" and st: "streaming s rest" and all: "data @ rest = t @ extra"
    and sc: "\<And>y. scan_from sc scanp (string_of_bytes (drop scanp data) @ y) = scan_from scan_init 0 (string_of_bytes data @ y)"
    and fuel: "length rest \<le> 512 * fuel" and room: "4 * length (data @ rest) + 3072 \<le> R + 2 * cap"
    and cap: "cap \<le> 2 * length (data @ rest) + 1536"
  shows "\<exists>R1 m1 s1. ok R1 m1 \<and> R + 2 * cap \<le> R1 + 4 * length (data @ rest) + 3072 \<and>
    stays m m1 s s1 \<and>
    (\<forall>k. Call H (readValue G (Suc fuel) (buf, length data, cap, None) sc scanp k m) s \<sigma> e = Call H (k (Inr t) m1) s1 \<sigma> e)"
  using m st all sc fuel room cap
proof (induction fuel arbitrary: R m buf cap data s rest sc scanp)
  case (0 R m buf cap data s rest sc scanp)
  then have d: "data = t @ extra" by simp
  have "gg_bytes G buf (length data) m = data" using 0(2) read[OF 0(1)] by (simp add: holds_data_def)
  moreover have "scan_from sc scanp (string_of_bytes (drop scanp data)) = Found (length t)"
    using 0(5)[of "[]"] t[of "string_of_bytes extra"] d by (simp add: string_of_bytes_def)
  ultimately show ?case using 0(1,8) d
    by (rule_tac exI[of _ R], rule_tac exI[of _ m], rule_tac exI[of _ s]) (simp del: drop_append)
next
  case (Suc fuel R m buf cap data s rest sc scanp)
  have g: "gg_bytes G buf (length data) m = data" using Suc.prems(2) read[OF Suc.prems(1)] by (simp add: holds_data_def)
  have scan: "scan_from sc scanp (string_of_bytes (drop scanp data)) = scan_from scan_init 0 (string_of_bytes data)"
    using Suc.prems(5)[of "[]"] by simp
  show ?case
  proof (cases "length t \<le> length data")
    case True
    then have d: "data = t @ drop (length t) data" "take (length t) data = t"
      using Suc.prems(4) by (metis append_eq_append_conv_if append_take_drop_id)+
    have "scan_from scan_init 0 (string_of_bytes data) = Found (length t)"
      using t[of "string_of_bytes (drop (length t) data)"] arg_cong[OF d(1), of string_of_bytes]
      by (simp add: string_of_bytes_def)
    then show ?thesis using Suc.prems(1,8) g scan d(2)
      by (rule_tac exI[of _ R], rule_tac exI[of _ m], rule_tac exI[of _ s]) simp
  next
    case False
    then obtain ys where ys: "t = data @ ys" "rest = ys @ extra" "ys \<noteq> []"
      using Suc.prems(4) by (auto simp: append_eq_append_conv2)
    have rest: "rest \<noteq> []" using ys by simp
    have "scan_from scan_init 0 (string_of_bytes data @ string_of_bytes ys) = Found (length (string_of_bytes data @ string_of_bytes ys))"
      using t[of "[]"] ys(1) by (simp add: string_of_bytes_def)
    then obtain s' where s': "scan_from scan_init 0 (string_of_bytes data) = More s'"
      by (rule scan_from_prefix) (use ys(3) in \<open>auto simp: string_of_bytes_def\<close>)
    obtain R1 m1 s1 buf1 cap1 l where 1: "512 \<le> l" "ok R1 m1" "holds_data buf1 cap1 (data @ take l rest) m1"
      "R + 2 * cap \<le> R1 + 2 * cap1" "cap1 \<le> 2 * length (data @ rest) + 1536" "streaming s1 (drop l rest)"
      "stays m m1 s s1"
      "\<And>k. Call H (refill G buf (length data) cap k m) s \<sigma> e =
        Call H (k (buf1, length (data @ take l rest), cap1, None) m1) s1 \<sigma> e"
      using refill_stream[OF H Suc.prems(1,2,3) rest Suc.prems(7,8), of \<sigma> e] by blast
    let ?data = "data @ take l rest" and ?rest = "drop l rest"
    have all: "?data @ ?rest = t @ extra" "length (?data @ ?rest) = length (data @ rest)" using Suc.prems(4) by simp_all
    have sc: "scan_from s' (length data) (string_of_bytes (drop (length data) ?data) @ y) =
        scan_from scan_init 0 (string_of_bytes ?data @ y)" for y
      using scan_from_append[of scan_init 0 "string_of_bytes data" "string_of_bytes (take l rest) @ y"] s'
      by (simp add: string_of_bytes_def)
    have fuel: "length ?rest \<le> 512 * fuel" using Suc.prems(6) 1(1) by simp
    have room: "4 * length (?data @ ?rest) + 3072 \<le> R1 + 2 * cap1" "cap1 \<le> 2 * length (?data @ ?rest) + 1536"
      unfolding all(2) using 1(4,5) Suc.prems(7) by linarith+
    obtain R2 m2 s2 where 2: "ok R2 m2" "R1 + 2 * cap1 \<le> R2 + 4 * length (?data @ ?rest) + 3072"
      "stays m1 m2 s1 s2"
      "\<And>k. Call H (readValue G (Suc fuel) (buf1, length ?data, cap1, None) s' (length data) k m1) s1 \<sigma> e =
        Call H (k (Inr t) m2) s2 \<sigma> e"
      using Suc.IH[OF 1(2,3,6) all(1) sc fuel room] by blast
    have "Call H (readValue G (Suc (Suc fuel)) (buf, length data, cap, None) sc scanp k m) s \<sigma> e = Call H (k (Inr t) m2) s2 \<sigma> e" for k
      by (subst readValue.simps(2)) (simp add: g scan s' Let_def 1(8) 2(4) del: readValue.simps length_append)
    moreover have "stays m m2 s s2" using 1(7) 2(3) same_core_trans[of s s1 s2] by simp
    ultimately show ?thesis using 2(1,2) 1(4) all(2)
      by (rule_tac exI[of _ R2], rule_tac exI[of _ m2], rule_tac exI[of _ s2]) (simp del: readValue.simps length_append)
  qed
qed

text \<open>The first refill asks the handler for the data.\<close>

lemma Decode_first:
  fixes s :: "('m, 'e) session"
  assumes H: "h_mem H = M" and m: "ok R m" "512 \<le> R"
    and s: "\<not> ses_downloadEOF s" "ses_downloadReader s = None" "ses_DownloadHandler s = Some dl" "dl e = (Inr d, e1)"
  shows "Call H (Decode_text G (Suc fuel) k m) s \<sigma> e = Call H (Decode_text G (Suc fuel) k m) (s\<lparr>ses_downloadReader := Some d\<rparr>) \<sigma> e1"
proof -
  have g: "gg_bytes G 0 0 m = []" using read[OF m(1)] by (simp add: go_slice_def)
  obtain p m' where p: "gg_place G (replicate 512 0) m = (p, m')" by fastforce
  have len: "length (replicate 512 (0::byte)) \<le> R" using m(2) by simp
  have P: "ok (R - 512) m'" "live p 512 m'" using place[OF m(1) len p] by (simp_all only: length_replicate)
  note F = live_fits[OF P] and V = ok_valid[OF P(1)]
  show ?thesis
    using Read_first[OF H _ _ _ _ s, of m' p 512 _ \<sigma>] F V
    by (simp add: Decode_text_def g string_of_bytes_def refill_def p)
qed

lemma Decode_text_stream:
  fixes s :: "('m, 'e) session"
  assumes H: "h_mem H = M" and t: "\<And>y. scan_from scan_init 0 (string_of_bytes t @ y) = Found (length t)"
    and m: "ok R m" and room: "4 * length (t @ extra) + 3072 \<le> R" and fuel: "length (t @ extra) \<le> 512 * fuel"
    and s: "\<not> ses_downloadEOF s" "ses_downloadReader s = None" "ses_DownloadHandler s = Some dl" "dl e = (Inr (t @ extra), e1)"
  shows "\<exists>R1 m1 s1. ok R1 m1 \<and> R \<le> R1 + 4 * length (t @ extra) + 3072 \<and> stays m m1 s s1 \<and>
    (\<forall>k. Call H (Decode_text G (Suc fuel) k m) s \<sigma> e = Call H (k (Inr t) m1) s1 \<sigma> e1)"
proof -
  let ?s = "s\<lparr>ses_downloadReader := Some (t @ extra)\<rparr>"
  have d: "holds_data 0 0 [] m" by (simp add: holds_data_def go_slice_def)
  have st: "streaming ?s (t @ extra)" using s(1) by (simp add: streaming_def)
  have all: "[] @ t @ extra = t @ extra" by simp
  have sc: "\<And>y. scan_from scan_init 0 (string_of_bytes (drop 0 []) @ y) = scan_from scan_init 0 (string_of_bytes [] @ y)" by simp
  have r: "4 * length ([] @ t @ extra) + 3072 \<le> R + 2 * 0" "0 \<le> 2 * length ([] @ t @ extra) + 1536" using room by simp_all
  obtain R1 m1 s1 where 1: "ok R1 m1" "R + 2 * 0 \<le> R1 + 4 * length ([] @ t @ extra) + 3072"
    "stays m m1 ?s s1"
    "\<And>k. Call H (readValue G (Suc fuel) (0, length ([] :: bytes), 0, None) scan_init 0 k m) ?s \<sigma> e1 = Call H (k (Inr t) m1) s1 \<sigma> e1"
    using readValue_stream[OF H t m d st all sc fuel r, of \<sigma> e1] by blast
  have R: "512 \<le> R" using room by simp
  have "same_core s s1" using 1(3) by (simp add: same_core_def)
  then show ?thesis using 1 Decode_first[OF H m R s, of fuel _ \<sigma>]
    by (rule_tac exI[of _ R1], rule_tac exI[of _ m1], rule_tac exI[of _ s1]) (simp add: Decode_text_def del: readValue.simps)
qed

text \<open>A document goes to the upload buffer with its newline; the flush hands it to the handler, whose answer is not seen.\<close>

lemma Encode_place:
  fixes s :: "('m, 'e) session"
  assumes H: "h_mem H = M" and m: "ok R m" "Suc (length (json_text cd j)) \<le> R"
    and p: "gg_place G (json_text cd j @ [0x0A]) m = (p, m1)"
  shows "ok (R - Suc (length (json_text cd j))) m1 \<and> kept m1 = kept m \<and>
    Call H (Encode cd G j k m) s \<sigma> e = Call H (k None m1)
      (s\<lparr>ses_uploadBuffer := ses_uploadBuffer s @ json_text cd j @ [0x0A], ses_memory := m1\<rparr>) \<sigma> e"
proof -
  let ?b = "json_text cd j @ [0x0A]"
  have "length ?b \<le> R" using m(2) by simp
  from place[OF m(1) this p] have P: "ok (R - length ?b) m1" "live p (length ?b) m1"
    "go_slice (unat p) (length ?b) (contents m1) = ?b" "kept m1 = kept m" by blast+
  note F = live_fits[OF P(1,2)] and V = ok_valid[OF P(1)]
  have "Call H (Guest_Runner.Write p (length ?b) k m1) s \<sigma> e = Call H (k (int (length ?b), None) m1)
      (s\<lparr>ses_uploadBuffer := ses_uploadBuffer s @ ?b, ses_memory := m1\<rparr>) \<sigma> e" for k
    using Write_chunk[OF H conjunct1[OF V] conjunct2[OF V] conjunct1[OF F] conjunct2[OF F], of k s \<sigma> e] P(3) by simp
  then show ?thesis using P(1,4) p by (simp add: Encode_def)
qed

lemma Encode_stream:
  fixes s :: "('m, 'e) session"
  assumes H: "h_mem H = M" and m: "ok R m" "Suc (length (json_text cd j)) \<le> R"
  shows "\<exists>m1. ok (R - Suc (length (json_text cd j))) m1 \<and> kept m1 = kept m \<and>
    (\<forall>k. Call H (Encode cd G j k m) s \<sigma> e = Call H (k None m1)
      (s\<lparr>ses_uploadBuffer := ses_uploadBuffer s @ json_text cd j @ [0x0A], ses_memory := m1\<rparr>) \<sigma> e)"
  using Encode_place[OF H m surjective_pairing, of _ s \<sigma> e] by blast

lemma Close_stream:
  fixes s :: "('m, 'e) session"
  assumes H: "h_mem H = M" and m: "ok R m"
    and s: "ses_uploadBuffer s \<noteq> []" "ses_UploadHandler s = Some hu" "hu (ses_uploadBuffer s) e = (err, e1)"
  shows "\<exists>s1. ses_uploadBuffer s1 = [] \<and> ses_downloadReader s1 = None \<and> \<not> ses_downloadEOF s1 \<and>
    same_core s s1 \<and>
    (\<forall>k. Call H (Guest_Runner.Close k m) s \<sigma> e = Call H (k None m) s1 \<sigma> e1)"
  using Close_upload[OF H conjunct1[OF ok_valid[OF m]] conjunct2[OF ok_valid[OF m]] s, of _ \<sigma>] s(2)
  by (intro exI[of _ "s\<lparr>ses_memory := m, ses_uploadBuffer := [], ses_downloadReader := None, ses_downloadEOF := False\<rparr>"]) simp

end

section \<open>A task from its variables to its results\<close>

locale task_program = json_program M contents valid G ok live kept + json_stream cd
  for M :: "'m memory_api" and contents and valid and G :: "'m go_guest" and ok and live and kept :: "'m \<Rightarrow> 'x" and cd
begin

lemma RunTask_variables:
  fixes s :: "('m, 'e) session"
  assumes H: "h_mem H = M" and m: "ok R m"
    and s: "\<not> ses_downloadEOF s" "ses_downloadReader s = None" "ses_uploadBuffer s = []"
      "ses_DownloadHandler s = Some dl" "ses_UploadHandler s = Some hu"
    and doc: "json_utf8 (JObj kvs)" "json_depth (JObj kvs) \<le> 10000" "dl e = (Inr (json_text cd (JObj kvs) @ extra), e1)"
    and vars: "dec_interface f64 (JObj kvs) = (JObj vs, None)" "f (Some vs) = (herr, vars')"
    and room: "4 * length (json_text cd (JObj kvs) @ extra) + length (json_text cd (marshal_vars vars')) + 3073 \<le> R"
    and fuel: "length (json_text cd (JObj kvs) @ extra) \<le> 512 * fuel"
  shows "\<exists>R1 m1 s1. ok R1 m1 \<and> kept m1 = kept m \<and> ses_uploadBuffer s1 = [] \<and>
    (\<forall>k. Call H (RunTask cd f64 G (Suc fuel) (\<lambda>vars k. k (f vars)) k m) s \<sigma> e =
      (if herr = None then Call H (k 0 m1) s1 \<sigma> (snd (hu (json_text cd (marshal_vars vars') @ [0x0A]) e1))
       else Call H (k (-1) m1) s1 \<sigma> e1))"
proof -
  let ?t = "json_text cd (JObj kvs)"
  have t: "\<And>y. scan_from scan_init 0 (string_of_bytes ?t @ y) = Found (length ?t)" by (rule scan_text[OF doc(1,2)])
  have r: "4 * length (?t @ extra) + 3072 \<le> R" using room by linarith
  obtain R1 m1 s1 where 1: "ok R1 m1" "R \<le> R1 + 4 * length (?t @ extra) + 3072"
    "stays m m1 s s1"
    "\<And>k. Call H (Decode_text G (Suc fuel) k m) s \<sigma> e = Call H (k (Inr ?t) m1) s1 \<sigma> e1"
    using Decode_text_stream[OF H t m r fuel s(1,2,4) doc(3), of \<sigma>] by blast
  have u: "unmarshal_vars cd f64 ?t = Inr (Some vs)" by (simp add: unmarshal_vars_def json[OF doc(1)] vars(1) del: dec_interface.simps)
  have D: "Call H (RunTask cd f64 G (Suc fuel) (\<lambda>vars k. k (f vars)) k m) s \<sigma> e =
      Call H (case herr of Some e \<Rightarrow> k (-1) m1
        | None \<Rightarrow> Encode cd G (marshal_vars vars') (\<lambda>err m3. case err of Some e \<Rightarrow> k (-1) m3
        | None \<Rightarrow> Guest_Runner.Close (\<lambda>err m4. case err of Some e \<Rightarrow> k (-1) m4 | None \<Rightarrow> k (0 :: i32) m4) m3) m1) s1 \<sigma> e1" for k
    unfolding RunTask_def 1(4) by (simp add: u vars(2))
  show ?thesis
  proof (cases herr)
    case None
    have e: "Suc (length (json_text cd (marshal_vars vars'))) \<le> R1" using room 1(2) by simp
    let ?u = "json_text cd (marshal_vars vars') @ [0x0A]"
    obtain err e2 where hu: "hu ?u e1 = (err, e2)" by fastforce
    obtain m2 where 2: "ok (R1 - Suc (length (json_text cd (marshal_vars vars')))) m2" "kept m2 = kept m1"
      "\<And>k. Call H (Encode cd G (marshal_vars vars') k m1) s1 \<sigma> e1 = Call H (k None m2)
        (s1\<lparr>ses_uploadBuffer := ses_uploadBuffer s1 @ ?u, ses_memory := m2\<rparr>) \<sigma> e1"
      using Encode_stream[OF H 1(1) e, of s1 \<sigma> e1] by blast
    let ?s2 = "s1\<lparr>ses_uploadBuffer := ses_uploadBuffer s1 @ ?u, ses_memory := m2\<rparr>"
    have up: "ses_uploadBuffer ?s2 \<noteq> []" "ses_UploadHandler ?s2 = Some hu" "hu (ses_uploadBuffer ?s2) e1 = (err, e2)"
      using 1(3) s(3,5) hu by (simp_all add: same_core_def)
    obtain s3 where 3: "ses_uploadBuffer s3 = []"
      "\<And>k. Call H (Guest_Runner.Close k m2) ?s2 \<sigma> e1 = Call H (k None m2) s3 \<sigma> e2"
      using Close_stream[OF H 2(1) up, of \<sigma>] by blast
    show ?thesis unfolding D using None 2(1,2) conjunct1[OF 1(3)] 3(1) hu
      by (rule_tac exI[of _ "R1 - Suc (length (json_text cd (marshal_vars vars')))"], rule_tac exI[of _ m2], rule_tac exI[of _ s3])
         (simp add: 2(3) 3(2))
  next
    case (Some x)
    then show ?thesis unfolding D using 1(1,3) s(3) by auto
  qed
qed

text \<open>
  The task of the example without its variable: nothing is uploaded, and the program still ends as one that
  succeeded.
\<close>

lemma safe_task_failure_exits_0:
  fixes s :: "('m, 'e) session"
  assumes H: "h_mem H = M" and m: "ok R m"
    and s: "\<not> ses_downloadEOF s" "ses_downloadReader s = None" "ses_uploadBuffer s = []"
      "ses_DownloadHandler s = Some dl" "ses_UploadHandler s = Some hu"
    and doc: "json_utf8 (JObj kvs)" "json_depth (JObj kvs) \<le> 10000" "dl e = (Inr (json_text cd (JObj kvs) @ extra), e1)"
    and vars: "dec_interface f64 (JObj kvs) = (JObj vs, None)" "map_of vs ''item'' = None"
    and room: "4 * length (json_text cd (JObj kvs) @ extra) + length (json_text cd (marshal_vars (Some vs))) + 3073 \<le> R"
    and fuel: "length (json_text cd (JObj kvs) @ extra) \<le> 512 * fuel"
  shows "\<exists>m1 s1. ses_uploadBuffer s1 = [] \<and>
    Call H (safe_task_main cd f64 G (Suc fuel) params m) s \<sigma> e = Call H (ProcExit m1 0) s1 \<sigma> e1"
proof -
  let ?err = "Err (''missing variable '' @ [CHR 0x27] @ ''item'' @ [CHR 0x27])"
  have "safe_vars (Some vs) = (Some ?err, Some vs)" using vars(2) by (simp add: safe_vars_def)
  from RunTask_variables[where f = safe_vars, OF H m s doc vars(1) this room fuel, of \<sigma>] show ?thesis
    by (auto simp: safe_task_main_def safe_task_vars)
qed

end

end
