(* ===== verification/CSV_Reader.thy ===== *)
theory CSV_Reader
  imports Guest_Task
begin

text \<open>
  The reader of \<open>encoding/csv\<close> that the worker of \<open>examples/process-csv\<close> puts on the download stream, with
  the buffered reader of \<open>bufio\<close> under it: lines are found in a buffer of 4096 bytes that is refilled by
  reads of the stream, and a record is parsed line by line. The second half states what the reader computes
  of a whole text, without buffers, and proves that the program over the streams computes the same.
\<close>

lemma length_takeWhile_less: "\<exists>x\<in>set xs. \<not> P x \<Longrightarrow> length (takeWhile P xs) < length xs"
  by (induction xs) auto

section \<open>The fields of a line\<close>

text \<open>The number of bytes of the newline at the end of a line.\<close>

definition lengthNL :: "string \<Rightarrow> nat" where
  "lengthNL l = (if l \<noteq> [] \<and> last l = CHR 0x0A then 1 else 0)"

text \<open>
  Where a record is malformed: a quote inside a field that does not begin with one, a quote that is
  neither doubled nor at the end of its field, and a quoted field without an end; each with its column.
\<close>

datatype parse_error = BareQuote nat | StrayQuote nat | OpenQuote nat

text \<open>
  What a line gives: the fields of the record, with an error; or the fields so far and the content of a
  quoted field that goes on after the line, with the column behind it.
\<close>

datatype csv_parse = Record "string list" "parse_error option" | NextLine "string list" string nat

text \<open>
  \<open>parse_line stop quoted col fs line\<close>: the rest of a line, at its column \<open>col\<close>, after the fields \<open>fs\<close>.
  \<open>quoted\<close> is the content so far of the quoted field the parser is in; \<open>stop\<close> says that the line came
  with an error, after which no other line is read.
\<close>

function parse_line :: "bool \<Rightarrow> string option \<Rightarrow> nat \<Rightarrow> string list \<Rightarrow> string \<Rightarrow> csv_parse" where
  "parse_line stop None col fs line =
     (if line = [] \<or> line ! 0 \<noteq> CHR 0x22 then
        (let front = takeWhile (\<lambda>c. c \<noteq> CHR '','') line
         in case dropWhile (\<lambda>c. c \<noteq> CHR '','') line of
              [] \<Rightarrow>
                (let field = take (length line - lengthNL line) line
                 in if CHR 0x22 \<in> set field
                    then Record fs (Some (BareQuote (col + length (takeWhile (\<lambda>c. c \<noteq> CHR 0x22) field))))
                    else Record (fs @ [field]) None)
            | _ # rest \<Rightarrow>
                if CHR 0x22 \<in> set front
                then Record fs (Some (BareQuote (col + length (takeWhile (\<lambda>c. c \<noteq> CHR 0x22) front))))
                else parse_line stop None (col + length front + 1) (fs @ [front]) rest)
      else parse_line stop (Some []) (col + 1) fs (drop 1 line))"
| "parse_line stop (Some buf) col fs line =
     (case dropWhile (\<lambda>c. c \<noteq> CHR 0x22) line of
        _ # rest \<Rightarrow>
          (let front = takeWhile (\<lambda>c. c \<noteq> CHR 0x22) line; col' = col + length front + 1
           in if rest \<noteq> [] \<and> rest ! 0 = CHR 0x22
              then parse_line stop (Some (buf @ front @ [CHR 0x22])) (col' + 1) fs (drop 1 rest)
              else if rest \<noteq> [] \<and> rest ! 0 = CHR '',''
              then parse_line stop None (col' + 1) (fs @ [buf @ front]) (drop 1 rest)
              else if lengthNL rest = length rest then Record (fs @ [buf @ front]) None
              else Record fs (Some (StrayQuote (col' - 1))))
      | [] \<Rightarrow>
          if line \<noteq> [] then (if stop then Record fs None else NextLine fs (buf @ line) (col + length line))
          else if stop then Record (fs @ [buf]) None
          else Record fs (Some (OpenQuote col)))"
  by pat_completeness auto

lemma length_drop_until: "dropWhile P xs = y # ys \<Longrightarrow> length ys < length xs"
  by (metis Suc_le_lessD length_Cons length_dropWhile_le)

termination parse_line
proof (relation "measure (\<lambda>(stop, quoted, col, fs, line). length line)", goal_cases)
  case 2
  then show ?case by (simp add: length_drop_until)
qed (auto dest!: length_drop_until)

declare parse_line.simps [simp del]

text \<open>The error of a record that began at \<open>recLine\<close>, with \<open>numLine\<close> lines read and the position in line \<open>posLine\<close>.\<close>

definition ParseError :: "nat \<Rightarrow> nat \<Rightarrow> nat \<Rightarrow> string \<Rightarrow> go_error" where
  "ParseError startLine line col e =
     Wrap ((if startLine \<noteq> line then ''record on line '' @ format_nat startLine @ ''; '' else []) @
           ''parse error on line '' @ format_nat line @ '', column '' @ format_nat col) (Err e)"

fun parse_error_at :: "nat \<Rightarrow> nat \<Rightarrow> nat \<Rightarrow> parse_error \<Rightarrow> go_error" where
  "parse_error_at recLine numLine posLine (BareQuote col) =
     ParseError recLine numLine col (''bare '' @ [CHR 0x22] @ '' in non-quoted-field'')"
| "parse_error_at recLine numLine posLine (StrayQuote col) =
     ParseError recLine numLine col (''extraneous or missing '' @ [CHR 0x22] @ '' in quoted-field'')"
| "parse_error_at recLine numLine posLine (OpenQuote col) =
     ParseError recLine posLine col (''extraneous or missing '' @ [CHR 0x22] @ '' in quoted-field'')"

definition ErrFieldCount_at :: "nat \<Rightarrow> go_error" where
  "ErrFieldCount_at recLine = Wrap (''record on line '' @ format_nat recLine) (Err ''wrong number of fields'')"

text \<open>The end of a record: the first record sets the number of fields that the others must have.\<close>

definition check_fields :: "nat \<Rightarrow> nat \<Rightarrow> string list \<times> go_error option \<Rightarrow> (string list \<times> go_error option) \<times> nat" where
  "check_fields recLine fieldsPerRecord r =
     (if fieldsPerRecord > 0
      then ((fst r, if length (fst r) \<noteq> fieldsPerRecord \<and> snd r = None then Some (ErrFieldCount_at recLine) else snd r), fieldsPerRecord)
      else (r, length (fst r)))"

section \<open>The buffered reader\<close>

text \<open>What the compiled worker can do with a slice: allocate it, read it and store into it.\<close>

record 'm csv_guest = "'m go_guest" +
  cv_store :: "u32 \<Rightarrow> bytes \<Rightarrow> 'm \<Rightarrow> 'm"

text \<open>The fields of \<open>bufio.Reader\<close> and \<open>csv.Reader\<close>; the buffer lies at \<open>cr_buf\<close>.\<close>

record csv_reader =
  cr_buf :: u32
  cr_r :: nat
  cr_w :: nat
  cr_err :: "go_error option"
  cr_numLine :: nat
  cr_FieldsPerRecord :: nat

definition ErrBufferFull :: go_error where
  "ErrBufferFull = Err ''bufio: buffer full''"

definition io_ErrNoProgress :: go_error where
  "io_ErrNoProgress = Err ''multiple Read calls return no data or error''"

fun fill_tries :: "nat \<Rightarrow> csv_reader \<Rightarrow> (csv_reader, 'm) prog" where
  "fill_tries 0 b k m = k (b\<lparr>cr_err := Some io_ErrNoProgress\<rparr>) m"
| "fill_tries (Suc i) b k m =
     Guest_Runner.Read (cr_buf b + word_of_nat (cr_w b)) (4096 - cr_w b)
       (\<lambda>(n, err) m1.
          if n < 0 then Trap m1 ''bufio: reader returned negative count from Read''
          else if n > int (4096 - cr_w b) then Trap m1 slice_panic
          else (let b1 = b\<lparr>cr_w := cr_w b + nat n\<rparr>
                in if err \<noteq> None then k (b1\<lparr>cr_err := err\<rparr>) m1
                   else if n > 0 then k b1 m1
                   else fill_tries i b1 k m1)) m"

lemma fill_tries_first:
  "fill_tries 100 b k m =
     Guest_Runner.Read (cr_buf b + word_of_nat (cr_w b)) (4096 - cr_w b)
       (\<lambda>(n, err) m1.
          if n < 0 then Trap m1 ''bufio: reader returned negative count from Read''
          else if n > int (4096 - cr_w b) then Trap m1 slice_panic
          else (let b1 = b\<lparr>cr_w := cr_w b + nat n\<rparr>
                in if err \<noteq> None then k (b1\<lparr>cr_err := err\<rparr>) m1
                   else if n > 0 then k b1 m1
                   else fill_tries 99 b1 k m1)) m"
  using fill_tries.simps(2)[of 99 b k m] by simp

definition fill :: "'m csv_guest \<Rightarrow> csv_reader \<Rightarrow> (csv_reader, 'm) prog" where
  "fill G b k m =
     (let (b1, m1) =
        (if cr_r b > 0
         then (b\<lparr>cr_r := 0, cr_w := cr_w b - cr_r b\<rparr>,
               cv_store G (cr_buf b) (gg_bytes G (cr_buf b + word_of_nat (cr_r b)) (cr_w b - cr_r b) m) m)
         else (b, m))
      in if cr_w b1 \<ge> 4096 then Trap m1 ''bufio: tried to fill full buffer'' else fill_tries 100 b1 k m1)"

text \<open>\<open>searched\<close> bytes of the buffer have no newline. The fuel bounds the number of refills.\<close>

fun ReadSlice :: "'m csv_guest \<Rightarrow> nat \<Rightarrow> csv_reader \<Rightarrow> nat \<Rightarrow> (bytes \<times> go_error option \<times> csv_reader, 'm) prog" where
  "ReadSlice G 0 b searched k m = Trap m ''out of fuel''"
| "ReadSlice G (Suc fuel) b searched k m =
     (let data = gg_bytes G (cr_buf b + word_of_nat (cr_r b)) (cr_w b - cr_r b) m
      in if 0x0A \<in> set (drop searched data)
         then (let i = searched + length (takeWhile (\<lambda>c. c \<noteq> 0x0A) (drop searched data))
               in k (take (Suc i) data, None, b\<lparr>cr_r := cr_r b + Suc i\<rparr>) m)
         else case cr_err b of
           Some e \<Rightarrow> k (data, Some e, b\<lparr>cr_r := cr_w b, cr_err := None\<rparr>) m
         | None \<Rightarrow>
             if cr_w b - cr_r b \<ge> 4096 then k (data, Some ErrBufferFull, b\<lparr>cr_r := cr_w b\<rparr>) m
             else fill G b (\<lambda>b1. ReadSlice G fuel b1 (cr_w b - cr_r b) k) m)"

section \<open>Records\<close>

text \<open>A line that does not fit into the buffer is collected from its parts.\<close>

fun read_parts :: "'m csv_guest \<Rightarrow> nat \<Rightarrow> nat \<Rightarrow> bytes \<Rightarrow> csv_reader \<Rightarrow> (bytes \<times> go_error option \<times> csv_reader, 'm) prog" where
  "read_parts G f 0 raw b k m = Trap m ''out of fuel''"
| "read_parts G f (Suc fuel) raw b k m =
     ReadSlice G f b 0
       (\<lambda>(line, err, b1) m1.
          if err = Some ErrBufferFull then read_parts G f fuel (raw @ line) b1 k m1
          else k (raw @ line, err, b1) m1) m"

text \<open>A carriage return before a newline or before the end of the stream is dropped.\<close>

definition drop_CR :: "bytes \<Rightarrow> bytes" where
  "drop_CR l = (let n = length l in
     if n \<ge> 2 \<and> l ! (n - 2) = 0x0D \<and> l ! (n - 1) = 0x0A then take (n - 2) l @ [0x0A] else l)"

definition drop_final_CR :: "bytes \<Rightarrow> bytes" where
  "drop_final_CR l = (if l \<noteq> [] \<and> last l = 0x0D then butlast l else l)"

definition readLine :: "'m csv_guest \<Rightarrow> nat \<Rightarrow> csv_reader \<Rightarrow> (string \<times> go_error option \<times> csv_reader, 'm) prog" where
  "readLine G fuel b k =
     read_parts G fuel fuel [] b
       (\<lambda>(line, err, b1) m1.
          (let ended = (line \<noteq> [] \<and> err = Some io_EOF);
               line1 = (if ended then drop_final_CR line else line);
               err1 = (if ended then None else err)
           in k (string_of_bytes (drop_CR line1), err1, b1\<lparr>cr_numLine := cr_numLine b1 + 1\<rparr>) m1))"

text \<open>Empty lines before a record are skipped.\<close>

fun first_line :: "'m csv_guest \<Rightarrow> nat \<Rightarrow> nat \<Rightarrow> csv_reader \<Rightarrow> (string \<times> go_error option \<times> csv_reader, 'm) prog" where
  "first_line G f 0 b k m = Trap m ''out of fuel''"
| "first_line G f (Suc fuel) b k m =
     readLine G f b
       (\<lambda>(line, err, b1) m1.
          if err = None \<and> length line = lengthNL line then first_line G f fuel b1 k m1
          else k (line, err, b1) m1) m"

text \<open>
  The lines of a record after the first: \<open>p\<close> is what the lines so far gave, and \<open>errRead\<close> the error that
  came with the last of them.
\<close>

fun more_lines :: "'m csv_guest \<Rightarrow> nat \<Rightarrow> nat \<Rightarrow> nat \<Rightarrow> nat \<Rightarrow> csv_parse \<Rightarrow> go_error option \<Rightarrow> csv_reader \<Rightarrow>
    ((string list \<times> go_error option) \<times> csv_reader, 'm) prog" where
  "more_lines G f 0 recLine posLine p errRead b k m = Trap m ''out of fuel''"
| "more_lines G f (Suc fuel) recLine posLine p errRead b k m =
     (case p of
        Record fs err \<Rightarrow>
          (case err of
             Some e \<Rightarrow> k ((fs, Some (parse_error_at recLine (cr_numLine b) posLine e)), b) m
           | None \<Rightarrow> k ((fs, errRead), b) m)
      | NextLine fs buf col \<Rightarrow>
          readLine G f b
            (\<lambda>(line, err, b1) m1.
               (let posLine' = (if line \<noteq> [] then posLine + 1 else posLine);
                    col' = (if line \<noteq> [] then 1 else col);
                    errRead' = (if err = Some io_EOF then None else err)
                in more_lines G f fuel recLine posLine' (parse_line (errRead' \<noteq> None) (Some buf) col' fs line) errRead' b1 k m1)) m)"

definition csv_Read :: "'m csv_guest \<Rightarrow> nat \<Rightarrow> csv_reader \<Rightarrow> ((string list \<times> go_error option) \<times> csv_reader, 'm) prog" where
  "csv_Read G fuel b k =
     first_line G fuel fuel b
       (\<lambda>(line, errRead, b1) m1.
          if errRead = Some io_EOF then k (([], errRead), b1) m1
          else more_lines G fuel fuel (cr_numLine b1) (cr_numLine b1) (parse_line (errRead \<noteq> None) None 1 [] line) errRead b1
                 (\<lambda>(r, b2) m2.
                    (let (r', n) = check_fields (cr_numLine b1) (cr_FieldsPerRecord b2) r
                     in k (r', b2\<lparr>cr_FieldsPerRecord := n\<rparr>) m2)) m1)"

text \<open>\<open>csv.NewReader\<close>: a reader with an empty buffer.\<close>

definition csv_NewReader :: "'m csv_guest \<Rightarrow> (csv_reader, 'm) prog" where
  "csv_NewReader G k m =
     (let (p, m1) = gg_place G (replicate 4096 0) m
      in k \<lparr> cr_buf = p, cr_r = 0, cr_w = 0, cr_err = None, cr_numLine = 0, cr_FieldsPerRecord = 0 \<rparr> m1)"

section \<open>What the reader computes\<close>

text \<open>The lines of a text as the reader sees them.\<close>

function csv_lines :: "bytes \<Rightarrow> string list" where
  "csv_lines b =
     (if b = [] then []
      else case dropWhile (\<lambda>c. c \<noteq> 0x0A) b of
             [] \<Rightarrow> [string_of_bytes (drop_final_CR b)]
           | _ # rest \<Rightarrow> string_of_bytes (drop_CR (takeWhile (\<lambda>c. c \<noteq> 0x0A) b @ [0x0A])) # csv_lines rest)"
  by pat_completeness auto

termination csv_lines
  by (relation "measure length") (auto dest: length_drop_until)

declare csv_lines.simps [simp del]

text \<open>The rest of a record, with the number of lines read and the lines that are left.\<close>

fun record_fields :: "nat \<Rightarrow> nat \<Rightarrow> nat \<Rightarrow> csv_parse \<Rightarrow> string list \<Rightarrow> (string list \<times> go_error option) \<times> nat \<times> string list" where
  "record_fields recLine n posLine (Record fs err) ls =
     ((fs, map_option (parse_error_at recLine n posLine) err), n, ls)"
| "record_fields recLine n posLine (NextLine fs buf col) [] =
     ((fs, Some (parse_error_at recLine (n + 1) posLine (OpenQuote col))), n + 1, [])"
| "record_fields recLine n posLine (NextLine fs buf col) (l # ls) =
     record_fields recLine (n + 1) (if l \<noteq> [] then posLine + 1 else posLine)
       (parse_line False (Some buf) (if l \<noteq> [] then 1 else col) fs l) ls"

text \<open>The next record: its result, the lines read, the number of fields and the lines that are left.\<close>

fun next_record :: "nat \<Rightarrow> nat \<Rightarrow> string list \<Rightarrow> (string list \<times> go_error option) \<times> nat \<times> nat \<times> string list" where
  "next_record n fpr [] = (([], Some io_EOF), n + 1, fpr, [])"
| "next_record n fpr (l # ls) =
     (if length l = lengthNL l then next_record (n + 1) fpr ls
      else (let (r, n', ls') = record_fields (n + 1) (n + 1) (n + 1) (parse_line False None 1 [] l) ls;
                (r', fpr') = check_fields (n + 1) fpr r
            in (r', n', fpr', ls')))"

section \<open>The reader over a stream\<close>

text \<open>
  What the compiled worker promises beyond \<open>json_program\<close>: an allocation leaves the slices alone that are
  in use, and a store into a slice writes these bytes.
\<close>

locale csv_program = json_program M contents valid "go_guest.truncate G" ok live kept
  for M :: "'m memory_api" and contents and valid and G :: "'m csv_guest" and ok and live and kept :: "'m \<Rightarrow> 'x" +
  assumes place_apart: "ok R m \<Longrightarrow> live p l m \<Longrightarrow> length bs \<le> R \<Longrightarrow> gg_place G bs m = (q, m') \<Longrightarrow>
      live p l m' \<and> go_slice (unat p) l (contents m') = go_slice (unat p) l (contents m)"
    and store: "ok R m \<Longrightarrow> live p l m \<Longrightarrow> length bs \<le> l \<Longrightarrow>
      valid (cv_store G p bs m) \<and> contents (cv_store G p bs m) = overwrite (contents m) (unat p) bs"
begin

text \<open>The buffer of a reader holds \<open>data\<close>, and no error is pending.\<close>

definition window :: "csv_reader \<Rightarrow> bytes \<Rightarrow> 'm \<Rightarrow> bool" where
  "window b data m \<longleftrightarrow> live (cr_buf b) 4096 m \<and> cr_err b = None \<and> cr_r b + length data = cr_w b \<and> cr_w b \<le> 4096 \<and>
     go_slice (unat (cr_buf b) + cr_r b) (length data) (contents m) = data"

lemma window_bytes:
  assumes "ok R m" "window b data m"
  shows "gg_bytes G (cr_buf b + word_of_nat (cr_r b)) (cr_w b - cr_r b) m = data"
proof -
  have l: "live (cr_buf b) 4096 m" "cr_r b \<le> 4096" "cr_w b - cr_r b = length data" using assms(2) by (auto simp: window_def)
  have "unat (cr_buf b + word_of_nat (cr_r b)) = unat (cr_buf b) + cr_r b"
    using live_fits[OF assms(1) l(1)] l(2) by (intro unat_plus_small) simp
  then show ?thesis using read[OF assms(1), of "cr_buf b + word_of_nat (cr_r b)" "length data"] assms(2) l(3)
    by (simp add: window_def go_guest.defs)
qed

text \<open>A part of the window that was taken out.\<close>

lemma window_drop:
  assumes "window b data m" "n \<le> length data"
  shows "window (b\<lparr>cr_r := cr_r b + n\<rparr>) (drop n data) m"
proof -
  have "go_slice (unat (cr_buf b) + (cr_r b + n)) (length data - n) (contents m) =
      drop n (go_slice (unat (cr_buf b) + cr_r b) (length data) (contents m))"
    by (simp add: go_slice_def drop_take ac_simps)
  then show ?thesis using assms by (simp add: window_def)
qed

text \<open>Sliding the data to the front of the buffer.\<close>

lemma slide:
  assumes "ok R m" "window b data m"
  obtains m0 where "ok R m0" "holds_data (cr_buf b) 4096 data m0" "kept m0 = kept m"
    "\<And>k. fill G b k m = (if length data \<ge> 4096 then Trap m0 ''bufio: tried to fill full buffer''
       else fill_tries 100 (b\<lparr>cr_r := 0, cr_w := length data\<rparr>) k m0)"
proof (cases "cr_r b > 0")
  case True
  let ?m0 = "cv_store G (cr_buf b) data m"
  have l: "live (cr_buf b) 4096 m" "length data \<le> 4096" "cr_w b - cr_r b = length data" using assms(2) by (auto simp: window_def)
  have f: "unat (cr_buf b) + length data \<le> length (contents m)" using live_fits[OF assms(1) l(1)] l(2) by linarith
  note s = store[OF assms(1) l(1,2)]
  have "same_outside (unat (cr_buf b) + 0) (length data) (contents m) (contents ?m0)"
    using s same_outside_overwrite[OF f order.refl] by simp
  then have 0: "ok R ?m0" "live (cr_buf b) 4096 ?m0" "kept ?m0 = kept m"
    using live_apart[OF assms(1) l(1) _ conjunct1[OF s], of 0 "length data"] l(2) by simp_all
  have "holds_data (cr_buf b) 4096 data ?m0"
    using 0(2) s l(2) go_slice_overwrite_same[OF f] by (simp add: holds_data_def)
  then show ?thesis using 0(1,3) True l(3) window_bytes[OF assms] by (intro that[of ?m0]) (simp_all add: fill_def)
next
  case False
  then have "cr_r b = 0" "cr_w b = length data" using assms(2) by (simp_all add: window_def)
  moreover from this have e: "b\<lparr>cr_r := 0, cr_w := length data\<rparr> = b" and "holds_data (cr_buf b) 4096 data m"
    using assms(2) by (simp_all add: window_def holds_data_def)
  ultimately show ?thesis using assms(1) by (intro that[of m]) (simp_all add: fill_def e)
qed

text \<open>A refill while there is more to come fills the buffer or takes all of it; at the end it records the error.\<close>

lemma fill_more:
  fixes s :: "('m, 'e) session"
  assumes H: "h_mem H = M" and m: "ok R m" "window b data m" and free: "length data < 4096"
    and st: "streaming s rest" "rest \<noteq> []"
  shows "\<exists>m1 s1. ok R m1 \<and>
    window (b\<lparr>cr_r := 0, cr_w := length (data @ take (4096 - length data) rest)\<rparr>) (data @ take (4096 - length data) rest) m1 \<and>
    streaming s1 (drop (4096 - length data) rest) \<and> stays m m1 s s1 \<and>
    (\<forall>k. Call H (fill G b k m) s \<sigma> e =
      Call H (k (b\<lparr>cr_r := 0, cr_w := length (data @ take (4096 - length data) rest)\<rparr>) m1) s1 \<sigma> e)"
proof -
  obtain m0 where 0: "ok R m0" "holds_data (cr_buf b) 4096 data m0" "kept m0 = kept m"
    "\<And>k. fill G b k m = fill_tries 100 (b\<lparr>cr_r := 0, cr_w := length data\<rparr>) k m0"
    using slide[OF m] free by (metis not_le)
  let ?l = "4096 - length data"
  obtain m1 s1 where 1: "ok R m1" "holds_data (cr_buf b) 4096 (data @ take ?l rest) m1" "streaming s1 (drop ?l rest)" "stays m0 m1 s s1"
    "\<And>k. Call H (Guest_Runner.Read (cr_buf b + word_of_nat (length data)) ?l k m0) s \<sigma> e =
      Call H (k (int (length (take ?l rest)), None) m1) s1 \<sigma> e"
    using read_free[OF H 0(1,2) free st, of \<sigma> e] by blast
  have l: "0 < length (take ?l rest)" "length (take ?l rest) \<le> ?l" using free st(2) by simp_all
  have "Call H (fill G b k m) s \<sigma> e = Call H (k (b\<lparr>cr_r := 0, cr_w := length (data @ take ?l rest)\<rparr>) m1) s1 \<sigma> e" for k
    using l free by (simp add: 0(4) fill_tries_first 1(5) del: length_take of_nat_diff fill_tries.simps)
  moreover have "window (b\<lparr>cr_r := 0, cr_w := length (data @ take ?l rest)\<rparr>) (data @ take ?l rest) m1"
    using 1(2) m(2) l(2) free by (simp add: holds_data_def window_def del: length_take)
  ultimately show ?thesis using 1(1,3,4) 0(3) by (intro exI[of _ m1] exI[of _ s1]) simp
qed

lemma fill_end:
  fixes s :: "('m, 'e) session"
  assumes H: "h_mem H = M" and m: "ok R m" "window b data m" and free: "length data < 4096" and st: "streaming s []"
  shows "\<exists>m1 s1. ok R m1 \<and> window (b\<lparr>cr_r := 0, cr_w := length data\<rparr>) data m1 \<and> streaming s1 [] \<and> stays m m1 s s1 \<and>
    (\<forall>k. Call H (fill G b k m) s \<sigma> e =
      Call H (k (b\<lparr>cr_r := 0, cr_w := length data, cr_err := Some io_EOF\<rparr>) m1) s1 \<sigma> e)"
proof -
  obtain m0 where 0: "ok R m0" "holds_data (cr_buf b) 4096 data m0" "kept m0 = kept m"
    "\<And>k. fill G b k m = fill_tries 100 (b\<lparr>cr_r := 0, cr_w := length data\<rparr>) k m0"
    using slide[OF m] free by (metis not_le)
  let ?l = "4096 - length data" and ?p = "cr_buf b + word_of_nat (length data)"
  have live: "live (cr_buf b) 4096 m0" using 0(2) by (simp add: holds_data_def)
  note F = live_fits[OF 0(1) live] and V = ok_valid[OF 0(1)]
  have p: "unat ?p = unat (cr_buf b) + length data" using F free by (intro unat_plus_small) simp
  have b: "unat ?p + ?l \<le> length (contents m0)" "unat ?p + ?l < 2 ^ 31" "0 < ?l" using F free p by simp_all
  obtain r eof where 1: "streaming (s\<lparr>ses_downloadReader := r, ses_downloadEOF := eof, ses_memory := m0\<rparr>) []"
    "\<And>k. Call H (Guest_Runner.Read ?p ?l k m0) s \<sigma> e =
      Call H (k (0, Some io_EOF) m0) (s\<lparr>ses_downloadReader := r, ses_downloadEOF := eof, ses_memory := m0\<rparr>) \<sigma> e"
    using Read_into[OF H conjunct1[OF V] conjunct2[OF V] b st, of \<sigma> e] by auto
  let ?s1 = "s\<lparr>ses_downloadReader := r, ses_downloadEOF := eof, ses_memory := m0\<rparr>"
  have "Call H (fill G b k m) s \<sigma> e =
      Call H (k (b\<lparr>cr_r := 0, cr_w := length data, cr_err := Some io_EOF\<rparr>) m0) ?s1 \<sigma> e" for k
    using free by (simp add: 0(4) fill_tries_first 1(2) del: of_nat_diff fill_tries.simps)
  moreover have "window (b\<lparr>cr_r := 0, cr_w := length data\<rparr>) data m0"
    using 0(2) m(2) free by (simp add: holds_data_def window_def)
  ultimately show ?thesis using 0(1,3) 1(1) by (intro exI[of _ m0] exI[of _ ?s1]) simp
qed

text \<open>What a call of \<open>ReadSlice\<close> takes from the front of what is to come.\<close>

definition slice_of :: "bytes \<Rightarrow> bytes \<times> go_error option \<times> bytes" where
  "slice_of inp =
     (let n = Suc (length (takeWhile (\<lambda>c. c \<noteq> 0x0A) inp))
      in if 0x0A \<in> set (take 4096 inp) then (take n inp, None, drop n inp)
         else if length inp \<ge> 4096 then (take 4096 inp, Some ErrBufferFull, drop 4096 inp)
         else (inp, Some io_EOF, []))"

definition reading :: "nat \<Rightarrow> csv_reader \<Rightarrow> bytes \<Rightarrow> 'm \<Rightarrow> ('m, 'e) session \<Rightarrow> bool" where
  "reading R b inp m s \<longleftrightarrow> ok R m \<and> (\<exists>data rest. window b data m \<and> streaming s rest \<and> inp = data @ rest)"

definition same_reader :: "csv_reader \<Rightarrow> csv_reader \<Rightarrow> bool" where
  "same_reader b b1 \<longleftrightarrow> cr_buf b1 = cr_buf b \<and> cr_numLine b1 = cr_numLine b \<and> cr_FieldsPerRecord b1 = cr_FieldsPerRecord b"

text \<open>A newline in the window, or a full window, ends the search.\<close>

lemma ReadSlice_found:
  assumes m: "ok R m" "window b data m" and n: "0x0A \<notin> set (take n data)"
    and "0x0A \<in> set data \<or> length data = 4096" and "slice_of (data @ rest) = (line, err, inp')"
  shows "\<exists>b1 data1. window b1 data1 m \<and> inp' = data1 @ rest \<and> same_reader b b1 \<and>
    (\<forall>k. ReadSlice G (Suc fuel) b n k m = k (line, err, b1) m)"
proof (cases "0x0A \<in> set data")
  case True
  let ?N = "Suc (length (takeWhile (\<lambda>c. c \<noteq> 0x0A) data))"
  have split: "takeWhile (\<lambda>c. c \<noteq> 0x0A) data = take n data @ takeWhile (\<lambda>c. c \<noteq> 0x0A) (drop n data)"
    using n takeWhile_append2[of "take n data" "\<lambda>c. c \<noteq> 0x0A" "drop n data"] by auto
  have d: "0x0A \<in> set (drop n data)" using True n by (metis Un_iff append_take_drop_id set_append)
  then have "n \<le> length data" by (metis drop_all empty_iff linorder_not_le list.set(1) order.strict_implies_order)
  then have N: "n + length (takeWhile (\<lambda>c. c \<noteq> 0x0A) (drop n data)) = length (takeWhile (\<lambda>c. c \<noteq> 0x0A) data)"
    using split by simp
  have le: "?N \<le> length data"
    using True by (intro Suc_leI length_takeWhile_less) auto
  have "takeWhile (\<lambda>c. c \<noteq> 0x0A) (data @ rest) = takeWhile (\<lambda>c. c \<noteq> 0x0A) data" using True by (auto intro: takeWhile_append1)
  moreover have "length data \<le> 4096" using m(2) by (simp add: window_def)
  ultimately have "line = take ?N data" "err = None" "inp' = drop ?N data @ rest"
    using assms(5) True le by (auto simp: slice_of_def Let_def)
  moreover have "\<forall>k. ReadSlice G (Suc fuel) b n k m = k (take ?N data, None, b\<lparr>cr_r := cr_r b + ?N\<rparr>) m"
    using d N by (simp add: window_bytes[OF m] Let_def)
  ultimately show ?thesis using window_drop[OF m(2) le]
    by (rule_tac exI[of _ "b\<lparr>cr_r := cr_r b + ?N\<rparr>"], rule_tac exI[of _ "drop ?N data"]) (simp add: same_reader_def)
next
  case False
  then have l: "length data = 4096" using assms(4) by blast
  have "line = data" "err = Some ErrBufferFull" "inp' = rest" using assms(5) l False by (auto simp: slice_of_def Let_def)
  moreover have r: "cr_w b - cr_r b = length data" "cr_err b = None" "cr_w b = cr_r b + length data"
    using m(2) by (auto simp: window_def)
  moreover have "0x0A \<notin> set (drop n data)" using False by (meson in_set_dropD)
  then have "\<forall>k. ReadSlice G (Suc fuel) b n k m = k (data, Some ErrBufferFull, b\<lparr>cr_r := cr_w b\<rparr>) m"
    using l r window_bytes[OF m] by (simp add: Let_def)
  ultimately show ?thesis using window_drop[OF m(2) order.refl]
    by (intro exI[of _ "b\<lparr>cr_r := cr_w b\<rparr>"] exI[of _ "[]"]) (simp add: same_reader_def)
qed

text \<open>Otherwise the buffer is refilled.\<close>

lemma ReadSlice_refill:
  assumes m: "ok R m" "window b data m" and "0x0A \<notin> set data" "length data < 4096"
  shows "ReadSlice G (Suc fuel) b n k m = fill G b (\<lambda>b1. ReadSlice G fuel b1 (length data) k) m"
proof -
  have "cr_w b - cr_r b = length data" "cr_err b = None" using m(2) by (auto simp: window_def)
  moreover have "0x0A \<notin> set (drop n data)" using assms(3) by (meson in_set_dropD)
  ultimately show ?thesis using assms(4) window_bytes[OF m] by (simp add: Let_def)
qed

lemma ReadSlice_end:
  fixes s :: "('m, 'e) session"
  assumes H: "h_mem H = M" and m: "ok R m" "window b data m" and n: "0x0A \<notin> set (take n data)"
    and st: "streaming s []" and sl: "slice_of data = (line, err, inp')"
  shows "\<exists>m1 s1 b1. reading R b1 inp' m1 s1 \<and> stays m m1 s s1 \<and> same_reader b b1 \<and>
    (\<forall>k. Call H (ReadSlice G (Suc (Suc fuel)) b n k m) s \<sigma> e = Call H (k (line, err, b1) m1) s1 \<sigma> e)"
proof (cases "0x0A \<in> set data \<or> length data = 4096")
  case True
  then obtain b1 data1 where 1: "window b1 data1 m" "inp' = data1 @ []" "same_reader b b1"
    "\<And>k. ReadSlice G (Suc (Suc fuel)) b n k m = k (line, err, b1) m"
    using ReadSlice_found[OF m n True, of "[]" line err inp' "Suc fuel"] sl by auto
  have "reading R b1 inp' m s" unfolding reading_def using m(1) 1(1,2) st by blast
  then show ?thesis using 1(3,4) by (rule_tac exI[of _ m], rule_tac exI[of _ s], rule_tac exI[of _ b1]) simp
next
  case False
  moreover have "length data \<le> 4096" using m(2) by (simp add: window_def)
  ultimately have d: "0x0A \<notin> set data" "length data < 4096" by simp_all
  then have o: "line = data" "err = Some io_EOF" "inp' = []" using sl in_set_takeD[of "0x0A" 4096 data] by (auto simp: slice_of_def Let_def)
  let ?b = "b\<lparr>cr_r := 0, cr_w := length data\<rparr>"
  obtain m1 s1 where 1: "ok R m1" "window ?b data m1" "streaming s1 []" "stays m m1 s s1"
    "\<And>k. Call H (fill G b k m) s \<sigma> e = Call H (k (?b\<lparr>cr_err := Some io_EOF\<rparr>) m1) s1 \<sigma> e"
    using fill_end[OF H m d(2) st, of \<sigma> e] by auto
  have "gg_bytes G (cr_buf b) (length data) m1 = data" using window_bytes[OF 1(1,2)] by simp
  then have "Call H (ReadSlice G (Suc (Suc fuel)) b n k m) s \<sigma> e = Call H (k (line, err, ?b\<lparr>cr_r := length data, cr_err := None\<rparr>) m1) s1 \<sigma> e" for k
    unfolding ReadSlice_refill[OF m d] 1(5) by (simp add: o)
  moreover have "window (?b\<lparr>cr_r := length data, cr_err := None\<rparr>) [] m1"
    using window_drop[OF 1(2) order.refl] 1(2) by (simp add: window_def go_slice_def)
  then have "reading R (?b\<lparr>cr_r := length data, cr_err := None\<rparr>) inp' m1 s1" unfolding reading_def o using 1(1,3) by blast
  ultimately show ?thesis using 1(4)
    by (rule_tac exI[of _ m1], rule_tac exI[of _ s1], rule_tac exI[of _ "?b\<lparr>cr_r := length data, cr_err := None\<rparr>"])
       (simp add: same_reader_def)
qed

lemma ReadSlice_stream:
  fixes s :: "('m, 'e) session"
  assumes H: "h_mem H = M" and r: "reading R b inp m s" and sl: "slice_of inp = (line, err, inp')"
  shows "\<exists>m1 s1 b1. reading R b1 inp' m1 s1 \<and> stays m m1 s s1 \<and> same_reader b b1 \<and>
    (\<forall>k. Call H (ReadSlice G (Suc (Suc (Suc fuel))) b 0 k m) s \<sigma> e = Call H (k (line, err, b1) m1) s1 \<sigma> e)"
proof -
  obtain data rest where 0: "ok R m" "window b data m" "streaming s rest" "inp = data @ rest" using r by (auto simp: reading_def)
  have n0: "0x0A \<notin> set (take 0 data)" by simp
  consider "rest = []" | "0x0A \<in> set data \<or> length data = 4096" | "rest \<noteq> []" "0x0A \<notin> set data" "length data < 4096"
    using 0(2) by (fastforce simp: window_def)
  then show ?thesis
  proof cases
    case 1
    have "streaming s []" "slice_of data = (line, err, inp')" using 1 0(3,4) sl by simp_all
    from ReadSlice_end[OF H 0(1,2) n0 this, of "Suc fuel" \<sigma> e] show ?thesis .
  next
    case 2
    obtain b1 data1 where 1: "window b1 data1 m" "inp' = data1 @ rest" "same_reader b b1"
      "\<And>k. ReadSlice G (Suc (Suc (Suc fuel))) b 0 k m = k (line, err, b1) m"
      using ReadSlice_found[OF 0(1,2) n0 2 sl[unfolded 0(4)], of "Suc (Suc fuel)"] by blast
    have "reading R b1 inp' m s" unfolding reading_def using 0(1,3) 1(1,2) by blast
    then show ?thesis using 1(3,4) by (rule_tac exI[of _ m], rule_tac exI[of _ s], rule_tac exI[of _ b1]) simp
  next
    case 3
    let ?d = "data @ take (4096 - length data) rest" and ?rest = "drop (4096 - length data) rest"
    let ?b = "b\<lparr>cr_r := 0, cr_w := length ?d\<rparr>"
    obtain m1 s1 where 1: "ok R m1" "window ?b ?d m1" "streaming s1 ?rest" "stays m m1 s s1"
      "\<And>k. Call H (fill G b k m) s \<sigma> e = Call H (k ?b m1) s1 \<sigma> e"
      using fill_more[OF H 0(1,2) 3(3) 0(3) 3(1), of \<sigma> e] by blast
    have n: "0x0A \<notin> set (take (length data) ?d)" "slice_of (?d @ ?rest) = (line, err, inp')" using 3(2) sl 0(4) by simp_all
    have S: "Call H (ReadSlice G (Suc (Suc (Suc fuel))) b 0 k m) s \<sigma> e =
        Call H (ReadSlice G (Suc (Suc fuel)) ?b (length data) k m1) s1 \<sigma> e" for k
      unfolding ReadSlice_refill[OF 0(1,2) 3(2,3)] 1(5) ..
    have sr: "same_reader ?b b1 \<Longrightarrow> same_reader b b1" for b1 by (simp add: same_reader_def)
    have core: "stays m1 m2 s1 s2 \<Longrightarrow> stays m m2 s s2" for m2 s2 using 1(4) same_core_trans[of s s1 s2] by simp
    show ?thesis
    proof (cases "?rest = []")
      case True
      have e: "streaming s1 []" "slice_of ?d = (line, err, inp')" using True 1(3) n(2) by simp_all
      obtain m2 s2 b2 where 2: "reading R b2 inp' m2 s2" "stays m1 m2 s1 s2" "same_reader ?b b2"
        "\<And>k. Call H (ReadSlice G (Suc (Suc fuel)) ?b (length data) k m1) s1 \<sigma> e = Call H (k (line, err, b2) m2) s2 \<sigma> e"
        using ReadSlice_end[OF H 1(1,2) n(1) e, of fuel \<sigma> e] by blast
      show ?thesis unfolding S 2(4) using 2(1) core[OF 2(2)] sr[OF 2(3)] by blast
    next
      case False
      then have full: "0x0A \<in> set ?d \<or> length ?d = 4096" using 3(3) by simp
      obtain b2 data2 where 2: "window b2 data2 m1" "inp' = data2 @ ?rest" "same_reader ?b b2"
        "\<And>k. ReadSlice G (Suc (Suc fuel)) ?b (length data) k m1 = k (line, err, b2) m1"
        using ReadSlice_found[OF 1(1,2) n(1) full n(2), of "Suc fuel"] by blast
      have "reading R b2 inp' m1 s1" unfolding reading_def using 1(1,3) 2(1,2) by blast
      then show ?thesis unfolding S 2(4) using 1(4) sr[OF 2(3)] by blast
    qed
  qed
qed

text \<open>A whole line, however many buffers it takes.\<close>

definition line_of :: "bytes \<Rightarrow> bytes \<times> go_error option \<times> bytes" where
  "line_of inp =
     (let n = Suc (length (takeWhile (\<lambda>c. c \<noteq> 0x0A) inp))
      in if 0x0A \<in> set inp then (take n inp, None, drop n inp) else (inp, Some io_EOF, []))"

lemma line_of_slice:
  assumes "slice_of inp = (line, err, inp')"
  shows "line_of inp = (if err = Some ErrBufferFull then (line @ fst (line_of inp'), snd (line_of inp')) else (line, err, inp'))
    \<and> (err = Some ErrBufferFull \<longrightarrow> length inp = 4096 + length inp')"
proof (cases "0x0A \<in> set (take 4096 inp)")
  case True
  then have "0x0A \<in> set inp" by (rule in_set_takeD)
  then show ?thesis using assms True by (auto simp: slice_of_def line_of_def Let_def)
next
  case no: False
  have s: "set inp = set (take 4096 inp) \<union> set (drop 4096 inp)" by (metis append_take_drop_id set_append)
  show ?thesis
  proof (cases "length inp \<ge> 4096")
    case True
    then have o: "line = take 4096 inp" "err = Some ErrBufferFull" "inp' = drop 4096 inp"
      using assms no by (auto simp: slice_of_def Let_def)
    have "takeWhile (\<lambda>c. c \<noteq> 0x0A) (take 4096 inp @ drop 4096 inp) = take 4096 inp @ takeWhile (\<lambda>c. c \<noteq> 0x0A) (drop 4096 inp)"
      by (rule takeWhile_append2) (use no in auto)
    then have t: "takeWhile (\<lambda>c. c \<noteq> 0x0A) inp = take 4096 inp @ takeWhile (\<lambda>c. c \<noteq> 0x0A) (drop 4096 inp)" by simp
    let ?n = "Suc (length (takeWhile (\<lambda>c. c \<noteq> 0x0A) (drop 4096 inp)))"
    have n: "Suc (length (takeWhile (\<lambda>c. c \<noteq> 0x0A) inp)) = 4096 + ?n" using True by (simp add: t)
    have m: "0x0A \<in> set inp \<longleftrightarrow> 0x0A \<in> set (drop 4096 inp)" using no s by blast
    have d: "drop (4096 + ?n) inp = drop ?n (drop 4096 inp)" by (simp only: drop_drop add.commute)
    show ?thesis unfolding line_of_def Let_def n take_add d m o using True by simp
  next
    case False
    then show ?thesis using assms no by (auto simp: slice_of_def line_of_def Let_def ErrBufferFull_def io_EOF_def)
  qed
qed

lemma read_parts_stream:
  fixes s :: "('m, 'e) session"
  assumes H: "h_mem H = M" and r: "reading R b inp m s" and "length inp < 4096 * fuel" and l: "line_of inp = (line, err, inp')"
  shows "\<exists>m1 s1 b1. reading R b1 inp' m1 s1 \<and> stays m m1 s s1 \<and> same_reader b b1 \<and>
    (\<forall>k. Call H (read_parts G (Suc (Suc (Suc f))) fuel raw b k m) s \<sigma> e = Call H (k (raw @ line, err, b1) m1) s1 \<sigma> e)"
  using r assms(3,4)
proof (induction fuel arbitrary: raw b inp m s line)
  case 0
  then show ?case by simp
next
  case (Suc fuel)
  obtain line1 err1 inp1 where sl: "slice_of inp = (line1, err1, inp1)" by (metis prod_cases3)
  note L = line_of_slice[OF sl]
  obtain m1 s1 b1 where 1: "reading R b1 inp1 m1 s1" "stays m m1 s s1" "same_reader b b1"
    "\<And>k. Call H (ReadSlice G (Suc (Suc (Suc f))) b 0 k m) s \<sigma> e = Call H (k (line1, err1, b1) m1) s1 \<sigma> e"
    using ReadSlice_stream[OF H Suc.prems(1) sl, of f \<sigma> e] by blast
  show ?case
  proof (cases "err1 = Some ErrBufferFull")
    case True
    obtain line2 where 2: "line_of inp1 = (line2, err, inp')" "line = line1 @ line2"
      using L True Suc.prems(3) by (cases "line_of inp1") auto
    have "length inp1 < 4096 * fuel" using L True Suc.prems(2) by simp
    from Suc.IH[OF 1(1) this 2(1), of "raw @ line1"] obtain m2 s2 b2 where 3: "reading R b2 inp' m2 s2" "stays m1 m2 s1 s2"
      "same_reader b1 b2"
      "\<And>k. Call H (read_parts G (Suc (Suc (Suc f))) fuel (raw @ line1) b1 k m1) s1 \<sigma> e = Call H (k ((raw @ line1) @ line2, err, b2) m2) s2 \<sigma> e"
      by blast
    have "Call H (read_parts G (Suc (Suc (Suc f))) (Suc fuel) raw b k m) s \<sigma> e = Call H (k (raw @ line, err, b2) m2) s2 \<sigma> e" for k
      using 3(4) by (simp add: 1(4) True 2(2) del: ReadSlice.simps)
    moreover have "stays m m2 s s2" "same_reader b b2" using 1(2,3) 3(2,3) same_core_trans[of s s1 s2] by (simp_all add: same_reader_def)
    ultimately show ?thesis using 3(1) by blast
  next
    case False
    then have "line = line1" "err = err1" "inp' = inp1" using L Suc.prems(3) by simp_all
    then have "Call H (read_parts G (Suc (Suc (Suc f))) (Suc fuel) raw b k m) s \<sigma> e = Call H (k (raw @ line, err, b1) m1) s1 \<sigma> e" for k
      using False by (simp add: 1(4) del: ReadSlice.simps)
    then show ?thesis using 1(1-3) \<open>inp' = inp1\<close> by blast
  qed
qed

text \<open>The lines \<open>ls\<close> are to come, in fewer than \<open>N\<close> bytes.\<close>

definition lines_at :: "nat \<Rightarrow> nat \<Rightarrow> csv_reader \<Rightarrow> string list \<Rightarrow> 'm \<Rightarrow> ('m, 'e) session \<Rightarrow> bool" where
  "lines_at N R b ls m s \<longleftrightarrow> (\<exists>inp. reading R b inp m s \<and> csv_lines inp = ls \<and> length inp < N)"

lemma length_csv_lines: "length (csv_lines b) \<le> length b"
proof (induction b rule: csv_lines.induct)
  case (1 b)
  show ?case
  proof (cases "dropWhile (\<lambda>c. c \<noteq> 0x0A) b")
    case Nil
    then show ?thesis by (subst csv_lines.simps, cases "b = []") (simp_all only: Nil list.case if_True if_False list.size, simp_all add: Suc_le_eq)
  next
    case (Cons c rest)
    then have "b \<noteq> []" by auto
    then show ?thesis using 1[OF _ Cons] Cons length_drop_until[OF Cons] by (simp add: csv_lines.simps[of b])
  qed
qed

lemma lines_at_length: "lines_at N R b ls m s \<Longrightarrow> length ls < N"
  using length_csv_lines by (fastforce simp: lines_at_def intro: le_less_trans)

text \<open>The lines of a text, one at a time.\<close>

lemma csv_lines_line_of:
  assumes "line_of inp = (line, err, inp')"
  shows "length inp' \<le> length inp \<and> csv_lines inp' = tl (csv_lines inp) \<and>
    (case csv_lines inp of
       [] \<Rightarrow> line = [] \<and> err = Some io_EOF
     | l # _ \<Rightarrow> string_of_bytes (drop_CR (if line \<noteq> [] \<and> err = Some io_EOF then drop_final_CR line else line)) = l \<and>
         (line \<noteq> [] \<and> err = Some io_EOF \<or> err = None))"
proof (cases "0x0A \<in> set inp")
  case True
  let ?t = "takeWhile (\<lambda>c. c \<noteq> 0x0A) inp"
  obtain c rest where d: "dropWhile (\<lambda>c. c \<noteq> 0x0A) inp = c # rest" using True by (cases "dropWhile (\<lambda>c. c \<noteq> 0x0A) inp") auto
  then have "c = 0x0A" using hd_dropWhile[of "\<lambda>c. c \<noteq> 0x0A" inp] by simp
  then have i: "inp = ?t @ 0x0A # rest" using d takeWhile_dropWhile_id[of "\<lambda>c. c \<noteq> 0x0A" inp] by simp
  have t: "take (Suc (length ?t)) inp = ?t @ [0x0A]" "drop (Suc (length ?t)) inp = rest"
    by (subst i, simp)+
  have "inp \<noteq> []" using True by auto
  then have c: "csv_lines inp = string_of_bytes (drop_CR (?t @ [0x0A])) # csv_lines rest"
    using d by (simp add: csv_lines.simps[of inp])
  have "length rest < length inp" by (rule length_drop_until[OF d])
  moreover have "line = ?t @ [0x0A]" "err = None" "inp' = rest" using assms True t by (simp_all add: line_of_def Let_def)
  ultimately show ?thesis using c by simp
next
  case False
  then have o: "line = inp" "err = Some io_EOF" "inp' = []" using assms by (simp_all add: line_of_def Let_def)
  show ?thesis
  proof (cases "inp = []")
    case True
    then show ?thesis using o by (simp add: csv_lines.simps)
  next
    case ne: False
    have d: "dropWhile (\<lambda>c. c \<noteq> 0x0A) inp = []" using False by auto
    have c: "csv_lines inp = [string_of_bytes (drop_final_CR inp)]" by (subst csv_lines.simps) (simp only: d ne list.case if_False)
    have "set (drop_final_CR inp) \<subseteq> set inp" by (auto simp: drop_final_CR_def dest: in_set_butlastD)
    then have "0x0A \<notin> set (drop_final_CR inp)" using False by blast
    then have "drop_CR (drop_final_CR inp) = drop_final_CR inp"
      using nth_mem[of "length (drop_final_CR inp) - 1" "drop_final_CR inp"] by (fastforce simp: drop_CR_def Let_def)
    then show ?thesis using o c ne by (simp add: csv_lines.simps[of "[]"])
  qed
qed

lemma readLine_stream:
  fixes s :: "('m, 'e) session"
  assumes H: "h_mem H = M" and l: "lines_at N R b ls m s" and f: "N + 3 \<le> fuel"
  shows "\<exists>m1 s1 b1. lines_at N R b1 (tl ls) m1 s1 \<and> stays m m1 s s1 \<and> cr_numLine b1 = cr_numLine b + 1 \<and>
    cr_FieldsPerRecord b1 = cr_FieldsPerRecord b \<and>
    (\<forall>k. Call H (readLine G fuel b k m) s \<sigma> e =
      Call H (k (case ls of [] \<Rightarrow> ([], Some io_EOF, b1) | l # _ \<Rightarrow> (l, None, b1)) m1) s1 \<sigma> e)"
proof -
  obtain inp where i: "reading R b inp m s" "csv_lines inp = ls" "length inp < N" using l by (auto simp: lines_at_def)
  obtain f' where f': "fuel = Suc (Suc (Suc f'))" using f by (metis add.commute add_eq_self_zero add_Suc le_Suc_ex numeral_3_eq_3 plus_nat.simps(2))
  obtain line err inp' where L: "line_of inp = (line, err, inp')" by (metis prod_cases3)
  note C = csv_lines_line_of[OF L]
  have "length inp < 4096 * fuel" using i(3) f by linarith
  from read_parts_stream[OF H i(1) this L, of f' "[]" \<sigma> e] obtain m1 s1 b1 where 1: "reading R b1 inp' m1 s1" "stays m m1 s s1"
    "same_reader b b1"
    "\<And>k. Call H (read_parts G fuel fuel [] b k m) s \<sigma> e = Call H (k ([] @ line, err, b1) m1) s1 \<sigma> e"
    unfolding f' by blast
  let ?b = "b1\<lparr>cr_numLine := cr_numLine b1 + 1\<rparr>"
  have "reading R ?b inp' m1 s1" using 1(1) by (simp add: reading_def window_def)
  then have "lines_at N R ?b (tl ls) m1 s1" unfolding lines_at_def using C i(2,3) by (metis le_less_trans)
  moreover have "Call H (readLine G fuel b k m) s \<sigma> e =
      Call H (k (case ls of [] \<Rightarrow> ([], Some io_EOF, ?b) | l # _ \<Rightarrow> (l, None, ?b)) m1) s1 \<sigma> e" for k
    using C i(2) by (cases ls) (auto simp: readLine_def 1(4) Let_def drop_CR_def string_of_bytes_def)
  ultimately show ?thesis using 1(2,3)
    by (rule_tac exI[of _ m1], rule_tac exI[of _ s1], rule_tac exI[of _ ?b]) (simp add: same_reader_def)
qed

text \<open>Skipping empty lines, and the lines of a record.\<close>

abbreviation empty_line :: "string \<Rightarrow> bool" where
  "empty_line l \<equiv> length l = lengthNL l"

lemma first_line_stream:
  fixes s :: "('m, 'e) session"
  assumes H: "h_mem H = M" and l: "lines_at N R b ls m s" and f: "N + 3 \<le> f" and "length ls < fuel"
  shows "\<exists>m1 s1 b1. lines_at N R b1 (tl (dropWhile empty_line ls)) m1 s1 \<and> stays m m1 s s1 \<and>
    cr_numLine b1 = cr_numLine b + length (takeWhile empty_line ls) + 1 \<and> cr_FieldsPerRecord b1 = cr_FieldsPerRecord b \<and>
    (\<forall>k. Call H (first_line G f fuel b k m) s \<sigma> e =
      Call H (k (case dropWhile empty_line ls of [] \<Rightarrow> ([], Some io_EOF, b1) | l # _ \<Rightarrow> (l, None, b1)) m1) s1 \<sigma> e)"
  using l assms(4)
proof (induction fuel arbitrary: ls b m s)
  case 0
  then show ?case by simp
next
  case (Suc fuel)
  obtain m1 s1 b1 where 1: "lines_at N R b1 (tl ls) m1 s1" "stays m m1 s s1" "cr_numLine b1 = cr_numLine b + 1"
    "cr_FieldsPerRecord b1 = cr_FieldsPerRecord b"
    "\<And>k. Call H (readLine G f b k m) s \<sigma> e =
      Call H (k (case ls of [] \<Rightarrow> ([], Some io_EOF, b1) | l # _ \<Rightarrow> (l, None, b1)) m1) s1 \<sigma> e"
    using readLine_stream[OF H Suc.prems(1) f, of \<sigma> e] by blast
  show ?case
  proof (cases "ls \<noteq> [] \<and> empty_line (hd ls)")
    case True
    then obtain l ls1 where ls: "ls = l # ls1" "empty_line l" by (cases ls) auto
    have "length (tl ls) < fuel" using Suc.prems(2) ls by simp
    from Suc.IH[OF 1(1) this] obtain m2 s2 b2 where 2: "lines_at N R b2 (tl (dropWhile empty_line ls1)) m2 s2" "stays m1 m2 s1 s2"
      "cr_numLine b2 = cr_numLine b1 + length (takeWhile empty_line ls1) + 1" "cr_FieldsPerRecord b2 = cr_FieldsPerRecord b1"
      "\<And>k. Call H (first_line G f fuel b1 k m1) s1 \<sigma> e =
        Call H (k (case dropWhile empty_line ls1 of [] \<Rightarrow> ([], Some io_EOF, b2) | l # _ \<Rightarrow> (l, None, b2)) m2) s2 \<sigma> e"
      unfolding ls(1) list.sel by blast
    have "stays m m2 s s2" using 1(2) 2(2) same_core_trans[of s s1 s2] by simp
    then show ?thesis using 1(3,4) 2(1,3,4) ls
      by (rule_tac exI[of _ m2], rule_tac exI[of _ s2], rule_tac exI[of _ b2]) (simp add: 1(5) 2(5))
  next
    case False
    then have d: "dropWhile empty_line ls = ls" "takeWhile empty_line ls = []" by (cases ls; simp)+
    have "Call H (first_line G f (Suc fuel) b k m) s \<sigma> e =
        Call H (k (case ls of [] \<Rightarrow> ([], Some io_EOF, b1) | l # _ \<Rightarrow> (l, None, b1)) m1) s1 \<sigma> e" for k
      using False by (cases ls) (simp_all add: 1(5))
    then show ?thesis using 1(1-4)
      by (rule_tac exI[of _ m1], rule_tac exI[of _ s1], rule_tac exI[of _ b1]) (simp add: d del: first_line.simps)
  qed
qed

lemma more_lines_stream:
  fixes s :: "('m, 'e) session"
  assumes H: "h_mem H = M" and l: "lines_at N R b ls m s" and f: "N + 3 \<le> f" and "length ls + 1 < fuel"
    and "record_fields recLine (cr_numLine b) posLine p ls = (r, n', ls')"
  shows "\<exists>m1 s1 b1. lines_at N R b1 ls' m1 s1 \<and> stays m m1 s s1 \<and> cr_numLine b1 = n' \<and>
    cr_FieldsPerRecord b1 = cr_FieldsPerRecord b \<and>
    (\<forall>k. Call H (more_lines G f fuel recLine posLine p None b k m) s \<sigma> e = Call H (k (r, b1) m1) s1 \<sigma> e)"
  using l assms(4,5)
proof (induction fuel arbitrary: ls b m s p posLine)
  case 0
  then show ?case by simp
next
  case (Suc fuel)
  show ?case
  proof (cases p)
    case (Record fs err)
    then have "r = (fs, map_option (parse_error_at recLine (cr_numLine b) posLine) err)" "n' = cr_numLine b" "ls' = ls"
      using Suc.prems(3) by auto
    then show ?thesis using Suc.prems(1) Record
      by (rule_tac exI[of _ m], rule_tac exI[of _ s], rule_tac exI[of _ b]) (simp split: option.split)
  next
    case (NextLine fs buf col)
    obtain m1 s1 b1 where 1: "lines_at N R b1 (tl ls) m1 s1" "stays m m1 s s1" "cr_numLine b1 = cr_numLine b + 1"
      "cr_FieldsPerRecord b1 = cr_FieldsPerRecord b"
      "\<And>k. Call H (readLine G f b k m) s \<sigma> e =
        Call H (k (case ls of [] \<Rightarrow> ([], Some io_EOF, b1) | l # _ \<Rightarrow> (l, None, b1)) m1) s1 \<sigma> e"
      using readLine_stream[OF H Suc.prems(1) f, of \<sigma> e] by blast
    show ?thesis
    proof (cases ls)
      case Nil
      then obtain f' where "fuel = Suc f'" using Suc.prems(2) by (cases fuel) auto
      moreover have "r = (fs, Some (parse_error_at recLine (cr_numLine b1) posLine (OpenQuote col)))" "n' = cr_numLine b1" "ls' = []"
        using Suc.prems(3) NextLine Nil 1(3) by auto
      ultimately show ?thesis using 1(1,2,4) Nil NextLine
        by (rule_tac exI[of _ m1], rule_tac exI[of _ s1], rule_tac exI[of _ b1]) (simp add: 1(5) parse_line.simps)
    next
      case (Cons l ls1)
      let ?pos = "if l \<noteq> [] then posLine + 1 else posLine" and ?p = "parse_line False (Some buf) (if l \<noteq> [] then 1 else col) fs l"
      have C: "Call H (more_lines G f (Suc fuel) recLine posLine p None b k m) s \<sigma> e =
          Call H (more_lines G f fuel recLine ?pos ?p None b1 k m1) s1 \<sigma> e" for k
        by (simp add: NextLine Cons 1(5) Let_def)
      have "length (tl ls) + 1 < fuel" "record_fields recLine (cr_numLine b1) ?pos ?p (tl ls) = (r, n', ls')"
        using Suc.prems(2,3) NextLine Cons 1(3) by simp_all
      from Suc.IH[OF 1(1) this] obtain m2 s2 b2 where 2: "lines_at N R b2 ls' m2 s2" "stays m1 m2 s1 s2" "cr_numLine b2 = n'"
        "cr_FieldsPerRecord b2 = cr_FieldsPerRecord b1"
        "\<And>k. Call H (more_lines G f fuel recLine ?pos ?p None b1 k m1) s1 \<sigma> e = Call H (k (r, b2) m2) s2 \<sigma> e" by blast
      have "stays m m2 s s2" using 1(2) 2(2) same_core_trans[of s s1 s2] by simp
      then show ?thesis using 1(4) 2(1,3,4) unfolding C 2(5) by auto
    qed
  qed
qed

text \<open>One record.\<close>

lemma csv_Read_stream:
  fixes s :: "('m, 'e) session"
  assumes H: "h_mem H = M" and l: "lines_at N R b ls m s" and f: "N + 3 \<le> fuel"
    and r: "next_record (cr_numLine b) (cr_FieldsPerRecord b) ls = (r, n', fpr', ls')"
  shows "\<exists>m1 s1 b1. lines_at N R b1 ls' m1 s1 \<and> stays m m1 s s1 \<and> cr_numLine b1 = n' \<and> cr_FieldsPerRecord b1 = fpr' \<and>
    (\<forall>k. Call H (csv_Read G fuel b k m) s \<sigma> e = Call H (k (r, b1) m1) s1 \<sigma> e)"
proof -
  let ?n = "\<lambda>n. n + length (takeWhile empty_line ls) + 1"
  have N: "next_record n fpr ls =
      (case dropWhile empty_line ls of
         [] \<Rightarrow> (([], Some io_EOF), ?n n, fpr, [])
       | l # ls1 \<Rightarrow> (let (r, n', ls') = record_fields (?n n) (?n n) (?n n) (parse_line False None 1 [] l) ls1;
                        (r', fpr') = check_fields (?n n) fpr r
                    in (r', n', fpr', ls')))" for n fpr
    by (induction ls arbitrary: n) (simp_all cong: list.case_cong)
  have lf: "length ls < fuel" using lines_at_length[OF l] f by linarith
  obtain m1 s1 b1 where 1: "lines_at N R b1 (tl (dropWhile empty_line ls)) m1 s1" "stays m m1 s s1"
    "cr_numLine b1 = ?n (cr_numLine b)" "cr_FieldsPerRecord b1 = cr_FieldsPerRecord b"
    "\<And>k. Call H (first_line G fuel fuel b k m) s \<sigma> e =
      Call H (k (case dropWhile empty_line ls of [] \<Rightarrow> ([], Some io_EOF, b1) | l # _ \<Rightarrow> (l, None, b1)) m1) s1 \<sigma> e"
    using first_line_stream[OF H l f lf, of \<sigma> e] by blast
  show ?thesis
  proof (cases "dropWhile empty_line ls")
    case Nil
    have o: "r = ([], Some io_EOF)" "n' = ?n (cr_numLine b)" "fpr' = cr_FieldsPerRecord b" "ls' = []"
      using r by (simp_all add: N Nil)
    have "Call H (csv_Read G fuel b k m) s \<sigma> e = Call H (k (r, b1) m1) s1 \<sigma> e" for k
      by (simp add: csv_Read_def 1(5) Nil o(1))
    then show ?thesis using 1(1-4) o(2-4) Nil
      by (rule_tac exI[of _ m1], rule_tac exI[of _ s1], rule_tac exI[of _ b1]) simp
  next
    case (Cons l ls1)
    obtain r2 n2 ls2 where 2: "record_fields (cr_numLine b1) (cr_numLine b1) (cr_numLine b1) (parse_line False None 1 [] l) ls1 = (r2, n2, ls2)"
      by (metis prod_cases3)
    then have o: "check_fields (cr_numLine b1) (cr_FieldsPerRecord b1) r2 = (r, fpr')" "n' = n2" "ls' = ls2"
      using r 1(3,4) Cons unfolding N by (auto simp: Let_def split: prod.splits)
    have l1: "lines_at N R b1 ls1 m1 s1" using 1(1) Cons by simp
    have "length ls1 + 1 < fuel" using lines_at_length[OF l1] f by linarith
    from more_lines_stream[OF H l1 f this 2, of \<sigma> e] obtain m2 s2 b2 where 3: "lines_at N R b2 ls2 m2 s2" "stays m1 m2 s1 s2"
      "cr_numLine b2 = n2" "cr_FieldsPerRecord b2 = cr_FieldsPerRecord b1"
      "\<And>k. Call H (more_lines G fuel fuel (cr_numLine b1) (cr_numLine b1) (parse_line False None 1 [] l) None b1 k m1) s1 \<sigma> e =
        Call H (k (r2, b2) m2) s2 \<sigma> e" by blast
    let ?b = "b2\<lparr>cr_FieldsPerRecord := fpr'\<rparr>"
    have "lines_at N R ?b ls' m2 s2" using 3(1) o(3) by (simp add: lines_at_def reading_def window_def)
    moreover have "Call H (csv_Read G fuel b k m) s \<sigma> e = Call H (k (r, ?b) m2) s2 \<sigma> e" for k
      using o(1) by (simp add: csv_Read_def 1(5) Cons 3(4) 3(5)[unfolded One_nat_def])
    moreover have "stays m m2 s s2" using 1(2) 3(2) same_core_trans[of s s1 s2] by simp
    ultimately show ?thesis using 3(3) o(2)
      by (rule_tac exI[of _ m2], rule_tac exI[of _ s2], rule_tac exI[of _ ?b]) simp
  qed
qed

text \<open>A new reader on a stream that has begun; the first read of a download asks the handler for the data.\<close>

lemma csv_NewReader_stream:
  assumes m: "ok R m" "4096 \<le> R"
  shows "\<exists>b m1. ok (R - 4096) m1 \<and> kept m1 = kept m \<and> cr_numLine b = 0 \<and> cr_FieldsPerRecord b = 0 \<and>
    (\<forall>k. csv_NewReader G k m = k b m1) \<and>
    (\<forall>(s :: ('m, 'e) session) payload. streaming s payload \<longrightarrow> length payload < N \<longrightarrow> lines_at N (R - 4096) b (csv_lines payload) m1 s)"
proof -
  obtain p m1 where p: "gg_place G (replicate 4096 0) m = (p, m1)" by fastforce
  have l: "length (replicate 4096 (0::byte)) \<le> R" using m(2) by simp
  have p': "gg_place (go_guest.truncate G) (replicate 4096 0) m = (p, m1)" using p by (simp add: go_guest.defs)
  have P: "ok (R - 4096) m1" "live p 4096 m1" "kept m1 = kept m" using place[OF m(1) l p'] by (simp_all only: length_replicate)
  let ?b = "\<lparr> cr_buf = p, cr_r = 0, cr_w = 0, cr_err = None, cr_numLine = 0, cr_FieldsPerRecord = 0 \<rparr>"
  have "window ?b [] m1" using P(2) by (simp add: window_def go_slice_def)
  then have "streaming s payload \<Longrightarrow> reading (R - 4096) ?b payload m1 s" for s :: "('m, 'e) session" and payload
    unfolding reading_def using P(1) by (metis append_Nil)
  then show ?thesis using P(1,3) p
    by (rule_tac exI[of _ ?b], rule_tac exI[of _ m1]) (fastforce simp: csv_NewReader_def lines_at_def)
qed

lemma csv_Read_first:
  fixes s :: "('m, 'e) session"
  assumes H: "h_mem H = M" and m: "ok R m" "4096 \<le> R"
    and s: "\<not> ses_downloadEOF s" "ses_downloadReader s = None" "ses_DownloadHandler s = Some dl" "dl e = (Inr d, e1)"
  shows "Call H (csv_NewReader G (\<lambda>b. csv_Read G (Suc fuel) b (k b)) m) s \<sigma> e =
    Call H (csv_NewReader G (\<lambda>b. csv_Read G (Suc fuel) b (k b)) m) (s\<lparr>ses_downloadReader := Some d\<rparr>) \<sigma> e1"
proof -
  obtain p m1 where p: "gg_place G (replicate 4096 0) m = (p, m1)" by fastforce
  have l: "length (replicate 4096 (0::byte)) \<le> R" using m(2) by simp
  have p': "gg_place (go_guest.truncate G) (replicate 4096 0) m = (p, m1)" using p by (simp add: go_guest.defs)
  have P: "ok (R - 4096) m1" "live p 4096 m1" using place[OF m(1) l p'] by (simp_all only: length_replicate)
  note F = live_fits[OF P] and V = ok_valid[OF P(1)]
  have "gg_bytes G p 0 m1 = []" using read[OF P(1), of p 0] by (simp add: go_slice_def go_guest.defs)
  then show ?thesis
    using Read_first[OF H _ _ _ _ s, of m1 p 4096 _ \<sigma>] F V
    by (simp add: csv_NewReader_def p csv_Read_def readLine_def Let_def fill_def fill_tries_first del: fill_tries.simps)
qed

end

end
