(* ===== verification/CSV_Worker.thy ===== *)
theory CSV_Worker
  imports CSV_Reader
begin

text \<open>
  \<open>examples/process-csv/worker/main.go\<close>: a workflow that reads the download stream as CSV, classifies every
  row, adds up the amounts of the valid ones and writes one JSON document per row to the upload stream. The
  locale \<open>csv_worker_program\<close> states where the compiled worker keeps its totals; its lemmas say what the
  second step does with any text on the download stream.
\<close>

section \<open>The worker\<close>

text \<open>
  The type \<open>'f\<close> stands for \<open>float64\<close>: \<open>am_ParseFloat\<close> reads a text, with \<open>None\<close> for an error, \<open>am_plus\<close> is
  the sum, and \<open>am_json\<close> is the number that \<open>Marshal\<close> writes, or its error for infinities and NaN.
\<close>

record 'f amount_ops =
  am_ParseFloat :: "string \<Rightarrow> 'f option"
  am_plus :: "'f \<Rightarrow> 'f \<Rightarrow> 'f"
  am_0 :: 'f
  am_json :: "'f \<Rightarrow> go_error + json"

text \<open>Where the compiled worker keeps the fields of its \<open>State\<close>.\<close>

record ('m, 'f) csv_worker = "'m csv_guest" +
  cs_TotalAmount :: "'m \<Rightarrow> 'f"
  cs_ValidRecords :: "'m \<Rightarrow> i32"
  cs_setTotalAmount :: "'f \<Rightarrow> 'm \<Rightarrow> 'm"
  cs_setValidRecords :: "i32 \<Rightarrow> 'm \<Rightarrow> 'm"

text \<open>The status of a row, and its amount.\<close>

definition row_status :: "'f amount_ops \<Rightarrow> string \<Rightarrow> string \<Rightarrow> string \<times> 'f" where
  "row_status F email amountStr =
     (let (status, amount) =
        (case am_ParseFloat F amountStr of
           None \<Rightarrow> (''invalid_amount'', am_0 F)
         | Some a \<Rightarrow> (''active'', a))
      in if CHR ''@'' \<notin> set email then (''invalid_email'', amount) else (status, amount))"

definition UserRecord :: "'f amount_ops \<Rightarrow> string \<Rightarrow> string \<Rightarrow> string \<Rightarrow> 'f \<Rightarrow> string \<Rightarrow> go_error + json" where
  "UserRecord F uid name email amount status =
     (case am_json F amount of
        Inl e \<Rightarrow> Inl e
      | Inr j \<Rightarrow> Inr (JObj [(''id'', JStr uid), (''name'', JStr name), (''email'', JStr email), (''amount'', j), (''status'', JStr status)]))"

definition csv_initialize :: "'m step" where
  "csv_initialize k m = k None m"

definition count_amount :: "'f amount_ops \<Rightarrow> ('m, 'f) csv_worker \<Rightarrow> string \<Rightarrow> 'f \<Rightarrow> 'm \<Rightarrow> 'm" where
  "count_amount F G status amount m =
     (if status = ''active''
      then (let m1 = cs_setTotalAmount G (am_plus F (cs_TotalAmount G m) amount) m
            in cs_setValidRecords G (cs_ValidRecords G m1 + 1) m1)
      else m)"

text \<open>The loop over the rows; its fuel bounds their number, and \<open>f\<close> is the fuel of a read.\<close>

fun row_loop :: "codec \<Rightarrow> 'f amount_ops \<Rightarrow> ('m, 'f) csv_worker \<Rightarrow> nat \<Rightarrow> nat \<Rightarrow> csv_reader \<Rightarrow> 'm step" where
  "row_loop cd F G f 0 b k m = Trap m ''out of fuel''"
| "row_loop cd F G f (Suc fuel) b k m =
     csv_Read (csv_guest.truncate G) f b
       (\<lambda>((row, err), b1) m1.
          if err = Some io_EOF then Guest_Runner.Close k m1
          else case err of
            Some e \<Rightarrow> k (Some (Wrap ''error reading CSV row'' e)) m1
          | None \<Rightarrow>
              if length row < 4 then Trap m1 index_panic
              else (let uid = row ! 0; name = row ! 1; email = row ! 2; amountStr = row ! 3;
                        (status, amount) = row_status F email amountStr;
                        m2 = count_amount F G status amount m1
                    in case UserRecord F uid name email amount status of
                         Inl e \<Rightarrow> k (Some (Wrap ''error encoding JSON record'' e)) m2
                       | Inr j \<Rightarrow>
                           Encode cd (go_guest.truncate G) j
                             (\<lambda>err m3. case err of
                                Some e \<Rightarrow> k (Some (Wrap ''error encoding JSON record'' e)) m3
                              | None \<Rightarrow> row_loop cd F G f fuel b1 k m3) m2)) m"

definition processCSVStream :: "codec \<Rightarrow> 'f amount_ops \<Rightarrow> ('m, 'f) csv_worker \<Rightarrow> nat \<Rightarrow> 'm step" where
  "processCSVStream cd F G fuel k m =
     csv_NewReader (csv_guest.truncate G)
       (\<lambda>b. csv_Read (csv_guest.truncate G) fuel b
          (\<lambda>((header, err), b1) m1. case err of
             Some e \<Rightarrow> k (Some (Wrap ''error reading CSV header'' e)) m1
           | None \<Rightarrow>
               if length header < 4 then k (Some (Err ''CSV header requires at least 4 columns'')) m1
               else row_loop cd F G fuel fuel b1 k m1)) m"

definition csv_finalizeProcess :: "'m step" where
  "csv_finalizeProcess k m = k None m"

definition csv_run :: "codec \<Rightarrow> 'f amount_ops \<Rightarrow> ('m, 'f) csv_worker \<Rightarrow> nat \<Rightarrow> u64 list \<Rightarrow> 'm \<Rightarrow> 'm guest" where
  "csv_run cd F G fuel = exported_run (go_guest.truncate G)
     (wf_Step csv_finalizeProcess (wf_Step (processCSVStream cd F G fuel) (wf_Step csv_initialize NewWorkflow)))"

section \<open>What the worker computes\<close>

text \<open>The rows up to the first that cannot be read, with its error.\<close>

lemma record_fields_shorter: "record_fields rl n pl p ls = (r, n', ls') \<Longrightarrow> length ls' \<le> length ls"
  by (induction rl n pl p ls rule: record_fields.induct) (auto split: if_splits)

lemma next_record_shorter:
  "next_record n fpr ls = ((row, err), n', fpr', ls') \<Longrightarrow> err \<noteq> Some io_EOF \<Longrightarrow> length ls' < length ls"
  by (induction n fpr ls rule: next_record.induct)
     (auto simp: Let_def split: if_splits prod.splits dest!: record_fields_shorter)

function csv_rows :: "nat \<Rightarrow> nat \<Rightarrow> string list \<Rightarrow> string list list \<times> go_error option" where
  "csv_rows n fpr ls =
     (case next_record n fpr ls of
        ((row, err), n', fpr', ls') \<Rightarrow>
          if err = Some io_EOF then ([], None)
          else case err of
            Some e \<Rightarrow> ([], Some e)
          | None \<Rightarrow> (let (rows, e) = csv_rows n' fpr' ls' in (row # rows, e)))"
  by pat_completeness auto

termination csv_rows
  by (relation "measure (\<lambda>(n, fpr, ls). length ls)") (auto dest!: next_record_shorter[rotated] split: if_splits, metis fst_conv next_record_shorter option.distinct(1))

declare csv_rows.simps [simp del]

text \<open>One row: the totals after it, and its document.\<close>

definition csv_row :: "'f amount_ops \<Rightarrow> string list \<Rightarrow> 'f \<times> i32 \<Rightarrow> ('f \<times> i32) \<times> (go_error + json)" where
  "csv_row F row t =
     (let (status, amount) = row_status F (row ! 2) (row ! 3)
      in (if status = ''active'' then (am_plus F (fst t) amount, snd t + 1) else t,
          UserRecord F (row ! 0) (row ! 1) (row ! 2) amount status))"

text \<open>All rows: the bytes written, the totals, and the error of a row that cannot be encoded.\<close>

fun csv_out :: "codec \<Rightarrow> 'f amount_ops \<Rightarrow> string list list \<Rightarrow> 'f \<times> i32 \<Rightarrow> bytes \<times> ('f \<times> i32) \<times> go_error option" where
  "csv_out cd F [] t = ([], t, None)"
| "csv_out cd F (row # rows) t =
     (case csv_row F row t of
        (t1, Inl e) \<Rightarrow> ([], t1, Some e)
      | (t1, Inr j) \<Rightarrow> (let (out, t2, err) = csv_out cd F rows t1 in (json_text cd j @ [0x0A] @ out, t2, err)))"

text \<open>The error with which the loop ends.\<close>

definition loop_error :: "go_error option \<Rightarrow> go_error option \<Rightarrow> go_error option" where
  "loop_error enc rd = (case enc of
     Some e \<Rightarrow> Some (Wrap ''error encoding JSON record'' e)
   | None \<Rightarrow> map_option (Wrap ''error reading CSV row'') rd)"

lemma next_record_fields:
  "next_record n fpr ls = ((row, None), n', fpr', ls') \<Longrightarrow> 0 < fpr \<Longrightarrow> length row = fpr \<and> fpr' = fpr"
  by (induction n fpr ls rule: next_record.induct) (auto simp: Let_def check_fields_def split: if_splits prod.splits)

lemma next_record_first: "next_record n 0 ls = ((row, None), n', fpr', ls') \<Longrightarrow> fpr' = length row"
  by (induction n "0 :: nat" ls rule: next_record.induct) (auto simp: Let_def check_fields_def split: if_splits prod.splits)

section \<open>The worker over the streams\<close>

definition csv_state :: "('m, 'f) csv_worker \<Rightarrow> 'm \<Rightarrow> i32 \<times> 'f \<times> i32" where
  "csv_state G m = (gg_currentStep G m, cs_TotalAmount G m, cs_ValidRecords G m)"

context csv_program
begin

text \<open>The slices in use stay where they are, with their content.\<close>

definition keeps_slices :: "'m \<Rightarrow> 'm \<Rightarrow> bool" where
  "keeps_slices m m' \<longleftrightarrow> (\<forall>p l. live p l m \<longrightarrow> live p l m' \<and> go_slice (unat p) l (contents m') = go_slice (unat p) l (contents m))"

lemma keeps_slices_trans: "keeps_slices m m1 \<Longrightarrow> keeps_slices m1 m2 \<Longrightarrow> keeps_slices m m2"
  by (simp add: keeps_slices_def)

lemma lines_at_kept:
  fixes s :: "('m, 'e) session"
  assumes "lines_at N R b ls m s" "ok R' m'" "keeps_slices m m'"
    and "ses_downloadReader s' = ses_downloadReader s" "ses_downloadEOF s' = ses_downloadEOF s"
  shows "lines_at N R' b ls m' (s' :: ('m, 'e) session)"
proof -
  obtain data rest where 0: "window b data m" "streaming s rest" "csv_lines (data @ rest) = ls" "length (data @ rest) < N"
    using assms(1) by (auto simp: lines_at_def reading_def)
  have sub: "go_slice (a + i) n xs = go_slice i n (go_slice a 4096 xs)" if "i + n \<le> 4096" for a i n and xs :: bytes
    using that by (simp add: go_slice_def drop_take min_def add.commute)
  have "live (cr_buf b) 4096 m'" "go_slice (unat (cr_buf b)) 4096 (contents m') = go_slice (unat (cr_buf b)) 4096 (contents m)"
    using assms(3) 0(1) by (simp_all add: keeps_slices_def window_def)
  then have "window b data m'" using 0(1) sub[of "cr_r b" "length data"] by (simp add: window_def)
  moreover have "streaming s' rest" using 0(2) assms(4,5) by (simp add: streaming_def)
  ultimately show ?thesis using assms(2) 0(3,4) unfolding lines_at_def reading_def by blast
qed

end

locale csv_worker_program = csv_program M contents valid "csv_guest.truncate G" ok live "csv_state G"
  for M :: "'m memory_api" and contents and valid and G :: "('m, 'f) csv_worker" and ok and live +
  assumes ok_nonempty: "ok R m \<Longrightarrow> contents m \<noteq> []"
    and set_step: "ok R m \<Longrightarrow> ok R (gg_setCurrentStep G i m) \<and>
      csv_state G (gg_setCurrentStep G i m) = (i, cs_TotalAmount G m, cs_ValidRecords G m)"
    and set_total: "ok R m \<Longrightarrow> ok R (cs_setTotalAmount G v m) \<and>
      csv_state G (cs_setTotalAmount G v m) = (gg_currentStep G m, v, cs_ValidRecords G m)"
    and set_total_slices: "ok R m \<Longrightarrow> live p l m \<Longrightarrow> live p l (cs_setTotalAmount G v m) \<and>
      go_slice (unat p) l (contents (cs_setTotalAmount G v m)) = go_slice (unat p) l (contents m)"
    and set_valid: "ok R m \<Longrightarrow> ok R (cs_setValidRecords G w m) \<and>
      csv_state G (cs_setValidRecords G w m) = (gg_currentStep G m, cs_TotalAmount G m, w)"
    and set_valid_slices: "ok R m \<Longrightarrow> live p l m \<Longrightarrow> live p l (cs_setValidRecords G w m) \<and>
      go_slice (unat p) l (contents (cs_setValidRecords G w m)) = go_slice (unat p) l (contents m)"
begin

lemma truncate_twice: "go_guest.truncate (csv_guest.truncate G) = go_guest.truncate G"
  by (simp add: go_guest.defs csv_guest.defs)

lemma count_amount_kept:
  assumes "ok R m"
  shows "ok R (count_amount F G status amount m) \<and> keeps_slices m (count_amount F G status amount m) \<and>
    csv_state G (count_amount F G status amount m) =
      (if status = ''active'' then (gg_currentStep G m, am_plus F (cs_TotalAmount G m) amount, cs_ValidRecords G m + 1) else csv_state G m)"
proof (cases "status = ''active''")
  case True
  let ?m1 = "cs_setTotalAmount G (am_plus F (cs_TotalAmount G m) amount) m"
  note A = set_total[OF assms, of "am_plus F (cs_TotalAmount G m) amount"]
  then have c: "gg_currentStep G ?m1 = gg_currentStep G m" "cs_TotalAmount G ?m1 = am_plus F (cs_TotalAmount G m) amount"
    "cs_ValidRecords G ?m1 = cs_ValidRecords G m" by (simp_all add: csv_state_def)
  have "keeps_slices m ?m1" "keeps_slices ?m1 (cs_setValidRecords G (cs_ValidRecords G m + 1) ?m1)"
    using set_total_slices[OF assms] set_valid_slices[OF conjunct1[OF A]] by (simp_all add: keeps_slices_def)
  then show ?thesis using True c set_valid[OF conjunct1[OF A], of "cs_ValidRecords G m + 1"] keeps_slices_trans
    by (simp add: count_amount_def)
qed (use assms in \<open>simp add: count_amount_def keeps_slices_def\<close>)

lemma Encode_row:
  fixes s :: "('m, 'e) session"
  assumes H: "h_mem H = M" and l: "ok R m" "lines_at N R' b ls m s" and fits: "Suc (length (json_text cd j)) \<le> R"
  shows "\<exists>m1. ok (R - Suc (length (json_text cd j))) m1 \<and> csv_state G m1 = csv_state G m \<and>
    lines_at N (R - Suc (length (json_text cd j))) b ls m1
      (s\<lparr>ses_uploadBuffer := ses_uploadBuffer s @ json_text cd j @ [0x0A], ses_memory := m1\<rparr>) \<and>
    (\<forall>k. Call H (Encode cd (go_guest.truncate G) j k m) s \<sigma> e = Call H (k None m1)
      (s\<lparr>ses_uploadBuffer := ses_uploadBuffer s @ json_text cd j @ [0x0A], ses_memory := m1\<rparr>) \<sigma> e)"
proof -
  let ?t = "json_text cd j @ [0x0A]"
  obtain p m1 where p: "gg_place (go_guest.truncate (csv_guest.truncate G)) ?t m = (p, m1)" by fastforce
  note E = Encode_place[OF H l(1) fits p, of _ s \<sigma> e, unfolded truncate_twice]
  have "gg_place (csv_guest.truncate G) ?t m = (p, m1)" "length ?t \<le> R" using p fits by (simp_all add: go_guest.defs csv_guest.defs)
  then have "keeps_slices m m1" using place_apart[OF l(1) _ _ _, of _ _ ?t p m1] unfolding keeps_slices_def by blast
  then have "lines_at N (R - Suc (length (json_text cd j))) b ls m1 (s\<lparr>ses_uploadBuffer := ses_uploadBuffer s @ ?t, ses_memory := m1\<rparr>)"
    using lines_at_kept[OF l(2) conjunct1[OF E]] by simp
  then show ?thesis using E by blast
qed

text \<open>The loop, to its end or to its first error.\<close>

lemma row_loop_stream:
  fixes s :: "('m, 'e) session"
  assumes H: "h_mem H = M" and f: "N + 3 \<le> f"
    and "lines_at N R b ls m s" "length ls < fuel" "4 \<le> cr_FieldsPerRecord b"
    and "csv_rows (cr_numLine b) (cr_FieldsPerRecord b) ls = (rows, rd)"
    and "csv_out cd F rows (cs_TotalAmount G m, cs_ValidRecords G m) = (out, t, enc)" "length out \<le> R"
  shows "\<exists>R1 m1 s1. ok R1 m1 \<and> R \<le> R1 + length out \<and> csv_state G m1 = (gg_currentStep G m, t) \<and> same_core s s1 \<and>
    ses_uploadBuffer s1 = ses_uploadBuffer s @ out \<and>
    (\<forall>k. Call H (row_loop cd F G f fuel b k m) s \<sigma> e =
      Call H (case loop_error enc rd of None \<Rightarrow> Guest_Runner.Close k m1 | Some x \<Rightarrow> k (Some x) m1) s1 \<sigma> e)"
  using assms(3-8)
proof (induction fuel arbitrary: R b ls m s rows out)
  case 0
  then show ?case by simp
next
  case (Suc fuel)
  obtain row err n' fpr' ls' where nr: "next_record (cr_numLine b) (cr_FieldsPerRecord b) ls = ((row, err), n', fpr', ls')"
    by (metis prod_cases4 surj_pair)
  obtain m1 s1 b1 where 1: "lines_at N R b1 ls' m1 s1" "csv_state G m1 = csv_state G m" "same_core s s1"
    "ses_uploadBuffer s1 = ses_uploadBuffer s" "cr_numLine b1 = n'" "cr_FieldsPerRecord b1 = fpr'"
    "\<And>k. Call H (csv_Read (csv_guest.truncate G) f b k m) s \<sigma> e = Call H (k ((row, err), b1) m1) s1 \<sigma> e"
    using csv_Read_stream[OF H Suc.prems(1) f nr, of \<sigma> e] by blast
  have ok1: "ok R m1" using 1(1) by (auto simp: lines_at_def reading_def)
  have st1: "gg_currentStep G m1 = gg_currentStep G m" "cs_TotalAmount G m1 = cs_TotalAmount G m" "cs_ValidRecords G m1 = cs_ValidRecords G m"
    using 1(2) by (simp_all add: csv_state_def)
  show ?case
  proof (cases err)
    case (Some x)
    then have "rows = []" "rd = (if x = io_EOF then None else Some x)"
      using Suc.prems(4) by (simp_all add: csv_rows.simps[of "cr_numLine b"] nr split: if_splits)
    then have o: "out = []" "t = (cs_TotalAmount G m, cs_ValidRecords G m)" "enc = None" "loop_error enc rd = (if x = io_EOF then None else Some (Wrap ''error reading CSV row'' x))"
      using Suc.prems(5) by (auto simp: loop_error_def)
    have "Call H (row_loop cd F G f (Suc fuel) b k m) s \<sigma> e =
        Call H (case loop_error enc rd of None \<Rightarrow> Guest_Runner.Close k m1 | Some x \<Rightarrow> k (Some x) m1) s1 \<sigma> e" for k
      by (simp add: 1(7) Some o(4))
    then show ?thesis using ok1 1(2-4) o(1,2)
      by (rule_tac exI[of _ R], rule_tac exI[of _ m1], rule_tac exI[of _ s1]) (simp add: csv_state_def)
  next
    case None
    have fp: "length row = cr_FieldsPerRecord b" "fpr' = cr_FieldsPerRecord b"
      using next_record_fields[OF nr[unfolded None]] Suc.prems(3) by simp_all
    have len: "\<not> length row < 4" "length ls' < fuel" "4 \<le> cr_FieldsPerRecord b1"
      using fp Suc.prems(2,3) next_record_shorter[OF nr] None 1(6) by simp_all
    obtain rows1 where rows: "rows = row # rows1" "csv_rows (cr_numLine b1) (cr_FieldsPerRecord b1) ls' = (rows1, rd)"
      using Suc.prems(4) 1(5,6) by (auto simp: csv_rows.simps[of "cr_numLine b"] nr None split: prod.splits)
    obtain status amount where sa: "row_status F (row ! 2) (row ! 3) = (status, amount)" by fastforce
    let ?m2 = "count_amount F G status amount m1"
    note C = count_amount_kept[OF ok1, of F status amount]
    obtain t1 where t1: "csv_row F row (cs_TotalAmount G m, cs_ValidRecords G m) =
        (t1, UserRecord F (row ! 0) (row ! 1) (row ! 2) amount status)"
      "csv_state G ?m2 = (gg_currentStep G m, t1)"
      using C st1 sa by (simp add: csv_row_def csv_state_def split: if_splits)
    have t1': "t1 = (cs_TotalAmount G ?m2, cs_ValidRecords G ?m2)" "gg_currentStep G ?m2 = gg_currentStep G m"
      using t1(2) by (simp_all add: csv_state_def)
    have l2: "lines_at N R b1 ls' ?m2 s1" using lines_at_kept[OF 1(1) conjunct1[OF C] conjunct1[OF conjunct2[OF C]]] by simp
    show ?thesis
    proof (cases "UserRecord F (row ! 0) (row ! 1) (row ! 2) amount status")
      case (Inl x)
      then have o: "out = []" "t = t1" "enc = Some x" using Suc.prems(5) rows(1) t1(1) by simp_all
      have "Call H (row_loop cd F G f (Suc fuel) b k m) s \<sigma> e =
          Call H (case loop_error enc rd of None \<Rightarrow> Guest_Runner.Close k ?m2 | Some x \<Rightarrow> k (Some x) ?m2) s1 \<sigma> e" for k
        using len(1) by (simp add: 1(7) None sa Inl[unfolded One_nat_def] o(3) loop_error_def Let_def)
      then show ?thesis using C 1(3,4) o(1,2) t1(2)
        by (rule_tac exI[of _ R], rule_tac exI[of _ ?m2], rule_tac exI[of _ s1]) simp
    next
      case (Inr j)
      obtain out1 where o: "out = json_text cd j @ [0x0A] @ out1" "csv_out cd F rows1 (cs_TotalAmount G ?m2, cs_ValidRecords G ?m2) = (out1, t, enc)"
        using Suc.prems(5) rows(1) t1(1) t1'(1) Inr by (auto split: prod.splits)
      have fits: "Suc (length (json_text cd j)) \<le> R" "length out1 \<le> R - Suc (length (json_text cd j))"
        using Suc.prems(6) o(1) by simp_all
      let ?up = "\<lambda>m3. s1\<lparr>ses_uploadBuffer := ses_uploadBuffer s1 @ json_text cd j @ [0x0A], ses_memory := m3\<rparr>"
      obtain m3 where 3: "csv_state G m3 = csv_state G ?m2" "lines_at N (R - Suc (length (json_text cd j))) b1 ls' m3 (?up m3)"
        "\<And>k. Call H (Encode cd (go_guest.truncate G) j k ?m2) s1 \<sigma> e = Call H (k None m3) (?up m3) \<sigma> e"
        using Encode_row[OF H conjunct1[OF C] l2 fits(1), of \<sigma> e] by blast
      have st3: "cs_TotalAmount G m3 = cs_TotalAmount G ?m2" "cs_ValidRecords G m3 = cs_ValidRecords G ?m2" "gg_currentStep G m3 = gg_currentStep G m"
        using 3(1) t1'(2) by (simp_all add: csv_state_def)
      obtain R4 m4 s4 where 4: "ok R4 m4" "R - Suc (length (json_text cd j)) \<le> R4 + length out1" "csv_state G m4 = (gg_currentStep G m3, t)"
        "same_core (?up m3) s4" "ses_uploadBuffer s4 = ses_uploadBuffer (?up m3) @ out1"
        "\<And>k. Call H (row_loop cd F G f fuel b1 k m3) (?up m3) \<sigma> e =
          Call H (case loop_error enc rd of None \<Rightarrow> Guest_Runner.Close k m4 | Some x \<Rightarrow> k (Some x) m4) s4 \<sigma> e"
        using Suc.IH[OF 3(2) len(2,3) rows(2) _ fits(2)] o(2) unfolding st3 by blast
      have "Call H (row_loop cd F G f (Suc fuel) b k m) s \<sigma> e =
          Call H (case loop_error enc rd of None \<Rightarrow> Guest_Runner.Close k m4 | Some x \<Rightarrow> k (Some x) m4) s4 \<sigma> e" for k
        using len(1) by (simp add: 1(7) None sa Inr[unfolded One_nat_def] 3(3) 4(6) Let_def)
      moreover have "same_core s s4" using 1(3) 4(4) by (simp add: same_core_def)
      moreover have "R \<le> R4 + length out" "ses_uploadBuffer s4 = ses_uploadBuffer s @ out" using 4(2,5) o(1) fits(1) 1(4) by simp_all
      ultimately show ?thesis using 4(1,3) st3(3)
        by (rule_tac exI[of _ R4], rule_tac exI[of _ m4], rule_tac exI[of _ s4]) simp
    qed
  qed
qed

text \<open>
  The second step on a text that has a header: what it writes is in the upload buffer, and the buffer is
  handed over when every row was read and encoded.
\<close>

lemma processCSVStream_outcome:
  fixes s :: "('m, 'e) session"
  assumes H: "h_mem H = M" and m: "ok R m"
    and s: "at_start s" "ses_DownloadHandler s = Some dl" "dl e = (Inr payload, e1)"
    and header: "next_record 0 0 (csv_lines payload) = ((header, None), n, fpr, ls)" "4 \<le> length header"
    and rows: "csv_rows n fpr ls = (rows, rd)" "csv_out cd F rows (cs_TotalAmount G m, cs_ValidRecords G m) = (out, t, enc)"
    and room: "4096 + length out \<le> R" and fuel: "length payload + 3 < fuel"
  shows "\<exists>R1 m1 s1. ok R1 m1 \<and> R \<le> R1 + 4096 + length out \<and> csv_state G m1 = (gg_currentStep G m, t) \<and> same_core s s1 \<and>
    ses_uploadBuffer s1 = out \<and>
    (\<forall>k. Call H (processCSVStream cd F G fuel k m) s \<sigma> e =
      Call H (case loop_error enc rd of None \<Rightarrow> Guest_Runner.Close k m1 | Some x \<Rightarrow> k (Some x) m1) s1 \<sigma> e1)"
proof -
  let ?N = "length payload + 1" and ?s = "s\<lparr>ses_downloadReader := Some payload\<rparr>"
  let ?hd = "\<lambda>k. \<lambda>((header, err), b1) m1. case err of
       Some e \<Rightarrow> k (Some (Wrap ''error reading CSV header'' e)) m1
     | None \<Rightarrow> if length header < 4 then k (Some (Err ''CSV header requires at least 4 columns'')) m1
                else row_loop cd F G fuel fuel b1 k m1"
  have R: "4096 \<le> R" and f: "?N + 3 \<le> fuel" using room fuel by simp_all
  obtain f' where f': "fuel = Suc f'" using fuel by (cases fuel) auto
  have s0: "\<not> ses_downloadEOF s" "ses_downloadReader s = None" using s(1) by simp_all
  have first: "Call H (processCSVStream cd F G fuel k m) s \<sigma> e = Call H (processCSVStream cd F G fuel k m) ?s \<sigma> e1" for k
    unfolding processCSVStream_def
    by (rule csv_Read_first[OF H m R s0 s(2,3), of f' "\<lambda>_. ?hd k" \<sigma>, folded f'])
  obtain b m1 where 1: "csv_state G m1 = csv_state G m" "cr_numLine b = 0" "cr_FieldsPerRecord b = 0"
    "\<And>c. csv_NewReader (csv_guest.truncate G) c m = c b m1"
    "\<And>(s :: ('m, 'e) session) p. streaming s p \<Longrightarrow> length p < ?N \<Longrightarrow> lines_at ?N (R - 4096) b (csv_lines p) m1 s"
    using csv_NewReader_stream[OF m R, of ?N] by blast
  have l1: "lines_at ?N (R - 4096) b (csv_lines payload) m1 ?s" using s(1) by (intro 1(5)) (simp_all add: streaming_def)
  obtain m2 s2 b2 where 2: "lines_at ?N (R - 4096) b2 ls m2 s2" "csv_state G m2 = csv_state G m1" "same_core ?s s2"
    "ses_uploadBuffer s2 = ses_uploadBuffer ?s" "cr_numLine b2 = n" "cr_FieldsPerRecord b2 = fpr"
    "\<And>k. Call H (csv_Read (csv_guest.truncate G) fuel b k m1) ?s \<sigma> e1 = Call H (k ((header, None), b2) m2) s2 \<sigma> e1"
    using csv_Read_stream[OF H l1 f, of "(header, None)" n fpr ls \<sigma> e1] 1(2,3) header(1) by auto
  have st2: "cs_TotalAmount G m2 = cs_TotalAmount G m" "cs_ValidRecords G m2 = cs_ValidRecords G m" "gg_currentStep G m2 = gg_currentStep G m"
    using 1(1) 2(2) by (simp_all add: csv_state_def)
  have fp: "4 \<le> cr_FieldsPerRecord b2" using 2(6) header next_record_first[OF header(1)] by simp
  have lf: "length ls < fuel" using lines_at_length[OF 2(1)] fuel by simp
  have rs: "csv_rows (cr_numLine b2) (cr_FieldsPerRecord b2) ls = (rows, rd)"
    "csv_out cd F rows (cs_TotalAmount G m2, cs_ValidRecords G m2) = (out, t, enc)" "length out \<le> R - 4096"
    using rows 2(5,6) st2 room by simp_all
  obtain R3 m3 s3 where 3: "ok R3 m3" "R - 4096 \<le> R3 + length out" "csv_state G m3 = (gg_currentStep G m2, t)" "same_core s2 s3"
    "ses_uploadBuffer s3 = ses_uploadBuffer s2 @ out"
    "\<And>k. Call H (row_loop cd F G fuel fuel b2 k m2) s2 \<sigma> e1 =
      Call H (case loop_error enc rd of None \<Rightarrow> Guest_Runner.Close k m3 | Some x \<Rightarrow> k (Some x) m3) s3 \<sigma> e1"
    using row_loop_stream[OF H f 2(1) lf fp rs, of \<sigma> e1] by blast
  have "Call H (processCSVStream cd F G fuel k m) s \<sigma> e =
      Call H (case loop_error enc rd of None \<Rightarrow> Guest_Runner.Close k m3 | Some x \<Rightarrow> k (Some x) m3) s3 \<sigma> e1" for k
    using header(2) unfolding first by (simp add: processCSVStream_def 1(4) 2(7) 3(6))
  moreover have "same_core s s3" using 2(3) 3(4) by (simp add: same_core_def)
  moreover have "R \<le> R3 + 4096 + length out" "ses_uploadBuffer s3 = out" using 3(2,5) 2(4) s(1) by simp_all
  ultimately show ?thesis using 3(1,3) st2(3)
    by (rule_tac exI[of _ R3], rule_tac exI[of _ m3], rule_tac exI[of _ s3]) simp
qed

end

end
