(* ===== verification/Document_Workers.thy ===== *)
theory Document_Workers
  imports Guest_Task
begin

text \<open>
  The workers of \<open>examples/camunda\<close> and \<open>examples/temporal\<close>: workflows whose steps exchange JSON documents
  with the host. The locale \<open>camunda_program\<close> extends \<open>task_program\<close> with what the compiled worker keeps
  of its state; its lemmas follow one exchange, and a step of the worker on top of it.
\<close>

section \<open>Decoding into a structure\<close>

text \<open>
  A member is for the field with its name or, failing that, for one that is equal to it under the simple
  folding of \<open>foldName\<close>; of the letters outside ASCII only two fold into it.
\<close>

fun fold_name :: "string \<Rightarrow> string" where
  "fold_name [] = []"
| "fold_name (c # cs) =
     (if prefix [CHR 0xC5, CHR 0xBF] (c # cs) then CHR ''S'' # fold_name (drop 1 cs)
      else if prefix [CHR 0xE2, CHR 0x84, CHR 0xAA] (c # cs) then CHR ''K'' # fold_name (drop 2 cs)
      else (if CHR ''a'' \<le> c \<and> c \<le> CHR ''z'' then char_of (of_char c - 32 :: nat) else c) # fold_name cs)"

definition find_field :: "string list \<Rightarrow> string \<Rightarrow> string option" where
  "find_field names key =
     (if key \<in> set names then Some key else find (\<lambda>f. fold_name f = fold_name key) names)"

text \<open>
  The members are taken in their order; \<open>put\<close> stores a value into a field. The first error is kept and the
  decoding goes on. Null leaves a field as it is.
\<close>

definition put_member :: "string list \<Rightarrow> (string \<Rightarrow> json \<Rightarrow> 'a \<Rightarrow> go_error + 'a) \<Rightarrow> 'a \<times> go_error option \<Rightarrow>
    string \<times> json \<Rightarrow> 'a \<times> go_error option" where
  "put_member names put acc kv =
     (let (a, err) = acc
      in case find_field names (fst kv) of
           None \<Rightarrow> acc
         | Some f \<Rightarrow>
             if snd kv = JNull then acc
             else (case put f (snd kv) a of
                     Inr a' \<Rightarrow> (a', err)
                   | Inl e \<Rightarrow> (a, if err = None then Some e else err)))"

definition unmarshal_struct :: "codec \<Rightarrow> string \<Rightarrow> string list \<Rightarrow> (string \<Rightarrow> json \<Rightarrow> 'a \<Rightarrow> go_error + 'a) \<Rightarrow> 'a \<Rightarrow>
    bytes \<Rightarrow> go_error + 'a" where
  "unmarshal_struct cd name names put zero b =
     (case json_parse cd b of
        None \<Rightarrow> Inl syntax_error
      | Some JNull \<Rightarrow> Inr zero
      | Some (JObj kvs) \<Rightarrow>
          (case foldl (put_member names put) (zero, None) kvs of
             (a, None) \<Rightarrow> Inr a
           | (_, Some e) \<Rightarrow> Inl e)
      | Some j \<Rightarrow> Inl (type_error (json_kind j) (''main.'' @ name)))"

definition field_error :: "string \<Rightarrow> string \<Rightarrow> string \<Rightarrow> string \<Rightarrow> go_error" where
  "field_error v name f ty = Err (''json: cannot unmarshal '' @ v @ '' into Go struct field '' @ name @ ''.'' @ f @ '' of type '' @ ty)"

definition put_string :: "string \<Rightarrow> string \<Rightarrow> json \<Rightarrow> string \<Rightarrow> go_error + string" where
  "put_string name f j a = (case j of JStr s \<Rightarrow> Inr s | _ \<Rightarrow> Inl (field_error (json_kind j) name f ''string''))"

section \<open>An exchange\<close>

text \<open>
  A request is encoded, the upload is flushed, and the answer is decoded, with the errors of the three
  wrapped in the texts of the step.
\<close>

definition exchange :: "codec \<Rightarrow> 'm go_guest \<Rightarrow> nat \<Rightarrow> string \<Rightarrow> string \<Rightarrow> json \<Rightarrow> (bytes \<Rightarrow> go_error + 'a) \<Rightarrow> (go_error + 'a, 'm) prog" where
  "exchange cd G fuel enc_msg dec_msg req unmarshal k =
     Encode cd G req
       (\<lambda>err m1. case err of
          Some e \<Rightarrow> k (Inl (Wrap enc_msg e)) m1
        | None \<Rightarrow>
            Guest_Runner.Close
              (\<lambda>err m2. case err of
                 Some e \<Rightarrow> k (Inl (Wrap ''failed to close writer'' e)) m2
               | None \<Rightarrow>
                   Decode_text G fuel
                     (\<lambda>r m3. case r of
                        Inl e \<Rightarrow> k (Inl (Wrap dec_msg e)) m3
                      | Inr b \<Rightarrow> (case unmarshal b of Inl e \<Rightarrow> k (Inl (Wrap dec_msg e)) m3 | Inr a \<Rightarrow> k (Inr a) m3)) m2) m1)"

text \<open>The upload of a final record.\<close>

definition send_record :: "codec \<Rightarrow> 'm go_guest \<Rightarrow> string \<Rightarrow> json \<Rightarrow> 'm step" where
  "send_record cd G enc_msg req k =
     Encode cd G req
       (\<lambda>err m1. case err of
          Some e \<Rightarrow> k (Some (Wrap enc_msg e)) m1
        | None \<Rightarrow>
            Guest_Runner.Close
              (\<lambda>err m2. case err of
                 Some e \<Rightarrow> k (Some (Wrap ''failed to close writer'' e)) m2
               | None \<Rightarrow> k None m2) m1)"

section \<open>examples/camunda/worker\<close>

text \<open>Where the compiled worker keeps the fields of its state.\<close>

record 'm camunda_guest = "'m go_guest" +
  cg_OrderID :: "'m \<Rightarrow> string"
  cg_InventoryOk :: "'m \<Rightarrow> bool"
  cg_PaymentOk :: "'m \<Rightarrow> bool"
  cg_setInventoryOk :: "bool \<Rightarrow> 'm \<Rightarrow> 'm"
  cg_setPaymentOk :: "bool \<Rightarrow> 'm \<Rightarrow> 'm"

definition InventoryRequest :: "string \<Rightarrow> json" where
  "InventoryRequest orderID = JObj [(''order_id'', JStr orderID), (''item_id'', JStr ''item-7788''), (''qty'', JNum 3)]"

definition PaymentRequest :: "string \<Rightarrow> json" where
  "PaymentRequest orderID = JObj [(''order_id'', JStr orderID), (''amount'', JNum 350)]"

definition FinalOrderRecord :: "string \<Rightarrow> bool \<Rightarrow> bool \<Rightarrow> json" where
  "FinalOrderRecord orderID inventoryOk paymentOk =
     JObj [(''order_id'', JStr orderID), (''inventory_ok'', JBool inventoryOk), (''payment_ok'', JBool paymentOk),
           (''status'', JStr ''processed'')]"

text \<open>\<open>InventoryResponse\<close> and \<open>PaymentResponse\<close> have one field, the status.\<close>

definition unmarshal_status :: "codec \<Rightarrow> string \<Rightarrow> bytes \<Rightarrow> go_error + string" where
  "unmarshal_status cd name = unmarshal_struct cd name [''status''] (put_string name) []"

definition cw_initialize :: "'m step" where
  "cw_initialize k m = k None m"

definition checkInventory :: "codec \<Rightarrow> 'm camunda_guest \<Rightarrow> nat \<Rightarrow> 'm step" where
  "checkInventory cd G fuel k m =
     exchange cd (go_guest.truncate G) fuel ''inventory request encode failed'' ''inventory response decode failed''
       (InventoryRequest (cg_OrderID G m)) (unmarshal_status cd ''InventoryResponse'')
       (\<lambda>r m1. case r of
          Inl e \<Rightarrow> k (Some e) m1
        | Inr status \<Rightarrow>
            if status = ''available'' then k None (cg_setInventoryOk G True m1)
            else k (Some (Err ''inventory not available'')) m1) m"

definition capturePayment :: "codec \<Rightarrow> 'm camunda_guest \<Rightarrow> nat \<Rightarrow> 'm step" where
  "capturePayment cd G fuel k m =
     exchange cd (go_guest.truncate G) fuel ''payment request encode failed'' ''payment response decode failed''
       (PaymentRequest (cg_OrderID G m)) (unmarshal_status cd ''PaymentResponse'')
       (\<lambda>r m1. case r of
          Inl e \<Rightarrow> k (Some e) m1
        | Inr status \<Rightarrow>
            if status = ''success'' then k None (cg_setPaymentOk G True m1)
            else k (Some (Err ''payment capture failed'')) m1) m"

definition saveOrderRecord :: "codec \<Rightarrow> 'm camunda_guest \<Rightarrow> 'm step" where
  "saveOrderRecord cd G k m =
     send_record cd (go_guest.truncate G) ''final order record encode failed''
       (FinalOrderRecord (cg_OrderID G m) (cg_InventoryOk G m) (cg_PaymentOk G m)) k m"

definition finalizeProcess :: "'m step" where
  "finalizeProcess k m = k None m"

definition camunda_run :: "codec \<Rightarrow> 'm camunda_guest \<Rightarrow> nat \<Rightarrow> u64 list \<Rightarrow> 'm \<Rightarrow> 'm guest" where
  "camunda_run cd G fuel = exported_run (go_guest.truncate G)
     (wf_Step finalizeProcess (wf_Step (saveOrderRecord cd G) (wf_Step (capturePayment cd G fuel)
       (wf_Step (checkInventory cd G fuel) (wf_Step cw_initialize NewWorkflow)))))"

section \<open>examples/temporal/worker\<close>

text \<open>
  The type \<open>'f\<close> stands for \<open>float64\<close>: \<open>fl_parse\<close> reads a number, with \<open>None\<close> out of range, \<open>fl_json\<close> is the
  number that \<open>Marshal\<close> writes, or its error for infinities and NaN, and \<open>fl_times\<close> is the product.
\<close>

record 'f float_ops =
  fl_parse :: "json \<Rightarrow> 'f option"
  fl_json :: "'f \<Rightarrow> go_error + json"
  fl_times :: "'f \<Rightarrow> 'f \<Rightarrow> 'f"
  fl_0 :: 'f
  fl_150 :: 'f

record ('m, 'f) temporal_guest = "'m go_guest" +
  tg_ActivityID :: "'m \<Rightarrow> string"
  tg_BaseRate :: "'m \<Rightarrow> 'f"
  tg_Multiplier :: "'m \<Rightarrow> 'f"
  tg_CalculatedVal :: "'m \<Rightarrow> 'f"
  tg_setRates :: "'f \<Rightarrow> 'f \<Rightarrow> 'm \<Rightarrow> 'm"
  tg_setCalculatedVal :: "'f \<Rightarrow> 'm \<Rightarrow> 'm"

definition put_rate :: "codec \<Rightarrow> 'f float_ops \<Rightarrow> string \<Rightarrow> json \<Rightarrow> 'f \<times> 'f \<Rightarrow> go_error + 'f \<times> 'f" where
  "put_rate cd F f j a =
     (let put = (\<lambda>x. if f = ''base_rate'' then (x, snd a) else (fst a, x))
      in if json_kind j = ''number''
         then (case fl_parse F j of
                 Some x \<Rightarrow> Inr (put x)
               | None \<Rightarrow> Inl (field_error (''number '' @ string_of_bytes (json_text cd j)) ''ParamResponse'' f ''float64''))
         else Inl (field_error (json_kind j) ''ParamResponse'' f ''float64''))"

definition tw_initialize :: "'m step" where
  "tw_initialize k m = k None m"

definition downloadParams :: "codec \<Rightarrow> 'f float_ops \<Rightarrow> ('m, 'f) temporal_guest \<Rightarrow> nat \<Rightarrow> 'm step" where
  "downloadParams cd F G fuel k m =
     exchange cd (go_guest.truncate G) fuel ''request parameters encode failed'' ''response parameters decode failed''
       (JObj [(''activity_id'', JStr (tg_ActivityID G m))])
       (unmarshal_struct cd ''ParamResponse'' [''base_rate'', ''multiplier''] (put_rate cd F) (fl_0 F, fl_0 F))
       (\<lambda>r m1. case r of
          Inl e \<Rightarrow> k (Some e) m1
        | Inr (baseRate, multiplier) \<Rightarrow> k None (tg_setRates G baseRate multiplier m1)) m"

definition performCalculation :: "'f float_ops \<Rightarrow> ('m, 'f) temporal_guest \<Rightarrow> 'm step" where
  "performCalculation F G k m =
     k None (tg_setCalculatedVal G (fl_times F (fl_times F (tg_BaseRate G m) (tg_Multiplier G m)) (fl_150 F)) m)"

text \<open>The record is not encoded when one of its numbers cannot be; the fields are encoded in their order.\<close>

definition FinalCalculationResult :: "'f float_ops \<Rightarrow> string \<Rightarrow> 'f \<Rightarrow> 'f \<Rightarrow> 'f \<Rightarrow> go_error + json" where
  "FinalCalculationResult F activityID baseRate multiplier result =
     (case fl_json F baseRate of Inl e \<Rightarrow> Inl e
      | Inr b \<Rightarrow> case fl_json F multiplier of Inl e \<Rightarrow> Inl e
      | Inr x \<Rightarrow> case fl_json F result of Inl e \<Rightarrow> Inl e
      | Inr r \<Rightarrow> Inr (JObj [(''activity_id'', JStr activityID), (''base_rate'', b), (''multiplier'', x),
                           (''result_value'', r), (''completed'', JBool True)]))"

definition saveFinalRecord :: "codec \<Rightarrow> 'f float_ops \<Rightarrow> ('m, 'f) temporal_guest \<Rightarrow> 'm step" where
  "saveFinalRecord cd F G k m =
     (case FinalCalculationResult F (tg_ActivityID G m) (tg_BaseRate G m) (tg_Multiplier G m) (tg_CalculatedVal G m) of
        Inl e \<Rightarrow> k (Some (Wrap ''final result encode failed'' e)) m
      | Inr j \<Rightarrow> send_record cd (go_guest.truncate G) ''final result encode failed'' j k m)"

definition finalizeActivity :: "'m step" where
  "finalizeActivity k m = k None m"

definition temporal_run :: "codec \<Rightarrow> 'f float_ops \<Rightarrow> ('m, 'f) temporal_guest \<Rightarrow> nat \<Rightarrow> u64 list \<Rightarrow> 'm \<Rightarrow> 'm guest" where
  "temporal_run cd F G fuel = exported_run (go_guest.truncate G)
     (wf_Step finalizeActivity (wf_Step (saveFinalRecord cd F G) (wf_Step (performCalculation F G)
       (wf_Step (downloadParams cd F G fuel) (wf_Step tw_initialize NewWorkflow)))))"

section \<open>The exchanges over the streams\<close>

context task_program
begin

lemma exchange_stream:
  fixes s :: "('m, 'e) session"
  assumes H: "h_mem H = M" and m: "ok R m"
    and s: "ses_uploadBuffer s = []" "ses_DownloadHandler s = Some dl" "ses_UploadHandler s = Some hu"
    and env: "hu (json_text cd req @ [0x0A]) e = (err, e1)" "dl e1 = (Inr (json_text cd (JObj kvs) @ extra), e2)"
    and doc: "json_utf8 (JObj kvs)" "json_depth (JObj kvs) \<le> 10000"
    and room: "length (json_text cd req) \<le> N" "length (json_text cd (JObj kvs) @ extra) \<le> N" "5 * N + 3073 \<le> R"
    and fuel: "N \<le> 512 * fuel"
  shows "\<exists>R1 m1 s1. ok R1 m1 \<and> R \<le> R1 + (5 * N + 3073) \<and> kept m1 = kept m \<and> same_core s s1 \<and> ses_uploadBuffer s1 = [] \<and>
    (\<forall>enc dec unm k. Call H (exchange cd G (Suc fuel) enc dec req unm k m) s \<sigma> e =
      Call H (k (case unm (json_text cd (JObj kvs)) of Inl x \<Rightarrow> Inl (Wrap dec x) | Inr a \<Rightarrow> Inr (a :: 'a)) m1) s1 \<sigma> e2)"
proof -
  let ?t = "json_text cd (JObj kvs)" and ?q = "json_text cd req"
  have t: "\<And>y. scan_from scan_init 0 (string_of_bytes ?t @ y) = Found (length ?t)" by (rule scan_text[OF doc])
  have q: "Suc (length ?q) \<le> R" using room by linarith
  obtain m1 where 1: "ok (R - Suc (length ?q)) m1" "kept m1 = kept m"
    "\<And>k. Call H (Encode cd G req k m) s \<sigma> e = Call H (k None m1)
      (s\<lparr>ses_uploadBuffer := ses_uploadBuffer s @ ?q @ [0x0A], ses_memory := m1\<rparr>) \<sigma> e"
    using Encode_stream[OF H m q, of s \<sigma> e] by blast
  let ?s1 = "s\<lparr>ses_uploadBuffer := ses_uploadBuffer s @ ?q @ [0x0A], ses_memory := m1\<rparr>"
  have up: "ses_uploadBuffer ?s1 \<noteq> []" "ses_UploadHandler ?s1 = Some hu" "hu (ses_uploadBuffer ?s1) e = (err, e1)"
    using s env(1) by simp_all
  obtain s2 where 2: "ses_uploadBuffer s2 = []" "ses_downloadReader s2 = None" "\<not> ses_downloadEOF s2" "same_core ?s1 s2"
    "\<And>k. Call H (Guest_Runner.Close k m1) ?s1 \<sigma> e = Call H (k None m1) s2 \<sigma> e1"
    using Close_stream[OF H 1(1) up, of \<sigma>] by blast
  have dl: "ses_DownloadHandler s2 = Some dl" using 2(4) s(2) by (simp add: same_core_def)
  have r: "4 * length (?t @ extra) + 3072 \<le> R - Suc (length ?q)" using room by simp
  have f: "length (?t @ extra) \<le> 512 * fuel" using room(2) fuel by (rule le_trans)
  obtain R3 m3 s3 where 3: "ok R3 m3" "R - Suc (length ?q) \<le> R3 + 4 * length (?t @ extra) + 3072" "stays m1 m3 s2 s3"
    "\<And>k. Call H (Decode_text G (Suc fuel) k m1) s2 \<sigma> e1 = Call H (k (Inr ?t) m3) s3 \<sigma> e2"
    using Decode_text_stream[OF H t 1(1) r f 2(3,2) dl env(2), of \<sigma>] by blast
  have "R \<le> R3 + (5 * N + 3073)" using 3(2) room q by linarith
  moreover have "same_core s s3" using 2(4) 3(3) by (simp add: same_core_def)
  moreover have "Call H (exchange cd G (Suc fuel) enc dec req unm k m) s \<sigma> e =
      Call H (k (case unm ?t of Inl x \<Rightarrow> Inl (Wrap dec x) | Inr a \<Rightarrow> Inr (a :: 'a)) m3) s3 \<sigma> e2" for enc dec unm k
    by (simp add: exchange_def 1(3) 2(5) 3(4) split: sum.split)
  ultimately show ?thesis using 3(1,3) 1(2) 2(1) by (rule_tac exI[of _ R3], rule_tac exI[of _ m3], rule_tac exI[of _ s3]) simp
qed

lemma send_record_stream:
  fixes s :: "('m, 'e) session"
  assumes H: "h_mem H = M" and m: "ok R m" "length (json_text cd req) < R"
    and s: "ses_uploadBuffer s = []" "ses_UploadHandler s = Some hu"
    and env: "hu (json_text cd req @ [0x0A]) e = (err, e1)"
  shows "\<exists>R1 m1 s1. ok R1 m1 \<and> kept m1 = kept m \<and> same_core s s1 \<and> ses_uploadBuffer s1 = [] \<and>
    (\<forall>enc k. Call H (send_record cd G enc req k m) s \<sigma> e = Call H (k None m1) s1 \<sigma> e1)"
proof -
  have q: "Suc (length (json_text cd req)) \<le> R" using m(2) by simp
  obtain m1 where 1: "ok (R - Suc (length (json_text cd req))) m1" "kept m1 = kept m"
    "\<And>k. Call H (Encode cd G req k m) s \<sigma> e = Call H (k None m1)
      (s\<lparr>ses_uploadBuffer := ses_uploadBuffer s @ json_text cd req @ [0x0A], ses_memory := m1\<rparr>) \<sigma> e"
    using Encode_stream[OF H m(1) q, of s \<sigma> e] by blast
  let ?s1 = "s\<lparr>ses_uploadBuffer := ses_uploadBuffer s @ json_text cd req @ [0x0A], ses_memory := m1\<rparr>"
  have up: "ses_uploadBuffer ?s1 \<noteq> []" "ses_UploadHandler ?s1 = Some hu" "hu (ses_uploadBuffer ?s1) e = (err, e1)"
    using s env by simp_all
  obtain s2 where 2: "ses_uploadBuffer s2 = []" "same_core ?s1 s2"
    "\<And>k. Call H (Guest_Runner.Close k m1) ?s1 \<sigma> e = Call H (k None m1) s2 \<sigma> e1"
    using Close_stream[OF H 1(1) up, of \<sigma>] by blast
  have "same_core s s2" using 2(2) by (simp add: same_core_def)
  then show ?thesis using 1(1,2) 2(1)
    by (rule_tac exI[of _ "R - Suc (length (json_text cd req))"], rule_tac exI[of _ m1], rule_tac exI[of _ s2])
       (simp add: send_record_def 1(3) 2(3))
qed

end

section \<open>The order process\<close>

definition camunda_state :: "'m camunda_guest \<Rightarrow> 'm \<Rightarrow> i32 \<times> string \<times> bool \<times> bool" where
  "camunda_state G m = (gg_currentStep G m, cg_OrderID G m, cg_InventoryOk G m, cg_PaymentOk G m)"

locale camunda_program = task_program M contents valid "go_guest.truncate G" ok live "camunda_state G" cd
  for M :: "'m memory_api" and contents and valid and G :: "'m camunda_guest" and ok and live and cd +
  assumes ok_nonempty: "ok R m \<Longrightarrow> contents m \<noteq> []"
    and set_step: "ok R m \<Longrightarrow> ok R (gg_setCurrentStep G v m) \<and>
      camunda_state G (gg_setCurrentStep G v m) = (v, cg_OrderID G m, cg_InventoryOk G m, cg_PaymentOk G m)"
    and set_inventory: "ok R m \<Longrightarrow> ok R (cg_setInventoryOk G b m) \<and>
      camunda_state G (cg_setInventoryOk G b m) = (gg_currentStep G m, cg_OrderID G m, b, cg_PaymentOk G m)"
    and set_payment: "ok R m \<Longrightarrow> ok R (cg_setPaymentOk G b m) \<and>
      camunda_state G (cg_setPaymentOk G b m) = (gg_currentStep G m, cg_OrderID G m, cg_InventoryOk G m, b)"

locale live_camunda = durable st inv view cas ok_str ok_meta M contents valid + camunda_program M contents valid G ok live_slice cd
  for st :: "'s store_ops" and inv and view and cas and ok_str and ok_meta
    and M :: "'m memory_api" and contents and valid and G :: "'m camunda_guest" and ok and live_slice and cd

sublocale live_camunda \<subseteq> steps: live_steps st inv view cas ok_str ok_meta M contents valid "go_guest.truncate G" "\<lambda>m. \<exists>R. ok R m"
  by unfold_locales (use ok_valid ok_nonempty set_step in \<open>fastforce simp: truncated\<close>)+

definition camunda_steps :: "codec \<Rightarrow> 'm camunda_guest \<Rightarrow> nat \<Rightarrow> 'm step list" where
  "camunda_steps cd G fuel =
     [cw_initialize, checkInventory cd G fuel, capturePayment cd G fuel, saveOrderRecord cd G, finalizeProcess]"

lemma camunda_run_steps:
  "camunda_run cd G fuel params m =
     run_loop (go_guest.truncate G) (\<lambda>m. Trap m ''out of fuel'') (camunda_steps cd G fuel) 6 (\<lambda>r m1. Return m1 [ucast r]) m"
  by (simp add: camunda_run_def exported_run_def wf_Run_def gr_Run_def wf_Step_def NewWorkflow_def camunda_steps_def
      eval_nat_numeral del: run_loop.simps)

end
