(* ===== verification/Task_Properties.thy ===== *)
theory Task_Properties
  imports Guest_Task List_Guest
begin

text \<open>
  \<open>RunTask\<close> from the variables on the download stream to the results on the upload stream, and an instance
  of it: a guest over byte lists that allocates from a pointer at address four, running the task of
  \<open>examples/safe-task\<close>.
\<close>

section \<open>A guest with a heap pointer\<close>

definition list_task :: "bytes go_guest" where
  "list_task = \<lparr> gg_currentStep = read32 0, gg_setCurrentStep = write32 0,
     gg_place = (\<lambda>b m. (read32 4 m, write32 4 (read32 4 m + word_of_nat (length b)) (overwrite m (unat (read32 4 m)) b))),
     gg_bytes = (\<lambda>p n m. go_slice (unat p) n m) \<rparr>"

text \<open>The words of the program lie below \<open>lo\<close>, the heap above.\<close>

definition task_heap :: "nat \<Rightarrow> nat \<Rightarrow> bytes \<Rightarrow> bool" where
  "task_heap lo R m \<longleftrightarrow> list_memory_valid m \<and> length m < 2 ^ 31 \<and> lo \<le> unat (read32 4 m) \<and> unat (read32 4 m) + R \<le> length m"

definition task_live :: "nat \<Rightarrow> u32 \<Rightarrow> nat \<Rightarrow> bytes \<Rightarrow> bool" where
  "task_live lo p l m \<longleftrightarrow> lo \<le> unat p \<and> unat p + l \<le> unat (read32 4 m)"

text \<open>\<open>kept\<close> may depend on the words below \<open>lo\<close> but not on the heap pointer.\<close>

lemma list_heap_program:
  assumes lo: "8 \<le> lo"
    and kept: "\<And>m m'. (\<And>a. a + 3 < lo \<Longrightarrow> a + 3 < 4 \<or> 7 < a \<Longrightarrow> read32 a m' = read32 a m) \<Longrightarrow> kept m' = kept m"
  shows "json_program list_memory (\<lambda>m. m) list_memory_valid list_task (task_heap lo) (task_live lo) kept"
proof (unfold_locales, goal_cases)
  case (1 R m)
  then show ?case by (simp add: task_heap_def)
next
  case (2 R m bs p m')
  let ?q = "read32 4 m" and ?m1 = "overwrite m (unat (read32 4 m)) bs"
  have p: "p = ?q" "m' = write32 4 (?q + word_of_nat (length bs)) ?m1" using 2(3) by (auto simp: list_task_def)
  have h: "list_memory_valid m" "length m < 2 ^ 31" "lo \<le> unat ?q" "unat ?q + length bs \<le> length m"
    "unat ?q + R \<le> length m" using 2(1,2) by (simp_all add: task_heap_def)
  have len: "length ?m1 = length m" using h(4) by simp
  have q: "unat (?q + word_of_nat (length bs)) = unat ?q + length bs" using h(2,4) by (intro unat_grow) simp
  have "read32 4 m' = ?q + word_of_nat (length bs)" using p(2) len h(3,4) lo by simp
  moreover have "go_slice (unat p) (length bs) m' = bs"
    using p h(3) lo go_slice_overwrite_same[OF h(4)] by (simp add: slice_write32)
  moreover have "kept m' = kept m"
    using p(2) h(3,4) by (intro kept) (simp add: read32_write32_other read32_overwrite)
  ultimately show ?case using p len h 2(2) q by (simp add: task_heap_def task_live_def list_memory_valid_def)
next
  case (3 R m p l)
  then show ?case by (simp add: task_heap_def task_live_def)
next
  case (4 R m p l i j m')
  have len: "length m' = length m" using 4(5) by (simp add: same_outside_def)
  have r: "read32 a m' = read32 a m" if "a + 3 < lo" for a
    using that same_outside_nth[OF 4(5)] 4(2) by (intro read32_cong) (auto simp: task_live_def)
  then have "read32 4 m' = read32 4 m" "kept m' = kept m" using lo by (simp, intro kept) simp
  then show ?case using 4(1,2,4) len by (simp add: task_heap_def task_live_def)
next
  case (5 R m p n)
  then show ?case by (simp add: list_task_def)
qed

interpretation list_task: json_program list_memory "\<lambda>m. m" list_memory_valid list_task "task_heap 8" "task_live 8" "read32 0"
  by (rule list_heap_program) simp_all

interpretation list_task_program: task_program list_memory "\<lambda>m. m" list_memory_valid list_task "task_heap 8" "task_live 8" "read32 0" compact_codec
  by (rule task_program.intro[OF list_task.json_program_axioms compact_stream.json_stream_axioms])

section \<open>The example task\<close>

lemma safe_vars_item:
  "safe_vars (Some [(''item'', JStr ''a'')]) = (None, Some [(''item'', JStr ''a''), (''in_stock'', JBool True)])"
  by (simp add: safe_vars_def)

lemma marshal_safe_vars:
  "marshal_vars (Some [(''item'', JStr ''a''), (''in_stock'', JBool True)]) =
     JObj [(''in_stock'', JBool True), (''item'', JStr ''a'')]"
  by code_simp

section \<open>The property\<close>

text \<open>
  C22. \<open>RunTask\<close> end to end. The download handler gives a JSON object, in whatever pieces the decoder
  reads it and whatever follows it. The handler of the task gets exactly its members, with the numbers as
  \<open>float64\<close>. If it succeeds, the text of the variables it left and a newline reach the upload handler, once,
  and the result is 0, whatever the upload handler answers; if it fails, nothing is uploaded and the result
  is -1. One read more than there are 512 bytes is enough.
\<close>

theorem RunTask_serves_variables:
  fixes s :: "('m, 'e) session"
  assumes "task_program M contents valid G ok live kept cd" and "h_mem H = M" and "ok R m"
    and "\<not> ses_downloadEOF s" "ses_downloadReader s = None" "ses_uploadBuffer s = []"
      "ses_DownloadHandler s = Some dl" "ses_UploadHandler s = Some hu"
    and "json_utf8 (JObj kvs)" "json_depth (JObj kvs) \<le> 10000" "dl e = (Inr (json_text cd (JObj kvs) @ extra), e1)"
    and "dec_interface f64 (JObj kvs) = (JObj vs, None)" "f (Some vs) = (herr, vars')"
    and "4 * length (json_text cd (JObj kvs) @ extra) + length (json_text cd (marshal_vars vars')) + 3073 \<le> R"
    and "length (json_text cd (JObj kvs) @ extra) \<le> 512 * fuel"
  shows "\<exists>R1 m1 s1. ok R1 m1 \<and> kept m1 = kept m \<and> ses_uploadBuffer s1 = [] \<and>
    (\<forall>k. Call H (RunTask cd f64 G (Suc fuel) (\<lambda>vars k. k (f vars)) k m) s \<sigma> e =
      (if herr = None then Call H (k 0 m1) s1 \<sigma> (snd (hu (json_text cd (marshal_vars vars') @ [0x0A]) e1))
       else Call H (k (-1) m1) s1 \<sigma> e1))"
  by (rule task_program.RunTask_variables[where dl = dl and f = f, OF assms])

text \<open>The session of a task: it gives a document and keeps what is uploaded.\<close>

definition task_session :: "bytes \<Rightarrow> (bytes, bytes list) session" where
  "task_session d = new_session (WithUploadHandler (WithDownloadHandler Background (Some (\<lambda>e. (Inr d, e))))
     (Some (\<lambda>b e. (None, e @ [b])))) ''i'' [] False (new_meta ''i'' ''h1'') (Some Map.empty) (one_page 0)"

lemma task_session_simps:
  "\<not> ses_downloadEOF (task_session d)" "ses_downloadReader (task_session d) = None" "ses_uploadBuffer (task_session d) = []"
  "ses_DownloadHandler (task_session d) = Some (\<lambda>e. (Inr d, e))"
  "ses_UploadHandler (task_session d) = Some (\<lambda>b e. (None, e @ [b]))"
  by (simp_all add: task_session_def new_session_def WithUploadHandler_def WithDownloadHandler_def
      getDownloadHandler_def getUploadHandler_def)

lemma task_start: "task_heap 8 65528 (write32 4 8 (one_page 0))"
proof -
  have "length (one_page 0) = 65536" by (simp add: one_page_def)
  then show ?thesis by (simp add: task_heap_def list_memory_valid_def)
qed

lemma safe_texts:
  "json_text compact_codec (JObj [(''item'', JStr ''a'')]) = bytes_of_string (print_json (JObj [(''item'', JStr ''a'')]))"
  "length (print_json (JObj [(''item'', JStr ''a'')])) = 12"
  "length (print_json (JObj [(''in_stock'', JBool True), (''item'', JStr ''a'')])) = 28"
  by (simp add: compact_codec_def) code_simp+

theorem RunTask_serves_variables_witness:
  "\<exists>(H :: (bytes, bytes, string \<rightharpoonup> bytes, memory_store, bytes list) host) m1 s1.
     Call H (RunTask compact_codec Inr list_task 2 safe_task (\<lambda>r m. Return m [ucast r]) (write32 4 8 (one_page 0)))
       (task_session (json_text compact_codec (JObj [(''item'', JStr ''a'')]))) NewMemorySnapshotStore [] =
     (Inr [0], m1, s1, NewMemorySnapshotStore,
      [json_text compact_codec (JObj [(''in_stock'', JBool True), (''item'', JStr ''a'')]) @ [0x0A]])"
proof -
  let ?H = "\<lparr> h_store = memory_ops compact_codec, h_mem = list_memory, h_rt = list_runtime (one_page 0) poke_exports,
    h_clock = \<lambda>e :: bytes list. (42, e), h_wasmHash = ''h1'' \<rparr>"
  let ?d = "json_text compact_codec (JObj [(''item'', JStr ''a'')])" and ?k = "\<lambda>(r :: i32) m :: bytes. Return m [ucast r :: u64]"
  let ?m = "write32 4 8 (one_page 0)"
  have H: "h_mem ?H = list_memory" by simp
  have doc: "json_utf8 (JObj [(''item'', JStr ''a'')])" "json_depth (JObj [(''item'', JStr ''a'')]) \<le> 10000"
    "(Inr ?d, []) = (Inr (?d @ []), [] :: bytes list)"
    by (code_simp, simp_all)
  have vars: "dec_interface Inr (JObj [(''item'', JStr ''a'')]) = (JObj [(''item'', JStr ''a'')], None)"
    by code_simp
  have room: "4 * length (?d @ []) + length (json_text compact_codec (marshal_vars (Some [(''item'', JStr ''a''), (''in_stock'', JBool True)]))) + 3073 \<le> 65528"
    "length (?d @ []) \<le> 512 * 1"
    by (simp_all add: safe_texts marshal_safe_vars compact_codec_def del: print_json.simps)
  obtain m1 s1 where R: "Call ?H (RunTask compact_codec Inr list_task (Suc 1) (\<lambda>vars k. k (safe_vars vars)) k ?m)
        (task_session ?d) NewMemorySnapshotStore [] =
      Call ?H (k 0 m1) s1 NewMemorySnapshotStore
        (snd ((\<lambda>b e. (None :: go_error option, e @ [b])) (json_text compact_codec (marshal_vars (Some [(''item'', JStr ''a''), (''in_stock'', JBool True)])) @ [0x0A]) []))" for k
    using RunTask_serves_variables[where H = ?H and dl = "\<lambda>e. (Inr ?d, e)" and hu = "\<lambda>b e. (None, e @ [b])" and f = safe_vars
        and \<sigma> = NewMemorySnapshotStore and m = ?m and s = "task_session ?d" and R = 65528,
        OF list_task_program.task_program_axioms H task_start task_session_simps doc vars safe_vars_item room]
    by auto
  show ?thesis
    by (rule exI[of _ ?H], rule exI[of _ m1], rule exI[of _ s1]) (simp add: safe_task_vars R[simplified] marshal_safe_vars numeral_2_eq_2)
qed

end
