(* ===== verification/Document_Properties.thy ===== *)
theory Document_Properties
  imports Document_Workers Task_Properties Example_Hosts
begin

text \<open>
  The order process of the Camunda example from its first step to its last, with the checkpoints between the
  steps, and an instance of it: the worker over byte lists, the in-memory store and the mock server of the
  example.
\<close>

section \<open>The workflow\<close>

context live_camunda
begin

text \<open>Between two steps: \<open>i\<close> steps are done, with the two flags of the state, and \<open>R\<close> bytes are left.\<close>

definition stage :: "string \<Rightarrow> string \<Rightarrow> 'e download_handler \<Rightarrow> 'e upload_handler \<Rightarrow> nat \<Rightarrow> bool \<Rightarrow> bool \<Rightarrow> int \<Rightarrow>
    nat \<Rightarrow> 'm \<Rightarrow> ('m, 'e) session \<Rightarrow> 's \<Rightarrow> bool" where
  "stage iid oid dl hu i b c v R m s \<sigma> \<longleftrightarrow>
     ok R m \<and> camunda_state G m = (of_nat i, oid, b, c) \<and> ready iid v dl hu s \<sigma> \<and> ses_uploadBuffer s = []"

lemma stageD:
  assumes "stage iid oid dl hu i b c v R m s \<sigma>"
  shows "ok R m" "camunda_state G m = (of_nat i, oid, b, c)" "ses_uploadBuffer s = []"
    "ses_DownloadHandler s = Some dl" "ses_UploadHandler s = Some hu" "gg_currentStep G m = of_nat i"
    "cg_OrderID G m = oid" "cg_InventoryOk G m = b" "cg_PaymentOk G m = c"
  using assms by (simp_all add: stage_def ready_def camunda_state_def)

lemma turn:
  fixes s s1 :: "('m, 'e) session"
  assumes H: "h_store H = st" "h_mem H = M" "ok_str (h_wasmHash H)"
    and s: "stage iid oid dl hu i b c v R m s \<sigma>" and i: "i < length steps" "length steps < 2 ^ 31"
    and step: "\<And>k. Call H ((steps ! i) k m) s \<sigma> e = Call H (k None m1) s1 \<sigma> e1"
    and m1: "ok R1 m1" "camunda_state G m1 = (of_nat i, oid, b', c')" and s1: "same_core s s1" "ses_uploadBuffer s1 = []"
  shows "\<exists>m2 s2 \<sigma>2. stage iid oid dl hu (Suc i) b' c' (v + 1) R1 m2 s2 \<sigma>2 \<and> version_of (i_meta (view \<sigma>2 iid)) = v + 1 \<and>
    (\<forall>out fuel k. Call H (run_loop (go_guest.truncate G) out steps (Suc fuel) k m) s \<sigma> e =
      Call H (run_loop (go_guest.truncate G) out steps fuel k m2) s2 \<sigma>2 e1)"
proof -
  have r: "ready iid v dl hu s \<sigma>" using s by (simp add: stage_def)
  have c: "gg_currentStep (go_guest.truncate G) m = of_nat i" "gg_currentStep (go_guest.truncate G) m1 = gg_currentStep (go_guest.truncate G) m"
    using stageD(6)[OF s] m1(2) by (simp_all add: truncated camunda_state_def)
  obtain s2 \<sigma>2 where A: "ready iid (v + 1) dl hu s2 \<sigma>2" "same_streams s1 s2" "version_of (i_meta (view \<sigma>2 iid)) = v + 1"
    "\<And>out fuel k. Call H (run_loop (go_guest.truncate G) out steps (Suc fuel) k m) s \<sigma> e =
      Call H (run_loop (go_guest.truncate G) out steps fuel k (gg_setCurrentStep (go_guest.truncate G) (of_nat (Suc i)) m1)) s2 \<sigma>2 e1"
    using steps.advance[OF H c(1) i r step _ c(2) s1(1) refl] m1(1) by blast
  have "stage iid oid dl hu (Suc i) b' c' (v + 1) R1 (gg_setCurrentStep G (of_nat (Suc i)) m1) s2 \<sigma>2"
    using A(1,2) s1(2) set_step[OF m1(1), of "of_nat (Suc i)"] m1(2)
    by (simp add: stage_def same_streams_def camunda_state_def del: of_nat_Suc)
  then show ?thesis using A(3,4) unfolding truncated by blast
qed

text \<open>The two steps that exchange documents.\<close>

lemma checkInventory_stream:
  fixes s :: "('m, 'e) session"
  assumes H: "h_mem H = M" and s: "stage iid oid dl hu i b c v R m s \<sigma>"
    and env: "hu (json_text cd (InventoryRequest oid) @ [0x0A]) e = (err, e1)" "dl e1 = (Inr (json_text cd (JObj kvs) @ extra), e2)"
    and doc: "json_utf8 (JObj kvs)" "json_depth (JObj kvs) \<le> 10000"
    and status: "unmarshal_status cd ''InventoryResponse'' (json_text cd (JObj kvs)) = Inr ''available''"
    and room: "length (json_text cd (InventoryRequest oid)) \<le> N" "length (json_text cd (JObj kvs) @ extra) \<le> N" "5 * N + 3073 \<le> R"
    and fuel: "N \<le> 512 * fuel"
  shows "\<exists>R1 m1 s1. ok R1 m1 \<and> R \<le> R1 + (5 * N + 3073) \<and> camunda_state G m1 = (of_nat i, oid, True, c) \<and>
    same_core s s1 \<and> ses_uploadBuffer s1 = [] \<and>
    (\<forall>k. Call H (checkInventory cd G (Suc fuel) k m) s \<sigma> e = Call H (k None m1) s1 \<sigma> e2)"
proof -
  note S = stageD[OF s]
  obtain R1 m1 s1 where 1: "ok R1 m1" "R \<le> R1 + (5 * N + 3073)" "camunda_state G m1 = camunda_state G m" "same_core s s1"
    "ses_uploadBuffer s1 = []"
    "\<And>enc dec unm k. Call H (exchange cd (go_guest.truncate G) (Suc fuel) enc dec (InventoryRequest oid) unm k m) s \<sigma> e =
      Call H (k (case unm (json_text cd (JObj kvs)) of Inl x \<Rightarrow> Inl (Wrap dec x) | Inr a \<Rightarrow> Inr (a :: string)) m1) s1 \<sigma> e2"
    using exchange_stream[OF H S(1,3-5) env doc room fuel, of \<sigma>] by blast
  show ?thesis using 1(1-5) S(2) set_inventory[OF 1(1), of True]
    by (rule_tac exI[of _ R1], rule_tac exI[of _ "cg_setInventoryOk G True m1"], rule_tac exI[of _ s1])
       (simp add: checkInventory_def S(7) 1(6) status camunda_state_def)
qed

lemma capturePayment_stream:
  fixes s :: "('m, 'e) session"
  assumes H: "h_mem H = M" and s: "stage iid oid dl hu i b c v R m s \<sigma>"
    and env: "hu (json_text cd (PaymentRequest oid) @ [0x0A]) e = (err, e1)" "dl e1 = (Inr (json_text cd (JObj kvs) @ extra), e2)"
    and doc: "json_utf8 (JObj kvs)" "json_depth (JObj kvs) \<le> 10000"
    and status: "unmarshal_status cd ''PaymentResponse'' (json_text cd (JObj kvs)) = Inr ''success''"
    and room: "length (json_text cd (PaymentRequest oid)) \<le> N" "length (json_text cd (JObj kvs) @ extra) \<le> N" "5 * N + 3073 \<le> R"
    and fuel: "N \<le> 512 * fuel"
  shows "\<exists>R1 m1 s1. ok R1 m1 \<and> R \<le> R1 + (5 * N + 3073) \<and> camunda_state G m1 = (of_nat i, oid, b, True) \<and>
    same_core s s1 \<and> ses_uploadBuffer s1 = [] \<and>
    (\<forall>k. Call H (capturePayment cd G (Suc fuel) k m) s \<sigma> e = Call H (k None m1) s1 \<sigma> e2)"
proof -
  note S = stageD[OF s]
  obtain R1 m1 s1 where 1: "ok R1 m1" "R \<le> R1 + (5 * N + 3073)" "camunda_state G m1 = camunda_state G m" "same_core s s1"
    "ses_uploadBuffer s1 = []"
    "\<And>enc dec unm k. Call H (exchange cd (go_guest.truncate G) (Suc fuel) enc dec (PaymentRequest oid) unm k m) s \<sigma> e =
      Call H (k (case unm (json_text cd (JObj kvs)) of Inl x \<Rightarrow> Inl (Wrap dec x) | Inr a \<Rightarrow> Inr (a :: string)) m1) s1 \<sigma> e2"
    using exchange_stream[OF H S(1,3-5) env doc room fuel, of \<sigma>] by blast
  show ?thesis using 1(1-5) S(2) set_payment[OF 1(1), of True]
    by (rule_tac exI[of _ R1], rule_tac exI[of _ "cg_setPaymentOk G True m1"], rule_tac exI[of _ s1])
       (simp add: capturePayment_def S(7) 1(6) status camunda_state_def)
qed

lemma saveOrderRecord_stream:
  fixes s :: "('m, 'e) session"
  assumes H: "h_mem H = M" and s: "stage iid oid dl hu i b c v R m s \<sigma>"
    and room: "length (json_text cd (FinalOrderRecord oid b c)) < R"
    and env: "hu (json_text cd (FinalOrderRecord oid b c) @ [0x0A]) e = (err, e1)"
  shows "\<exists>R1 m1 s1. ok R1 m1 \<and> camunda_state G m1 = (of_nat i, oid, b, c) \<and> same_core s s1 \<and> ses_uploadBuffer s1 = [] \<and>
    (\<forall>k. Call H (saveOrderRecord cd G k m) s \<sigma> e = Call H (k None m1) s1 \<sigma> e1)"
  using send_record_stream[OF H stageD(1)[OF s] room stageD(3,5)[OF s] env, of \<sigma>] stageD(2,7-9)[OF s]
  unfolding saveOrderRecord_def by metis

text \<open>The whole process.\<close>

lemma camunda_all:
  fixes s :: "('m, 'e) session"
  assumes H: "h_store H = st" "h_mem H = M" "ok_str (h_wasmHash H)"
    and s: "stage iid oid dl hu 0 False False v R m s \<sigma>"
    and env: "hu (json_text cd (InventoryRequest oid) @ [0x0A]) e = (err1, e1)" "dl e1 = (Inr (json_text cd (JObj kvs1) @ x1), e2)"
      "hu (json_text cd (PaymentRequest oid) @ [0x0A]) e2 = (err2, e3)" "dl e3 = (Inr (json_text cd (JObj kvs2) @ x2), e4)"
      "hu (json_text cd (FinalOrderRecord oid True True) @ [0x0A]) e4 = (err3, e5)"
    and doc: "json_utf8 (JObj kvs1)" "json_depth (JObj kvs1) \<le> 10000" "json_utf8 (JObj kvs2)" "json_depth (JObj kvs2) \<le> 10000"
    and status: "unmarshal_status cd ''InventoryResponse'' (json_text cd (JObj kvs1)) = Inr ''available''"
      "unmarshal_status cd ''PaymentResponse'' (json_text cd (JObj kvs2)) = Inr ''success''"
    and room: "length (json_text cd (InventoryRequest oid)) \<le> N" "length (json_text cd (JObj kvs1) @ x1) \<le> N"
      "length (json_text cd (PaymentRequest oid)) \<le> N" "length (json_text cd (JObj kvs2) @ x2) \<le> N"
      "length (json_text cd (FinalOrderRecord oid True True)) \<le> N" "11 * N + 6147 \<le> R"
    and fuel: "N \<le> 512 * fuel"
  shows "\<exists>R' m' s' \<sigma>'. Call H (camunda_run cd G (Suc fuel) params m) s \<sigma> e = (Inr [0], m', s', \<sigma>', e5) \<and>
    stage iid oid dl hu 5 True True (v + 5) R' m' s' \<sigma>' \<and> version_of (i_meta (view \<sigma>' iid)) = v + 5"
proof -
  let ?steps = "camunda_steps cd G (Suc fuel)"
  let ?loop = "run_loop (go_guest.truncate G) (\<lambda>m. Trap m ''out of fuel'') ?steps"
  define k where "k = (\<lambda>(r :: i32) m1 :: 'm. Return m1 [ucast r])"
  have len: "0 < length ?steps" "1 < length ?steps" "2 < length ?steps" "3 < length ?steps" "4 < length ?steps"
    "length ?steps < 2 ^ 31" "length ?steps = 5" by (simp_all add: camunda_steps_def)
  have nth: "?steps ! 0 = cw_initialize" "?steps ! 1 = checkInventory cd G (Suc fuel)" "?steps ! 2 = capturePayment cd G (Suc fuel)"
    "?steps ! 3 = saveOrderRecord cd G" "?steps ! 4 = finalizeProcess" by (simp_all add: camunda_steps_def)
  have R: "5 * N + 3073 \<le> R" using room(6) by linarith
  \<comment> \<open>initialize\<close>
  have c0: "Call H ((?steps ! 0) c m) s \<sigma> e = Call H (c None m) s \<sigma> e" for c by (simp add: nth cw_initialize_def)
  obtain m1 s1 \<sigma>1 where 1: "stage iid oid dl hu 1 False False (v + 1) R m1 s1 \<sigma>1"
    "\<And>fuel. Call H (?loop (Suc fuel) k m) s \<sigma> e = Call H (?loop fuel k m1) s1 \<sigma>1 e"
    using turn[OF H s len(1,6) c0 stageD(1,2)[OF s] _ stageD(3)[OF s]] by (auto simp: same_core_def simp del: run_loop.simps)
  \<comment> \<open>checkInventory\<close>
  obtain R2 t2 u2 where i: "ok R2 t2" "R \<le> R2 + (5 * N + 3073)" "camunda_state G t2 = (of_nat 1, oid, True, False)" "same_core s1 u2"
    "ses_uploadBuffer u2 = []" "\<And>c. Call H ((?steps ! 1) c m1) s1 \<sigma>1 e = Call H (c None t2) u2 \<sigma>1 e2"
    unfolding nth using checkInventory_stream[OF H(2) 1(1) env(1,2) doc(1,2) status(1) room(1,2) R fuel] by blast
  obtain m2 s2 \<sigma>2 where 2: "stage iid oid dl hu (Suc 1) True False (v + 1 + 1) R2 m2 s2 \<sigma>2"
    "\<And>fuel. Call H (?loop (Suc fuel) k m1) s1 \<sigma>1 e = Call H (?loop fuel k m2) s2 \<sigma>2 e2"
    using turn[OF H 1(1) len(2,6) i(6,1,3,4,5)] by blast
  \<comment> \<open>capturePayment\<close>
  have R2: "5 * N + 3073 \<le> R2" using room(6) i(2) by linarith
  obtain R3 t3 u3 where p: "ok R3 t3" "R2 \<le> R3 + (5 * N + 3073)" "camunda_state G t3 = (of_nat (Suc 1), oid, True, True)" "same_core s2 u3"
    "ses_uploadBuffer u3 = []" "\<And>c. Call H ((?steps ! Suc 1) c m2) s2 \<sigma>2 e2 = Call H (c None t3) u3 \<sigma>2 e4"
    using capturePayment_stream[OF H(2) 2(1) env(3,4) doc(3,4) status(2) room(3,4) R2 fuel] nth(3) by (metis Suc_1)
  have l2: "Suc 1 < length ?steps" using len(3) by simp
  obtain m3 s3 \<sigma>3 where 3: "stage iid oid dl hu (Suc (Suc 1)) True True (v + 1 + 1 + 1) R3 m3 s3 \<sigma>3"
    "\<And>fuel. Call H (?loop (Suc fuel) k m2) s2 \<sigma>2 e2 = Call H (?loop fuel k m3) s3 \<sigma>3 e4"
    using turn[OF H 2(1) l2 len(6) p(6,1,3,4,5)] by blast
  \<comment> \<open>saveOrderRecord\<close>
  have R3: "length (json_text cd (FinalOrderRecord oid True True)) < R3" using room(5,6) i(2) p(2) by linarith
  obtain R4 t4 u4 where f: "ok R4 t4" "camunda_state G t4 = (of_nat (Suc (Suc 1)), oid, True, True)" "same_core s3 u4" "ses_uploadBuffer u4 = []"
    "\<And>c. Call H ((?steps ! 3) c m3) s3 \<sigma>3 e4 = Call H (c None t4) u4 \<sigma>3 e5"
    unfolding nth using saveOrderRecord_stream[OF H(2) 3(1) R3 env(5)] by blast
  have l3: "Suc (Suc 1) < length ?steps" using len(4) by simp
  have c3: "Call H ((?steps ! Suc (Suc 1)) c m3) s3 \<sigma>3 e4 = Call H (c None t4) u4 \<sigma>3 e5" for c
    using f(5)[of c] by (simp add: numeral_3_eq_3)
  obtain m4 s4 \<sigma>4 where 4: "stage iid oid dl hu (Suc (Suc (Suc 1))) True True (v + 1 + 1 + 1 + 1) R4 m4 s4 \<sigma>4"
    "\<And>fuel. Call H (?loop (Suc fuel) k m3) s3 \<sigma>3 e4 = Call H (?loop fuel k m4) s4 \<sigma>4 e5"
    using turn[OF H 3(1) l3 len(6) c3 f(1,2,3,4)] by blast
  \<comment> \<open>finalizeProcess\<close>
  have l4: "Suc (Suc (Suc 1)) < length ?steps" using len(5) by simp
  have n4: "?steps ! Suc (Suc (Suc 1)) = finalizeProcess" using nth(5) by (simp add: eval_nat_numeral)
  have c4: "Call H ((?steps ! Suc (Suc (Suc 1))) c m4) s4 \<sigma>4 e5 = Call H (c None m4) s4 \<sigma>4 e5" for c
    by (simp only: n4 finalizeProcess_def)
  have sc4: "same_core s4 s4" by simp
  obtain m5 s5 \<sigma>5 where 5: "stage iid oid dl hu (Suc (Suc (Suc (Suc 1)))) True True (v + 1 + 1 + 1 + 1 + 1) R4 m5 s5 \<sigma>5"
    "version_of (i_meta (view \<sigma>5 iid)) = v + 1 + 1 + 1 + 1 + 1"
    "\<And>fuel. Call H (?loop (Suc fuel) k m4) s4 \<sigma>4 e5 = Call H (?loop fuel k m5) s5 \<sigma>5 e5"
    using turn[OF H 4(1) l4 len(6) c4 stageD(1,2)[OF 4(1)] sc4 stageD(3)[OF 4(1)]] by blast
  have sucs: "Suc 5 = 6" "Suc 4 = 5" "Suc 3 = 4" "Suc 2 = 3" "Suc 1 = 2" by simp_all
  have "Call H (?loop 6 k m) s \<sigma> e = Call H (?loop 1 k m5) s5 \<sigma>5 e5"
    using 1(2)[of 5] 2(2)[of 4] 3(2)[of 3] 4(2)[of 2] 5(3)[of 1] by (simp only: sucs)
  also have "\<dots> = (Inr [0], m5, s5, \<sigma>5, e5)"
  proof -
    have "sint (gg_currentStep (go_guest.truncate G) m5) = 5" using stageD(6)[OF 5(1)] by (simp add: truncated)
    then show ?thesis using len(7) by (simp add: k_def)
  qed
  finally have "Call H (camunda_run cd G (Suc fuel) params m) s \<sigma> e = (Inr [0], m5, s5, \<sigma>5, e5)"
    unfolding camunda_run_steps k_def .
  moreover have "Suc (Suc (Suc (Suc 1))) = 5" "v + 1 + 1 + 1 + 1 + 1 = v + 5" by simp_all
  then have "stage iid oid dl hu 5 True True (v + 5) R4 m5 s5 \<sigma>5" using 5(1) by (simp only:)
  moreover have "version_of (i_meta (view \<sigma>5 iid)) = v + 5" using 5(2) by simp
  ultimately show ?thesis by blast
qed

end

section \<open>The worker over byte lists\<close>

text \<open>The flags of the state are the words at addresses eight and twelve.\<close>

definition list_camunda :: "bytes camunda_guest" where
  "list_camunda = go_guest.extend list_task
     \<lparr> cg_OrderID = (\<lambda>m. ''ORD-CAM-8899''), cg_InventoryOk = (\<lambda>m. read32 8 m \<noteq> 0), cg_PaymentOk = (\<lambda>m. read32 12 m \<noteq> 0),
       cg_setInventoryOk = (\<lambda>b. write32 8 (if b then 1 else 0)), cg_setPaymentOk = (\<lambda>b. write32 12 (if b then 1 else 0)) \<rparr>"

lemma list_camunda_simps [simp]:
  "go_guest.truncate list_camunda = list_task" "gg_currentStep list_camunda = read32 0" "gg_setCurrentStep list_camunda = write32 0"
  "cg_OrderID list_camunda m = ''ORD-CAM-8899''" "cg_InventoryOk list_camunda m = (read32 8 m \<noteq> 0)"
  "cg_PaymentOk list_camunda m = (read32 12 m \<noteq> 0)" "cg_setInventoryOk list_camunda b m = write32 8 (if b then 1 else 0) m"
  "cg_setPaymentOk list_camunda b m = write32 12 (if b then 1 else 0) m"
  by (simp_all add: list_camunda_def go_guest.defs list_task_def)

lemma task_heap_write:
  assumes "task_heap lo R m" "a + 3 < 4 \<or> 7 < a"
  shows "task_heap lo R (write32 a v m)"
proof -
  have "read32 4 (write32 a v m) = read32 4 m" using assms(2) by (intro read32_write32_other) auto
  then show ?thesis using assms(1) by (simp add: task_heap_def list_memory_valid_def)
qed

lemma task_heap_length: "task_heap 16 R m \<Longrightarrow> 16 \<le> length m"
  by (simp add: task_heap_def)

interpretation list_camunda: camunda_program list_memory "\<lambda>m. m" list_memory_valid list_camunda "task_heap 16" "task_live 16" compact_codec
proof -
  have "json_program list_memory (\<lambda>m. m) list_memory_valid list_task (task_heap 16) (task_live 16) (camunda_state list_camunda)"
    by (rule list_heap_program) (simp_all add: camunda_state_def)
  then have T: "task_program list_memory (\<lambda>m. m) list_memory_valid (go_guest.truncate list_camunda) (task_heap 16) (task_live 16)
      (camunda_state list_camunda) compact_codec"
    by (intro task_program.intro compact_stream.json_stream_axioms) simp
  show "camunda_program list_memory (\<lambda>m. m) list_memory_valid list_camunda (task_heap 16) (task_live 16) compact_codec"
    by (rule camunda_program.intro[OF T], unfold_locales)
       (auto dest: task_heap_length simp: camunda_state_def task_heap_write read32_write32_other)
qed

interpretation mem_camunda: live_camunda "memory_ops cd0" ms_inv ms_view version_cas "\<lambda>_. True" "\<lambda>_. True"
    list_memory "\<lambda>m. m" list_memory_valid list_camunda "task_heap 16" "task_live 16" compact_codec
  by (rule live_camunda.intro[OF mem_durable[OF lm.linear_memory_axioms] list_camunda.camunda_program_axioms])

end
