(* ===== verification/CSV_Properties.thy ===== *)
theory CSV_Properties
  imports CSV_Worker Document_Properties
begin

text \<open>
  The CSV pipeline from its first step to its last, for a table of plain fields on the download stream, and
  an instance of it: the worker over byte lists and the table of the mock server of the example.
\<close>

section \<open>Tables\<close>

definition table_text :: "string list list \<Rightarrow> string" where
  "table_text rows = concat (map (\<lambda>r. join r @ [CHR 0x0A]) rows)"

definition plain_field :: "string \<Rightarrow> bool" where
  "plain_field s \<longleftrightarrow> CHR '','' \<notin> set s \<and> CHR 0x22 \<notin> set s \<and> CHR 0x0A \<notin> set s \<and> CHR 0x0D \<notin> set s"

definition plain_row :: "string list \<Rightarrow> bool" where
  "plain_row r \<longleftrightarrow> r \<noteq> [] \<and> r \<noteq> [[]] \<and> list_all plain_field r"

text \<open>What the worker makes of a row: its amount, whether it counts, and its document.\<close>

definition row_amount :: "'f amount_ops \<Rightarrow> string list \<Rightarrow> 'f" where
  "row_amount F r = (case am_ParseFloat F (r ! 3) of Some a \<Rightarrow> a | None \<Rightarrow> am_0 F)"

definition active_row :: "'f amount_ops \<Rightarrow> string list \<Rightarrow> bool" where
  "active_row F r \<longleftrightarrow> CHR ''@'' \<in> set (r ! 2) \<and> am_ParseFloat F (r ! 3) \<noteq> None"

definition row_document :: "'f amount_ops \<Rightarrow> string list \<Rightarrow> json" where
  "row_document F r =
     JObj [(''id'', JStr (r ! 0)), (''name'', JStr (r ! 1)), (''email'', JStr (r ! 2)),
           (''amount'', projr (am_json F (row_amount F r))),
           (''status'', JStr (if active_row F r then ''active''
                              else if CHR ''@'' \<in> set (r ! 2) then ''invalid_amount'' else ''invalid_email''))]"

definition table_output :: "codec \<Rightarrow> 'f amount_ops \<Rightarrow> string list list \<Rightarrow> bytes" where
  "table_output cd F rows = concat (map (\<lambda>r. json_text cd (row_document F r) @ [0x0A]) rows)"

text \<open>The lines of a table.\<close>

lemma join_plain: "list_all plain_field r \<Longrightarrow> c \<in> set (join r) \<Longrightarrow> c \<noteq> CHR 0x22 \<and> c \<noteq> CHR 0x0A \<and> c \<noteq> CHR 0x0D"
  by (induction r rule: join.induct) (auto simp: plain_field_def)

lemma bytes_of_string_mem: "b \<in> set (bytes_of_string s) \<longleftrightarrow> char_of_byte b \<in> set s"
  by (metis (no_types, lifting) byte_of_char_of_byte bytes_of_string_def char_of_byte_of_char image_iff list.set_map)

lemma csv_lines_table:
  assumes "list_all plain_row rows"
  shows "csv_lines (bytes_of_string (table_text rows)) = map (\<lambda>r. join r @ [CHR 0x0A]) rows"
  using assms
proof (induction rows)
  case Nil
  show ?case by (simp add: csv_lines.simps table_text_def bytes_of_string_def)
next
  case (Cons r rows)
  let ?x = "bytes_of_string (join r)" and ?rest = "bytes_of_string (table_text rows)"
  have nl: "char_of_byte 0x0A = CHR 0x0A" "char_of_byte 0x0D = CHR 0x0D" "byte_of_char (CHR 0x0A) = 0x0A"
    by code_simp+
  have x: "0x0A \<notin> set ?x" "0x0D \<notin> set ?x"
    using Cons.prems join_plain[of r] unfolding bytes_of_string_mem nl by (auto simp: plain_row_def)
  have b: "bytes_of_string (table_text (r # rows)) = ?x @ 0x0A # ?rest" by (simp add: table_text_def bytes_of_string_def nl)
  have d: "dropWhile (\<lambda>c. c \<noteq> 0x0A) (?x @ 0x0A # ?rest) = 0x0A # ?rest" "takeWhile (\<lambda>c. c \<noteq> 0x0A) (?x @ 0x0A # ?rest) = ?x"
    using x(1) by (auto simp: dropWhile_append takeWhile_tail)
  have cr: "drop_CR (?x @ [0x0A]) = ?x @ [0x0A]"
  proof (cases "?x = []")
    case False
    then have "?x ! (length ?x - 1) \<in> set ?x" by (metis last_conv_nth last_in_set)
    then have "?x ! (length ?x - 1) \<noteq> 0x0D" using x(2) by metis
    then show ?thesis using False by (simp add: drop_CR_def Let_def nth_append)
  qed (simp add: drop_CR_def)
  have "string_of_bytes (?x @ [0x0A]) = join r @ [CHR 0x0A]" by (simp add: string_of_bytes_def bytes_of_string_def nl comp_def)
  then show ?case unfolding b by (subst csv_lines.simps) (use d cr Cons in simp)
qed

lemma parse_plain:
  assumes "r \<noteq> []" "list_all plain_field r"
  shows "parse_line stop None col fs (join r @ [CHR 0x0A]) = Record (fs @ r) None"
  using assms
proof (induction r arbitrary: col fs rule: join.induct)
  case 1
  then show ?case by simp
next
  case (2 x)
  have "(x @ [CHR 0x0A]) ! 0 \<noteq> CHR 0x22" using 2 by (cases x) (auto simp: plain_field_def)
  moreover have "dropWhile (\<lambda>c. c \<noteq> CHR '','') (x @ [CHR 0x0A]) = []" using 2 by (auto simp: plain_field_def)
  moreover have "CHR 0x22 \<notin> set x" using 2 by (simp add: plain_field_def)
  ultimately show ?case by (subst parse_line.simps) (simp add: lengthNL_def Let_def del: dropWhile_eq_Nil_conv)
next
  case (3 x y ys)
  let ?rest = "join (y # ys) @ [CHR 0x0A]"
  have x: "CHR '','' \<notin> set x" "CHR 0x22 \<notin> set x" using 3(3) by (simp_all add: plain_field_def)
  have "(x @ CHR '','' # ?rest) ! 0 \<noteq> CHR 0x22" using x by (cases x) auto
  moreover have "dropWhile (\<lambda>c. c \<noteq> CHR '','') (x @ CHR '','' # ?rest) = CHR '','' # ?rest"
    "takeWhile (\<lambda>c. c \<noteq> CHR '','') (x @ CHR '','' # ?rest) = x"
    using x(1) by (auto simp: dropWhile_append takeWhile_tail)
  ultimately have "parse_line stop None col fs (x @ CHR '','' # ?rest) = parse_line stop None (col + length x + 1) (fs @ [x]) ?rest"
    using x(2) by (subst parse_line.simps) (simp add: Let_def)
  then show ?case using 3 by simp
qed

lemma plain_line:
  assumes "plain_row r"
  shows "length (join r @ [CHR 0x0A]) \<noteq> lengthNL (join r @ [CHR 0x0A])"
proof -
  have "join r \<noteq> []" using assms by (cases r rule: join.cases) (auto simp: plain_row_def)
  then show ?thesis by (simp add: lengthNL_def)
qed

text \<open>The records of a table are its rows.\<close>

lemma next_record_table:
  assumes "plain_row r" "fpr = 0 \<or> fpr = length r"
  shows "next_record n fpr ((join r @ [CHR 0x0A]) # ls) = ((r, None), n + 1, length r, ls)"
  using assms plain_line[OF assms(1)] parse_plain[of r False 1 "[]"] by (auto simp: plain_row_def check_fields_def)

lemma csv_rows_table:
  "list_all plain_row rows \<Longrightarrow> \<forall>r\<in>set rows. length r = w \<Longrightarrow> 0 < w \<Longrightarrow>
    csv_rows n w (map (\<lambda>r. join r @ [CHR 0x0A]) rows) = (rows, None)"
proof (induction rows arbitrary: n)
  case (Cons r rows)
  then show ?case using next_record_table[of r w n] by (subst csv_rows.simps) simp
qed (simp add: csv_rows.simps)

lemma csv_out_table:
  assumes "\<forall>r\<in>set rows. \<exists>j. am_json F (row_amount F r) = Inr j"
  shows "csv_out cd F rows t = (table_output cd F rows,
    (foldl (am_plus F) (fst t) (map (row_amount F) (filter (active_row F) rows)),
     snd t + of_nat (length (filter (active_row F) rows))), None)"
  using assms
proof (induction rows arbitrary: t)
  case (Cons r rows)
  obtain j where j: "am_json F (row_amount F r) = Inr j" using Cons.prems by auto
  have "csv_row F r t = (if active_row F r then (am_plus F (fst t) (row_amount F r), snd t + 1) else t, Inr (row_document F r))"
    using j by (auto simp: csv_row_def row_status_def row_amount_def active_row_def row_document_def UserRecord_def split: option.splits)
  then show ?case using Cons by (simp add: table_output_def)
qed (simp add: table_output_def)

text \<open>A row whose amount can be read but not be written, as the text NaN gives.\<close>

lemma csv_out_unencodable:
  assumes "\<forall>r\<in>set rows. \<exists>j. am_json F (row_amount F r) = Inr j" "am_json F (row_amount F bad) = Inl x"
  shows "\<exists>t'. csv_out cd F (rows @ bad # rest) t = (table_output cd F rows, t', Some x)"
  using assms
proof (induction rows arbitrary: t)
  case Nil
  have "snd (csv_row F bad t) = Inl x"
    using assms(2) by (auto simp: csv_row_def row_status_def row_amount_def UserRecord_def split: option.splits)
  then show ?case by (cases "csv_row F bad t") (simp add: table_output_def)
next
  case (Cons r rows)
  obtain j where j: "am_json F (row_amount F r) = Inr j" using Cons.prems by auto
  have r: "csv_row F r t = (if active_row F r then (am_plus F (fst t) (row_amount F r), snd t + 1) else t, Inr (row_document F r))"
    using j by (auto simp: csv_row_def row_status_def row_amount_def active_row_def row_document_def UserRecord_def split: option.splits)
  have "\<forall>r\<in>set rows. \<exists>j. am_json F (row_amount F r) = Inr j" using Cons.prems(1) by simp
  from Cons.IH[OF this Cons.prems(2), of "fst (csv_row F r t)"] obtain t' where
    "csv_out cd F (rows @ bad # rest) (fst (csv_row F r t)) = (table_output cd F rows, t', Some x)" by blast
  then show ?case using r by (simp add: table_output_def split: if_splits)
qed

section \<open>The workflow\<close>

context csv_worker_program
begin

text \<open>Such a row ends the step with an error, and the rows before it stay in the upload buffer.\<close>

lemma unencodable_row_aborts:
  fixes s :: "('m, 'e) session"
  assumes H: "h_mem H = M" and m: "ok R m" and s: "at_start s" "ses_DownloadHandler s = Some dl"
    and rows: "list_all plain_row (header # rows @ bad # rest)" "\<forall>r\<in>set (rows @ bad # rest). length r = length header" "4 \<le> length header"
      "\<forall>r\<in>set rows. \<exists>j. am_json F (row_amount F r) = Inr j" "am_json F (row_amount F bad) = Inl x"
    and env: "dl e = (Inr (bytes_of_string (table_text (header # rows @ bad # rest))), e1)"
    and room: "4096 + length (table_output cd F rows) \<le> R" and fuel: "length (table_text (header # rows @ bad # rest)) + 3 < fuel"
  shows "\<exists>R1 m1 s1. ok R1 m1 \<and> ses_uploadBuffer s1 = table_output cd F rows \<and>
    (\<forall>k. Call H (processCSVStream cd F G fuel k m) s \<sigma> e = Call H (k (Some (Wrap ''error encoding JSON record'' x)) m1) s1 \<sigma> e1)"
proof -
  let ?rows = "rows @ bad # rest" and ?p = "bytes_of_string (table_text (header # rows @ bad # rest))"
  let ?ls = "map (\<lambda>r. join r @ [CHR 0x0A]) ?rows"
  have "csv_lines ?p = (join header @ [CHR 0x0A]) # ?ls" using csv_lines_table[OF rows(1)] by simp
  then have hd: "next_record 0 0 (csv_lines ?p) = ((header, None), 1, length header, ?ls)"
    using next_record_table[of header 0 0 ?ls] rows(1) by simp
  have rs: "csv_rows 1 (length header) ?ls = (?rows, None)" using rows(1-3) by (intro csv_rows_table) auto
  obtain t where out: "csv_out cd F ?rows (cs_TotalAmount G m, cs_ValidRecords G m) = (table_output cd F rows, t, Some x)"
    using csv_out_unencodable[OF rows(4,5)] by blast
  have fu: "length ?p + 3 < fuel" using fuel by (simp add: bytes_of_string_def)
  from processCSVStream_outcome[OF H m s env hd rows(3) rs out room fu, of \<sigma>] show ?thesis
    by (simp add: loop_error_def) blast
qed

text \<open>The second step on a table.\<close>

lemma processCSVStream_table:
  fixes s :: "('m, 'e) session"
  assumes H: "h_mem H = M" and m: "ok R m"
    and s: "at_start s" "ses_DownloadHandler s = Some dl" "ses_UploadHandler s = Some hu"
    and rows: "list_all plain_row (header # rows)" "\<forall>r\<in>set rows. length r = length header" "4 \<le> length header" "rows \<noteq> []"
      "\<forall>r\<in>set rows. \<exists>j. am_json F (row_amount F r) = Inr j"
    and env: "dl e = (Inr (bytes_of_string (table_text (header # rows))), e1)" "hu (table_output cd F rows) e1 = (err, e2)"
    and room: "4096 + length (table_output cd F rows) \<le> R" and fuel: "length (table_text (header # rows)) + 3 < fuel"
  shows "\<exists>R1 m1 s1. ok R1 m1 \<and> same_core s s1 \<and> ses_uploadBuffer s1 = [] \<and>
    csv_state G m1 = (gg_currentStep G m, foldl (am_plus F) (cs_TotalAmount G m) (map (row_amount F) (filter (active_row F) rows)),
      cs_ValidRecords G m + of_nat (length (filter (active_row F) rows))) \<and>
    (\<forall>k. Call H (processCSVStream cd F G fuel k m) s \<sigma> e = Call H (k None m1) s1 \<sigma> e2)"
proof -
  let ?p = "bytes_of_string (table_text (header # rows))" and ?ls = "map (\<lambda>r. join r @ [CHR 0x0A]) rows"
  have "csv_lines ?p = (join header @ [CHR 0x0A]) # ?ls" using csv_lines_table[OF rows(1)] by simp
  then have hd: "next_record 0 0 (csv_lines ?p) = ((header, None), 1, length header, ?ls)"
    using next_record_table[of header 0 0 ?ls] rows(1) by simp
  have rs: "csv_rows 1 (length header) ?ls = (rows, None)" using rows(1-3) by (intro csv_rows_table) auto
  note out = csv_out_table[OF rows(5), of cd "(cs_TotalAmount G m, cs_ValidRecords G m)"]
  have fu: "length ?p + 3 < fuel" using fuel by (simp add: bytes_of_string_def)
  obtain R1 m1 s1 where 1: "ok R1 m1" "csv_state G m1 = (gg_currentStep G m,
      foldl (am_plus F) (cs_TotalAmount G m) (map (row_amount F) (filter (active_row F) rows)),
      cs_ValidRecords G m + of_nat (length (filter (active_row F) rows)))"
    "same_core s s1" "ses_uploadBuffer s1 = table_output cd F rows"
    "\<And>k. Call H (processCSVStream cd F G fuel k m) s \<sigma> e = Call H (Guest_Runner.Close k m1) s1 \<sigma> e1"
    using processCSVStream_outcome[OF H m s(1,2) env(1) hd rows(3) rs out room fu, of \<sigma>] by (auto simp: loop_error_def)
  have up: "ses_uploadBuffer s1 \<noteq> []" "ses_UploadHandler s1 = Some hu" "hu (ses_uploadBuffer s1) e1 = (err, e2)"
    using 1(3,4) s(3) env(2) rows(4) by (auto simp: same_core_def table_output_def neq_Nil_conv)
  obtain s2 where 2: "ses_uploadBuffer s2 = []" "same_core s1 s2"
    "\<And>k. Call H (Guest_Runner.Close k m1) s1 \<sigma> e1 = Call H (k None m1) s2 \<sigma> e2"
    using Close_stream[OF H 1(1) up, of \<sigma>] by blast
  have "same_core s s2" using 1(3) 2(2) by (simp add: same_core_def)
  then show ?thesis using 1(1,2) 2(1) by (rule_tac exI[of _ R1], rule_tac exI[of _ m1], rule_tac exI[of _ s2]) (simp add: 1(5) 2(3))
qed

end

locale live_csv = durable st inv view cas ok_str ok_meta M contents valid + csv_worker_program M contents valid G ok live_slice
  for st :: "'s store_ops" and inv and view and cas and ok_str and ok_meta
    and M :: "'m memory_api" and contents and valid and G :: "('m, 'f) csv_worker" and ok and live_slice

sublocale live_csv \<subseteq> steps: live_steps st inv view cas ok_str ok_meta M contents valid "go_guest.truncate G" "\<lambda>m. \<exists>R. ok R m"
  by unfold_locales (use ok_valid ok_nonempty set_step in \<open>fastforce simp: truncated\<close>)+

lemma csv_run_steps:
  "csv_run cd F G fuel params m =
     run_loop (go_guest.truncate G) (\<lambda>m. Trap m ''out of fuel'') [csv_initialize, processCSVStream cd F G fuel, csv_finalizeProcess] 4
       (\<lambda>r m1. Return m1 [ucast r]) m"
  by (simp add: csv_run_def exported_run_def wf_Run_def gr_Run_def wf_Step_def NewWorkflow_def eval_nat_numeral del: run_loop.simps)

context live_csv
begin

lemma csv_all:
  fixes s :: "('m, 'e) session"
  assumes H: "h_store H = st" "h_mem H = M" "ok_str (h_wasmHash H)"
    and m: "ok R m" "csv_state G m = (0, tot, cnt)" and s: "ready iid v dl hu s \<sigma>" "at_start s"
    and rows: "list_all plain_row (header # rows)" "\<forall>r\<in>set rows. length r = length header" "4 \<le> length header" "rows \<noteq> []"
      "\<forall>r\<in>set rows. \<exists>j. am_json F (row_amount F r) = Inr j"
    and env: "dl e = (Inr (bytes_of_string (table_text (header # rows))), e1)" "hu (table_output cd F rows) e1 = (err, e2)"
    and room: "4096 + length (table_output cd F rows) \<le> R" and fuel: "length (table_text (header # rows)) + 3 < fuel"
  shows "\<exists>m' s' \<sigma>'. Call H (csv_run cd F G fuel params m) s \<sigma> e = (Inr [0], m', s', \<sigma>', e2) \<and>
    csv_state G m' = (3, foldl (am_plus F) tot (map (row_amount F) (filter (active_row F) rows)),
      cnt + of_nat (length (filter (active_row F) rows))) \<and>
    version_of (i_meta (view \<sigma>' iid)) = v + 3"
proof -
  let ?G = "go_guest.truncate G" and ?steps = "[csv_initialize, processCSVStream cd F G fuel, csv_finalizeProcess]"
  let ?loop = "run_loop ?G (\<lambda>m. Trap m ''out of fuel'') ?steps"
  define k where "k = (\<lambda>(r :: i32) m1 :: 'm. Return m1 [ucast r])"
  have len: "length ?steps < 2 ^ 31" "0 < length ?steps" "1 < length ?steps" "2 < length ?steps" by simp_all
  have cur: "gg_currentStep ?G m' = gg_currentStep G m'" for m' by (simp add: truncated)
  \<comment> \<open>initialize\<close>
  have c0: "Call H ((?steps ! 0) c m) s \<sigma> e = Call H (c None m) s \<sigma> e" for c by (simp add: csv_initialize_def)
  have i0: "gg_currentStep ?G m = of_nat 0" using m(2) by (simp add: truncated csv_state_def)
  have g0: "\<exists>R. ok R m" using m(1) by blast
  let ?m1 = "gg_setCurrentStep G 1 m"
  obtain s1 \<sigma>1 where 1: "ready iid (v + 1) dl hu s1 \<sigma>1" "same_streams s s1"
    "\<And>fuel. Call H (?loop (Suc fuel) k m) s \<sigma> e = Call H (?loop fuel k ?m1) s1 \<sigma>1 e"
    using steps.advance[OF H i0 len(2,1) s(1) c0 g0 refl _ refl] by (auto simp: truncated simp del: run_loop.simps)
  have m1: "ok R ?m1" "csv_state G ?m1 = (1, tot, cnt)" using set_step[OF m(1), of 1] m(2) by (simp_all add: csv_state_def)
  then have st1: "gg_currentStep G ?m1 = 1" "cs_TotalAmount G ?m1 = tot" "cs_ValidRecords G ?m1 = cnt" by (simp_all add: csv_state_def)
  \<comment> \<open>processCSVStream\<close>
  have "at_start s1" "ses_DownloadHandler s1 = Some dl" "ses_UploadHandler s1 = Some hu"
    using s(2) 1(1,2) by (simp_all add: same_streams_def ready_def)
  from processCSVStream_table[OF H(2) m1(1) this rows env room fuel, of \<sigma>1]
  obtain R2 m2 s2 where 2: "ok R2 m2" "same_core s1 s2" "ses_uploadBuffer s2 = []"
    "csv_state G m2 = (1, foldl (am_plus F) tot (map (row_amount F) (filter (active_row F) rows)),
      cnt + of_nat (length (filter (active_row F) rows)))"
    "\<And>k. Call H ((?steps ! 1) k ?m1) s1 \<sigma>1 e = Call H (k None m2) s2 \<sigma>1 e2"
    unfolding st1 by auto
  have i1: "gg_currentStep ?G ?m1 = of_nat 1" using st1(1) by (simp add: truncated)
  have g1: "\<exists>R. ok R m2" "gg_currentStep ?G m2 = gg_currentStep ?G ?m1" using 2(1,4) st1(1) by (auto simp: truncated csv_state_def)
  let ?m3 = "gg_setCurrentStep G 2 m2"
  obtain s3 \<sigma>3 where 3: "ready iid (v + 1 + 1) dl hu s3 \<sigma>3"
    "\<And>fuel. Call H (?loop (Suc fuel) k ?m1) s1 \<sigma>1 e = Call H (?loop fuel k ?m3) s3 \<sigma>3 e2"
    using steps.advance[OF H i1 len(3,1) 1(1) 2(5) g1 2(2) refl] by (auto simp: truncated simp del: run_loop.simps)
  have m3: "ok R2 ?m3" "csv_state G ?m3 = (2, snd (csv_state G m2))" using set_step[OF 2(1), of 2] by (simp_all add: csv_state_def)
  \<comment> \<open>finalizeProcess\<close>
  have c2: "Call H ((?steps ! 2) c ?m3) s3 \<sigma>3 e2 = Call H (c None ?m3) s3 \<sigma>3 e2" for c by (simp add: csv_finalizeProcess_def)
  have i2: "gg_currentStep ?G ?m3 = of_nat 2" using m3(2) by (simp add: truncated csv_state_def)
  have g2: "\<exists>R. ok R ?m3" using m3(1) by blast
  let ?m4 = "gg_setCurrentStep G 3 ?m3"
  obtain s4 \<sigma>4 where 4: "version_of (i_meta (view \<sigma>4 iid)) = v + 1 + 1 + 1"
    "\<And>fuel. Call H (?loop (Suc fuel) k ?m3) s3 \<sigma>3 e2 = Call H (?loop fuel k ?m4) s4 \<sigma>4 e2"
    using steps.advance[OF H i2 len(4,1) 3(1) c2 g2 refl _ refl] by (auto simp: truncated simp del: run_loop.simps)
  have m4: "csv_state G ?m4 = (3, snd (csv_state G m2))" using set_step[OF m3(1), of 3] m3(2) by (simp add: csv_state_def)
  have sucs: "Suc 3 = 4" "Suc 2 = 3" "Suc 1 = 2" by simp_all
  have "Call H (?loop 4 k m) s \<sigma> e = Call H (?loop 1 k ?m4) s4 \<sigma>4 e2"
    using 1(3)[of 3] 3(2)[of 2] 4(2)[of 1] by (simp only: sucs)
  also have "\<dots> = (Inr [0], ?m4, s4, \<sigma>4, e2)"
  proof -
    have "gg_currentStep ?G ?m4 = 3" using m4 by (simp add: truncated csv_state_def)
    then show ?thesis by (simp add: k_def)
  qed
  finally have "Call H (csv_run cd F G fuel params m) s \<sigma> e = (Inr [0], ?m4, s4, \<sigma>4, e2)" unfolding csv_run_steps k_def .
  then show ?thesis using 4(1) m4 2(4) by (rule_tac exI[of _ ?m4], rule_tac exI[of _ s4], rule_tac exI[of _ \<sigma>4]) simp
qed

end

section \<open>The worker over byte lists\<close>

text \<open>The totals are the words at addresses eight and twelve; amounts are counted in hundredths.\<close>

definition list_csv :: "(bytes, u32) csv_worker" where
  "list_csv = \<lparr> gg_currentStep = read32 0, gg_setCurrentStep = write32 0,
     gg_place = (\<lambda>b m. (read32 4 m, write32 4 (read32 4 m + word_of_nat (length b)) (overwrite m (unat (read32 4 m)) b))),
     gg_bytes = (\<lambda>p n m. go_slice (unat p) n m), cv_store = (\<lambda>p b m. overwrite m (unat p) b),
     cs_TotalAmount = read32 8, cs_ValidRecords = read32 12, cs_setTotalAmount = write32 8, cs_setValidRecords = write32 12 \<rparr>"

definition hundredths :: "u32 amount_ops" where
  "hundredths = \<lparr>
     am_ParseFloat = (\<lambda>s. let d = filter (\<lambda>c. c \<noteq> CHR ''.'') s
        in if d \<noteq> [] \<and> list_all is_digit d then Some (word_of_nat (foldl (\<lambda>n c. 10 * n + (of_char c - 48)) 0 d)) else None),
     am_plus = (+), am_0 = 0, am_json = (\<lambda>a. Inr (JDec (uint a) (-2))) \<rparr>"

lemma list_csv_simps [simp]:
  "go_guest.truncate (csv_guest.truncate list_csv) = list_task" "go_guest.truncate list_csv = list_task"
  "gg_currentStep list_csv = read32 0" "gg_setCurrentStep list_csv = write32 0"
  "cs_TotalAmount list_csv = read32 8" "cs_ValidRecords list_csv = read32 12"
  "cs_setTotalAmount list_csv = write32 8" "cs_setValidRecords list_csv = write32 12"
  "cv_store (csv_guest.truncate list_csv) p b m = overwrite m (unat p) b"
  "gg_place (csv_guest.truncate list_csv) b m =
     (read32 4 m, write32 4 (read32 4 m + word_of_nat (length b)) (overwrite m (unat (read32 4 m)) b))"
  by (simp_all add: list_csv_def go_guest.defs csv_guest.defs list_task_def)

lemma csv_state_list: "csv_state list_csv m = (read32 0 m, read32 8 m, read32 12 m)"
  by (simp add: csv_state_def)

lemma task_live_write:
  assumes "task_live 16 p l m" "a + 3 < 4 \<or> 7 < a" "a + 3 < 16"
  shows "task_live 16 p l (write32 a v m) \<and> go_slice (unat p) l (write32 a v m) = go_slice (unat p) l m"
proof -
  have "read32 4 (write32 a v m) = read32 4 m" using assms(2) by (intro read32_write32_other) auto
  then show ?thesis using assms(1,3) by (simp add: task_live_def slice_write32)
qed

interpretation list_csv: csv_worker_program list_memory "\<lambda>m. m" list_memory_valid list_csv "task_heap 16" "task_live 16"
proof -
  have J: "json_program list_memory (\<lambda>m. m) list_memory_valid (go_guest.truncate (csv_guest.truncate list_csv)) (task_heap 16) (task_live 16)
      (csv_state list_csv)"
    unfolding list_csv_simps by (rule list_heap_program) (simp_all add: csv_state_list)
  have C: "csv_program list_memory (\<lambda>m. m) list_memory_valid (csv_guest.truncate list_csv) (task_heap 16) (task_live 16) (csv_state list_csv)"
  proof (rule csv_program.intro[OF J], unfold_locales, goal_cases)
    case (1 R m p l bs q m')
    let ?q = "read32 4 m"
    have h: "length m < 2 ^ 31" "unat ?q + length bs \<le> length m" "16 \<le> unat p" "unat p + l \<le> unat ?q" "16 \<le> unat ?q"
      using 1(1-3) by (simp_all add: task_heap_def task_live_def)
    have m': "m' = write32 4 (?q + word_of_nat (length bs)) (overwrite m (unat ?q) bs)" using 1(4) by auto
    have "unat (?q + word_of_nat (length bs)) = unat ?q + length bs" using h(1,2) by (intro unat_grow) simp
    moreover have "go_slice (unat p) l (overwrite m (unat ?q) bs) = go_slice (unat p) l m"
      using same_outside_slice[OF same_outside_overwrite[OF h(2) order.refl], of "unat p" l] h(4) by simp
    ultimately show ?case using m' h by (simp add: task_live_def slice_write32)
  next
    case (2 R m p l bs)
    then have "unat p + length bs \<le> length m" by (simp add: task_heap_def task_live_def)
    then show ?case using 2(1) by (simp add: task_heap_def list_memory_valid_def)
  qed
  show "csv_worker_program list_memory (\<lambda>m. m) list_memory_valid list_csv (task_heap 16) (task_live 16)"
    by (rule csv_worker_program.intro[OF C], unfold_locales)
       (auto dest: task_heap_length simp: csv_state_list task_heap_write task_live_write read32_write32_other)
qed

interpretation mem_csv: live_csv "memory_ops compact_codec" ms_inv ms_view version_cas "\<lambda>_. True" "\<lambda>_. True"
    list_memory "\<lambda>m. m" list_memory_valid list_csv "task_heap 16" "task_live 16"
  by (rule live_csv.intro[OF mem_durable[OF lm.linear_memory_axioms] list_csv.csv_worker_program_axioms])

section \<open>The property\<close>

text \<open>
  C14. The CSV example, end to end over any store that keeps the contract, for a table of plain fields with
  at least four columns and one row, whose amounts can be written as JSON. The worker asks the download
  handler for the table, once, and hands the upload handler, once, exactly one document per row, in the order
  of the rows and each with its newline: the first three fields, the amount, or zero where it cannot be read,
  and the status. It returns 0 after three checkpoints with the sum of the amounts of the active rows, added
  in their order, and the number of these rows in its memory. No row is indexed out of range. The stream goes
  through a buffer of 4096 bytes, however the lines lie in it; four units of fuel more than the table has
  bytes are enough.
\<close>

theorem csv_worker_converts_tables:
  fixes s :: "('m, 'e) session"
  assumes "durable st iv view cas ok_str ok_meta M contents valid" "csv_worker_program M contents valid G ok live"
    and "h_store H = st" "h_mem H = M" "ok_str (h_wasmHash H)"
    and "ok R m" "csv_state G m = (0, tot, cnt)"
    and "iv \<sigma>" "ok_meta (ses_meta s)" "ses_pageHashes s \<noteq> None" "\<not> ses_shouldCrashOnCheckpoint s"
    and "fresh_session (view \<sigma> (ses_instanceID s)) s \<or> current_session (view \<sigma> (ses_instanceID s)) s"
    and "\<not> ses_downloadEOF s" "ses_downloadReader s = None" "ses_uploadBuffer s = []"
    and "ses_DownloadHandler s = Some dl" "ses_UploadHandler s = Some hu"
    and "list_all plain_row (header # rows)" "\<forall>r\<in>set rows. length r = length header" "4 \<le> length header" "rows \<noteq> []"
    and "\<forall>r\<in>set rows. \<exists>j. am_json F (row_amount F r) = Inr j"
    and "dl e = (Inr (bytes_of_string (table_text (header # rows))), e1)" "hu (table_output cd F rows) e1 = (err, e2)"
    and "4096 + length (table_output cd F rows) \<le> R" "length (table_text (header # rows)) + 3 < fuel"
  shows "\<exists>m' s' \<sigma>'. Call H (csv_run cd F G fuel params m) s \<sigma> e = (Inr [0], m', s', \<sigma>', e2) \<and>
    csv_state G m' = (3, foldl (am_plus F) tot (map (row_amount F) (filter (active_row F) rows)),
      cnt + of_nat (length (filter (active_row F) rows))) \<and>
    version_of (i_meta (view \<sigma>' (ses_instanceID s))) = Version (ses_meta s) + 3"
proof -
  note P = live_csv.intro[OF assms(1,2)]
  have "durable.ready iv view ok_meta (ses_instanceID s) (Version (ses_meta s)) dl hu s \<sigma>" "at_start s"
    using assms(8-17) by (simp_all add: durable.ready_def[OF assms(1)] durable.live_def[OF assms(1)])
  from live_csv.csv_all[OF P assms(3-7) this assms(18-26)] show ?thesis .
qed

text \<open>The table of the mock server of the example.\<close>

definition mock_header :: "string list" where
  "mock_header = [''id'', ''name'', ''email'', ''amount'']"

definition mock_rows :: "string list list" where
  "mock_rows =
     [[''1'', ''Alice Johnson'', ''alice@example.com'', ''120.50''],
      [''2'', ''Bob Smith'', ''bob-invalid-email'', ''250.00''],
      [''3'', ''Charlie Brown'', ''charlie@example.com'', ''invalid_amount_field''],
      [''4'', ''David Miller'', ''david@example.com'', ''450.00''],
      [''5'', ''Eve Adams'', ''eve@example.com'', ''90.25'']]"

lemma mock_table: "csv_mock_download = bytes_of_string (table_text (mock_header # mock_rows))"
  by (simp add: csv_mock_download_def table_text_def mock_header_def mock_rows_def)

lemma mock_table_facts:
  "list_all plain_row (mock_header # mock_rows)" "\<forall>r\<in>set mock_rows. length r = length mock_header" "4 \<le> length mock_header"
  "mock_rows \<noteq> []" "length (table_text (mock_header # mock_rows)) + 3 < 1000"
  "\<forall>r\<in>set mock_rows. \<exists>j. am_json hundredths (row_amount hundredths r) = Inr j"
  by (simp_all add: plain_row_def plain_field_def mock_header_def mock_rows_def table_text_def hundredths_def)

lemma mock_amounts:
  "am_ParseFloat hundredths ''120.50'' = Some 12050" "am_ParseFloat hundredths ''250.00'' = Some 25000"
  "am_ParseFloat hundredths ''invalid_amount_field'' = None" "am_ParseFloat hundredths ''450.00'' = Some 45000"
  "am_ParseFloat hundredths ''90.25'' = Some 9025"
  by (simp_all add: hundredths_def is_digit_def char_digit_def)

lemma mock_active:
  "map (row_amount hundredths) (filter (active_row hundredths) mock_rows) = [12050, 45000, 9025]"
  by (simp add: mock_rows_def row_amount_def active_row_def mock_amounts)

definition mock_documents :: "json list" where
  "mock_documents = map (\<lambda>(i, n, m, a, st). JObj [(''id'', JStr i), (''name'', JStr n), (''email'', JStr m), (''amount'', JDec a (-2)), (''status'', JStr st)])
     [(''1'', ''Alice Johnson'', ''alice@example.com'', 12050, ''active''),
      (''2'', ''Bob Smith'', ''bob-invalid-email'', 25000, ''invalid_email''),
      (''3'', ''Charlie Brown'', ''charlie@example.com'', 0, ''invalid_amount''),
      (''4'', ''David Miller'', ''david@example.com'', 45000, ''active''),
      (''5'', ''Eve Adams'', ''eve@example.com'', 9025, ''active'')]"

lemma mock_output:
  "table_output compact_codec hundredths mock_rows = concat (map (\<lambda>j. json_text compact_codec j @ [0x0A]) mock_documents)"
proof -
  have j: "am_json hundredths a = Inr (JDec (uint a) (-2))" "am_0 hundredths = 0" for a by (simp_all add: hundredths_def)
  have d: "map (row_document hundredths) mock_rows = mock_documents"
    by (simp add: mock_documents_def mock_rows_def row_document_def row_amount_def active_row_def mock_amounts j)
  show ?thesis unfolding d[symmetric] by (simp add: table_output_def comp_def)
qed

lemma mock_output_length: "map (\<lambda>j. Suc (length (print_json j))) mock_documents = [98, 101, 104, 97, 91]"
  by (simp add: mock_documents_def print_str_def esc_def FormatInt_def format_nat.simps)

lemma one_page_words: "a + 3 < 65536 \<Longrightarrow> read32 a (one_page 0) = 0"
proof -
  have "one_page 0 ! i = 0" if "i < 65536" for i using that by (simp only: one_page_def nth_replicate)
  then show "a + 3 < 65536 \<Longrightarrow> read32 a (one_page 0) = 0" by (simp add: read32_def)
qed

theorem csv_worker_converts_tables_witness:
  "\<exists>(H :: (bytes, bytes, string \<rightharpoonup> bytes, memory_store, bytes) host) m' s' \<sigma>'.
     Call H (csv_run compact_codec hundredths list_csv 1000 [] (write32 4 16 (one_page 0)))
       (new_session (WithUploadHandler (WithDownloadHandler Background (Some (\<lambda>e. (Inr csv_mock_download, e))))
          (Some (\<lambda>b e. (snd (csv_mock_upload [b] io_EOF e), fst (csv_mock_upload [b] io_EOF e))))) ''i'' [] False
          (new_meta ''i'' ''h1'') (Some Map.empty) (write32 4 16 (one_page 0))) NewMemorySnapshotStore [] =
       (Inr [0], m', s', \<sigma>', concat (map (\<lambda>j. json_text compact_codec j @ [0x0A]) mock_documents)) \<and>
     csv_state list_csv m' = (3, 66075, 3) \<and> version_of (ms_meta \<sigma>' ''i'') = 3"
proof -
  let ?H = "\<lparr> h_store = memory_ops compact_codec, h_mem = list_memory, h_rt = list_runtime (one_page 0) poke_exports,
    h_clock = \<lambda>e :: bytes. (42, e), h_wasmHash = ''h1'' \<rparr>"
  let ?m = "write32 4 16 (one_page 0)" and ?dl = "\<lambda>e :: bytes. (Inr csv_mock_download :: go_error + bytes, e)"
  let ?hu = "\<lambda>b e. (snd (csv_mock_upload [b] io_EOF e), fst (csv_mock_upload [b] io_EOF e))"
  let ?s = "new_session (WithUploadHandler (WithDownloadHandler Background (Some ?dl)) (Some ?hu)) ''i'' [] False
      (new_meta ''i'' ''h1'') (Some Map.empty) ?m"
  have s: "ses_instanceID ?s = ''i''" "ses_meta ?s = new_meta ''i'' ''h1''" "ses_pageHashes ?s \<noteq> None" "\<not> ses_shouldCrashOnCheckpoint ?s"
    "\<not> ses_downloadEOF ?s" "ses_downloadReader ?s = None" "ses_uploadBuffer ?s = []"
    "ses_DownloadHandler ?s = Some ?dl" "ses_UploadHandler ?s = Some ?hu"
    by (simp_all add: new_session_def WithUploadHandler_def WithDownloadHandler_def getDownloadHandler_def getUploadHandler_def)
  have fresh: "fresh_session (ms_view NewMemorySnapshotStore (ses_instanceID ?s)) ?s \<or>
      current_session (ms_view NewMemorySnapshotStore (ses_instanceID ?s)) ?s"
    by (simp add: fresh_session_def s(1,2)) (simp add: new_session_def NewMemorySnapshotStore_def ms_view_def)
  have len: "length (one_page 0) = 65536" by (simp add: one_page_def)
  have ok: "task_heap 16 65520 ?m" using len by (simp add: task_heap_def list_memory_valid_def)
  have st: "csv_state list_csv ?m = (0, 0, 0)" by (simp add: csv_state_list read32_write32_other one_page_words)
  have H: "h_store ?H = memory_ops compact_codec" "h_mem ?H = list_memory" by simp_all
  let ?out = "table_output compact_codec hundredths mock_rows"
  have env: "?dl [] = (Inr (bytes_of_string (table_text (mock_header # mock_rows))), [])" "?hu ?out [] = (None, ?out)"
    unfolding mock_table by (simp_all add: csv_mock_upload_def)
  have room: "4096 + length ?out \<le> 65520" unfolding mock_output
    by (simp add: length_concat comp_def compact_codec_def sum_list_addf mock_output_length)
  note P = csv_worker_converts_tables[where st = "memory_ops compact_codec" and iv = ms_inv and view = ms_view and cas = version_cas
      and ok_str = "\<lambda>_. True" and ok_meta = "\<lambda>_. True" and M = list_memory and contents = "\<lambda>m. m" and valid = list_memory_valid
      and G = list_csv and ok = "task_heap 16" and live = "task_live 16" and H = ?H and m = ?m and s = ?s and R = 65520
      and \<sigma> = NewMemorySnapshotStore and dl = ?dl and hu = ?hu and e = "[]" and params = "[]" and cd = compact_codec and F = hundredths
      and fuel = 1000 and header = mock_header and rows = mock_rows]
  from P[OF mem_durable[OF lm.linear_memory_axioms] list_csv.csv_worker_program_axioms H TrueI ok st
      ms_inv_init TrueI s(3,4) fresh s(5-9) mock_table_facts(1-4,6) env room mock_table_facts(5)]
  show ?thesis
  proof (elim exE conjE)
    fix m' s' \<sigma>'
    assume C: "Call ?H (csv_run compact_codec hundredths list_csv 1000 [] ?m) ?s NewMemorySnapshotStore [] = (Inr [0], m', s', \<sigma>', ?out)"
      "csv_state list_csv m' = (3, foldl (am_plus hundredths) 0 (map (row_amount hundredths) (filter (active_row hundredths) mock_rows)),
        0 + of_nat (length (filter (active_row hundredths) mock_rows)))"
      "version_of (i_meta (ms_view \<sigma>' (ses_instanceID ?s))) = Version (ses_meta ?s) + 3"
    have "length (filter (active_row hundredths) mock_rows) = 3" using arg_cong[OF mock_active, of length] by simp
    then have "csv_state list_csv m' = (3, 66075, 3)" using C(2) unfolding mock_active by (simp add: hundredths_def)
    moreover have "version_of (ms_meta \<sigma>' ''i'') = 3" using C(3) unfolding s(1,2) by (simp add: new_meta_def ms_view_def)
    ultimately show ?thesis using C(1) unfolding mock_output by (rule_tac exI[of _ ?H], rule_tac exI[of _ m'], rule_tac exI[of _ s'], rule_tac exI[of _ \<sigma>']) simp
  qed
qed

end
