(* ===== verification/Detached_Run.thy ===== *)
theory Detached_Run
  imports Example_Hosts
begin

text \<open>
  What a worker can do to the environment of its host. The environment is what handlers act on: a run whose
  session has no handlers leaves every property of it that the clock keeps, whatever the guest does. The chain
  of calls in the example hosts binds none.
\<close>

section \<open>Host calls without handlers\<close>

definition detached :: "('m, 'e) session \<Rightarrow> bool" where
  "detached s \<longleftrightarrow> ses_ApiHandler s = None \<and> ses_DownloadHandler s = None \<and> ses_UploadHandler s = None"

lemma detached_upd [simp]:
  "detached (s\<lparr>ses_memory := m\<rparr>) = detached s" "detached (s\<lparr>ses_pageHashes := f\<rparr>) = detached s"
  "detached (s\<lparr>ses_meta := meta\<rparr>) = detached s" "detached (s\<lparr>ses_crashed := b\<rparr>) = detached s"
  "detached (s\<lparr>ses_callIndex := i\<rparr>) = detached s" "detached (s\<lparr>ses_uploadBuffer := u\<rparr>) = detached s"
  "detached (s\<lparr>ses_downloadReader := d\<rparr>) = detached s" "detached (s\<lparr>ses_downloadEOF := b\<rparr>) = detached s"
  by (simp_all add: detached_def)

lemma checkpoint_detached: "checkpoint st M h m s \<sigma> = (r, s', \<sigma>') \<Longrightarrow> detached s \<Longrightarrow> detached s'"
  by (auto simp: checkpoint_def write_memory_def Let_def split: prod.splits sum.splits bool.splits if_splits option.splits)

lemma host_get_time_detached:
  "host_get_time st clock s \<sigma> e = (t, s', \<sigma>', e') \<Longrightarrow> detached s \<Longrightarrow> detached s' \<and> (e' = e \<or> e' = snd (clock e))"
  by (auto simp: host_get_time_def Let_def split: prod.splits sum.splits option.splits)

lemma deliver_detached: "deliver M rp rm resp s = (n, s') \<Longrightarrow> detached s' = detached s"
  by (auto simp: deliver_def split: if_splits)

lemma call_logged_detached:
  "call_logged st M nm req rp rm s \<sigma> e = (n, s', \<sigma>', e') \<Longrightarrow> detached s \<Longrightarrow> detached s' \<and> e' = e"
  by (auto simp: call_logged_def perform_def detached_def Let_def
      split: prod.splits sum.splits option.splits if_splits dest!: deliver_detached)

lemma host_call_api_detached:
  "host_call_api st M m ap al rp rl wp wl s \<sigma> e = (r, s', \<sigma>', e') \<Longrightarrow> detached s \<Longrightarrow> detached s' \<and> e' = e"
  by (auto simp: host_call_api_def Let_def dest: call_logged_detached split: prod.splits option.splits if_splits)

lemma stream_data_detached:
  "stream_data M m dir ptr len s e = (r, s', e') \<Longrightarrow> detached s \<Longrightarrow> detached s' \<and> e' = e"
  by (auto simp: stream_data_def handleDownload_def handleUpload_def download_read_def detached_def Let_def
      split: prod.splits option.splits sum.splits if_splits)

section \<open>Executions\<close>

lemma Call_detached:
  assumes clock: "\<And>e. J e \<Longrightarrow> J (snd (h_clock H e))"
  shows "Call H g s \<sigma> e = (r, m', s', \<sigma>', e') \<Longrightarrow> detached s \<Longrightarrow> J e \<Longrightarrow> detached s' \<and> J e'"
proof (induction g arbitrary: s \<sigma> e)
  case (Checkpoint m k)
  obtain q s1 \<sigma>1 where C: "checkpoint (h_store H) (h_mem H) (h_wasmHash H) m s \<sigma> = (q, s1, \<sigma>1)" by (metis prod_cases3)
  show ?case using Checkpoint.prems C checkpoint_detached[OF C] Checkpoint.IH[OF rangeI, of m s1 \<sigma>1 e]
    by (cases q) auto
next
  case (GetTime m k)
  obtain t s1 \<sigma>1 e1 where C: "host_get_time (h_store H) (h_clock H) s \<sigma> e = (t, s1, \<sigma>1, e1)" by (metis prod_cases4)
  have "detached s1" "J e1" using host_get_time_detached[OF C GetTime.prems(2)] clock GetTime.prems(3) by auto
  then show ?case using GetTime.prems(1) C GetTime.IH[OF rangeI rangeI] by auto
next
  case (CallApi m ap al rp rl wp wl k)
  obtain q s1 \<sigma>1 e1 where C: "host_call_api (h_store H) (h_mem H) m ap al rp rl wp wl s \<sigma> e = (q, s1, \<sigma>1, e1)"
    by (metis prod_cases4)
  show ?case using CallApi.prems C host_call_api_detached[OF C] CallApi.IH[OF rangeI rangeI] by (cases q) auto
next
  case (StreamData m dir ptr len k)
  obtain q s1 e1 where C: "stream_data (h_mem H) m dir ptr len s e = (q, s1, e1)" by (metis prod_cases3)
  show ?case using StreamData.prems C stream_data_detached[OF C] StreamData.IH[OF rangeI rangeI] by (cases q) auto
qed auto

lemma execute_body_detached:
  assumes clock: "\<And>e. J e \<Longrightarrow> J (snd (h_clock H e))"
    and run: "execute_body H ctx ep ps m s \<sigma> e = (r, m', s', \<sigma>', e')" and s: "detached s" "J e"
  shows "J e'"
proof -
  obtain q m1 s1 \<sigma>1 e1 where S: "(if ep \<noteq> ''_start'' then run_start H m s \<sigma> e else (None, m, s, \<sigma>, e)) = (q, m1, s1, \<sigma>1, e1)"
    by (metis prod_cases5)
  then have 1: "detached s1 \<and> J e1" using Call_detached[where J = J and H = H, OF clock] s
    by (auto simp: run_start_def split: if_splits option.splits prod.splits sum.splits)
  have C: "J e4" if "Call H g (s1\<lparr>ses_memory := m3, ses_pageHashes := f3\<rparr>) \<sigma>1 e1 = (r4, m4, s4, \<sigma>4, e4)" for g m3 f3 r4 m4 s4 \<sigma>4 e4
    using Call_detached[where J = J and H = H, OF clock that] 1 by simp
  show ?thesis using run 1 C unfolding execute_body_def S
    by (auto simp: Let_def split: option.splits outcome.splits prod.splits)
qed

text \<open>The chain of the example hosts, whatever module is behind the path.\<close>

lemma run_worker_detached:
  assumes clock: "\<And>e. J e \<Longrightarrow> J (snd (pf_clock P e))"
    and run: "run_worker P st wasmPath addr iid crash \<sigma> e = (r, \<sigma>', e')" and e: "J e"
  shows "J e'"
proof -
  let ?H = "\<lambda>h. \<lparr> h_store = st, h_mem = pf_mem P, h_rt = pf_rt P, h_clock = pf_clock P, h_wasmHash = h \<rparr>"
  have B: "J e1" if "execute_body (?H h) Background ep ps m (new_session Background iid addr cr meta None m) \<sigma>1 e = (r1, m1, s1, \<sigma>2, e1)"
    for h ep ps m cr meta \<sigma>1 r1 m1 s1 \<sigma>2 e1
    using execute_body_detached[where J = J, OF _ that _ e] clock
    by (simp add: detached_def new_session_def getApiHandler_def getDownloadHandler_def getUploadHandler_def Background_def)
  have X: "J e1" if "ExecuteWithArgs st (pf_mem P) (pf_rt P) (pf_clock P) Background iid ep addr cr ps eng \<sigma>1 e = (r1, eng1, \<sigma>2, e1)"
    for ep cr ps eng \<sigma>1 r1 eng1 \<sigma>2 e1
    using that e B by (auto simp: ExecuteWithArgs_def Let_def split: prod.splits sum.splits)
  show ?thesis using run e X
    by (auto simp: run_worker_def tr_WithCrash_def tr_WithServer_def tr_WithSessionID_def tr_WithStore_def
      tr_WithWasmPath_def tr_delegate_def NewTestRunner_def setter_defs NewRunner_def tr_Run_def rn_Run_def run_ctx_def Let_def
      split: prod.splits sum.splits outcome.splits if_splits)
qed

end
