(* ===== verification/Host_Mains.thy ===== *)
theory Host_Mains
  imports Detached_Run Host_Properties
begin

text \<open>
  The \<open>main\<close> functions of the hosts of \<open>examples/temporal\<close> and \<open>examples/camunda\<close>, with the mock servers that
  they start, over the SDKs of the two services as records of operations. The worker threads of the SDKs and
  the server run beside \<open>main\<close>; what they do is part of the call that \<open>main\<close> waits in. The locales
  \<open>temporal_service\<close> and \<open>camunda_service\<close> say what is relied on: the SDKs act on the mock server and the files
  it writes through the registered functions only, no other program posts to the server, and the
  result of a workflow is one that its activity returned. A program that ends by a panic has exit status 2.
\<close>

section \<open>examples/temporal\<close>

text \<open>
  \<open>ts_Start\<close> is the error of the worker on a task queue. \<open>ts_ExecuteActivity\<close> makes attempts at an activity,
  which gets the number of the attempt. \<open>ts_ExecuteWorkflow\<close> takes the identifier, the queue and the routes that
  serve the requests of the meantime; its result is the error of the start, or what \<open>Get\<close> of the run gives.
\<close>

record temporal_config =
  tc_HostPort :: string
  tc_Namespace :: string
  tc_TaskQueue :: string

type_synonym 'x attempt = "int \<Rightarrow> string \<Rightarrow> string \<Rightarrow> fs \<times> temporal_mock \<times> 'x \<Rightarrow>
  (go_error + string) outcome \<times> fs \<times> temporal_mock \<times> 'x"
type_synonym 'x run_activity = "'x attempt \<Rightarrow> activity_options \<Rightarrow> string \<Rightarrow> string \<Rightarrow> fs \<times> temporal_mock \<times> 'x \<Rightarrow>
  (go_error + string) \<times> fs \<times> temporal_mock \<times> 'x"
type_synonym 'x workflow = "string \<Rightarrow> string \<Rightarrow> fs \<times> temporal_mock \<times> 'x \<Rightarrow>
  (string \<times> go_error option) \<times> fs \<times> temporal_mock \<times> 'x"
type_synonym 's routes = "mock_request \<Rightarrow> 's \<Rightarrow> bytes \<times> 's"
type_synonym ('cl, 'x) start_workflow = "'cl \<Rightarrow> string \<Rightarrow> string \<Rightarrow> temporal_mock routes \<Rightarrow> 'x workflow \<Rightarrow> string \<Rightarrow> string \<Rightarrow>
  fs \<times> temporal_mock \<times> 'x \<Rightarrow> (go_error + (go_error + string)) \<times> fs \<times> temporal_mock \<times> 'x"

record ('cl, 'x) temporal_sdk =
  ts_LoadFromEnv :: temporal_config
  ts_NewClient :: "temporal_config \<Rightarrow> go_error + 'cl"
  ts_Start :: "'cl \<Rightarrow> string \<Rightarrow> go_error option"
  ts_ExecuteActivity :: "'x run_activity"
  ts_ExecuteWorkflow :: "('cl, 'x) start_workflow"

text \<open>
  \<open>f\<close> is the directory \<open>snapshots\<close>, \<open>files\<close> the working directory and \<open>x\<close> the rest of the environment; \<open>uuid\<close> is
  the new identifier. The result is the exit status and the content that is shown.
\<close>

definition temporal_host_main :: "('c, 'm, 'r, temporal_mock \<times> 'x) platform \<Rightarrow> codec \<Rightarrow> (string \<Rightarrow> fs \<Rightarrow> go_error option) \<Rightarrow>
    ('cl, 'x) temporal_sdk \<Rightarrow> string \<Rightarrow> fs \<Rightarrow> fs \<Rightarrow> 'x \<Rightarrow> (nat \<times> string option) \<times> fs \<times> temporal_mock \<times> 'x" where
  "temporal_host_main P cd MkdirAll T uuid f files x =
     (let dbFile = ''database_temporal.json''; sqliteDBFile = ''snapshots.db''; serverAddr = ''localhost:18085'';
          clean = (\<lambda>files. Remove sqliteDBFile (Remove dbFile files));
          server = \<lparr> tm_uploadCount = 0, tm_files = clean files \<rparr>;
          cfg = (ts_LoadFromEnv T)\<lparr>tc_TaskQueue := ''wasman-temporal-queue''\<rparr>
      in case ts_NewClient T cfg of
           Inl err \<Rightarrow> ((1, None), f, server, x)
         | Inr c \<Rightarrow>
             (case ts_Start T c (tc_TaskQueue cfg) of
                Some err \<Rightarrow> ((1, None), f, server, x)
              | None \<Rightarrow>
                  (let activity = (\<lambda>attempt iid addr (f, e). ExecuteDurableWasmActivity P cd MkdirAll attempt iid addr f e);
                       workflow = DurableWasmWorkflow (ts_ExecuteActivity T activity);
                       workflowID = ''wasman-workflow-'' @ uuid; iid = ''temporal-activity-tx''
                   in case ts_ExecuteWorkflow T c workflowID (tc_TaskQueue cfg) temporal_routes workflow iid serverAddr
                             (f, server, x) of
                        (Inl err, w) \<Rightarrow> ((1, None), w)
                      | (Inr (Inl err), w) \<Rightarrow> ((1, None), w)
                      | (Inr (Inr result), f2, server2, x2) \<Rightarrow>
                          ((0, Some result), f2, server2\<lparr>tm_files := clean (tm_files server2)\<rparr>, x2))))"

section \<open>examples/camunda\<close>

text \<open>Times are in milliseconds.\<close>

record camunda_worker =
  cw_MaxTasks :: int
  cw_PollInterval :: int
  cw_topic :: string
  cw_lockDuration :: int
  cw_variables :: "string list"

type_synonym 'x task_handler = "external_task \<Rightarrow> ('x \<Rightarrow> go_error option \<times> 'x) \<Rightarrow>
  (string \<Rightarrow> string \<Rightarrow> int \<Rightarrow> int \<Rightarrow> 'x \<Rightarrow> go_error option \<times> 'x) \<Rightarrow> fs \<Rightarrow> camunda_mock \<times> 'x \<Rightarrow>
  go_error option outcome \<times> fs \<times> camunda_mock \<times> 'x"
type_synonym ('cl, 'x) worker_thread = "'cl \<Rightarrow> camunda_worker \<Rightarrow> bool \<Rightarrow> int \<Rightarrow> camunda_mock routes \<Rightarrow> 'x task_handler \<Rightarrow>
  fs \<Rightarrow> camunda_mock \<times> 'x \<Rightarrow> unit outcome \<times> fs \<times> camunda_mock \<times> 'x"

text \<open>
  \<open>cs_Work\<close> is what the worker thread and the server do in the given time, with whether the context of the
  worker is cancelled; a panic in it ends the program.
\<close>

record ('cl, 'x) camunda_sdk =
  cs_NewClient :: "string \<Rightarrow> string \<Rightarrow> go_error + 'cl"
  cs_DeployProcess :: "'cl \<Rightarrow> string \<Rightarrow> bytes \<Rightarrow> string \<Rightarrow> 'x \<Rightarrow> (go_error + string) \<times> 'x"
  cs_StartProcessInstance :: "'cl \<Rightarrow> string \<Rightarrow> string \<Rightarrow> 'x \<Rightarrow> (go_error + string) \<times> 'x"
  cs_Work :: "('cl, 'x) worker_thread"

text \<open>An action of the SDK leaves the server alone.\<close>

definition on_service :: "('x \<Rightarrow> 'a \<times> 'x) \<Rightarrow> 'k \<times> 'x \<Rightarrow> 'a \<times> 'k \<times> 'x" where
  "on_service act e = (let (a, x) = act (snd e) in (a, fst e, x))"

text \<open>The loop that waits for the file: \<open>n\<close> rounds at most, \<open>sleep\<close> before each look.\<close>

fun wait_for_file :: "(fs \<Rightarrow> camunda_mock \<times> 'x \<Rightarrow> unit outcome \<times> fs \<times> camunda_mock \<times> 'x) \<Rightarrow> string \<Rightarrow> nat \<Rightarrow>
    fs \<Rightarrow> camunda_mock \<times> 'x \<Rightarrow> unit outcome \<times> fs \<times> camunda_mock \<times> 'x" where
  "wait_for_file sleep path 0 f e = (Ret (), f, e)"
| "wait_for_file sleep path (Suc n) f e =
     (case sleep f e of
        (Panic msg, f1, e1) \<Rightarrow> (Panic msg, f1, e1)
      | (Ret _, f1, e1) \<Rightarrow> if Stat_ok path (km_files (fst e1)) then (Ret (), f1, e1) else wait_for_file sleep path n f1 e1)"

definition camunda_host_main :: "('c, 'm, 'r, camunda_mock \<times> 'x) platform \<Rightarrow> codec \<Rightarrow> (string \<Rightarrow> fs \<Rightarrow> go_error option) \<Rightarrow>
    (string \<Rightarrow> go_error + bytes) \<Rightarrow> ('cl, 'x) camunda_sdk \<Rightarrow> string \<Rightarrow> fs \<Rightarrow> fs \<Rightarrow> 'x \<Rightarrow>
    (nat \<times> string option) \<times> fs \<times> camunda_mock \<times> 'x" where
  "camunda_host_main P cd MkdirAll Open C uuid f files x =
     (let dbFile = ''database_camunda.json'';
          server = \<lparr> km_downloadCount = 0, km_uploadCount = 0, km_files = Remove dbFile files \<rparr>
      in case cs_NewClient C ''http://localhost:8080'' ''wasman-worker'' of
           Inl err \<Rightarrow> ((1, None), f, server, x)
         | Inr c \<Rightarrow>
             (case deployProcess Open (cs_DeployProcess C c) x of
                (Some err, x1) \<Rightarrow> ((1, None), f, server, x1)
              | (None, x1) \<Rightarrow>
                  (let f1 = RemoveAll ''snapshots'' f
                   in case MkdirAll ''snapshots'' f1 of
                        Some err \<Rightarrow> ((1, None), f1, server, x1)
                      | None \<Rightarrow>
                          (let w = \<lparr> cw_MaxTasks = 1, cw_PollInterval = 1000, cw_topic = ''wasman-task'',
                                     cw_lockDuration = 60000, cw_variables = [] \<rparr>;
                               handler = (\<lambda>task complete fail. camunda_task_handler P cd task (on_service complete)
                                            (\<lambda>msg details retries timeout. on_service (fail msg details retries timeout)));
                               work = (\<lambda>cancelled ms. cs_Work C c w cancelled ms camunda_routes handler)
                           in case cs_StartProcessInstance C c ''DurableWasmCamundaProcess'' (''order-'' @ uuid) x1 of
                                (Inl err, x2) \<Rightarrow> ((1, None), f1, server, x2)
                              | (Inr processInstanceID, x2) \<Rightarrow>
                                  (case wait_for_file (work False 100) dbFile 300 f1 (server, x2) of
                                     (Panic msg, w3) \<Rightarrow> ((2, None), w3)
                                   | (Ret _, f3, server3, x3) \<Rightarrow>
                                       (case ReadFile dbFile (km_files server3) of
                                          Inl err \<Rightarrow> ((1, None), f3, server3, x3)
                                        | Inr dbBytes \<Rightarrow>
                                            (case work True 500 f3 (server3\<lparr>km_files := Remove dbFile (km_files server3)\<rparr>, x3) of
                                               (Panic msg, w4) \<Rightarrow> ((2, Some (string_of_bytes dbBytes)), w4)
                                             | (Ret _, w4) \<Rightarrow> ((0, Some (string_of_bytes dbBytes)), w4))))))))"

section \<open>The services\<close>

text \<open>
  \<open>I\<close> is any property of the mock server and its files that the registered function keeps, and that serving
  a download keeps: other programs may read from the server.
\<close>

locale activity_service =
  fixes ExecuteActivity :: "'x run_activity"
  assumes attempts_keep: "\<lbrakk>ExecuteActivity act opts iid addr (f, m, x) = (r, f', m', x'); I m;
      \<And>n f m x. I m \<Longrightarrow> I (fst (snd (snd (act n iid addr (f, m, x)))))\<rbrakk> \<Longrightarrow> I m'"
    and result_of_attempt: "\<lbrakk>ExecuteActivity act opts iid addr (f, m, x) = (Inr a, f', m', x'); I m;
      \<And>n f m x. I m \<Longrightarrow> I (fst (snd (snd (act n iid addr (f, m, x)))))\<rbrakk> \<Longrightarrow>
      \<exists>n f1 m1 x1. I m1 \<and> fst (act n iid addr (f1, m1, x1)) = Ret (Inr a)"

locale temporal_service = activity_service ExecuteActivity
  for ExecuteActivity :: "'x run_activity" +
  fixes ExecuteWorkflow :: "('cl, 'x) start_workflow"
  assumes workflow_keeps: "\<lbrakk>ExecuteWorkflow c wid queue routes flow iid addr (f, m, x) = (r, f', m', x'); I m;
      \<And>f m x. I m \<Longrightarrow> I (fst (snd (snd (flow iid addr (f, m, x))))); \<And>m. I m \<Longrightarrow> I (snd (routes Download m))\<rbrakk> \<Longrightarrow> I m'"
    and result_of_workflow: "\<lbrakk>ExecuteWorkflow c wid queue routes flow iid addr (f, m, x) = (Inr (Inr a), f', m', x'); I m;
      \<And>f m x. I m \<Longrightarrow> I (fst (snd (snd (flow iid addr (f, m, x))))); \<And>m. I m \<Longrightarrow> I (snd (routes Download m))\<rbrakk> \<Longrightarrow>
      \<exists>f1 m1 x1. I m1 \<and> fst (flow iid addr (f1, m1, x1)) = (a, None)"
begin

text \<open>A workflow that only waits for an activity ends with a result of the activity, or not at all.\<close>

lemma workflow_of_activity:
  assumes run: "ExecuteWorkflow c wid queue routes (DurableWasmWorkflow (ExecuteActivity act)) iid addr (f, m, x) = (r, f', m', x')"
    and m: "I m" and act: "\<And>n f m x. I m \<Longrightarrow> I (fst (snd (snd (act n iid addr (f, m, x)))))"
    and routes: "\<And>m. I m \<Longrightarrow> I (snd (routes Download m))"
  shows "I m' \<and> (\<forall>a. r = Inr (Inr a) \<longrightarrow> (\<exists>n f1 m1 x1. I m1 \<and> fst (act n iid addr (f1, m1, x1)) = Ret (Inr a)))"
proof -
  let ?wf = "DurableWasmWorkflow (ExecuteActivity act)"
  have keep: "I (fst (snd (snd (?wf iid addr (f, m, x)))))" if "I m" for f m x
    using attempts_keep[of act _ iid addr f m x _ _ _ _ I, OF _ that act]
    by (fastforce simp: DurableWasmWorkflow_def split: prod.splits sum.splits)
  have "\<exists>n f1 m1 x1. I m1 \<and> fst (act n iid addr (f1, m1, x1)) = Ret (Inr a)" if r: "r = Inr (Inr a)" for a
  proof -
    obtain f1 m1 x1 where wf: "I m1" "fst (?wf iid addr (f1, m1, x1)) = (a, None)"
      using result_of_workflow[of c wid queue routes ?wf iid addr f m x a f' m' x' I, OF run[unfolded r] m keep routes] by blast
    obtain opts f2 m2 x2 where "ExecuteActivity act opts iid addr (f1, m1, x1) = (Inr a, f2, m2, x2)"
      using wf(2) by (auto simp: DurableWasmWorkflow_def split: prod.splits sum.splits)
    from result_of_attempt[of act opts iid addr f1 m1 x1 a f2 m2 x2 I, OF this wf(1) act] show ?thesis .
  qed
  then show ?thesis
    using workflow_keeps[of c wid queue routes ?wf iid addr f m x r f' m' x' I, OF run m keep routes] by blast
qed

end

locale camunda_service =
  fixes Work :: "('cl, 'x) worker_thread"
  assumes work_keeps: "\<lbrakk>Work c w cancelled ms routes h f (m, x) = (r, f', m', x'); I m;
      \<And>task complete fail f m x. I m \<Longrightarrow> I (fst (snd (snd (h task complete fail f (m, x)))));
      \<And>m. I m \<Longrightarrow> I (snd (routes Download m))\<rbrakk> \<Longrightarrow> I m'"
begin

lemma wait_keeps:
  assumes "wait_for_file (Work c w cancelled ms routes h) path n f (m, x) = (r, f', m', x')" "I m"
    and "\<And>task complete fail f m x. I m \<Longrightarrow> I (fst (snd (snd (h task complete fail f (m, x)))))"
    and "\<And>m. I m \<Longrightarrow> I (snd (routes Download m))"
  shows "I m'"
  using assms(1,2)
proof (induction n arbitrary: f m x)
  case (Suc n)
  obtain q f1 m1 x1 where W: "Work c w cancelled ms routes h f (m, x) = (q, f1, m1, x1)" by (metis prod_cases4)
  have "I m1" by (rule work_keeps[of c w cancelled ms routes h f m x q f1 m1 x1 I, OF W Suc.prems(2) assms(3,4)])
  then show ?case using Suc W by (cases q) (auto split: if_splits)
qed simp

end

section \<open>Services that do their work at once\<close>

text \<open>
  Instances of the two interfaces: the attempts at an activity one after another, up to the number of the
  options; a workflow that runs when it is started; and a queue of tasks, the first of which is handled in each
  slice of time and leaves the queue when it is completed or has no retries left.
\<close>

fun attempts_from :: "'x attempt \<Rightarrow> string \<Rightarrow> string \<Rightarrow> nat \<Rightarrow> int \<Rightarrow> fs \<times> temporal_mock \<times> 'x \<Rightarrow>
    (go_error + string) \<times> fs \<times> temporal_mock \<times> 'x" where
  "attempts_from act iid addr 0 n w = (Inl (Err ''activity error''), w)"
| "attempts_from act iid addr (Suc k) n w =
     (case act n iid addr w of
        (Ret (Inr a), w1) \<Rightarrow> (Inr a, w1)
      | (_, w1) \<Rightarrow> attempts_from act iid addr k (n + 1) w1)"

definition run_attempts :: "'x run_activity" where
  "run_attempts act opts iid addr = attempts_from act iid addr (nat (ao_MaximumAttempts opts)) 1"

definition run_workflow :: "('cl, 'x) start_workflow" where
  "run_workflow c wid queue routes flow iid addr w =
     (case flow iid addr w of
        ((result, Some err), w1) \<Rightarrow> (Inr (Inl err), w1)
      | ((result, None), w1) \<Rightarrow> (Inr (Inr result), w1))"

definition work_queue :: "('cl, external_task list) worker_thread" where
  "work_queue c w cancelled ms routes h f e =
     (let m = snd (routes Download (fst e))
      in case snd e of
        [] \<Rightarrow> (Ret (), f, m, [])
      | task # _ \<Rightarrow>
          if cancelled then (Ret (), f, m, snd e)
          else case h task (\<lambda>ts. (None, tl ts)) (\<lambda>msg details retries timeout ts. (None, if retries = 0 then tl ts else ts)) f (m, snd e) of
            (Panic msg, w1) \<Rightarrow> (Panic msg, w1)
          | (Ret _, w1) \<Rightarrow> (Ret (), w1))"

lemma attempts_from_keep:
  assumes "attempts_from act iid addr k n (f, m, x) = (r, f', m', x')" "I m"
    and act: "\<And>n f m x. I m \<Longrightarrow> I (fst (snd (snd (act n iid addr (f, m, x)))))"
  shows "I m' \<and> (\<forall>a. r = Inr a \<longrightarrow> (\<exists>n f1 m1 x1. I m1 \<and> fst (act n iid addr (f1, m1, x1)) = Ret (Inr a)))"
  using assms(1,2)
proof (induction k arbitrary: n f m x)
  case (Suc k)
  obtain q f1 m1 x1 where A: "act n iid addr (f, m, x) = (q, f1, m1, x1)" by (metis prod_cases4)
  then have I: "I m1" using act[OF Suc.prems(2), of n f x] by simp
  show ?case
  proof (cases "\<exists>a. q = Ret (Inr a)")
    case True
    then show ?thesis using Suc.prems A I by auto (metis fst_conv)
  next
    case False
    then have "attempts_from act iid addr k (n + 1) (f1, m1, x1) = (r, f', m', x')"
      using Suc.prems(1) A by (auto split: outcome.splits sum.splits)
    from Suc.IH[OF this I] show ?thesis .
  qed
qed auto

interpretation at_once: temporal_service run_attempts run_workflow
proof (unfold_locales, goal_cases)
  case (1 act opts iid addr f m x r f' m' x' I)
  show ?case by (rule attempts_from_keep[of act iid addr _ 1 f m x r f' m' x' I, OF 1(1)[unfolded run_attempts_def] 1(2,3), THEN conjunct1])
next
  case (2 act opts iid addr f m x a f' m' x' I)
  show ?case
    using attempts_from_keep[of act iid addr _ 1 f m x _ f' m' x' I, OF 2(1)[unfolded run_attempts_def] 2(2,3)] by simp
next
  case (3 c wid queue routes flow iid addr f m x r f' m' x' I)
  have "I (fst (snd (snd (flow iid addr (f, m, x)))))" by (rule 3(3)[OF 3(2)])
  then show ?case using 3(1) by (auto simp: run_workflow_def split: prod.splits option.splits)
next
  case (4 c wid queue routes flow iid addr f m x a f' m' x' I)
  have "fst (flow iid addr (f, m, x)) = (a, None)"
    using 4(1) by (auto simp: run_workflow_def split: prod.splits option.splits)
  then show ?case using 4(2) by blast
qed

interpretation queued: camunda_service work_queue
proof (unfold_locales, goal_cases)
  case (1 c w cancelled ms routes h f m x r f' m' x' I)
  have m: "I (snd (routes Download m))" by (rule 1(4)[OF 1(2)])
  have "I (fst (snd (snd (h t complete fail f (snd (routes Download m), x)))))" for t complete fail by (rule 1(3)[OF m])
  then have "I m1" if "h t complete fail f (snd (routes Download m), x) = (q, f1, m1, x1)" for t complete fail q f1 m1 x1
    using that by (metis fst_conv snd_conv)
  then show ?case using 1(1) m by (auto simp: work_queue_def Let_def split: list.splits if_splits prod.splits outcome.splits)
qed

section \<open>The two examples\<close>

text \<open>The server of an example has received no upload, and the file that it would write does not exist.\<close>

definition no_file :: "string \<Rightarrow> fs \<Rightarrow> bool" where
  "no_file p f \<longleftrightarrow> fs_files f p = None"

definition temporal_unused :: "temporal_mock \<Rightarrow> bool" where
  "temporal_unused m \<longleftrightarrow> tm_uploadCount m = 0 \<and> no_file ''database_temporal.json'' (tm_files m)"

definition camunda_unused :: "camunda_mock \<Rightarrow> bool" where
  "camunda_unused m \<longleftrightarrow> km_uploadCount m = 0 \<and> no_file ''database_camunda.json'' (km_files m)"

lemma read_no_file: "no_file p f \<Longrightarrow> \<exists>err. ReadFile p f = Inl err"
  by (auto simp: ReadFile_def no_file_def split: option.split)

lemma Remove_gone: "\<not> fs_remove_fault f p \<Longrightarrow> no_file p (Remove p f)"
  by (simp add: Remove_def no_file_def)

lemma Remove_keeps: "no_file p f \<Longrightarrow> no_file p (Remove q f)"
  by (simp add: Remove_def no_file_def)

lemma downloads_unused:
  "temporal_unused m \<Longrightarrow> temporal_unused (snd (temporal_routes Download m))"
  "camunda_unused k \<Longrightarrow> camunda_unused (snd (camunda_routes Download k))"
  by (simp_all add: temporal_routes_def camunda_routes_def camunda_download_def camunda_unused_def Let_def)

text \<open>The clock of a platform reads the time and nothing else of the environment of the program.\<close>

definition plain_clock :: "('c, 'm, 'r, 'k \<times> 'x) platform \<Rightarrow> bool" where
  "plain_clock P \<longleftrightarrow> (\<forall>e. fst (snd (pf_clock P e)) = fst e)"

lemma run_worker_unused:
  assumes "plain_clock P" "run_worker P st wasmPath addr iid crash \<sigma> (m, x) = (r, \<sigma>', m', x')" "I m"
  shows "I m'"
proof -
  have "fst (snd (pf_clock P e)) = fst e" for e using assms(1) unfolding plain_clock_def by blast
  then have "I (fst (m', x'))"
    by (intro run_worker_detached[where J = "\<lambda>e. I (fst e)", OF _ assms(2)]) (simp_all add: assms(3))
  then show ?thesis by simp
qed

text \<open>Whatever the worker is, an attempt does not reach the server and has no result without the file.\<close>

lemma activity_keeps:
  assumes "plain_clock P" "ExecuteDurableWasmActivity P cd MkdirAll n iid addr f (m, x) = (r, f', m', x')" "temporal_unused m"
  shows "temporal_unused m' \<and> (\<forall>a. r \<noteq> Ret (Inr a))"
proof -
  have R: "temporal_unused (fst e1) \<and> (\<exists>err. ReadFile ''database_temporal.json'' (tm_files (fst e1)) = Inl err)"
    if "run_worker P (fs_ops cd ''snapshots'') ''../worker/worker.wasm'' addr iid crash g (m, x) = (q, f1, e1)" for crash g q f1 e1
    using run_worker_unused[where I = temporal_unused, OF assms(1), of "fs_ops cd ''snapshots''"] that assms(3) read_no_file
    by (cases e1) (fastforce simp: temporal_unused_def)
  show ?thesis using assms(2,3) unfolding ExecuteDurableWasmActivity_def Let_def
    by (auto split: option.splits prod.splits outcome.splits sum.splits dest!: R)
qed

lemma task_handler_keeps:
  assumes "plain_clock P" "camunda_unused m"
  shows "camunda_unused (fst (snd (snd (camunda_task_handler P cd task (on_service complete)
    (\<lambda>msg details retries timeout. on_service (fail msg details retries timeout)) f (m, x)))))"
proof -
  have R: "camunda_unused (fst e1)"
    if "run_worker P (fs_ops cd ''snapshots'') ''../worker/worker.wasm'' ''localhost:18086'' iid crash f (m, x) = (q, f1, e1)"
    for iid crash q f1 e1
    using run_worker_unused[where I = camunda_unused, OF assms(1)] that assms(2) by (cases e1) auto
  show ?thesis unfolding camunda_task_handler_def Let_def
    by (auto split: prod.split outcome.split option.split simp: on_service_def dest: R)
qed

lemma temporal_host_fails:
  fixes P :: "('c, 'm, 'r, temporal_mock \<times> 'x) platform"
  assumes T: "temporal_service (ts_ExecuteActivity T) (ts_ExecuteWorkflow T)" and P: "plain_clock P"
    and f: "\<not> fs_remove_fault files ''database_temporal.json''"
    and run: "temporal_host_main P cd MkdirAll T uuid f files x = (out, f1, m1, x1)"
  shows "out = (1, None) \<and> temporal_unused m1"
proof -
  let ?cfg = "(ts_LoadFromEnv T)\<lparr>tc_TaskQueue := ''wasman-temporal-queue''\<rparr>"
    and ?m = "\<lparr> tm_uploadCount = 0, tm_files = Remove ''snapshots.db'' (Remove ''database_temporal.json'' files) \<rparr>"
  define act where "act = (\<lambda>attempt iid addr (f, e). ExecuteDurableWasmActivity P cd MkdirAll attempt iid addr f e)"
  have act: "temporal_unused (fst (snd (snd (act n iid addr (f, m, x)))))" "fst (act n iid addr (f, m, x)) \<noteq> Ret (Inr a)"
    if "temporal_unused m" for n iid addr f m x a
    using activity_keeps[OF P _ that, of cd MkdirAll n iid addr f x]
    by (cases "ExecuteDurableWasmActivity P cd MkdirAll n iid addr f (m, x)"; simp add: act_def)+
  let ?run = "\<lambda>c. ts_ExecuteWorkflow T c (''wasman-workflow-'' @ uuid) (tc_TaskQueue ?cfg) temporal_routes
    (DurableWasmWorkflow (ts_ExecuteActivity T act)) ''temporal-activity-tx'' ''localhost:18085'' (f, ?m, x)"
  have gone: "temporal_unused ?m" using Remove_gone[OF f] by (simp add: Remove_keeps temporal_unused_def)
  show ?thesis
  proof (cases "ts_NewClient T ?cfg")
    case (Inl err)
    then show ?thesis using run gone by (auto simp: temporal_host_main_def Let_def)
  next
    case (Inr c)
    obtain r f2 m2 x2 where R: "?run c = (r, f2, m2, x2)" by (metis prod_cases4)
    have "temporal_unused m2 \<and> (\<forall>a. r = Inr (Inr a) \<longrightarrow> (\<exists>n f1 m1 x1. temporal_unused m1 \<and>
        fst (act n ''temporal-activity-tx'' ''localhost:18085'' (f1, m1, x1)) = Ret (Inr a)))"
      by (rule temporal_service.workflow_of_activity[OF T, where I = temporal_unused and act = act])
        (rule R, rule gone, rule act(1), assumption, rule downloads_unused(1))
    then have "temporal_unused m2 \<and> (\<forall>a. r \<noteq> Inr (Inr a))" using act(2) by blast
    then show ?thesis using run gone Inr R
      by (cases "ts_Start T c (tc_TaskQueue ?cfg)"; cases r)
        (auto simp: temporal_host_main_def Let_def act_def[symmetric] split: sum.splits)
  qed
qed

lemma camunda_host_fails:
  fixes P :: "('c, 'm, 'r, camunda_mock \<times> 'x) platform"
  assumes C: "camunda_service (cs_Work C)" and P: "plain_clock P" and f: "\<not> fs_remove_fault files ''database_camunda.json''"
    and run: "camunda_host_main P cd MkdirAll Open C uuid f files x = (out, f1, m1, x1)"
  shows "out \<in> {(1, None), (2, None)} \<and> camunda_unused m1"
proof -
  let ?m = "\<lparr> km_downloadCount = 0, km_uploadCount = 0, km_files = Remove ''database_camunda.json'' files \<rparr>"
    and ?h = "\<lambda>task complete fail. camunda_task_handler P cd task (on_service complete)
      (\<lambda>msg details retries timeout. on_service (fail msg details retries timeout))"
  have gone: "camunda_unused ?m" using Remove_gone[OF f] by (simp add: camunda_unused_def)
  have X: "camunda_unused m2 \<and> (\<exists>err. ReadFile ''database_camunda.json'' (km_files m2) = Inl err)"
    if "wait_for_file (cs_Work C c w False 100 camunda_routes ?h) ''database_camunda.json'' 300 g (?m, x1) = (r, f2, m2, x2)"
    for c w g x1 r f2 m2 x2
  proof -
    have "camunda_unused m2" by (rule camunda_service.wait_keeps[OF C, where I = camunda_unused])
      (rule that, rule gone, rule task_handler_keeps[OF P], assumption, rule downloads_unused(2))
    then show ?thesis using read_no_file by (auto simp: camunda_unused_def)
  qed
  show ?thesis using run gone unfolding camunda_host_main_def Let_def
    by (auto split: sum.splits option.splits prod.splits outcome.splits dest!: X)
qed

text \<open>
  C24. Neither of the two orchestrated examples can finish, whatever module is deployed as their worker. Both
  hosts wait for a file that the upload route of their own mock server writes, but no handler of the runner
  connects the worker to the server. Once \<open>main\<close> has removed the old file, the Temporal host ends with
  exit status 1 and shows no result, and the Camunda host ends with 1, or with 2 if the engine panics; the
  server receives no upload and the file never exists. This holds for every service that acts on the server
  and its files through the registered functions only, when other programs may read from the server but not
  post to it, and reading the clock changes nothing.
\<close>

theorem orchestrated_examples_cannot_finish:
  fixes P :: "('c, 'm, 'r, temporal_mock \<times> 'x) platform" and Q :: "('c2, 'm2, 'r2, camunda_mock \<times> 'y) platform"
  assumes "temporal_service (ts_ExecuteActivity T) (ts_ExecuteWorkflow T)" "camunda_service (cs_Work C)"
    and "plain_clock P" "plain_clock Q"
    and "\<not> fs_remove_fault files ''database_temporal.json''" "\<not> fs_remove_fault files ''database_camunda.json''"
    and "temporal_host_main P cd MkdirAll T uuid f files x = (out, f1, m1, x1)"
    and "camunda_host_main Q cd MkdirAll Open C uuid f files y = (out2, f2, m2, y2)"
  shows "out = (1, None) \<and> tm_uploadCount m1 = 0 \<and> no_file ''database_temporal.json'' (tm_files m1) \<and>
    out2 \<in> {(1, None), (2, None)} \<and> km_uploadCount m2 = 0 \<and> no_file ''database_camunda.json'' (km_files m2)"
  using temporal_host_fails[OF assms(1,3,5,7)] camunda_host_fails[OF assms(2,4,6,8)]
  unfolding temporal_unused_def camunda_unused_def by blast

text \<open>The two services above, with a worker that reads a stream and the database files of an earlier run.\<close>

definition old_files :: fs where
  "old_files = \<lparr> fs_files = [''database_temporal.json'' \<mapsto> [1], ''database_camunda.json'' \<mapsto> [1]],
     fs_read_fault = (\<lambda>_. None), fs_write_fault = (\<lambda>_. None), fs_remove_fault = (\<lambda>_. False) \<rparr>"

definition demo_platform :: "(bytes, bytes, string \<rightharpoonup> bytes, 'k \<times> external_task list) platform" where
  "demo_platform = \<lparr> pf_mem = list_memory, pf_rt = list_runtime (one_page 0) stream_exports, pf_clock = (\<lambda>e. (42, e)),
     pf_ReadFile = (\<lambda>p. Inr [1]), pf_sha = (\<lambda>b. ''h1'') \<rparr>"

definition local_temporal :: "(unit, 'x) temporal_sdk" where
  "local_temporal = \<lparr> ts_LoadFromEnv = \<lparr> tc_HostPort = ''localhost:7233'', tc_Namespace = ''default'', tc_TaskQueue = [] \<rparr>,
     ts_NewClient = (\<lambda>_. Inr ()), ts_Start = (\<lambda>_ _. None), ts_ExecuteActivity = run_attempts,
     ts_ExecuteWorkflow = run_workflow \<rparr>"

definition local_camunda :: "(unit, external_task list) camunda_sdk" where
  "local_camunda = \<lparr> cs_NewClient = (\<lambda>_ _. Inr ()), cs_DeployProcess = (\<lambda>_ _ _ _ ts. (Inr ''d1'', ts)),
     cs_StartProcessInstance = (\<lambda>_ _ key ts. (Inr ''p1'', ts @ [\<lparr> et_ID = ''t1'', et_BusinessKey = key \<rparr>])),
     cs_Work = work_queue \<rparr>"

theorem orchestrated_examples_cannot_finish_witness:
  "\<exists>f1 m1 x1 out2 f2 m2 x2.
     temporal_host_main demo_platform compact_codec (\<lambda>_ _. None) local_temporal ''u'' empty_fs old_files [] = ((1, None), f1, m1, x1) \<and>
     camunda_host_main demo_platform compact_codec (\<lambda>_ _. None) (\<lambda>_. Inr []) local_camunda ''u'' empty_fs old_files [] =
       (out2, f2, m2, x2) \<and>
     tm_uploadCount m1 = 0 \<and> no_file ''database_temporal.json'' (tm_files m1) \<and> fst out2 \<noteq> 0 \<and> km_uploadCount m2 = 0"
proof -
  obtain out f1 m1 x1 where t: "temporal_host_main demo_platform compact_codec (\<lambda>_ _. None) local_temporal ''u'' empty_fs old_files [] =
      (out, f1, m1, x1)" by (metis prod_cases4)
  obtain out2 f2 m2 x2 where c: "camunda_host_main demo_platform compact_codec (\<lambda>_ _. None) (\<lambda>_. Inr []) local_camunda ''u''
      empty_fs old_files [] = (out2, f2, m2, x2)" by (metis prod_cases4)
  have "temporal_service (ts_ExecuteActivity local_temporal) (ts_ExecuteWorkflow (local_temporal :: (unit, external_task list) temporal_sdk))"
    "camunda_service (cs_Work local_camunda)"
    using at_once.temporal_service_axioms queued.camunda_service_axioms by (simp_all add: local_temporal_def local_camunda_def)
  from orchestrated_examples_cannot_finish[OF this _ _ _ _ t c] show ?thesis
    using t c by (auto simp: old_files_def plain_clock_def demo_platform_def)
qed

text \<open>
  What the server does when it is reached: its route writes the second upload of the calculation to the file,
  so a runner with a handler that posts to it would give the activity its result.
\<close>

lemma second_upload_persisted:
  assumes "fs_write_fault files ''database_temporal.json'' = None" "fs_read_fault files ''database_temporal.json'' = None"
  shows "ReadFile ''database_temporal.json'' (tm_files (snd (temporal_routes (Upload (Inr body))
    (snd (temporal_routes (Upload (Inr query)) \<lparr> tm_uploadCount = 0, tm_files = files \<rparr>))))) = Inr body"
  using assms by (simp add: temporal_routes_def temporal_upload_def WriteFile_def ReadFile_def)

end
