(* ===== verification/Wasm_Inspector.thy ===== *)
theory Wasm_Inspector
  imports Stream_Worker
begin

text \<open>
  \<open>examples/wasm-inspector\<close>: a program that instantiates a module with stubs for the four host functions,
  which only print that they were called, and runs its entrypoint. The instance has no store, no session and
  no handlers. What the program prints is a list of lines; what the guest itself prints is left out. Parameters
  are wazero, what closing an instance does to it, how a guest goes on after \<open>proc_exit\<close> has returned (the
  override does not stop it, unlike the one of the engine), and what \<open>InstantiateModule\<close> makes of the end of
  the start function.
\<close>

section \<open>The stubs\<close>

definition proc_exit_override :: "('m \<Rightarrow> u32 \<Rightarrow> 'm) \<Rightarrow> u32 \<Rightarrow> 'm \<Rightarrow> string \<times> 'm" where
  "proc_exit_override CloseWithExitCode exitCode m =
     (''[WASI OVERRIDE] proc_exit called with code '' @ FormatInt (uint exitCode),
      if exitCode \<noteq> 0 then CloseWithExitCode m exitCode else m)"

primrec stub_call :: "('c, 'm, 'r) wazero \<Rightarrow> ('m \<Rightarrow> u32 \<Rightarrow> 'm) \<Rightarrow>
    ('m \<Rightarrow> string list \<Rightarrow> (go_error + u64 list) \<times> 'm \<times> string list) \<Rightarrow> 'm guest \<Rightarrow> string list \<Rightarrow>
    (go_error + u64 list) \<times> 'm \<times> string list" where
  "stub_call W CloseWithExitCode go_on (Return m res) out = (Inr res, m, out)"
| "stub_call W CloseWithExitCode go_on (ProcExit m code) out =
     (let (line, m1) = proc_exit_override CloseWithExitCode code m in go_on m1 (out @ [line]))"
| "stub_call W CloseWithExitCode go_on (Trap m msg) out = (Inl (rt_trap W msg), m, out)"
| "stub_call W CloseWithExitCode go_on (Checkpoint m k) out =
     stub_call W CloseWithExitCode go_on (k m) (out @ [''[HOST STUB] checkpoint called''])"
| "stub_call W CloseWithExitCode go_on (GetTime m k) out =
     stub_call W CloseWithExitCode go_on (k 0 m) (out @ [''[HOST STUB] host_get_time called''])"
| "stub_call W CloseWithExitCode go_on (CallApi m ap al rp rl wp wl k) out =
     stub_call W CloseWithExitCode go_on (k 0 m) (out @ [''[HOST STUB] host_call_api called''])"
| "stub_call W CloseWithExitCode go_on (StreamData m dir ptr len k) out =
     stub_call W CloseWithExitCode go_on (k 0 m) (out @ [''[HOST STUB] stream_data called''])"

section \<open>The program\<close>

text \<open>The exit status and the lines that are printed.\<close>

definition inspector_main :: "('c, 'm, 'r) wazero \<Rightarrow> (string \<Rightarrow> go_error + bytes) \<Rightarrow> ('m \<Rightarrow> u32 \<Rightarrow> 'm) \<Rightarrow>
    ('m \<Rightarrow> string list \<Rightarrow> (go_error + u64 list) \<times> 'm \<times> string list) \<Rightarrow>
    ((go_error + u64 list) \<Rightarrow> 'm \<Rightarrow> go_error + 'm) \<Rightarrow> string list \<Rightarrow> nat \<times> string list" where
  "inspector_main W ReadFile CloseWithExitCode go_on started args =
     (if length args < 2 then (1, [''Usage: wasm-inspector <path-to-wasm-file>''])
      else case ReadFile (args ! 1) of
        Inl err \<Rightarrow> (1, [''failed to read file: '' @ Error err])
      | Inr wasmBytes \<Rightarrow>
          (case rt_HostModule W ''env'' (rt_NewRuntime W) of
             (Some err, _) \<Rightarrow> (1, [''failed to instantiate host env: '' @ Error err])
           | (None, r1) \<Rightarrow>
               (case rt_HostModule W ''wasi_snapshot_preview1'' r1 of
                  (Some err, _) \<Rightarrow> (1, [''failed to instantiate customized wasi: '' @ Error err])
                | (None, r2) \<Rightarrow>
                    (case rt_CompileModule W wasmBytes of
                       Inl err \<Rightarrow> (1, [''failed to compile: '' @ Error err])
                     | Inr compiled \<Rightarrow>
                         (let out = [''Instantiating module...''];
                              fault = (\<lambda>err out. (1, out @ [''failed to instantiate guest module: '' @ Error err]))
                          in case rt_InstantiateModule W compiled [] r2 of
                               (Inl err, _) \<Rightarrow> fault err out
                             | (Inr m, _) \<Rightarrow>
                                 (let (res, m1, out1) =
                                    (case rt_ExportedFunction W m ''_start'' of
                                       None \<Rightarrow> (Inr [], m, out)
                                     | Some startFunc \<Rightarrow> stub_call W CloseWithExitCode go_on (startFunc [] m) out)
                                  in case started res m1 of
                                       Inl err \<Rightarrow> fault err out1
                                     | Inr m2 \<Rightarrow>
                                         (case rt_ExportedFunction W m2 ''run'' of
                                            None \<Rightarrow> (1, out1 @ [''run function not found''])
                                          | Some runFunc \<Rightarrow>
                                              (case stub_call W CloseWithExitCode go_on (runFunc [] m2)
                                                      (out1 @ [''Running '' @ [CHR 0x27] @ ''run'' @ [CHR 0x27] @ '' entrypoint...'']) of
                                                 (Inl err, _, out2) \<Rightarrow> (1, out2 @ [''run failed: '' @ Error err])
                                               | (Inr _, _, out2) \<Rightarrow> (0, out2 @ [''Execution completed successfully.''])))))))))"

section \<open>What the inspector shows of a worker\<close>

text \<open>
  The stub of \<open>stream_data\<close> answers every read with 0, which the guest library takes for the end of the
  stream. So the streaming worker goes through all of its three steps over an empty stream, and the lines show
  its host calls in order: one read and the close of the second step, and a checkpoint after each.
\<close>

lemma stub_worker_run:
  assumes var: "\<And>v m. good m \<Longrightarrow> good (gg_setCurrentStep G v m) \<and> gg_currentStep G (gg_setCurrentStep G v m) = v"
    and place: "\<And>b m p m'. good m \<Longrightarrow> gg_place G b m = (p, m') \<Longrightarrow> good m' \<and> gg_currentStep G m' = gg_currentStep G m"
    and m: "good m" "gg_currentStep G m = 0"
  shows "\<exists>m'. good m' \<and> gg_currentStep G m' = 3 \<and>
    stub_call W cl go_on (worker_run G (Suc fuel) params m) out =
      (Inr [0], m', out @ [''[HOST STUB] checkpoint called'', ''[HOST STUB] stream_data called'',
         ''[HOST STUB] stream_data called'', ''[HOST STUB] checkpoint called'', ''[HOST STUB] checkpoint called''])"
proof -
  let ?m1 = "gg_setCurrentStep G 1 m"
  obtain p m2 where p: "gg_place G (replicate 4096 0) ?m1 = (p, m2)" by fastforce
  have 1: "good ?m1" "gg_currentStep G ?m1 = 1" using var m(1) by auto
  have 2: "good m2" "gg_currentStep G m2 = 1" using place[OF 1(1) p] 1(2) by auto
  let ?m3 = "gg_setCurrentStep G 2 m2" and ?m4 = "gg_setCurrentStep G 3 (gg_setCurrentStep G 2 m2)"
  have 3: "good ?m3" "gg_currentStep G ?m3 = 2" "good ?m4" "gg_currentStep G ?m4 = 3" using var 2(1) by auto
  show ?thesis using m 1 2 3 p
    by (intro exI[of _ ?m4]) (simp add: worker_run_def exported_run_def wf_Run_def gr_Run_def wf_Step_def NewWorkflow_def
        worker_initialize_def finalizeWorkflow_def processStream_def Guest_Runner.Read_def Guest_Runner.Close_def
        gr_Checkpoint_def go_guest.truncate_def)
qed

text \<open>The whole program on such a worker, and on a module without the entrypoint.\<close>

lemma inspector_shows_worker:
  assumes "rd path = Inr b" "rt_CompileModule W b = Inr c" "rt_HostModule W ''env'' (rt_NewRuntime W) = (None, r1)"
    "rt_HostModule W ''wasi_snapshot_preview1'' r1 = (None, r2)" "rt_InstantiateModule W c [] r2 = (Inr m, r3)"
    and "rt_ExportedFunction W m ''_start'' = None" "started (Inr []) m = Inr m"
    and "rt_ExportedFunction W m ''run'' = Some (worker_run G (Suc fuel))"
    and var: "\<And>v m. good m \<Longrightarrow> good (gg_setCurrentStep G v m) \<and> gg_currentStep G (gg_setCurrentStep G v m) = v"
    and place: "\<And>b m p m'. good m \<Longrightarrow> gg_place G b m = (p, m') \<Longrightarrow> good m' \<and> gg_currentStep G m' = gg_currentStep G m"
    and m: "good m" "gg_currentStep G m = 0"
  shows "inspector_main W rd cl go_on started [prog, path] =
    (0, [''Instantiating module...'', ''Running '' @ [CHR 0x27] @ ''run'' @ [CHR 0x27] @ '' entrypoint...'',
         ''[HOST STUB] checkpoint called'', ''[HOST STUB] stream_data called'', ''[HOST STUB] stream_data called'',
         ''[HOST STUB] checkpoint called'', ''[HOST STUB] checkpoint called'', ''Execution completed successfully.''])"
proof -
  have "\<exists>m'. good m' \<and> gg_currentStep G m' = 3 \<and> stub_call W cl go_on (worker_run G (Suc fuel) [] m) out =
      (Inr [0], m', out @ [''[HOST STUB] checkpoint called'', ''[HOST STUB] stream_data called'',
         ''[HOST STUB] stream_data called'', ''[HOST STUB] checkpoint called'', ''[HOST STUB] checkpoint called''])" for out
    by (rule stub_worker_run[where good = good]) (rule var, assumption, rule place, assumption, assumption, rule m(1), rule m(2))
  then obtain m' where "\<And>out. stub_call W cl go_on (worker_run G (Suc fuel) [] m) out =
      (Inr [0], m' out, out @ [''[HOST STUB] checkpoint called'', ''[HOST STUB] stream_data called'',
         ''[HOST STUB] stream_data called'', ''[HOST STUB] checkpoint called'', ''[HOST STUB] checkpoint called''])"
    by metis
  then show ?thesis using assms(1-8) by (simp add: inspector_main_def)
qed

lemma inspector_needs_run:
  assumes "\<And>m. rt_ExportedFunction W m ''run'' = None"
  shows "fst (inspector_main W rd cl go_on started args) = 1"
  using assms by (simp add: inspector_main_def Let_def split: sum.split option.split prod.split)

end
