(* ===== verification/Runner_Stub.thy ===== *)
theory Runner_Stub
  imports Session_Stream
begin

text \<open>
  \<open>runner/runner_stub.go\<close>: the guest library as it is compiled for any target but WebAssembly, so that code
  using it can be built and tested natively. Calls to the host return an error, reads and writes transfer
  nothing, and running a workflow or a task panics.
\<close>

definition errOnlySupportedInWASM :: go_error where
  "errOnlySupportedInWASM = Err ''wasman guest runner is only supported when compiling for WebAssembly (wasm)''"

definition run_panic :: "string \<Rightarrow> string" where
  "run_panic f = f @ '' is only supported when executing inside a WebAssembly environment''"

definition stub_Checkpoint :: "'e \<Rightarrow> unit \<times> 'e" where
  "stub_Checkpoint e = ((), e)"

text \<open>\<open>time.Now()\<close> is the clock of the environment.\<close>

definition stub_GetTime :: "('e \<Rightarrow> int \<times> 'e) \<Rightarrow> 'e \<Rightarrow> int \<times> 'e" where
  "stub_GetTime clock e = clock e"

definition stub_CallAPI :: "string \<Rightarrow> bytes \<Rightarrow> go_error + bytes" where
  "stub_CallAPI apiName request = Inl errOnlySupportedInWASM"

text \<open>A read leaves the buffer as it is: the result is the count, the error and the buffer.\<close>

definition stub_Read :: "bytes \<Rightarrow> int \<times> go_error option \<times> bytes" where
  "stub_Read p = (0, Some errOnlySupportedInWASM, p)"

definition stub_Write :: "bytes \<Rightarrow> int \<times> go_error option" where
  "stub_Write p = (0, Some errOnlySupportedInWASM)"

definition stub_Close :: "go_error option" where
  "stub_Close = None"

definition stub_Run :: "'step list \<Rightarrow> 'r outcome" where
  "stub_Run steps = Panic (run_panic ''Run'')"

record 'step stub_workflow =
  sw_steps :: "'step list"

definition stub_NewWorkflow :: "'step stub_workflow" where
  "stub_NewWorkflow = \<lparr> sw_steps = [] \<rparr>"

definition stub_Step :: "'step \<Rightarrow> 'step stub_workflow \<Rightarrow> 'step stub_workflow" where
  "stub_Step step w = w\<lparr>sw_steps := sw_steps w @ [step]\<rparr>"

definition stub_Workflow_Run :: "'step stub_workflow \<Rightarrow> 'r outcome" where
  "stub_Workflow_Run w = Panic (run_panic ''Run'')"

record stub_api_call =
  sc_name :: string
  sc_payload :: bytes

definition stub_Call :: "string \<Rightarrow> stub_api_call" where
  "stub_Call apiName = \<lparr> sc_name = apiName, sc_payload = [] \<rparr>"

definition stub_WithPayload :: "bytes \<Rightarrow> stub_api_call \<Rightarrow> stub_api_call" where
  "stub_WithPayload payload c = c\<lparr>sc_payload := payload\<rparr>"

definition stub_Send :: "stub_api_call \<Rightarrow> go_error + bytes" where
  "stub_Send c = Inl errOnlySupportedInWASM"

definition stub_RunTask :: "'handler \<Rightarrow> 'r outcome" where
  "stub_RunTask handler = Panic (run_panic ''RunTask'')"

end
