(* ===== verification/Module_Isolation.thy ===== *)
theory Module_Isolation
  imports Isolation Crash_Resume
begin

text \<open>
  The modules that an engine keeps in its runtime, under the names of their instances: serving a request for
  an instance touches no other. The locale \<open>exact_runtime\<close> adds to \<open>wazero_runtime\<close> that every successful
  instantiation adds its module and nothing else; its interpretation is on byte lists.
\<close>

locale exact_runtime = wazero_runtime W modules instantiable init
  for W :: "('c, 'm, 'r) wazero" and modules and instantiable and init +
  assumes Instantiate_adds: "rt_InstantiateModule W c n r = (Inr m, r') \<Longrightarrow> modules r' = (modules r)(n \<mapsto> m)"
begin

definition others_kept :: "string \<Rightarrow> ('c, 'm, 'r, 'e) engine \<Rightarrow> ('c, 'm, 'r, 'e) engine \<Rightarrow> bool" where
  "others_kept iid eng eng' \<longleftrightarrow> (\<forall>n. n \<noteq> modName iid \<longrightarrow> modules (eng_runtime eng') n = modules (eng_runtime eng) n)"

lemma others_kept_refl [simp]: "others_kept iid eng eng"
  by (simp add: others_kept_def)

lemma others_kept_runtime:
  "eng_runtime eng1 = eng_runtime eng2 \<Longrightarrow> others_kept iid eng eng1 = others_kept iid eng eng2"
  "eng_runtime eng1 = eng_runtime eng2 \<Longrightarrow> others_kept iid eng1 eng = others_kept iid eng2 eng"
  by (simp_all add: others_kept_def)

lemma forget_kept [simp]: "others_kept iid eng (forget_session j eng') = others_kept iid eng eng'"
  by (rule others_kept_runtime) (simp add: forget_session_def)

lemma close_kept: "others_kept iid eng eng' \<Longrightarrow> others_kept iid eng (close_module W iid eng')"
  by (simp add: close_module_def) (simp add: others_kept_def Close_snd)

lemma CloseInstance_kept: "others_kept iid eng (snd (CloseInstance W iid eng))"
  by (auto simp: CloseInstance_def others_kept_def Let_def dest!: Close split: option.split prod.split)

lemma select_kept: "select_module st W iid eng \<sigma> = (q, eng1) \<Longrightarrow> eng_runtime eng1 = eng_runtime eng"
  by (auto simp: select_module_def split: sum.splits option.splits if_splits)

lemma instantiate_kept:
  assumes "rt_InstantiateModule W c (modName iid) (eng_runtime eng) = (x, r)"
  shows "others_kept iid eng (eng\<lparr>eng_runtime := r\<rparr>) \<and> (\<forall>m. x = Inr m \<longrightarrow> modules r (modName iid) = Some m)"
  using assms Instantiate_adds Instantiate_fail by (cases x) (auto simp: others_kept_def)

lemma defer_kept:
  assumes "others_kept iid eng eng'" "modules (eng_runtime eng') (modName iid) \<noteq> None"
  shows "others_kept iid eng (bpmn_defer W ka failed iid m s eng')"
  using assms close_kept[OF assms(1)] SetModule[of "eng_runtime eng'" "modName iid"]
  by (auto simp: bpmn_defer_def others_kept_def)

lemma ExecuteWithArgs_kept:
  assumes "ExecuteWithArgs st M W clock ctx iid ep addr cr ps eng \<sigma> e = (res, eng', \<sigma>', e')"
  shows "others_kept iid eng eng'"
proof -
  obtain q eng1 where S: "select_module st W iid eng \<sigma> = (q, eng1)" by fastforce
  show ?thesis using assms S select_kept[OF S] instantiate_kept[of _ iid eng1]
    by (auto simp: ExecuteWithArgs_def others_kept_def Let_def Close_snd split: sum.splits prod.splits)
qed

lemma RunBPMN_kept:
  assumes "RunBPMN st M W clock ctx iid ep gb ib task addr eng \<sigma> e = (res, eng', \<sigma>', e')"
  shows "others_kept iid eng eng'"
proof -
  obtain q eng1 where S: "select_module st W iid eng \<sigma> = (q, eng1)" by fastforce
  have R: "others_kept iid eng eng2 = others_kept iid eng1 eng2" for eng2
    using select_kept[OF S] by (intro others_kept_runtime) simp
  show ?thesis
  proof (cases "\<exists>err. q = Inl err")
    case True
    then show ?thesis using assms S select_kept[OF S] by (auto simp: RunBPMN_def others_kept_def)
  next
    case False
    then obtain meta c where q: "q = Inr (meta, c)" by (cases q) auto
    show ?thesis
    proof (cases "rt_Module W (modName iid) (eng_runtime eng1)")
      case (Some m)
      then have "modules (eng_runtime eng1) (modName iid) \<noteq> None" by (simp add: Module)
      then show ?thesis using assms S q Some
        by (auto simp: RunBPMN_def Let_def R split: prod.splits intro!: defer_kept)
    next
      case None
      obtain x r1 where I: "rt_InstantiateModule W c (modName iid) (eng_runtime eng1) = (x, r1)" by fastforce
      note K = instantiate_kept[OF I]
      show ?thesis
      proof (cases x)
        case (Inl err)
        then show ?thesis using assms S q None I K by (auto simp: RunBPMN_def Let_def R)
      next
        case (Inr m)
        have m: "modules (eng_runtime (eng1\<lparr>eng_runtime := r1\<rparr>)) (modName iid) \<noteq> None" using K Inr by simp
        show ?thesis using assms S q None I Inr K
          by (auto simp: RunBPMN_def Let_def R split: prod.splits option.splits outcome.splits
              intro!: defer_kept[OF _ m] close_kept)
      qed
    qed
  qed
qed

lemma serve_kept:
  assumes "serve st M W clock q (eng, \<sigma>, e) = (eng', \<sigma>', e')"
  shows "others_kept (target q) eng eng'"
proof (cases q)
  case (RExecute ctx iid ep addr cr ps)
  then show ?thesis using assms
    by (cases "ExecuteWithArgs st M W clock ctx iid ep addr cr ps eng \<sigma> e") (auto dest: ExecuteWithArgs_kept)
next
  case (RBpmn ctx iid ep gb ib task addr)
  then show ?thesis using assms
    by (cases "RunBPMN st M W clock ctx iid ep gb ib task addr eng \<sigma> e") (auto dest: RunBPMN_kept)
next
  case (RClose iid)
  then show ?thesis using assms CloseInstance_kept[of iid eng] by auto
qed

lemma serve_all_kept:
  assumes "fold (serve st M W clock) qs (eng, \<sigma>, e) = (eng', \<sigma>', e')" "j \<notin> target ` set qs"
  shows "modules (eng_runtime eng') (modName j) = modules (eng_runtime eng) (modName j)"
  using assms
proof (induction qs arbitrary: eng \<sigma> e)
  case (Cons q qs)
  obtain eng1 \<sigma>1 e1 where S: "serve st M W clock q (eng, \<sigma>, e) = (eng1, \<sigma>1, e1)" by (metis prod_cases3)
  have "modName j \<noteq> modName (target q)" using Cons.prems(2) by (auto simp: modName_def)
  then show ?case using serve_kept[OF S] Cons S by (auto simp: others_kept_def)
qed simp

end

interpretation exact_rt: exact_runtime "list_runtime mem0 exports" "\<lambda>r. r" "\<lambda>_. True" "\<lambda>_. mem0"
  by unfold_locales (auto simp: list_runtime_def split: option.splits)

end
