(* ===== verification/Spec2Isabelle.thy ===== *)
theory Spec2Isabelle
  imports Memory_Engine Isolation Fs_Engine Runner_Example S3_Properties Guest_Properties Host_Properties Gotenberg_Properties CSV_Properties Host_Mains
    Wasm_Inspector Runner_Stub Engine_Laws Module_Isolation
begin

text \<open>
  A verification development for wasman, a Go library that runs WebAssembly modules durably: a guest
  calls \<open>checkpoint\<close>, the host stores its linear memory, and after a crash the next execution restores
  the memory and goes on from there. The sources are the Go files at the top of \<open>src/\<close>.

  \<^bold>\<open>The program.\<close> An \<open>Engine\<close> (\<open>wasman.go\<close>) compiles a module with wazero, registers it by its hash, and
  exports host functions to the guest: \<open>checkpoint\<close>, \<open>host_get_time\<close>, \<open>host_call_api\<close> and
  \<open>stream_data\<close>. \<open>ExecuteWithArgs\<close> loads the metadata of an instance, selects the module version,
  makes a \<open>Session\<close>, instantiates the module, restores the memory (a full snapshot with deltas of
  4096-byte blocks on top), calls the entrypoint and classifies how it ended. \<open>RunBPMN\<close> does the same
  for a BPMN core that may be kept alive between calls. A checkpoint first swaps the metadata (an
  optimistic version check: the loser panics) and then writes either a full snapshot or the blocks
  whose hash changed. API calls and clock readings are logged in an oplog and replayed. Everything
  durable goes through the interface \<open>SnapshotStore\<close> (\<open>types.go\<close>), which \<open>memory_store.go\<close>,
  \<open>fs_store.go\<close> and \<open>s3_store.go\<close> implement; \<open>runner_builder.go\<close> is a fluent front end. The package
  \<open>runner/\<close> is linked into the guest: it wraps the host functions and runs a workflow step by step with a
  checkpoint after each.

  \<^bold>\<open>The theories\<close>, in the order of their imports:

  \<^item> \<open>Wasman_Prelude\<close>: machine types, slices, \<open>overwrite\<close>, association lists as Go maps, and the lemmas
    on them that everything shares; \<open>Go_Stdlib\<close>: decimal numbers, base64, FNV-1a, string functions,
    with their round trips and \<open>fnv64a_change\<close>, that one changed byte changes the hash.
  \<^item> \<open>Wasm_Memory\<close>: the memory interface of wazero as the record \<open>memory_api\<close> and the locale
    \<open>linear_memory\<close>, interpreted on byte lists (\<open>lm\<close>).
  \<^item> \<open>Wasman_Types\<close>: \<open>types.go\<close>: errors, metadata, oplog entries, contexts with handlers, and the store
    interface as the record \<open>store_ops\<close> with the locale \<open>snapshot_store\<close> (what every operation does to
    the view of an instance) and its extensions.
  \<^item> \<open>Json_Codec\<close>, \<open>Json_Text\<close>: \<open>compress.go\<close> and the JSON forms of the stored structures over a codec;
    a JSON printer and parser with their round trip (\<open>compact_codec\<close>) show that the codec laws can hold.
  \<^item> \<open>Active_Index\<close>, \<open>Memory_Store\<close>: the in-memory store, interpreted in the store locales (\<open>mem_store\<close>).
  \<^item> \<open>Blob_Layout\<close>: what the two persistent stores share: the documents an instance has, under which
    name, and how a blob decodes (locale \<open>blob_layout\<close>). \<open>Fs_Store\<close>: the file store over a map of paths
    with read and write faults (\<open>fs\<close>). \<open>S3_Store\<close>: every method of the S3 store over a client;
    \<open>S3_Contract\<close>: what the object service promises (locale \<open>object_service\<close>) and that the store then
    keeps the contract of \<open>snapshot_store\<close>, with \<open>s3_cas\<close> for its condition on entity tags.
  \<^item> \<open>Session_Stream\<close>: \<open>session.go\<close>: downloads and uploads over 32-bit pointers.
  \<^item> \<open>Memory_Blocks\<close>: the block loops of checkpoint and restore: dirty blocks, base hashes, overlay.
  \<^item> \<open>Host_Calls\<close>: the four host functions, with the replay lemmas proved for any \<open>snapshot_store\<close>.
  \<^item> \<open>Engine\<close>, \<open>Execution\<close>: construction, module selection, restore, \<open>ExecuteWithArgs\<close>, \<open>RunBPMN\<close> and
    \<open>CloseInstance\<close>. A guest function is a tree of its host calls (\<open>guest\<close>), which \<open>Call\<close> runs.
  \<^item> \<open>Recovery\<close>: the locale \<open>durable\<close>: what a session knows of the store (\<open>fresh_session\<close>, \<open>in_step\<close>),
    and that a checkpoint followed by a restore gives back the memory.
  \<^item> \<open>Store_Spec\<close>: stores as implementations of an abstract map of instances, by command;
    \<open>Concurrency\<close>: sessions of one instance interleaved as a step relation, with its invariant;
    \<open>Client_Spec\<close>: the answers that the clients of a store see, the same for every store of the contract.
  \<^item> \<open>Crash_Resume\<close>: the locale \<open>durable_engine\<close>: a crashed execution and its resumption;
    \<open>Memory_Engine\<close>, \<open>Fs_Engine\<close>, \<open>S3_Engine\<close>: its interpretations on the three stores, and example states
    (for S3 a service over an association list, \<open>list_s3\<close>).
  \<^item> \<open>Runner_Builder\<close>, \<open>Runner_Example\<close>: \<open>runner_builder.go\<close>.
  \<^item> \<open>Guest_Runner\<close>: \<open>runner/runner.go\<close> in continuation style over the trees of \<open>Engine\<close>;
    \<open>Guest_Calls\<close>: where the host may write, and \<open>CallAPI\<close> end to end; \<open>Stream_Worker\<close>: the worker of
    \<open>examples/s3-store\<close>, its loop over the wrappers and the host's stream handlers (locale
    \<open>stream_program\<close>); \<open>Workflow_Resume\<close>: the locale \<open>durable_workflow\<close>, the workflow loop and the engine
    together; \<open>List_Guest\<close>: the interpretations over byte lists and the in-memory store.
  \<^item> \<open>Isolation\<close>: executions against requests for several instances: the locale \<open>confined_store\<close>, and
    that \<open>Call\<close>, \<open>ExecuteWithArgs\<close> and \<open>RunBPMN\<close> leave every other instance alone.
  \<^item> \<open>Example_Hosts\<close>: the host programs under \<open>examples/\<close>: the two runs of a worker with the simulated
    crash, their mock servers and stream handlers, and the task and activity wrappers of Camunda and
    Temporal; \<open>Host_Runs\<close>: what the two runs come to over any store of the contract (locale
    \<open>worker_host\<close>); \<open>Host_Properties\<close>: its interpretations on the three stores.
  \<^item> \<open>Live_Steps\<close>: one turn of the workflow loop on a live session, for any worker whose steps end without
    an error (locale \<open>live_steps\<close>). \<open>Gotenberg_Worker\<close>: the worker of \<open>examples/gotenberg-telegram\<close> over
    the guest library, with the locales \<open>pipeline_program\<close> and \<open>live_pipeline\<close>; \<open>Gotenberg_Properties\<close>: its interpretation and
    what the server of the example receives.
  \<^item> \<open>Json_Scan\<close>: the scanner of \<open>encoding/json\<close>, with which a decoder finds the end of a value, and that it
    ends a printed object at its last byte; \<open>Guest_Task\<close>: \<open>RunTask\<close> and \<open>examples/safe-task\<close>, with the decoder
    and its growing buffer over the stream wrappers (locales \<open>json_program\<close> and \<open>task_program\<close>);
    \<open>Task_Properties\<close>: its interpretation on a guest with a heap pointer.
  \<^item> \<open>Document_Workers\<close>: the workers of \<open>examples/camunda\<close> and \<open>examples/temporal\<close>, which exchange JSON
    documents with the host; \<open>Document_Properties\<close>: the order process of the Camunda worker from its first
    step to its last (locale \<open>live_camunda\<close>). \<open>Runner_Stub\<close>: \<open>runner/runner_stub.go\<close>.
  \<^item> \<open>CSV_Reader\<close>: the reader of \<open>encoding/csv\<close> over the buffer of \<open>bufio\<close> as the worker uses it, against a
    reference on the whole text (locale \<open>csv_program\<close>); \<open>CSV_Worker\<close>: the worker of \<open>examples/process-csv\<close>, row by
    row; \<open>CSV_Properties\<close>: what it makes of a table of plain fields, and its interpretation on byte lists.
  \<^item> \<open>Detached_Run\<close>: what a run whose session has no handlers leaves of the environment. \<open>Host_Mains\<close>: the \<open>main\<close>
    functions of the Temporal and Camunda hosts with their mock servers, and the locales \<open>temporal_service\<close> and
    \<open>camunda_service\<close> for the two SDKs. The store of a host is its directory \<open>snapshots\<close>; the counters of the mock
    server and the files of the working directory, which its upload route writes, are the environment that
    handlers act on. \<open>Wasm_Inspector\<close>: \<open>examples/wasm-inspector\<close>, which runs a module over stubs.
  \<^item> \<open>Engine_Laws\<close>: executions as a whole over any store and a runtime that keeps its contract: which instance the
    body of \<open>ExecuteWithArgs\<close> runs on, and how calls end in \<open>ExecuteWithArgs\<close> and \<open>RunBPMN\<close>. \<open>Module_Isolation\<close>: the locale
    \<open>exact_runtime\<close>, over which a request touches the modules of no other instance. \<open>Failed_Step\<close>: the turns that
    one call of \<open>Run\<close> makes before a step fails.

  \<^bold>\<open>The properties\<close> below are grouped by subject: durable execution (C1 to C4, C7), concurrent sessions
  (C5, C6), replay (C8, C9), isolation of instances (C25), streams (C10, C11), the file
  store and its agreement with the in-memory store (C12, C13 and \<open>read_error_loses_deltas\<close>), module versions
  (C15, C16), panics and error results (C17 to C19), leaks (C20), the active index (C21 and
  \<open>empty_index_is_null_in_memory\<close>) and the runner (C23 and \<open>crashed_runner_cannot_resume\<close>). \<open>S3_Properties\<close> holds those of the S3 store (C26 to C31, C38), \<open>Guest_Properties\<close>
  those of the guest library (C32 to C37), \<open>Task_Properties\<close> that of \<open>RunTask\<close> (C22), \<open>Host_Properties\<close>
  the host of the S3 example (C39), \<open>Host_Mains\<close> the two orchestrated hosts (C24), \<open>Gotenberg_Properties\<close> the
  document pipeline (C40) and \<open>CSV_Properties\<close> the CSV worker (C14). C4, C7, C16 to C19, C24, C29, C30, C34 and C39
  state behaviour that a caller would not expect.

  \<^bold>\<open>Parameters.\<close> The code of other packages is an argument: wazero as the records \<open>wazero\<close> and
  \<open>memory_api\<close> with the locales \<open>wazero_runtime\<close> and \<open>linear_memory\<close>; gzip and the text of JSON
  documents as \<open>codec\<close> with \<open>codec_laws\<close>; the S3 client as \<open>s3_client\<close> with \<open>object_service\<close>, where the
  entity tag is a function of the content and tells the versions of a metadata document apart; where the
  compiled guest keeps \<open>currentStep\<close> and its slices as \<open>go_guest\<close>, and the state of the example workers as
  records that extend it; what a host program runs on (memory, wazero, clock, module file, SHA-256) as
  \<open>platform\<close>, and the SDKs of S3, Camunda and Temporal that it calls as functions; \<open>float64\<close> as a type with
  the operations \<open>float_ops\<close> or \<open>amount_ops\<close>, or as what a number of a document becomes in it; the clock
  and the handlers of the application as functions on an environment \<open>'e\<close>.

  \<^bold>\<open>Bounds and fuel.\<close> A guest is a finite tree, so \<open>Call\<close> is total; a guest that runs for ever is outside
  the model. The loop of \<open>Run\<close> has fuel one above the number of steps, and C33 shows that this is enough
  for steps that leave \<open>currentStep\<close> alone; the loop of the streaming worker needs one read more than there
  are chunks of 4096 bytes (C37), and the read loop of the document pipeline one more than its chunks of 1024
  bytes (C40); the decoder of a task needs one read more than there are chunks of 512 bytes (C22); the CSV
  worker reads through a buffer of 4096 bytes, and fuel four above the length of its table is enough (C14). The
  Camunda host looks 300 times for its file, as the source does. The JSON parser has fuel equal to the
  length of its text, and its round trip shows that this is enough. Pointers and page counts are 32-bit words with their wrap-around; lengths of Go slices are
  natural numbers; Go's \<open>int\<close> (versions, call indices) is unbounded.

  \<^bold>\<open>Conventions.\<close> A method under a mutex is one step. Nil and empty slices are the same list. A Go map is an
  association list with distinct keys. Instance identifiers are used in file names as they are, without
  path separators. A negative zero in a document is zero. A deltas file that holds the JSON value null counts as an
  empty map: no operation writes one, and the code would panic at the next assignment. In the interleavings of \<open>Concurrency\<close> what a
  checkpoint writes after its version swap is one step, where the code makes separate requests. Logging, pooling of gzip writers, directory creation and file modes are left out.

  \<^bold>\<open>Not modelled\<close>: the guests under \<open>testdata/\<close>, which only drive the tests; listening on a port and
  shutting down in the example hosts; what the SDKs and wazero do inside their calls. The session that
  \<open>WithSession\<close> puts into the context is an argument of the host functions, so \<open>WithSession\<close> and \<open>GetSession\<close> have no
  definition of their own.
\<close>

section \<open>Durable execution\<close>

text \<open>
  C1. Crash and resume, end to end, over the in-memory store. A new instance is executed with the
  simulated crash switched on; its entrypoint runs to its first checkpoint with some memory. The
  execution reports the crash, and the next execution of the instance, with whatever entrypoint and
  parameters, runs that entrypoint on an instance whose memory is byte for byte the memory of the
  checkpoint, with the metadata the checkpoint committed.
\<close>

theorem crash_then_resume:
  assumes "linear_memory M contents valid" and "wazero_runtime W modules instantiable init"
    and "ms_inv \<sigma>" "ms_view \<sigma> iid = empty_inst"
    and "instantiable (eng_compiled eng)" "modules (eng_runtime eng) (modName iid) = None"
    and "boot W (init (eng_compiled eng)) = Some m0" "valid m0"
    and "rt_ExportedFunction W m0 entrypoint = Some runFunc" "runFunc params m0 = Checkpoint mC k"
    and "valid mC" "contents mC \<noteq> []" "length (contents mC) < page_size * max_pages"
    and "length (contents m0) \<le> length (contents mC)" "growable M contents valid (length (contents mC))"
    and "entrypoint \<noteq> ''_start''" "entrypoint2 \<noteq> ''_start''" "ctx_Err ctx e = None"
    and "ExecuteWithArgs (memory_ops cd) M W clock ctx iid entrypoint addr True params eng \<sigma> e
           = (res, eng', \<sigma>', e')"
    and "ExecuteWithArgs (memory_ops cd) M W clock2 ctx2 iid entrypoint2 addr2 crash2 params2 eng' \<sigma>' e'
           = (res2, eng2, \<sigma>2, e2)"
  shows "res = Ret (True, Some (rt_recovered W ''simulated_host_crash'')) \<and>
    (\<exists>m1 f1 meta. valid m1 \<and> contents m1 = contents mC \<and> ms_meta \<sigma>' iid = Some meta \<and> Version meta = 1 \<and>
       (res2, \<sigma>2, e2) = run_entry
         \<lparr> h_store = memory_ops cd, h_mem = M, h_rt = W, h_clock = clock2, h_wasmHash = eng_wasmHash eng \<rparr>
         ctx2 entrypoint2 params2 m1 (new_session ctx2 iid addr2 crash2 meta (Some f1) m1) \<sigma>' e')"
proof -
  note D = mem_durable_engine[OF assms(1,2), of cd]
  have new: "i_meta (ms_view \<sigma> iid) = None" "i_snapshot (ms_view \<sigma> iid) = None"
    "i_deltas (ms_view \<sigma> iid) = Map.empty" using assms(4) by (simp_all add: empty_inst_def)
  have E: "res = Ret (True, Some (rt_recovered W ''simulated_host_crash'')) \<and> ms_inv \<sigma>' \<and>
    durable_image (ms_view \<sigma>' iid) (contents mC) \<and>
    (\<exists>meta. i_meta (ms_view \<sigma>' iid) = Some meta \<and> WasmHash meta = eng_wasmHash eng \<and> Version meta = 1) \<and>
    modules (eng_runtime eng') (modName iid) = None \<and> eng_wasmHash eng' = eng_wasmHash eng \<and>
    eng_compiled eng' = eng_compiled eng"
    using durable_engine.execute_crashes[OF D assms(3) new TrueI TrueI assms(5-7) assms(9-13,16,18,19)] by blast
  then obtain meta where meta: "i_meta (ms_view \<sigma>' iid) = Some meta" "WasmHash meta = eng_wasmHash eng'" "Version meta = 1"
    by auto
  have mod: "instantiable (eng_compiled eng')" "modules (eng_runtime eng') (modName iid) = None"
    "boot W (init (eng_compiled eng')) = Some m0" using E assms(5,7) by simp_all
  have img: "durable_image (ms_view \<sigma>' iid) (contents mC)" "ms_inv \<sigma>'" using E by blast+
  note R = durable_engine.execute_resumes[OF D img(2) meta(1,2) mod assms(8) img(1) assms(14,15,13,17,20)]
  show ?thesis using R E meta(1,3) by auto
qed

theorem crash_then_resume_witness:
  "\<exists>res eng' \<sigma>' e' res2 eng2 \<sigma>2 e2.
     ExecuteWithArgs (memory_ops compact_codec) list_memory (list_runtime (one_page 0) demo_exports) demo_clock
       Background ''i'' ''run'' [] True [] demo_engine NewMemorySnapshotStore () = (res, eng', \<sigma>', e') \<and>
     ExecuteWithArgs (memory_ops compact_codec) list_memory (list_runtime (one_page 0) demo_exports) demo_clock
       Background ''i'' ''run'' [] False [] eng' \<sigma>' e' = (res2, eng2, \<sigma>2, e2) \<and>
     res = Ret (True, Some (Err ''simulated_host_crash (recovered by wazero)'')) \<and>
     (\<exists>m1 f1 meta. m1 = one_page 1 \<and> ms_meta \<sigma>' ''i'' = Some meta \<and> Version meta = 1 \<and>
       (res2, \<sigma>2, e2) = run_entry
         \<lparr> h_store = memory_ops compact_codec, h_mem = list_memory, h_rt = list_runtime (one_page 0) demo_exports,
           h_clock = demo_clock, h_wasmHash = eng_wasmHash demo_engine \<rparr>
         Background ''run'' [] m1 (new_session Background ''i'' [] False meta (Some f1) m1) \<sigma>' e')"
proof -
  let ?W = "list_runtime (one_page 0) demo_exports"
  obtain res eng' \<sigma>' e' where x1: "ExecuteWithArgs (memory_ops compact_codec) list_memory ?W demo_clock
       Background ''i'' ''run'' [] True [] demo_engine NewMemorySnapshotStore () = (res, eng', \<sigma>', e')"
    by (metis prod_cases4)
  obtain res2 eng2 \<sigma>2 e2 where x2: "ExecuteWithArgs (memory_ops compact_codec) list_memory ?W demo_clock
       Background ''i'' ''run'' [] False [] eng' \<sigma>' e' = (res2, eng2, \<sigma>2, e2)"
    by (metis prod_cases4)
  have "ms_view NewMemorySnapshotStore ''i'' = empty_inst"
    by (simp add: ms_view_def NewMemorySnapshotStore_def empty_inst_def ms_oplog_of_def)
  note C = crash_then_resume[OF lm.linear_memory_axioms list_rt.wazero_runtime_axioms ms_inv_init this
      _ _ demo_boot one_page_valid demo_run refl one_page_valid one_page_ne _ _ one_page_growable _ _ _ x1 x2]
  have "rt_recovered ?W ''simulated_host_crash'' = Err ''simulated_host_crash (recovered by wazero)''"
    by (simp add: list_runtime_def)
  then show ?thesis using C x1 x2 by (auto simp: demo_engine_def Background_def)
qed

text \<open>
  C2. A checkpoint is a point to come back to: if a session of the in-memory store is new or in step
  with the store, a checkpoint goes through, increments the version, leaves every other instance
  alone, and a restore into any smaller instance of the module writes back exactly the memory the
  guest had at the checkpoint. The hypothesis \<open>no_collision\<close> says that no changed block kept its hash.
\<close>

theorem checkpoint_restore:
  assumes "linear_memory M contents valid" and "ms_inv \<sigma>"
    and "valid m" "contents m \<noteq> []" "length (contents m) < page_size * max_pages"
    and "fresh_session (ms_view \<sigma> (ses_instanceID s)) s \<or>
      in_step (ms_view \<sigma> (ses_instanceID s)) s img \<and> length img \<le> length (contents m) \<and> no_collision img (contents m)"
    and "valid m0" "length (contents m0) \<le> length (contents m)" "growable M contents valid (length (contents m))"
    and "checkpoint (memory_ops cd) M h m s \<sigma> = (r, s', \<sigma>')"
  shows "r = passed s \<and> Version (ses_meta s') = Version (ses_meta s) + 1 \<and>
    (\<forall>k. k \<noteq> ses_instanceID s \<longrightarrow> ms_view \<sigma>' k = ms_view \<sigma> k) \<and>
    (\<exists>m' f'. restore (memory_ops cd) M (ses_instanceID s) \<sigma>' m0 Map.empty = (Ret None, m', f') \<and>
       contents m' = contents m \<and> hashes_sound f' (contents m))"
  by (rule durable.checkpoint_then_restore[OF mem_durable[OF assms(1)] assms(2-5) TrueI TrueI assms(6-10)])

theorem checkpoint_restore_witness:
  "\<exists>r s' \<sigma>'. checkpoint (memory_ops compact_codec) list_memory ''h1'' (one_page 1)
      (demo_session (new_meta ''i'' ''h1'') Map.empty) NewMemorySnapshotStore = (r, s', \<sigma>') \<and> r = Ret () \<and>
    (\<exists>m' f'. restore (memory_ops compact_codec) list_memory ''i'' \<sigma>' (one_page 0) Map.empty = (Ret None, m', f') \<and>
       m' = one_page 1)"
proof -
  let ?s = "demo_session (new_meta ''i'' ''h1'') Map.empty"
  obtain r s' \<sigma>' where x: "checkpoint (memory_ops compact_codec) list_memory ''h1'' (one_page 1) ?s
      NewMemorySnapshotStore = (r, s', \<sigma>')" by (metis prod_cases3)
  have "fresh_session (ms_view NewMemorySnapshotStore (ses_instanceID ?s)) ?s"
    by (simp add: fresh_session_def) (simp add: ms_view_def NewMemorySnapshotStore_def)
  then show ?thesis
    using checkpoint_restore[OF lm.linear_memory_axioms ms_inv_init one_page_valid one_page_ne _ _
        one_page_valid[of 0] _ one_page_growable x, where img = "[]"] x
    by (auto simp: passed_def)
qed

text \<open>
  C3. No single written byte is lost, whatever the hash function does to it: FNV-1a always tells two
  blocks apart that differ in one byte. If a session in step with the store has written one byte
  since, the checkpoint saves it and a restore brings it back.
\<close>

theorem written_byte_survives:
  assumes "linear_memory M contents valid" and "ms_inv \<sigma>" and "valid m"
    and "in_step (ms_view \<sigma> (ses_instanceID s)) s img" "contents m = img[k := v]" "k < length img"
    and "length img < page_size * max_pages"
    and "valid m0" "length (contents m0) \<le> length img" "growable M contents valid (length img)"
    and "checkpoint (memory_ops cd) M h m s \<sigma> = (r, s', \<sigma>')"
  shows "\<exists>m' f'. restore (memory_ops cd) M (ses_instanceID s) \<sigma>' m0 Map.empty = (Ret None, m', f') \<and>
    contents m' = img[k := v]"
proof -
  have "contents m \<noteq> []" "length (contents m) < page_size * max_pages" "length (contents m0) \<le> length (contents m)"
    "growable M contents valid (length (contents m))" using assms(5-7,9,10) by auto
  moreover have "no_collision img (contents m)" using no_collision_update[OF assms(6)] assms(5) by simp
  ultimately show ?thesis
    using durable.checkpoint_then_restore[OF mem_durable[OF assms(1)] assms(2,3) _ _ TrueI TrueI _ assms(8) _ _ assms(11),
        of img] assms(4,5) by auto
qed

theorem written_byte_survives_witness:
  "\<exists>r s' \<sigma>' m' f'. checkpoint (memory_ops compact_codec) list_memory ''h1'' ((one_page 0)[5000 := 7])
      (demo_session ((new_meta ''i'' ''h1'')\<lparr>Version := 2\<rparr>) (hash_blocks (one_page 0) Map.empty))
      (demo_store 2 (one_page 0)) = (r, s', \<sigma>') \<and>
    restore (memory_ops compact_codec) list_memory ''i'' \<sigma>' (one_page 0) Map.empty = (Ret None, m', f') \<and>
    m' = (one_page 0)[5000 := 7]"
proof -
  let ?s = "demo_session ((new_meta ''i'' ''h1'')\<lparr>Version := 2\<rparr>) (hash_blocks (one_page 0) Map.empty)"
  obtain r s' \<sigma>' where x: "checkpoint (memory_ops compact_codec) list_memory ''h1'' ((one_page 0)[5000 := 7]) ?s
      (demo_store 2 (one_page 0)) = (r, s', \<sigma>')" by (metis prod_cases3)
  have "list_memory_valid ((one_page 0)[5000 := 7])" by (simp add: list_memory_valid_def)
  then show ?thesis
    using written_byte_survives[OF lm.linear_memory_axioms _ _ _ refl _ _ one_page_valid[of 0] _ one_page_growable x]
      x demo_in_step[of 2 0] by auto
qed

text \<open>
  C4. The hashes a session keeps go stale at a full snapshot. A session recorded the hashes of memory
  \<open>A\<close>; its next checkpoint, a full snapshot (every fifth version), is taken with memory \<open>B\<close>; the
  one after it with memory \<open>A\<close> again. Both go through, the second saves no block because the hashes
  still are those of \<open>A\<close>, and a restore writes back \<open>B\<close>.
\<close>

theorem stale_hashes_lose_update:
  assumes "linear_memory M contents valid" and "ms_inv \<sigma>" and "valid mA" "valid mB"
    and "contents mA \<noteq> []" "contents mB \<noteq> []"
    and "length (contents mA) < page_size * max_pages" "length (contents mB) < page_size * max_pages"
    and "current_session (ms_view \<sigma> (ses_instanceID s)) s"
    and "isFullSnapshot (Version (ses_meta s) + 1)" "\<not> isFullSnapshot (Version (ses_meta s) + 2)"
    and "ses_pageHashes s = Some f"
      "\<forall>i < num_blocks (contents mA). f i = Some (fnv64a (block_at i (contents mA)))"
    and "valid m0" "length (contents m0) \<le> length (contents mB)" "growable M contents valid (length (contents mB))"
    and "checkpoint (memory_ops cd) M h mB s \<sigma> = (r1, s1, \<sigma>1)"
    and "checkpoint (memory_ops cd) M h mA s1 \<sigma>1 = (r2, s2, \<sigma>2)"
  shows "r2 = passed s1 \<and> (\<exists>m' f'. restore (memory_ops cd) M (ses_instanceID s) \<sigma>2 m0 Map.empty = (Ret None, m', f') \<and>
    contents m' = contents mB)"
proof -
  note D = mem_durable[OF assms(1), of cd]
  have S: "r2 = passed s1 \<and> ms_inv \<sigma>2 \<and> durable_image (ms_view \<sigma>2 (ses_instanceID s)) (contents mB)"
    by (rule durable.stale_hashes[OF D assms(2-8) TrueI TrueI assms(9-13,17,18)])
  then have "ms_inv \<sigma>2" "durable_image (ms_view \<sigma>2 (ses_instanceID s)) (contents mB)" by blast+
  then show ?thesis using S durable.restore_durable[OF D _ assms(14) _ assms(15,16,8)] by blast
qed

theorem stale_hashes_lose_update_witness:
  "\<exists>r1 s1 \<sigma>1 r2 s2 \<sigma>2 m' f'.
     checkpoint (memory_ops compact_codec) list_memory ''h1'' (one_page 1)
       (demo_session ((new_meta ''i'' ''h1'')\<lparr>Version := 4\<rparr>) (hash_blocks (one_page 0) Map.empty))
       (demo_store 4 (one_page 0)) = (r1, s1, \<sigma>1) \<and>
     checkpoint (memory_ops compact_codec) list_memory ''h1'' (one_page 0) s1 \<sigma>1 = (r2, s2, \<sigma>2) \<and>
     restore (memory_ops compact_codec) list_memory ''i'' \<sigma>2 (one_page 0) Map.empty = (Ret None, m', f') \<and>
     m' \<noteq> one_page 0"
proof -
  let ?s = "demo_session ((new_meta ''i'' ''h1'')\<lparr>Version := 4\<rparr>) (hash_blocks (one_page 0) Map.empty)"
  obtain r1 s1 \<sigma>1 where x1: "checkpoint (memory_ops compact_codec) list_memory ''h1'' (one_page 1) ?s
      (demo_store 4 (one_page 0)) = (r1, s1, \<sigma>1)" by (metis prod_cases3)
  obtain r2 s2 \<sigma>2 where x2: "checkpoint (memory_ops compact_codec) list_memory ''h1'' (one_page 0) s1 \<sigma>1 = (r2, s2, \<sigma>2)"
    by (metis prod_cases3)
  have cur: "current_session (ms_view (demo_store 4 (one_page 0)) (ses_instanceID ?s)) ?s"
    by (simp add: current_session_def del: ms_view_upd)
  have "ms_inv (demo_store 4 (one_page 0))" by simp
  note S = stale_hashes_lose_update[OF lm.linear_memory_axioms this one_page_valid one_page_valid one_page_ne one_page_ne
      _ _ cur _ _ _ _ one_page_valid[of 0] _ one_page_growable x1 x2, of "hash_blocks (one_page 0) Map.empty"]
  show ?thesis using S x1 x2 by (auto simp: isFullSnapshot_def hash_blocks_spec)
qed

section \<open>Concurrent executions\<close>

text \<open>
  C5. However the store accesses of any number of sessions interleave, the versions of an instance
  are committed one after another, each exactly once: the n-th commit in the history has the n-th
  version after the one the store started with, and the store holds the last one.
\<close>

theorem versions_committed_once:
  assumes "occ_reach (memory_ops cd) hs iid \<sigma> c" and "ms_inv \<sigma>"
  shows "map snd (occ_log c) =
      map (\<lambda>k. version_of (ms_meta \<sigma> iid) + 1 + int k) [0..<length (occ_log c)] \<and>
    distinct (map snd (occ_log c)) \<and>
    version_of (ms_meta (occ_store c) iid) = version_of (ms_meta \<sigma> iid) + int (length (occ_log c))"
proof -
  have I: "occ_inv ms_inv ms_view (\<lambda>_. True) iid (version_of (i_meta (ms_view \<sigma> iid))) c"
    by (rule snapshot_store.occ_reach_inv[OF mem_store.snapshot_store_axioms assms]) simp_all
  then have log: "map snd (occ_log c) =
      map (\<lambda>k. version_of (ms_meta \<sigma> iid) + 1 + int k) [0..<length (occ_log c)]"
    by (simp add: occ_inv_def)
  have "distinct (map snd (occ_log c))"
    unfolding log by (simp add: distinct_map inj_on_def)
  then show ?thesis using log I by (simp add: occ_inv_def)
qed

theorem versions_committed_once_witness:
  "\<exists>c. occ_reach (memory_ops compact_codec) {''h1''} ''i'' NewMemorySnapshotStore c \<and>
     occ_log c = [(0, 1)] \<and> occ_held c 1 = None \<and> version_of (ms_meta (occ_store c) ''i'') = 1"
proof -
  let ?st = "memory_ops compact_codec" and ?m = "new_meta ''i'' ''h1''" and ?\<sigma> = NewMemorySnapshotStore
  let ?m1 = "?m\<lparr>Version := 1\<rparr>"
  let ?\<sigma>1 = "?\<sigma>\<lparr>ms_meta := [''i'' \<mapsto> ?m1]\<rparr>"
  let ?c0 = "occ_init ?\<sigma>"
  let ?c1 = "?c0\<lparr>occ_held := (occ_held ?c0)(0 \<mapsto> loaded_meta ''i'' ''h1'' None)\<rparr>"
  let ?c2 = "?c1\<lparr>occ_held := (occ_held ?c1)(1 \<mapsto> loaded_meta ''i'' ''h1'' None)\<rparr>"
  let ?c3 = "?c2\<lparr>occ_held := (occ_held ?c2)(0 \<mapsto> ?m1), occ_store := ?\<sigma>1, occ_log := occ_log ?c2 @ [(0, Version ?m1)]\<rparr>"
  let ?c4 = "?c3\<lparr>occ_held := (occ_held ?c3)(1 := None), occ_store := ?\<sigma>1\<rparr>"
  have s01: "occ_step ?st {''h1''} ''i'' ?c0 ?c1" and s12: "occ_step ?st {''h1''} ''i'' ?c1 ?c2"
    by (rule occ_step.Load; simp add: store_simps ms_LoadMetadata_def occ_init_def NewMemorySnapshotStore_def)+
  have s23: "occ_step ?st {''h1''} ''i'' ?c2 ?c3"
    by (rule occ_step.Commit[where h = "''h1''" and m = ?m])
       (simp_all add: store_simps ms_SaveMetadata_eq version_cas_def occ_init_def NewMemorySnapshotStore_def
          loaded_meta_def new_meta_def)
  have s34: "occ_step ?st {''h1''} ''i'' ?c3 ?c4"
    by (rule occ_step.Conflict[where h = "''h1''" and m = ?m])
       (simp_all add: store_simps ms_SaveMetadata_eq version_cas_def occ_init_def loaded_meta_def)
  have r: "occ_reach ?st {''h1''} ''i'' ?\<sigma> ?c4"
    by (rule occ_reach.step[OF occ_reach.step[OF occ_reach.step[OF occ_reach.step[OF occ_reach.start s01] s12] s23] s34])
  have "version_of (ms_meta (occ_store ?c4) ''i'') = 1"
    using versions_committed_once[OF r ms_inv_init]
    by (simp add: occ_init_def version_of_def NewMemorySnapshotStore_def)
  then show ?thesis using r by (intro exI[of _ ?c4]) (simp add: occ_init_def)
qed

text \<open>
  C6. Fencing: two sessions start from the same metadata. After the checkpoint of the first went
  through, the checkpoint of the second panics, leaves the store as the first left it, and its
  execution returns \<open>ErrConcurrentExecution\<close>.
\<close>

theorem second_session_is_fenced:
  assumes "linear_memory M contents valid" and "wazero_runtime W modules instantiable init" and "ms_inv \<sigma>"
    and "valid m" "contents m \<noteq> []" "length (contents m) < page_size * max_pages"
    and "fresh_session (ms_view \<sigma> (ses_instanceID s)) s \<or>
      in_step (ms_view \<sigma> (ses_instanceID s)) s img \<and> length img \<le> length (contents m) \<and> no_collision img (contents m)"
    and "ses_instanceID t = ses_instanceID s" "ses_meta t = ses_meta s" "ctx_Err ctx e = None"
    and "checkpoint (memory_ops cd) M h m s \<sigma> = (r, s', \<sigma>')"
    and "checkpoint (memory_ops cd) M h2 m2 t \<sigma>' = (r2, t', \<sigma>2)"
  shows "r2 = Panic ''concurrent_execution_detected'' \<and> \<sigma>2 = \<sigma>' \<and>
    classify ctx False (Inl (rt_recovered W ''concurrent_execution_detected'')) e = (False, Some ErrConcurrentExecution)"
  using durable.second_fenced[OF mem_durable[OF assms(1)] assms(3-6) TrueI TrueI assms(7,11,9) TrueI assms(12)] assms(10)
    wazero_runtime.recovered_text[OF assms(2)] wazero_runtime.recovered_exit[OF assms(2)]
  by (simp add: classify_def)

theorem second_session_is_fenced_witness:
  "\<exists>r s' \<sigma>' r2 t' \<sigma>2.
     checkpoint (memory_ops compact_codec) list_memory ''h1'' (one_page 1)
       (demo_session (new_meta ''i'' ''h1'') Map.empty) NewMemorySnapshotStore = (r, s', \<sigma>') \<and>
     checkpoint (memory_ops compact_codec) list_memory ''h1'' (one_page 2)
       (demo_session (new_meta ''i'' ''h1'') Map.empty) \<sigma>' = (r2, t', \<sigma>2) \<and>
     r2 = Panic ''concurrent_execution_detected'' \<and> \<sigma>2 = \<sigma>'"
proof -
  let ?s = "demo_session (new_meta ''i'' ''h1'') Map.empty"
  obtain r s' \<sigma>' where x: "checkpoint (memory_ops compact_codec) list_memory ''h1'' (one_page 1) ?s
      NewMemorySnapshotStore = (r, s', \<sigma>')" by (metis prod_cases3)
  obtain r2 t' \<sigma>2 where y: "checkpoint (memory_ops compact_codec) list_memory ''h1'' (one_page 2) ?s \<sigma>' = (r2, t', \<sigma>2)"
    by (metis prod_cases3)
  have "fresh_session (ms_view NewMemorySnapshotStore (ses_instanceID ?s)) ?s"
    by (simp add: fresh_session_def) (simp add: ms_view_def NewMemorySnapshotStore_def)
  then have "r2 = Panic ''concurrent_execution_detected'' \<and> \<sigma>2 = \<sigma>'"
    using second_session_is_fenced[OF lm.linear_memory_axioms list_rt.wazero_runtime_axioms[of "[]" demo_exports]
        ms_inv_init one_page_valid one_page_ne _ _ refl refl _ x y, of "[]" Background "()"]
    by (simp add: Background_def)
  then show ?thesis using x y by blast
qed

section \<open>The errors of the truncation\<close>

text \<open>
  C7. A full snapshot does not look at the error of \<open>TruncateDeltas\<close>. If the truncation fails, or the
  host dies before it, the checkpoint has gone through all the same, and the next restore lays the
  old deltas over the new snapshot: every block that had a delta comes back with its old content.
\<close>

theorem failed_truncation_restores_old_blocks:
  assumes "linear_memory M contents valid" and "ms_inv \<sigma>"
    and "valid m" "contents m \<noteq> []" "length (contents m) < page_size * max_pages"
    and "in_step (ms_view \<sigma> (ses_instanceID s)) s img" "length img \<le> length (contents m)"
    and "isFullSnapshot (Version (ses_meta s) + 1)"
    and "valid m0" "length (contents m0) \<le> length (contents m)" "growable M contents valid (length (contents m))"
    and "checkpoint (failing_truncate err (memory_ops cd)) M h m s \<sigma> = (r, s', \<sigma>')"
  shows "r = passed s \<and>
    (\<exists>m' f'. restore (memory_ops cd) M (ses_instanceID s) \<sigma>' m0 Map.empty = (Ret None, m', f') \<and>
       (\<forall>i. i_deltas (ms_view \<sigma> (ses_instanceID s)) i \<noteq> None \<longrightarrow> block_at i (contents m') = block_at i img))"
proof -
  let ?iid = "ses_instanceID s" and ?D = "i_deltas (ms_view \<sigma> (ses_instanceID s))"
  have cur: "current_session (ms_view \<sigma> ?iid) s" using assms(6) by (simp add: in_step_def)
  note C = checkpoint_failing_truncate[OF assms(1,3-5) cur assms(8,12)]
  have D': "i_deltas (ms_view \<sigma>' ?iid) = ?D" using C by (simp add: ms_view_def)
  have inv': "ms_inv \<sigma>'" using C assms(2) by blast
  have D: "i < num_blocks img \<and> b = block_at i img" if "?D i = Some b" for i b
    using assms(6) that by (auto simp: in_step_def durable_image_def is_image_def)
  obtain ds where ds: "map_of ds = ?D" "distinct (map fst ds)"
    using mem_store.LoadDeltas[OF assms(2)] by blast
  have fit: "\<forall>(i, d)\<in>set ds. i < num_blocks (contents m) \<and> length d = 4096"
  proof clarify
    fix i d assume "(i, d) \<in> set ds"
    then have "?D i = Some d" using ds by (metis map_of_is_SomeI)
    then show "i < num_blocks (contents m) \<and> length d = 4096"
      using D num_blocks_mono[OF assms(7)] length_block_at[of i img] by fastforce
  qed
  obtain img' where img': "is_image (contents m) ?D img'" "length img' = length (contents m)"
    using overlay_image[OF ds(2) linear_memory.pages[OF assms(1,3)] fit] ds(1) by auto
  then have "durable_image (ms_view \<sigma>' ?iid) img'" using C D' assms(4) by (simp add: durable_image_def)
  then obtain m' f' where R: "restore (memory_ops cd) M ?iid \<sigma>' m0 Map.empty = (Ret None, m', f')" "contents m' = img'"
    using durable.restore_durable[OF mem_durable[OF assms(1), of cd] inv' assms(9), of ?iid img'] img'(2) assms(5,10,11) by auto
  have "block_at i img' = block_at i img" if "?D i \<noteq> None" for i
    using img'(1) D that by (auto simp: is_image_def)
  then show ?thesis using C R by auto
qed

theorem failed_truncation_restores_old_blocks_witness:
  "\<exists>r s' \<sigma>' m' f'. checkpoint (failing_truncate (Err ''disk full'') (memory_ops compact_codec)) list_memory ''h1'' (one_page 1)
      (demo_session ((new_meta ''i'' ''h1'')\<lparr>Version := 4\<rparr>) (hash_blocks (one_page 0) Map.empty))
      (demo_store_delta 4 0) = (r, s', \<sigma>') \<and> r = Ret () \<and>
    restore (memory_ops compact_codec) list_memory ''i'' \<sigma>' (one_page 0) Map.empty = (Ret None, m', f') \<and>
    m' \<noteq> one_page 1"
proof -
  let ?s = "demo_session ((new_meta ''i'' ''h1'')\<lparr>Version := 4\<rparr>) (hash_blocks (one_page 0) Map.empty)"
  obtain r s' \<sigma>' where x: "checkpoint (failing_truncate (Err ''disk full'') (memory_ops compact_codec)) list_memory ''h1''
      (one_page 1) ?s (demo_store_delta 4 0) = (r, s', \<sigma>')" by (metis prod_cases3)
  have "ms_inv (demo_store_delta 4 0)" "isFullSnapshot (Version (ses_meta ?s) + 1)"
    by (simp_all add: isFullSnapshot_def)
  moreover have "in_step (ms_view (demo_store_delta 4 0) (ses_instanceID ?s)) ?s (one_page 0)"
    using demo_delta_in_step[of 4 0] by simp
  ultimately have "r = Ret () \<and> (\<exists>m' f'. restore (memory_ops compact_codec) list_memory ''i'' \<sigma>' (one_page 0) Map.empty =
      (Ret None, m', f') \<and> block_at 3 m' = block_at 3 (one_page 0))"
    using failed_truncation_restores_old_blocks[OF lm.linear_memory_axioms _ one_page_valid one_page_ne _ _ _ _
        one_page_valid[of 0] _ one_page_growable x, of "one_page 0"] by (fastforce simp: passed_def)
  then show ?thesis using x block_one_page_ne[of 0 1] by (metis zero_neq_one)
qed

section \<open>Replay of host calls\<close>

text \<open>
  C8. Time is replayed: once \<open>host_get_time\<close> has answered a call, the same call of a later session of
  the instance (the same call index) gets the same answer, without reading the clock or changing the
  store. The clock returns 64-bit integers.
\<close>

theorem host_get_time_replays:
  assumes "ms_inv \<sigma>" "\<And>x. -(2 ^ 63) \<le> fst (clock x) \<and> fst (clock x) < 2 ^ 63"
    and "host_get_time (memory_ops cd) clock s \<sigma> e = (t, s1, \<sigma>1, e1)"
    and "ses_instanceID s2 = ses_instanceID s" "ses_callIndex s2 = ses_callIndex s"
  shows "host_get_time (memory_ops cd) clock2 s2 \<sigma>1 e2 = (t, s2\<lparr>ses_callIndex := ses_callIndex s + 1\<rparr>, \<sigma>1, e2)"
  using snapshot_store.host_get_time_replay[OF mem_store.snapshot_store_axioms assms(1) TrueI assms(2-5)] by blast

theorem host_get_time_replays_witness:
  "\<exists>s1 \<sigma>1. host_get_time (memory_ops compact_codec) demo_clock (demo_session (new_meta ''i'' ''h1'') Map.empty)
      NewMemorySnapshotStore () = (42, s1, \<sigma>1, ()) \<and>
    fst (host_get_time (memory_ops compact_codec) (\<lambda>e. (99, e)) (demo_session (new_meta ''i'' ''h1'') Map.empty) \<sigma>1 ()) = 42"
proof -
  let ?s = "demo_session (new_meta ''i'' ''h1'') Map.empty"
  obtain t s1 \<sigma>1 e1 where x: "host_get_time (memory_ops compact_codec) demo_clock ?s NewMemorySnapshotStore () = (t, s1, \<sigma>1, e1)"
    by (metis prod_cases4)
  have "t = 42" using x
    by (auto simp: host_get_time_def store_simps ms_LoadOplog_def NewMemorySnapshotStore_def demo_clock_def Let_def)
  then show ?thesis
    using x host_get_time_replays[OF ms_inv_init _ x refl refl, of "\<lambda>e. (99, e)" "()"] by (simp add: demo_clock_def)
qed

text \<open>
  C9. API calls are replayed: once \<open>host_call_api\<close> has answered a call with anything but -1, the same
  call of a later session gets the same result and the same bytes in its memory from the oplog. The
  environment of the handlers does not change, so no handler is called, and neither does the store.
\<close>

theorem host_call_api_replays:
  assumes "ms_inv \<sigma>"
    and "host_call_api (memory_ops cd) M m ap al rp rl wp wl s \<sigma> e = (Ret n, s1, \<sigma>1, e1)" "n \<noteq> -1"
    and "ses_instanceID s2 = ses_instanceID s" "ses_callIndex s2 = ses_callIndex s"
  shows "\<exists>s3. host_call_api (memory_ops cd) M m ap al rp rl wp wl s2 \<sigma>1 e2 = (Ret n, s3, \<sigma>1, e2) \<and>
    ses_memory s3 = ses_memory s1"
  using snapshot_store.host_call_api_replay[OF mem_store.snapshot_store_axioms assms(1) TrueI assms(2-5)] by blast

theorem host_call_api_replays_witness:
  "\<exists>n s1 \<sigma>1 s3. host_call_api (memory_ops compact_codec) list_memory (one_page 0) 0 0 0 0 16 8
      (new_session (WithApiHandler Background (Some (\<lambda>nm req e. (Inr (Some [7]), e + 1)))) ''i'' [] False
         (new_meta ''i'' ''h1'') (Some Map.empty) (one_page 0)) NewMemorySnapshotStore (0::nat) = (Ret n, s1, \<sigma>1, 1) \<and>
    host_call_api (memory_ops compact_codec) list_memory (one_page 0) 0 0 0 0 16 8
      (new_session Background ''i'' [] False (new_meta ''i'' ''h1'') (Some Map.empty) (one_page 0)) \<sigma>1 (5::nat) = (Ret n, s3, \<sigma>1, 5)"
proof -
  let ?s = "new_session (WithApiHandler Background (Some (\<lambda>nm req e. (Inr (Some [7]), e + (1::nat))))) ''i'' [] False
         (new_meta ''i'' ''h1'') (Some Map.empty) (one_page 0)"
  let ?s2 = "new_session Background ''i'' [] False (new_meta ''i'' ''h1'') (Some Map.empty) (one_page 0) :: (bytes, nat) session"
  have rd: "mem_Read list_memory (one_page 0) 0 (mem_Size list_memory (one_page 0)) = Some (one_page 0)"
    by (rule lm.Read_all) simp_all
  obtain s1 \<sigma>1 where x: "host_call_api (memory_ops compact_codec) list_memory (one_page 0) 0 0 0 0 16 8 ?s
      NewMemorySnapshotStore 0 = (Ret 1, s1, \<sigma>1, 1)"
    by (simp add: host_call_api_def rd out_of_bounds_def slice32_def go_slice_def call_logged_def store_simps
        ms_LoadOplog_def ms_SaveOplog_def NewMemorySnapshotStore_def find_entry_def perform_def deliver_def new_session_def
        WithApiHandler_def getApiHandler_def Let_def)
  have "ses_instanceID ?s2 = ses_instanceID ?s" "ses_callIndex ?s2 = ses_callIndex ?s"
    by (simp_all add: new_session_def)
  then show ?thesis using host_call_api_replays[OF ms_inv_init x, of ?s2 5] x by auto
qed

section \<open>Streams\<close>

text \<open>
  C10. Downloading: a guest that reads with any list of buffers inside its memory gets the handler's
  data in order and without gaps, cut off only where its buffers end, and the handler is called once
  for the whole stream.
\<close>

theorem download_delivers:
  assumes "linear_memory M contents valid"
    and "valid (ses_memory s)" "length (contents (ses_memory s)) < page_size * max_pages"
    and "reqs \<noteq> []" "\<forall>(p, l)\<in>set reqs. \<not> out_of_bounds p l (contents (ses_memory s))"
    and "\<not> ses_downloadEOF s" "ses_downloadReader s = None"
    and "ses_DownloadHandler s = Some h" "h e = (Inr payload, e1)"
    and "downloads M reqs s e = (chunks, s', e')"
  shows "e' = e1 \<and> list_all (\<lambda>c. c \<noteq> None) chunks \<and>
    concat (map the chunks) = take (sum_list (map (\<lambda>r. unat (snd r)) reqs)) payload"
proof -
  let ?s = "s\<lparr>ses_downloadReader := Some payload\<rparr>"
  obtain p l rest where reqs: "reqs = (p, l) # rest" using assms(4) by (cases reqs) auto
  have "handleDownload M p l s e = handleDownload M p l ?s e1"
    using assms(5) reqs by (intro linear_memory.download_first[OF assms(1-3) _ assms(6-9)]) simp
  then have "downloads M reqs s e = downloads M reqs ?s e1" by (simp add: reqs)
  then show ?thesis
    using linear_memory.downloads_streaming[OF assms(1), of ?s reqs payload e1 chunks s' e'] assms(2,3,5,6,10)
    by (simp add: streaming_def)
qed

theorem download_delivers_witness:
  "\<exists>chunks s'. downloads list_memory [(0, 2), (100, 3)]
      (new_session (WithDownloadHandler Background (Some (\<lambda>e. (Inr [1, 2, 3, 4], e + 1)))) ''i'' [] False
         (new_meta ''i'' ''h1'') None (one_page 0)) (0::nat) = (chunks, s', 1) \<and>
    concat (map the chunks) = [1, 2, 3, 4]"
proof -
  let ?s = "new_session (WithDownloadHandler Background (Some (\<lambda>e. (Inr [1, 2, 3, 4], e + (1::nat))))) ''i'' [] False
         (new_meta ''i'' ''h1'') None (one_page 0)"
  obtain chunks s' e' where x: "downloads list_memory [(0, 2), (100, 3)] ?s 0 = (chunks, s', e')" by (metis prod_cases3)
  have "e' = 0 + 1 \<and> list_all (\<lambda>c. c \<noteq> None) chunks \<and>
      concat (map the chunks) = take (sum_list (map (\<lambda>r. unat (snd r)) [(0::i32, 2::i32), (100, 3)])) [1, 2, 3, 4]"
    by (rule download_delivers[OF lm.linear_memory_axioms _ _ _ _ _ _ _ _ x, where h = "\<lambda>e. (Inr [1, 2, 3, 4], e + 1)"])
       (simp_all add: new_session_def WithDownloadHandler_def getDownloadHandler_def out_of_bounds_def Background_def)
  then show ?thesis using x by simp
qed

text \<open>
  C11. Uploading: a guest that writes any list of non-empty buffers below 2 GiB and then flushes with
  an empty one makes the handler receive the concatenation of the buffers, once, and sees 0 or -1 by
  the handler's error; afterwards the stream is ready for the next transfer.
\<close>

theorem upload_collects:
  assumes "linear_memory M contents valid"
    and "valid (ses_memory s)" "length (contents (ses_memory s)) < page_size * max_pages"
    and "reqs \<noteq> []" "\<forall>(p, l)\<in>set reqs. \<not> out_of_bounds p l (contents (ses_memory s)) \<and> l \<noteq> 0 \<and>
      unat p + unat l < 2147483648"
    and "ses_uploadBuffer s = []" "ses_UploadHandler s = Some h"
    and "h (concat (map (\<lambda>r. go_slice (unat (fst r)) (unat (snd r)) (contents (ses_memory s))) reqs)) e = (err, e')"
  shows "\<exists>s1. uploads M reqs s e = (map (\<lambda>r. Ret (snd r)) reqs, s1, e) \<and>
    handleUpload M 0 0 s1 e = (Ret (case err of None \<Rightarrow> 0 | Some _ \<Rightarrow> -1),
      s\<lparr>ses_uploadBuffer := [], ses_downloadReader := None, ses_downloadEOF := False\<rparr>, e')"
proof -
  let ?buf = "concat (map (\<lambda>r. go_slice (unat (fst r)) (unat (snd r)) (contents (ses_memory s))) reqs)"
  have U: "uploads M reqs s e = (map (\<lambda>r. Ret (snd r)) reqs, s\<lparr>ses_uploadBuffer := ?buf\<rparr>, e)"
    using linear_memory.uploads_concat[OF assms(1-3,5), of e] assms(6) by simp
  obtain p l rest where reqs: "reqs = (p, l) # rest" using assms(4) by (cases reqs) auto
  then have "unat p + unat l \<le> length (contents (ses_memory s))" "unat l \<noteq> 0"
    using assms(5) by (auto simp: in_bounds_iff unat_eq_zero)
  then have "go_slice (unat p) (unat l) (contents (ses_memory s)) \<noteq> []"
    by (metis add_leD2 add_le_imp_le_diff add.commute le_zero_eq length_0_conv length_go_slice min_def)
  then have ne: "?buf \<noteq> []" by (simp add: reqs)
  have F: "handleUpload M 0 0 (s\<lparr>ses_uploadBuffer := ?buf\<rparr>) e = (Ret (case err of None \<Rightarrow> 0 | Some _ \<Rightarrow> -1),
      (s\<lparr>ses_uploadBuffer := ?buf\<rparr>)\<lparr>ses_uploadBuffer := [], ses_downloadReader := None, ses_downloadEOF := False\<rparr>, e')"
    using assms(2,3,7,8) ne
    by (intro linear_memory.handleUpload_flush[OF assms(1), where h = h]) (simp_all add: in_bounds_iff)
  show ?thesis using U F by simp
qed

theorem upload_collects_witness:
  "\<exists>s1. uploads list_memory [(0, 2), (8, 1)]
      (new_session (WithUploadHandler Background (Some (\<lambda>b e. (None, e @ b)))) ''i'' [] False
         (new_meta ''i'' ''h1'') None (one_page 9)) ([] :: bytes) = ([Ret 2, Ret 1], s1, []) \<and>
    fst (handleUpload list_memory 0 0 s1 []) = Ret 0 \<and> snd (snd (handleUpload list_memory 0 0 s1 [])) = [9, 9, 9]"
proof -
  let ?s = "new_session (WithUploadHandler Background (Some (\<lambda>b e. (None, e @ b)))) ''i'' [] False
         (new_meta ''i'' ''h1'') None (one_page 9) :: (bytes, bytes) session"
  have sl: "go_slice 0 2 (one_page 9) = [9, 9]" "go_slice 8 (Suc 0) (one_page 9) = [9]"
    by (simp_all add: go_slice_def one_page_def numeral_2_eq_2)
  show ?thesis
    using upload_collects[OF lm.linear_memory_axioms, of ?s "[(0, 2), (8, 1)]" "\<lambda>b e. (None, e @ b)" "[]" None "[9, 9, 9]"]
    by (auto simp: new_session_def WithUploadHandler_def getUploadHandler_def out_of_bounds_def Background_def sl)
qed

section \<open>The file store\<close>

text \<open>
  C12. Checkpoint and restore through the file system: the full snapshot and the deltas go through
  gzip, JSON and base64 into files and come back unchanged. If no file operation fails, a checkpoint
  of a new or in-step session goes through and a restore writes back the memory of the checkpoint.
  Identifiers and hashes are valid UTF-8, which JSON keeps.
\<close>

theorem file_checkpoint_restore:
  assumes "codec_laws cd" "linear_memory M contents valid" and "fs_inv cd dir f"
    and "valid m" "contents m \<noteq> []" "length (contents m) < page_size * max_pages"
    and "meta_utf8 (ses_meta s)" "valid_utf8 h"
    and "fresh_session (fs_view cd dir f (ses_instanceID s)) s \<or>
      in_step (fs_view cd dir f (ses_instanceID s)) s img \<and> length img \<le> length (contents m) \<and> no_collision img (contents m)"
    and "valid m0" "length (contents m0) \<le> length (contents m)" "growable M contents valid (length (contents m))"
    and "checkpoint (fs_ops cd dir) M h m s f = (r, s', f')"
  shows "r = passed s \<and> Version (ses_meta s') = Version (ses_meta s) + 1 \<and>
    (\<forall>k. k \<noteq> ses_instanceID s \<longrightarrow> fs_view cd dir f' k = fs_view cd dir f k) \<and>
    (\<exists>m' g. restore (fs_ops cd dir) M (ses_instanceID s) f' m0 Map.empty = (Ret None, m', g) \<and>
       contents m' = contents m \<and> hashes_sound g (contents m))"
  by (rule durable.checkpoint_then_restore[OF fs_durable[OF assms(1,2)] assms(3-13)])

theorem file_checkpoint_restore_witness:
  "\<exists>r s' f' m' g. checkpoint (fs_ops compact_codec ''data'') list_memory ''h1'' (one_page 1)
      (demo_session (new_meta ''i'' ''h1'') Map.empty) empty_fs = (r, s', f') \<and> r = Ret () \<and>
    restore (fs_ops compact_codec ''data'') list_memory ''i'' f' (one_page 0) Map.empty = (Ret None, m', g) \<and>
    m' = one_page 1"
proof -
  let ?s = "demo_session (new_meta ''i'' ''h1'') Map.empty"
  obtain r s' f' where x: "checkpoint (fs_ops compact_codec ''data'') list_memory ''h1'' (one_page 1) ?s empty_fs
      = (r, s', f')" by (metis prod_cases3)
  have u: "valid_utf8 ''h1''" "valid_utf8 ''i''" by (simp_all add: valid_utf8_def)
  then have "meta_utf8 (ses_meta ?s)" by (simp add: meta_utf8_def new_meta_def)
  moreover have "fresh_session (fs_view compact_codec ''data'' empty_fs (ses_instanceID ?s)) ?s"
    by (simp add: fresh_session_def empty_inst_def)
  ultimately show ?thesis
    using file_checkpoint_restore[OF compact.codec_laws_axioms lm.linear_memory_axioms empty_fs_inv one_page_valid one_page_ne _ _ u(1) _
        one_page_valid[of 0] _ one_page_growable x, where img = "[]"] x
    by (auto simp: passed_def)
qed

text \<open>
  C13. The file store and the in-memory store are interchangeable: from the same content, the same
  sequence of commands (saves, deletions, deltas, truncations, oplog entries and metadata swaps)
  leaves them with the same content, so snapshots, oplogs and metadata load alike.
\<close>

theorem file_store_agrees_with_memory_store:
  assumes "codec_laws cd" and "fs_inv cd dir f" "ms_inv \<sigma>" "fs_view cd dir f = ms_view \<sigma>"
    and "list_all (ok_cmd valid_utf8 meta_utf8) cs"
  shows "fs_view cd dir (fold (run_cmd (fs_ops cd dir)) cs f) = ms_view (fold (run_cmd (memory_ops cd)) cs \<sigma>) \<and>
    fs_LoadOplog cd dir iid (fold (run_cmd (fs_ops cd dir)) cs f) =
      ms_LoadOplog iid (fold (run_cmd (memory_ops cd)) cs \<sigma>) \<and>
    fs_LoadMetadata cd dir iid (fold (run_cmd (fs_ops cd dir)) cs f) =
      ms_LoadMetadata iid (fold (run_cmd (memory_ops cd)) cs \<sigma>) \<and>
    (\<forall>b. fs_Load cd dir iid (fold (run_cmd (fs_ops cd dir)) cs f) = Inr b \<longleftrightarrow>
      ms_Load iid (fold (run_cmd (memory_ops cd)) cs \<sigma>) = Inr b)"
proof -
  have ok: "list_all (ok_cmd (\<lambda>_. True) (\<lambda>_. True)) cs"
    using assms(5) by (rule list.pred_mono_strong) (rule ok_cmd_any)
  note S = file_store.intro[OF assms(1)]
  let ?f = "fold (run_cmd (fs_ops cd dir)) cs f" and ?\<sigma> = "fold (run_cmd (memory_ops cd)) cs \<sigma>"
  have F: "fs_inv cd dir ?f" "fs_view cd dir ?f = fold spec_cmd cs (fs_view cd dir f)"
    using versioned_store.run_cmds_refine[OF fs_versioned[OF assms(1)] assms(2,5)] by blast+
  have G: "ms_inv ?\<sigma>" "ms_view ?\<sigma> = fold spec_cmd cs (ms_view \<sigma>)"
    using mem_versioned.run_cmds_refine[OF assms(3) ok] by blast+
  have eq: "fs_view cd dir ?f = ms_view ?\<sigma>" using F G assms(4) by simp
  have "fs_LoadOplog cd dir iid ?f = ms_LoadOplog iid ?\<sigma>"
    using file_store.current_oplog[OF S F(1), of iid] mem_store.LoadOplog[OF G(1), of cd iid] eq by (simp add: store_simps)
  moreover have "fs_LoadMetadata cd dir iid ?f = ms_LoadMetadata iid ?\<sigma>"
    using file_store.LoadMetadata_law[OF S F(1), of iid] mem_store.LoadMetadata[OF G(1), of cd iid] eq by (simp add: store_simps)
  moreover have "fs_Load cd dir iid ?f = Inr b \<longleftrightarrow> ms_Load iid ?\<sigma> = Inr b" for b
    using file_store.bins_law(1,2)[OF S F(1), of iid] eq
    by (cases "ms_snapshots ?\<sigma> iid") (auto simp: ms_Load_def)
  ultimately show ?thesis using eq by blast
qed

theorem file_store_agrees_with_memory_store_witness:
  "fs_LoadOplog compact_codec ''data'' ''i'' (fold (run_cmd (fs_ops compact_codec ''data''))
      [CSaveOplog ''i'' 1 ''api'' [1] [2], CSaveOplog ''i'' 2 ''api'' [3] [4], CTruncateOplog ''i'' 1] empty_fs) =
    Inr [mk_entry 2 ''api'' [3] [4]]"
proof -
  let ?cs = "[CSaveOplog ''i'' 1 ''api'' [1] [2], CSaveOplog ''i'' 2 ''api'' [3] [4], CTruncateOplog ''i'' 1]"
  have "fs_view compact_codec ''data'' empty_fs = ms_view NewMemorySnapshotStore"
    by (rule ext) (simp add: ms_view_def NewMemorySnapshotStore_def empty_inst_def ms_oplog_of_def)
  moreover have "list_all (ok_cmd valid_utf8 meta_utf8) ?cs" by (simp add: valid_utf8_def)
  ultimately have "fs_LoadOplog compact_codec ''data'' ''i'' (fold (run_cmd (fs_ops compact_codec ''data'')) ?cs empty_fs) =
      ms_LoadOplog ''i'' (fold (run_cmd (memory_ops compact_codec)) ?cs NewMemorySnapshotStore)"
    using file_store_agrees_with_memory_store[OF compact.codec_laws_axioms empty_fs_inv ms_inv_init] by blast
  also have "\<dots> = Inr [mk_entry 2 ''api'' [3] [4]]"
    by (simp add: store_simps ms_SaveOplog_def ms_TruncateOplog_def ms_LoadOplog_def ms_oplog_of_def NewMemorySnapshotStore_def)
  finally show ?thesis .
qed

text \<open>
  A read error of the deltas file is taken for an empty file: \<open>SaveDeltas\<close> of the file store then
  succeeds and leaves only the new deltas, the ones saved before are gone.
\<close>

theorem read_error_loses_deltas:
  assumes "codec_laws cd" "fs_inv cd dir f" "distinct (map fst ds)" "\<forall>kv\<in>set ds. fst kv < 2 ^ 63"
    and "fs_SaveDeltas cd dir iid ds (f\<lparr>fs_read_fault := (\<lambda>_. None)(deltas_path dir iid := Some err)\<rparr>) = (r, f')"
  shows "r = None \<and> i_deltas (fs_view cd dir f' iid) = map_of ds"
  by (rule file_store.SaveDeltas_read_fault[OF file_store.intro[OF assms(1)] assms(2-5)])

theorem read_error_loses_deltas_witness:
  "\<exists>f1 r f2. fs_SaveDeltas compact_codec ''data'' ''i'' [(3, [1])] empty_fs = (None, f1) \<and>
    fs_SaveDeltas compact_codec ''data'' ''i'' [(5, [2])]
      (f1\<lparr>fs_read_fault := (\<lambda>_. None)(deltas_path ''data'' ''i'' := Some (Err ''input/output error''))\<rparr>) = (r, f2) \<and>
    r = None \<and> i_deltas (fs_view compact_codec ''data'' f1 ''i'') = [3 \<mapsto> [1]] \<and>
    i_deltas (fs_view compact_codec ''data'' f2 ''i'') = [5 \<mapsto> [2]]"
proof -
  obtain r1 f1 where x: "fs_SaveDeltas compact_codec ''data'' ''i'' [(3, [1])] empty_fs = (r1, f1)" by fastforce
  have 1: "r1 = None \<and> fs_inv compact_codec ''data'' f1 \<and> i_deltas (fs_view compact_codec ''data'' f1 ''i'') = [3 \<mapsto> [1]]"
    using compact_fs.SaveDeltas_law[OF empty_fs_inv _ _ x] by (simp add: empty_inst_def)
  obtain r f2 where y: "fs_SaveDeltas compact_codec ''data'' ''i'' [(5, [2])]
      (f1\<lparr>fs_read_fault := (\<lambda>_. None)(deltas_path ''data'' ''i'' := Some (Err ''input/output error''))\<rparr>) = (r, f2)" by fastforce
  have "r = None \<and> i_deltas (fs_view compact_codec ''data'' f2 ''i'') = map_of [(5, [2])]"
    using 1 by (intro read_error_loses_deltas[OF compact.codec_laws_axioms _ _ _ y]) auto
  then show ?thesis using 1 x y by auto
qed

section \<open>Module versions\<close>

text \<open>
  C15. An instance that was started with another module is run with that module: the body of the execution
  gets a new instance of the module in the registry, where the engine that started it saved it, and the
  metadata of the instance. The compiled module is kept in the cache, so a later execution by the same engine
  runs it again even if the store, whatever happened to it since, has no registry any more.
\<close>

theorem old_instance_gets_its_module:
  assumes "wazero_runtime W modules instantiable init"
    and "ms_meta \<sigma> iid = Some meta" "WasmHash meta \<noteq> eng_wasmHash eng"
    and "eng_compiledCache eng (WasmHash meta) = None" "ms_wasm \<sigma> (WasmHash meta) = Some wasm"
    and "rt_CompileModule W wasm = Inr old" "instantiable old" "modules (eng_runtime eng) (modName iid) = None"
    and "ExecuteWithArgs (memory_ops cd) M W clock ctx iid ep addr crash params eng \<sigma> e = (res, eng1, \<sigma>1, e1)"
    and "ms_meta \<tau> iid = Some meta2" "WasmHash meta2 = WasmHash meta"
    and "ExecuteWithArgs (memory_ops cd) M W clock2 ctx2 iid ep2 addr2 crash2 params2 eng1 \<tau> e2 = (res2, eng2, \<tau>2, e3)"
  shows "(\<exists>m s. execute_body
      \<lparr> h_store = memory_ops cd, h_mem = M, h_rt = W, h_clock = clock, h_wasmHash = eng_wasmHash eng \<rparr> ctx ep params
      (init old) (new_session ctx iid addr crash meta None (init old)) \<sigma> e = (res, m, s, \<sigma>1, e1)) \<and>
    eng_compiledCache eng1 = (eng_compiledCache eng)(WasmHash meta \<mapsto> old) \<and>
    (\<exists>m s. execute_body
      \<lparr> h_store = memory_ops cd, h_mem = M, h_rt = W, h_clock = clock2, h_wasmHash = eng_wasmHash eng \<rparr> ctx2 ep2 params2
      (init old) (new_session ctx2 iid addr2 crash2 meta2 None (init old)) \<tau> e2 = (res2, m, s, \<tau>2, e3))"
proof -
  let ?eng = "eng\<lparr>eng_compiledCache := (eng_compiledCache eng)(WasmHash meta \<mapsto> old)\<rparr>"
  have "select_module (memory_ops cd) W iid eng \<sigma> = (Inr (meta, old), ?eng)"
    using assms(2-6) by (simp add: select_module_def store_simps ms_LoadMetadata_def ms_LoadWasm_def)
  note 1 = wazero_runtime.ExecuteWithArgs_body[OF assms(1) this assms(7) _ assms(9), simplified, OF assms(8)]
  then have "select_module (memory_ops cd) W iid eng1 \<tau> = (Inr (meta2, old), eng1)"
    using assms(3,10,11) by (simp add: select_module_def store_simps ms_LoadMetadata_def)
  note 2 = wazero_runtime.ExecuteWithArgs_body[OF assms(1) this assms(7) _ assms(12)]
  show ?thesis using 1 2 by simp
qed

theorem old_instance_gets_its_module_witness:
  "\<exists>res eng1 \<sigma>1 res2 eng2 \<tau>2.
    ExecuteWithArgs (memory_ops compact_codec) list_memory (list_runtime (one_page 0) demo_exports) demo_clock Background ''i''
      ''run'' [] False [] (demo_engine\<lparr>eng_wasmHash := ''h2''\<rparr>) ((demo_store 3 (one_page 0))\<lparr>ms_wasm := [''h1'' \<mapsto> [1, 2]]\<rparr>) () =
      (res, eng1, \<sigma>1, ()) \<and>
    ExecuteWithArgs (memory_ops compact_codec) list_memory (list_runtime (one_page 0) demo_exports) demo_clock Background ''i''
      ''run'' [] False [] eng1 (demo_store 4 (one_page 0)) () = (res2, eng2, \<tau>2, ()) \<and>
    eng_compiledCache eng1 = [''h1'' \<mapsto> [1, 2]]"
proof -
  let ?W = "list_runtime (one_page 0) demo_exports" and ?eng = "demo_engine\<lparr>eng_wasmHash := ''h2''\<rparr>"
    and ?\<sigma> = "(demo_store 3 (one_page 0))\<lparr>ms_wasm := [''h1'' \<mapsto> [1, 2]]\<rparr>"
  obtain res eng1 \<sigma>1 e1 where x: "ExecuteWithArgs (memory_ops compact_codec) list_memory ?W demo_clock Background ''i''
      ''run'' [] False [] ?eng ?\<sigma> () = (res, eng1, \<sigma>1, e1)" by (metis prod_cases4)
  obtain res2 eng2 \<tau>2 e2 where y: "ExecuteWithArgs (memory_ops compact_codec) list_memory ?W demo_clock Background ''i''
      ''run'' [] False [] eng1 (demo_store 4 (one_page 0)) () = (res2, eng2, \<tau>2, e2)" by (metis prod_cases4)
  have "eng_compiledCache eng1 = (eng_compiledCache ?eng)(WasmHash ((new_meta ''i'' ''h1'')\<lparr>Version := 3\<rparr>) \<mapsto> [1, 2])"
    by (rule old_instance_gets_its_module[OF list_rt.wazero_runtime_axioms _ _ _ _ _ _ _ x _ _ y,
        where wasm = "[1, 2]" and ?meta2.0 = "(new_meta ''i'' ''h1'')\<lparr>Version := 4\<rparr>", THEN conjunct2, THEN conjunct1])
      (simp_all add: demo_store_def demo_engine_def list_runtime_def new_meta_def)
  then show ?thesis using x y by (simp add: demo_engine_def new_meta_def)
qed

text \<open>
  C16. The first checkpoint of such an instance forgets its module: it stores the hash of the engine's
  own module, so the next execution restores the old module's memory into the new module.
\<close>

theorem checkpoint_forgets_module_version:
  assumes "linear_memory M contents valid" and "ms_inv \<sigma>"
    and "valid m" "contents m \<noteq> []" "length (contents m) < page_size * max_pages"
    and "in_step (ms_view \<sigma> (ses_instanceID s)) s img" "length img \<le> length (contents m)" "no_collision img (contents m)"
    and "WasmHash (ses_meta s) \<noteq> eng_wasmHash eng"
    and "checkpoint (memory_ops cd) M (eng_wasmHash eng) m s \<sigma> = (r, s', \<sigma>')"
  shows "\<exists>meta. select_module (memory_ops cd) W (ses_instanceID s) eng \<sigma>' = (Inr (meta, eng_compiled eng), eng) \<and>
    WasmHash meta = eng_wasmHash eng"
proof -
  have C: "current_session (ms_view \<sigma>' (ses_instanceID s)) s'" "WasmHash (ses_meta s') = eng_wasmHash eng"
    using durable.checkpoint_durable[OF mem_durable[OF assms(1)] assms(2-5) TrueI TrueI _ assms(10), of img] assms(6-8)
    by blast+
  then have "ms_meta \<sigma>' (ses_instanceID s) = Some (ses_meta s')" by (simp add: current_session_def)
  then show ?thesis using C(2) by (simp add: select_module_def store_simps ms_LoadMetadata_def)
qed

theorem checkpoint_forgets_module_version_witness:
  "\<exists>r s' \<sigma>' meta. checkpoint (memory_ops compact_codec) list_memory ''h2'' (one_page 0)
      (demo_session ((new_meta ''i'' ''h1'')\<lparr>Version := 3\<rparr>) (hash_blocks (one_page 0) Map.empty))
      (demo_store 3 (one_page 0)) = (r, s', \<sigma>') \<and>
    select_module (memory_ops compact_codec) (list_runtime [] demo_exports) ''i''
      (demo_engine\<lparr>eng_wasmHash := ''h2''\<rparr>) \<sigma>' = (Inr (meta, eng_compiled demo_engine), demo_engine\<lparr>eng_wasmHash := ''h2''\<rparr>)"
proof -
  let ?s = "demo_session ((new_meta ''i'' ''h1'')\<lparr>Version := 3\<rparr>) (hash_blocks (one_page 0) Map.empty)"
  let ?eng = "demo_engine\<lparr>eng_wasmHash := ''h2''\<rparr>"
  obtain r s' \<sigma>' where x: "checkpoint (memory_ops compact_codec) list_memory (eng_wasmHash ?eng) (one_page 0) ?s
      (demo_store 3 (one_page 0)) = (r, s', \<sigma>')" by (metis prod_cases3)
  have "in_step (ms_view (demo_store 3 (one_page 0)) (ses_instanceID ?s)) ?s (one_page 0)"
    using demo_in_step[of 3 0] by simp
  moreover have "ms_inv (demo_store 3 (one_page 0))" "no_collision (one_page 0) (one_page 0)" by (simp_all add: no_collision_def)
  ultimately have "\<exists>meta. select_module (memory_ops compact_codec) (list_runtime [] demo_exports) (ses_instanceID ?s) ?eng \<sigma>' =
      (Inr (meta, eng_compiled ?eng), ?eng) \<and> WasmHash meta = eng_wasmHash ?eng"
    by (intro checkpoint_forgets_module_version[OF lm.linear_memory_axioms _ one_page_valid one_page_ne _ _ _ _ _ x]) auto
  then show ?thesis using x by auto
qed

section \<open>Panics and error results\<close>

text \<open>
  C17. A slice below the bounds check can still panic: the check adds in 64 bits, the slice bound is
  added in 32. A guest with more than 2 GiB that uploads a buffer across the 2 GiB mark passes the
  check and panics.
\<close>

theorem upload_across_2GiB_panics:
  assumes "linear_memory M contents valid"
    and "valid (ses_memory s)" "length (contents (ses_memory s)) < page_size * max_pages"
    and "\<not> out_of_bounds ptr len (contents (ses_memory s))" "len \<noteq> 0" "2147483648 \<le> unat ptr + unat len"
  shows "handleUpload M ptr len s e = (Panic slice_panic, s, e)"
  using linear_memory.handleUpload_overflow[OF assms(1-5)] assms(6) by simp

theorem upload_across_2GiB_panics_witness:
  "handleUpload list_memory 2147483647 1 (new_session Background ''i'' [] False (new_meta ''i'' ''h1'') None
      (replicate (65536 * 40000) 0)) () = (Panic slice_panic, new_session Background ''i'' [] False
      (new_meta ''i'' ''h1'') None (replicate (65536 * 40000) 0), ())"
proof -
  let ?m = "replicate (65536 * 40000) (0::byte)"
  have len: "length ?m = 65536 * 40000" by (rule length_replicate)
  have v: "list_memory_valid ?m" unfolding list_memory_valid_def len by simp
  have b: "\<not> out_of_bounds 2147483647 1 ?m" unfolding out_of_bounds_def len by simp
  have u: "unat (2147483647 :: i32) + unat (1 :: i32) = 2147483648" by simp
  let ?s = "new_session Background ''i'' [] False (new_meta ''i'' ''h1'') None ?m :: (bytes, unit) session"
  have mem: "ses_memory ?s = ?m" by (simp only: new_session_def session.select_convs)
  have "list_memory_valid (ses_memory ?s)" "\<not> out_of_bounds 2147483647 1 (ses_memory ?s)"
    "length (ses_memory ?s) < page_size * max_pages" unfolding mem len using v b by simp_all
  then show ?thesis by (intro upload_across_2GiB_panics[OF lm.linear_memory_axioms]) (simp_all only: u, simp_all)
qed

text \<open>
  C18. A checkpoint inside \<open>_start\<close> of a resumed instance makes every execution fail: \<open>ExecuteWithArgs\<close> makes the
  map of page hashes only after \<open>_start\<close>, so an incremental checkpoint there writes to the nil map. The
  execution ends with the panic as an error of \<open>_start\<close>; the new version has been committed by then, and the
  memory of the instance is not saved.
\<close>

theorem checkpoint_in_start_panics:
  assumes "linear_memory M contents valid" and "wazero_runtime W modules instantiable init"
    and "ms_meta \<sigma> iid = Some meta" "InstanceID meta = iid" "Version meta > 0" "\<not> isFullSnapshot (Version meta + 1)"
    and "WasmHash meta = eng_wasmHash eng" "instantiable (eng_compiled eng)" "modules (eng_runtime eng) (modName iid) = None"
    and "rt_ExportedFunction W (init (eng_compiled eng)) ''_start'' = Some startFunc"
    and "startFunc [] (init (eng_compiled eng)) = Checkpoint m k"
    and "valid m" "contents m \<noteq> []" "length (contents m) < page_size * max_pages"
    and "entrypoint \<noteq> ''_start''"
    and "ExecuteWithArgs (memory_ops cd) M W clock ctx iid entrypoint addr crash params eng \<sigma> e = (res, eng', \<sigma>', e')"
  shows "res = Ret (False, Some (Wrap ''_start failed'' (rt_recovered W nil_map_panic))) \<and>
    \<sigma>' = \<sigma>\<lparr>ms_meta := (ms_meta \<sigma>)(iid \<mapsto> meta\<lparr>Version := Version meta + 1\<rparr>)\<rparr>"
proof -
  let ?H = "\<lparr> h_store = memory_ops cd, h_mem = M, h_rt = W, h_clock = clock, h_wasmHash = eng_wasmHash eng \<rparr>"
    and ?s = "new_session ctx iid addr crash meta None (init (eng_compiled eng))"
  have "select_module (memory_ops cd) W iid eng \<sigma> = (Inr (meta, eng_compiled eng), eng)"
    using assms(3,7) by (simp add: select_module_def store_simps ms_LoadMetadata_def)
  note E = wazero_runtime.ExecuteWithArgs_body[OF assms(2) this assms(8,9,16)]
  obtain s' where C: "checkpoint (memory_ops cd) M (eng_wasmHash eng) m ?s \<sigma> = (Panic nil_map_panic, s',
      \<sigma>\<lparr>ms_meta := (ms_meta \<sigma>)(iid \<mapsto> meta\<lparr>WasmHash := eng_wasmHash eng, Version := Version meta + 1\<rparr>)\<rparr>)"
    using checkpoint_nil_hashes[OF assms(1,12-14), of \<sigma> ?s cd "eng_wasmHash eng"] assms(3-6) by (auto simp: new_session_def)
  have h: "meta\<lparr>WasmHash := eng_wasmHash eng, Version := v\<rparr> = meta\<lparr>Version := v\<rparr>" for v
    using assms(7) by (cases meta) simp
  have "Call ?H (startFunc [] (init (eng_compiled eng))) ?s \<sigma> e =
      (Inl (rt_recovered W nil_map_panic), m, s', \<sigma>\<lparr>ms_meta := (ms_meta \<sigma>)(iid \<mapsto> meta\<lparr>Version := Version meta + 1\<rparr>)\<rparr>, e)"
    using C assms(11) by (simp add: h)
  from execute_body_start_fails[where startFunc = startFunc, OF assms(15) _ this] show ?thesis
    using E assms(10) wazero_runtime.recovered_exit[OF assms(2)] by simp
qed

theorem checkpoint_in_start_panics_witness:
  "\<exists>eng' \<sigma>'. ExecuteWithArgs (memory_ops compact_codec) list_memory (list_runtime (one_page 0) start_exports) demo_clock Background
      ''i'' ''run'' [] False [] demo_engine (demo_store 1 (one_page 0)) () =
      (Ret (False, Some (Wrap ''_start failed'' (Err (nil_map_panic @ '' (recovered by wazero)'')))), eng', \<sigma>', ()) \<and>
    version_of (ms_meta \<sigma>' ''i'') = 2"
proof -
  obtain res eng' \<sigma>' e' where x: "ExecuteWithArgs (memory_ops compact_codec) list_memory (list_runtime (one_page 0) start_exports)
      demo_clock Background ''i'' ''run'' [] False [] demo_engine (demo_store 1 (one_page 0)) () = (res, eng', \<sigma>', e')"
    by (metis prod_cases4)
  have "res = Ret (False, Some (Wrap ''_start failed'' (rt_recovered (list_runtime (one_page 0) start_exports) nil_map_panic))) \<and>
    \<sigma>' = (demo_store 1 (one_page 0))\<lparr>ms_meta := (ms_meta (demo_store 1 (one_page 0)))(''i'' \<mapsto>
      ((new_meta ''i'' ''h1'')\<lparr>Version := 1\<rparr>)\<lparr>Version := Version ((new_meta ''i'' ''h1'')\<lparr>Version := 1\<rparr>) + 1\<rparr>)\<rparr>"
    by (rule checkpoint_in_start_panics[OF lm.linear_memory_axioms list_rt.wazero_runtime_axioms _ _ _ _ _ _ _ _ _ _ _ _ _ x,
        of "(new_meta ''i'' ''h1'')\<lparr>Version := 1\<rparr>" "\<lambda>_ m. Checkpoint m (\<lambda>m. Return m [])" "one_page 0" "\<lambda>m. Return m []"])
      (simp_all add: demo_store_def demo_engine_def list_runtime_def start_exports_def new_meta_def isFullSnapshot_def)
  then show ?thesis using x by (simp add: list_runtime_def version_of_def)
qed

text \<open>
  C19. \<open>RunBPMN\<close> reports two ends of a call differently from \<open>ExecuteWithArgs\<close>. On a new instance of a module
  whose \<open>execute\<close> exits with code 0, which a comment calls success, \<open>RunBPMN\<close> returns the error that there are no
  results, where \<open>ExecuteWithArgs\<close> returns none. And when another host commits first, so that the checkpoint in
  \<open>execute\<close> loses the race for the version, \<open>RunBPMN\<close> returns the wrapped text of the panic, where
  \<open>ExecuteWithArgs\<close> returns \<open>ErrConcurrentExecution\<close>.
\<close>

theorem bpmn_exit_and_conflict:
  assumes "wazero_runtime W modules instantiable init" "ctx_Err ctx e = None"
    and "select_module st W iid eng \<sigma> = (Inr (meta, c), eng1)" "instantiable c"
    and "modules (eng_runtime eng1) (modName iid) = None" "eng_activeSessions eng1 iid = None"
    and "boot W (init c) = Some m0" "restore st M iid \<sigma> m0 Map.empty = (Ret None, m1, f1)"
    and "rt_ExportedFunction W m1 ''get_exchange_buffer_pointer'' = Some gb" "gb [] m1 = Return m2 (p # ps)"
    and "length g + length i + length task \<le> 1024 * 1024" "write_inputs M (ucast p) g i m2 = (None, m3)"
    and "rt_ExportedFunction W m1 ''execute'' = Some f" "rt_ExportedFunction W m3 ''execute'' = Some f"
    and "\<And>m params. (if exits then \<exists>m'. f params m = ProcExit m' 0 else \<exists>m' k. f params m = Checkpoint m' k)"
    and "\<not> exits \<Longrightarrow> fst (st_SaveMetadata st (meta\<lparr>WasmHash := eng_wasmHash eng1\<rparr>) \<sigma>) = Inr False"
  shows "fst (RunBPMN st M W clock ctx iid ''execute'' g i task addr eng \<sigma> e) =
      Ret (False, None, Some (if exits then Err ''WASM call returned no results''
        else Wrap ''WASM call failed'' (rt_recovered W ''concurrent_execution_detected''))) \<and>
    fst (ExecuteWithArgs st M W clock ctx iid ''execute'' addr crash params eng \<sigma> e) =
      Ret (False, if exits then None else Some ErrConcurrentExecution)"
proof -
  let ?H = "\<lparr> h_store = st, h_mem = M, h_rt = W, h_clock = clock, h_wasmHash = eng_wasmHash eng1 \<rparr>"
  let ?err = "if exits then ExitError 0 (rt_exit_text W 0) else rt_recovered W ''concurrent_execution_detected''"
  have C: "\<exists>m' s' \<sigma>'. Call ?H (f ps m) s \<sigma> e = (Inl ?err, m', s', \<sigma>', e) \<and> ses_crashed s' = ses_crashed s"
    if "ses_meta s = meta" for ps m s
    using assms(15)[of ps m] assms(16) Call_conflict[of ?H s \<sigma>] that by (cases exits) fastforce+
  let ?ps = "[word_of_nat (length g), word_of_nat (length i)]" and ?s = "new_session ctx iid addr False meta (Some f1) m1"
  obtain m4 s4 \<sigma>4 where 1: "Call ?H (f ?ps m3) ?s \<sigma> e = (Inl ?err, m4, s4, \<sigma>4, e)" "\<not> ses_crashed s4"
    using C[of ?s ?ps m3] by (auto simp: new_session_def)
  have B: "fst (RunBPMN st M W clock ctx iid ''execute'' g i task addr eng \<sigma> e) =
      Ret (bpmn_result M ctx (ucast p) (ses_crashed s4) (Inl ?err) m4 e)"
    unfolding wazero_runtime.RunBPMN_body[OF assms(1,3-8)]
    using bpmn_body_execute[where H = ?H and f = f and gb = gb, OF _ assms(10,11) _ _ 1(1)] assms(9,12,14) by simp
  obtain m5 s5 \<sigma>5 where 2: "Call ?H (f params m1) (new_session ctx iid addr crash meta (Some f1) m1) \<sigma> e =
      (Inl ?err, m5, s5, \<sigma>5, e)" "\<not> ses_crashed s5"
    using C[of "new_session ctx iid addr crash meta (Some f1) m1" params m1] by (auto simp: new_session_def)
  have "fst (ExecuteWithArgs st M W clock ctx iid ''execute'' addr crash params eng \<sigma> e) = Ret (classify ctx (ses_crashed s5) (Inl ?err) e)"
    using wazero_runtime.ExecuteWithArgs_call[OF assms(1,3,4,5,7,8) _ assms(13) 2(1)] by fastforce
  then show ?thesis
    using B 1(2) 2(2) assms(2) wazero_runtime.recovered_exit[OF assms(1)] wazero_runtime.recovered_text[OF assms(1)]
    by (simp add: bpmn_result_def classify_def)
qed

theorem bpmn_exit_and_conflict_witness:
  "fst (RunBPMN (memory_ops compact_codec) list_memory (list_runtime (one_page 0) (bpmn_exports True)) demo_clock Background ''i''
      ''execute'' [1] [2] [] [] demo_engine NewMemorySnapshotStore ()) = Ret (False, None, Some (Err ''WASM call returned no results'')) \<and>
   fst (ExecuteWithArgs overtaken list_memory (list_runtime (one_page 0) (bpmn_exports False)) demo_clock Background ''i''
      ''execute'' [] False [] demo_engine NewMemorySnapshotStore ()) = Ret (False, Some ErrConcurrentExecution)"
proof -
  have r: "restore st list_memory ''i'' NewMemorySnapshotStore (one_page 0) Map.empty = (Ret None, one_page 0, Map.empty)"
    if "st_Load st = st_Load (memory_ops compact_codec)" "st_LoadDeltas st = st_LoadDeltas (memory_ops compact_codec)" for st :: "memory_store store_ops"
    using that by (simp add: restore_def restore_snapshot_def restore_deltas_def store_simps ms_Load_def ms_LoadDeltas_def NewMemorySnapshotStore_def)
  have w: "write_inputs list_memory (ucast (16 :: u64)) [1] [2] (one_page 0) = (None, overwrite (overwrite (one_page 0) 16 [1]) 17 [2])"
    by (simp add: write_inputs_def list_memory_def)
  have sel: "select_module st W ''i'' demo_engine NewMemorySnapshotStore = (Inr (new_meta ''i'' ''h1'', []), demo_engine)"
    if "st_LoadMetadata st = st_LoadMetadata (memory_ops compact_codec)" for st :: "memory_store store_ops" and W
    using that by (simp add: select_module_def store_simps ms_LoadMetadata_def NewMemorySnapshotStore_def demo_engine_def)
  have "fst (RunBPMN (memory_ops compact_codec) list_memory (list_runtime (one_page 0) (bpmn_exports True)) demo_clock Background ''i''
      ''execute'' [1] [2] [] [] demo_engine NewMemorySnapshotStore ()) = Ret (False, None, Some (if True then Err ''WASM call returned no results''
        else Wrap ''WASM call failed'' (rt_recovered (list_runtime (one_page 0) (bpmn_exports True)) ''concurrent_execution_detected'')))"
    by (rule bpmn_exit_and_conflict[where exits = True and f = "\<lambda>_ m. ProcExit m 0" and gb = "\<lambda>_ m. Return m [16]"
        and p = 16 and ps = "[]", THEN conjunct1, OF list_rt.wazero_runtime_axioms _ sel _ _ _ _ r _ _ _ w])
      (simp_all add: Background_def demo_engine_def boot_def list_runtime_def bpmn_exports_def w)
  moreover have "fst (ExecuteWithArgs overtaken list_memory (list_runtime (one_page 0) (bpmn_exports False)) demo_clock Background ''i''
      ''execute'' [] False [] demo_engine NewMemorySnapshotStore ()) = Ret (False, if False then None else Some ErrConcurrentExecution)"
    by (rule bpmn_exit_and_conflict[where exits = False and f = "\<lambda>_ m. Checkpoint m (\<lambda>m. Return m [0])" and gb = "\<lambda>_ m. Return m [16]"
        and p = 16 and ps = "[]" and task = "[]", THEN conjunct2, OF list_rt.wazero_runtime_axioms _ sel _ _ _ _ r _ _ _ w])
      (simp_all add: Background_def demo_engine_def boot_def list_runtime_def bpmn_exports_def overtaken_def)
  ultimately show ?thesis by simp
qed

section \<open>No leaks\<close>

text \<open>
  C20. \<open>ExecuteWithArgs\<close> leaves no module behind: whatever happens after the instantiation (a failed
  start, restore or entrypoint, a panic, a crash), the instance's name is free again, so the instance
  can be executed again.
\<close>

theorem execute_leaves_no_module:
  assumes "wazero_runtime W modules instantiable init" "modules (eng_runtime eng) (modName iid) = None"
    and "ExecuteWithArgs st M W clock ctx iid entrypoint addr crash params eng \<sigma> e = (res, eng', \<sigma>', e')"
  shows "modules (eng_runtime eng') (modName iid) = None"
proof -
  obtain sel eng1 where sel: "select_module st W iid eng \<sigma> = (sel, eng1)" by fastforce
  then have rt: "eng_runtime eng1 = eng_runtime eng"
    by (auto simp: select_module_def split: sum.splits option.splits if_splits)
  show ?thesis
  proof (cases sel)
    case (Inl err)
    then show ?thesis using assms(2,3) sel rt by (simp add: ExecuteWithArgs_def)
  next
    case (Inr mc)
    obtain meta c where mc: "mc = (meta, c)" by fastforce
    obtain x r1 where i: "rt_InstantiateModule W c (modName iid) (eng_runtime eng1) = (x, r1)" by fastforce
    show ?thesis
    proof (cases x)
      case Inl
      then have "modules r1 = modules (eng_runtime eng1)" using wazero_runtime.Instantiate_fail[OF assms(1)] i by blast
      then show ?thesis using assms(2,3) sel rt Inr mc i Inl by (auto simp: ExecuteWithArgs_def)
    next
      case (Inr m)
      then have "eng_runtime eng' = snd (rt_Close W (modName iid) r1)"
        using assms(3) sel \<open>sel = Inr mc\<close> mc i by (auto simp: ExecuteWithArgs_def Let_def split: prod.splits)
      then show ?thesis by (simp add: wazero_runtime.Close_snd[OF assms(1)])
    qed
  qed
qed

theorem execute_leaves_no_module_witness:
  "\<exists>res eng' \<sigma>' e'. ExecuteWithArgs (memory_ops compact_codec) list_memory (list_runtime (one_page 0) demo_exports) demo_clock
      Background ''i'' ''missing'' [] False [] demo_engine NewMemorySnapshotStore () = (res, eng', \<sigma>', e') \<and>
    eng_runtime eng' (modName ''i'') = None"
proof -
  obtain res eng' \<sigma>' e' where x: "ExecuteWithArgs (memory_ops compact_codec) list_memory (list_runtime (one_page 0) demo_exports)
      demo_clock Background ''i'' ''missing'' [] False [] demo_engine NewMemorySnapshotStore () = (res, eng', \<sigma>', e')"
    by (metis prod_cases4)
  have "eng_runtime demo_engine (modName ''i'') = None" by (simp add: demo_engine_def)
  from execute_leaves_no_module[OF list_rt.wazero_runtime_axioms this x] x show ?thesis by blast
qed

section \<open>The active index\<close>

text \<open>
  C21. An update of the active index for a running instance makes or replaces its entry; for a
  completed one it removes the entry. Either way at most one entry of the instance is left if there
  was at most one, and the entries of every other instance stay as they are, in their order.
\<close>

theorem index_update_is_local:
  assumes "entry_is iid info" "length (filter (entry_is iid) index) \<le> 1" "other \<noteq> iid"
  shows "length (filter (entry_is iid) (next_index iid info completed index)) = (if completed then 0 else 1) \<and>
    (\<not> completed \<longrightarrow> info \<in> set (next_index iid info completed index)) \<and>
    filter (entry_is other) (next_index iid info completed index) = filter (entry_is other) index"
  using assms next_index_filter_own[OF assms(1), of completed index]
    next_index_filter_other[of iid other info completed index]
  by (auto simp: next_index_eq)

theorem index_update_is_local_witness:
  "length (filter (entry_is ''a'') (next_index ''a'' (Some [(''instance_id'', JStr ''a'')]) False
      [Some [(''instance_id'', JStr ''b'')]])) = 1"
  using index_update_is_local[of "''a''" "Some [(''instance_id'', JStr ''a'')]" "[Some [(''instance_id'', JStr ''b'')]]" "''b''" False]
  by (simp add: entry_is_def)

text \<open>
  When the last active instance completes, the in-memory store is left with the JSON value null
  and hands it out as the index, where the file store writes and hands out an empty array.
\<close>

theorem empty_index_is_null_in_memory:
  assumes "json_parse cd (ms_activeIndex \<sigma>) = Some (JArr [JObj [(''instance_id'', JStr iid)]])" "ms_activeIndex \<sigma> \<noteq> []"
    and "json_parse cd info = Some (JObj kvs)" "json_text cd JNull \<noteq> []"
    and "no_faults f" "fs_files f (index_path dir) = Some (ms_activeIndex \<sigma>)"
  shows "ms_LoadActiveIndex (snd (ms_UpdateActiveIndex cd iid info True \<sigma>)) = Inr (json_text cd JNull) \<and>
    fs_LoadActiveIndex dir (snd (fs_UpdateActiveIndex cd dir iid info True f)) = Inr (json_text cd (JArr []))"
  using assms by (simp add: ms_LoadActiveIndex_def ms_UpdateActiveIndex_def ms_enc_index_def next_index_eq entry_is_def
      gomap_of_def fs_LoadActiveIndex_def fs_UpdateActiveIndex_def no_faults_ops unmarshal_def Let_def)

theorem empty_index_is_null_in_memory_witness:
  "ms_LoadActiveIndex (snd (ms_UpdateActiveIndex compact_codec ''a'' (json_text compact_codec (JObj [])) True
      (NewMemorySnapshotStore\<lparr>ms_activeIndex := json_text compact_codec (JArr [JObj [(''instance_id'', JStr ''a'')]])\<rparr>))) =
    Inr (bytes_of_string ''null'')"
proof -
  let ?idx = "json_text compact_codec (JArr [JObj [(''instance_id'', JStr ''a'')]])"
  let ?\<sigma> = "NewMemorySnapshotStore\<lparr>ms_activeIndex := ?idx\<rparr>"
  let ?f = "empty_fs\<lparr>fs_files := [index_path ''data'' \<mapsto> ?idx]\<rparr>"
  have p: "json_parse compact_codec (json_text compact_codec j) = Some j" if "json_utf8 j" for j
    using that by (rule compact.json)
  have 1: "json_parse compact_codec (ms_activeIndex ?\<sigma>) = Some (JArr [JObj [(''instance_id'', JStr ''a'')]])"
    using p[of "JArr [JObj [(''instance_id'', JStr ''a'')]]"] by (simp add: valid_utf8_def)
  have 2: "json_parse compact_codec (json_text compact_codec (JObj [])) = Some (JObj [])" by (rule p) simp
  have 3: "ms_activeIndex ?\<sigma> \<noteq> []" "json_text compact_codec JNull = bytes_of_string ''null''"
    by (simp_all add: compact_codec_def bytes_of_string_def)
  have 4: "no_faults ?f" "fs_files ?f (index_path ''data'') = Some (ms_activeIndex ?\<sigma>)"
    by (simp_all add: no_faults_def empty_fs_def)
  have 5: "json_text compact_codec JNull \<noteq> []" by (simp add: 3(2) bytes_of_string_def)
  show ?thesis using empty_index_is_null_in_memory[OF 1 3(1) 2 5 4] 3(2) by simp
qed

section \<open>The runner\<close>

text \<open>
  C23. The error of a runner is sticky: after the first error no chained call changes the runner, and
  \<open>Run\<close> returns that error without touching the store or the environment. The first part is on a \<open>Runner\<close>
  over any store, the second on a \<open>TestRunner\<close>, whose calls are those of its runner and \<open>WithCrash\<close>; \<open>WithMemoryStore\<close>
  is one of the chained calls in the second part, and called on the runner itself in the last.
\<close>

theorem runner_error_is_sticky:
  assumes "rn_err (fold apply_setter cs r) = Some x" "tr_Error (fold apply_test_setter ts tr) = Some y"
  shows "fold apply_setter (cs @ ds) r = fold apply_setter cs r \<and>
    rn_Run M W clock RF sha (fold apply_setter (cs @ ds) r) e = (Ret (False, Some x), fold apply_setter cs r, e) \<and>
    fold apply_test_setter (ts @ us) tr = fold apply_test_setter ts tr \<and>
    tr_Run M W clock RF sha (fold apply_test_setter (ts @ us) tr) e = (Ret (False, Some y), fold apply_test_setter ts tr, e) \<and>
    rn_WithMemoryStore cd (tr_runner (fold apply_test_setter ts tr)) = tr_runner (fold apply_test_setter ts tr)"
  using assms(2) by (simp add: setters_sticky[OF assms(1)] Run_sticky[OF assms(1)] test_setters_sticky[OF assms(2)]
      test_Run_sticky[OF assms(2)] rn_WithMemoryStore_def unless_err_def tr_Error_def rn_Error_def)

theorem runner_error_is_sticky_witness:
  "rn_Error (fold apply_setter ([SStore None] @ [SSessionID ''i'', SStore None]) (NewRunner :: (unit, memory_store) runner)) =
      Some (Err ''store cannot be nil'') \<and>
    tr_Error (fold apply_test_setter ([TSetter (SContext None)] @ [TMemoryStore compact_codec, TCrash True]) (NewTestRunner :: (unit, memory_store) test_runner)) =
      Some (Err ''context cannot be nil'')"
proof -
  have e: "rn_err (fold apply_setter [SStore None] (NewRunner :: (unit, memory_store) runner)) = Some (Err ''store cannot be nil'')"
    by (simp add: NewRunner_def rn_WithStore_def unless_err_def)
  have t: "tr_Error (fold apply_test_setter [TSetter (SContext None)] (NewTestRunner :: (unit, memory_store) test_runner)) =
      Some (Err ''context cannot be nil'')"
    by (simp add: NewTestRunner_def NewRunner_def test_setter_defs setter_defs)
  note S = runner_error_is_sticky[OF e t]
  show ?thesis
    unfolding S[THEN conjunct1] S[THEN conjunct2, THEN conjunct2, THEN conjunct1] using t by (simp only: rn_Error_def e simp_thms)
qed

text \<open>
  A runner whose run crashed cannot resume the instance: the crash is kept as its error, so a
  second \<open>Run\<close> returns it again, without a crash and without executing anything.
\<close>

theorem crashed_runner_cannot_resume:
  assumes "rn_Run M W clock RF sha r e = (Ret (True, Some x), r', e')"
  shows "rn_crashed r' \<and> rn_Run M W clock RF sha r' e2 = (Ret (False, Some x), r', e2)"
  using Run_crash_sticks[OF assms] by (simp add: Run_sticky)

theorem crashed_runner_cannot_resume_witness:
  "\<exists>r' e'. rn_Run list_memory (list_runtime (one_page 0) demo_exports) demo_clock (\<lambda>p. Inl (NotExist p)) (\<lambda>b. ''h1'')
      (demo_runner\<lparr>rn_shouldCrash := True\<rparr>) () =
      (Ret (True, Some (Err ''simulated_host_crash (recovered by wazero)'')), r', e') \<and>
    rn_Run list_memory (list_runtime (one_page 0) demo_exports) demo_clock (\<lambda>p. Inl (NotExist p)) (\<lambda>b. ''h1'') r' () =
      (Ret (False, Some (Err ''simulated_host_crash (recovered by wazero)'')), r', ())"
proof -
  obtain r' e' where x: "rn_Run list_memory (list_runtime (one_page 0) demo_exports) demo_clock (\<lambda>p. Inl (NotExist p))
      (\<lambda>b. ''h1'') (demo_runner\<lparr>rn_shouldCrash := True\<rparr>) () =
      (Ret (True, Some (Err ''simulated_host_crash (recovered by wazero)'')), r', e')"
    using demo_runner_crashes by blast
  from x crashed_runner_cannot_resume[OF x, of "()"] show ?thesis by blast
qed

section \<open>Isolation\<close>

text \<open>
  C25. Instances are isolated and the store stays well formed: whatever requests an engine over the
  memory store serves, with whatever guests, parameters, handlers and ends, the store keeps its
  invariant and its module registry, the sessions the engine keeps alive stay bound to their
  instances, and nothing of an instance that no request names changes: not its part of the store, not
  the session that the engine keeps for it, not its module in the runtime.
\<close>

theorem instances_are_isolated:
  assumes "exact_runtime W modules instantiable init" "ms_inv \<sigma>" "sessions_bound eng"
    and "fold (serve (memory_ops cd) M W clock) qs (eng, \<sigma>, e) = (eng', \<sigma>', e')"
  shows "ms_inv \<sigma>' \<and> sessions_bound eng' \<and> ms_wasm \<sigma>' = ms_wasm \<sigma> \<and>
    (\<forall>j. j \<notin> target ` set qs \<longrightarrow> ms_view \<sigma>' j = ms_view \<sigma> j \<and> eng_activeSessions eng' j = eng_activeSessions eng j \<and>
      modules (eng_runtime eng') (modName j) = modules (eng_runtime eng) (modName j))"
  using mem_confined.serve_all_confined[OF assms(2-4)] exact_runtime.serve_all_kept[OF assms(1,4)] by blast

theorem instances_are_isolated_witness:
  "\<exists>eng' \<sigma>' e'. fold (serve (memory_ops compact_codec) list_memory (list_runtime (one_page 0) demo_exports) demo_clock)
      [RExecute Background ''j'' ''run'' [] True [], RBpmn Background ''k'' ''execute'' [1] [2] [] [], RClose ''j'']
      (demo_engine\<lparr>eng_runtime := [''main-i'' \<mapsto> one_page 5]\<rparr>, demo_store 3 (one_page 7), ()) = (eng', \<sigma>', e') \<and>
    ms_inv \<sigma>' \<and> i_snapshot (ms_view \<sigma>' ''i'') = Some (one_page 7) \<and> eng_runtime eng' ''main-i'' = Some (one_page 5)"
proof -
  let ?eng = "demo_engine\<lparr>eng_runtime := [''main-i'' \<mapsto> one_page 5]\<rparr>"
  let ?run = "fold (serve (memory_ops compact_codec) list_memory (list_runtime (one_page 0) demo_exports) demo_clock)
      [RExecute Background ''j'' ''run'' [] True [], RBpmn Background ''k'' ''execute'' [1] [2] [] [], RClose ''j'']
      (?eng, demo_store 3 (one_page 7), ())"
  obtain eng' \<sigma>' e' where run: "?run = (eng', \<sigma>', e')" by (metis prod_cases3)
  have b: "sessions_bound ?eng" by (simp add: sessions_bound_def demo_engine_def)
  have i: "ms_inv (demo_store 3 (one_page 7))" by simp
  from instances_are_isolated[OF exact_rt.exact_runtime_axioms i b run]
  have *: "ms_inv \<sigma>' \<and> ms_view \<sigma>' ''i'' = ms_view (demo_store 3 (one_page 7)) ''i'' \<and>
      eng_runtime eng' (modName ''i'') = eng_runtime ?eng (modName ''i'')"
    by simp
  then have "eng_runtime eng' ''main-i'' = Some (one_page 5)" by (simp add: modName_def)
  then show ?thesis using run * demo_store_view(2)[of 3 "one_page 7"] by metis
qed

end
